(* ===== verification/Prelude.thy ===== *)
theory Prelude
  imports Main "HOL-Library.Word" "HOL-Library.List_Lexorder" "HOL-Library.Char_ord"
    "HOL-Library.Sublist"
begin

text \<open>
  Shared vocabulary of the EventFS development: the machine integers, Rust's \<open>Result\<close> as
  a sum type with its \<open>?\<close> operator, the lemma collections the component theories add to,
  and generic facts on lists, options and words.

  A Rust \<open>Result<T, E>\<close> is \<open>'e + 'a\<close>: \<open>Inl\<close> is \<open>Err\<close>, \<open>Inr\<close> is \<open>Ok\<close>.
\<close>

named_theorems rust_std \<open>unfolding rules for the modelled standard-library operations\<close>
named_theorems path_defs \<open>definitions of the path grammar\<close>
named_theorems plan_defs \<open>definitions of the operation planner\<close>

section \<open>Machine integers\<close>

type_synonym u8 = "8 word"
type_synonym u32 = "32 word"
type_synonym u64 = "64 word"

definition saturating_add_one :: "'a::len word \<Rightarrow> 'a word" where
  "saturating_add_one w = (if w = - 1 then w else w + 1)"

lemma unat_bound: "unat (w :: 'a::len word) < 2 ^ LENGTH('a)"
  by (rule unsigned_less)

lemma unat_minus_one: "unat (- 1 :: 'a::len word) = 2 ^ LENGTH('a) - 1"
  by (simp add: unsigned_minus_1_eq_mask mask_eq_exp_minus_1)

lemma unat_saturating_add_one:
  "unat (saturating_add_one (w :: 'a::len word)) = min (unat w + 1) (2 ^ LENGTH('a) - 1)"
proof (cases "w = - 1")
  case True
  then have "unat w = 2 ^ LENGTH('a) - 1" by (simp add: unat_minus_one)
  then show ?thesis using True by (simp add: saturating_add_one_def)
next
  case False
  have "unat w + 1 < 2 ^ LENGTH('a)"
  proof -
    have "unat w \<noteq> unat (- 1 :: 'a word)"
      using False word_unat_eq_iff by blast
    then have "unat w \<noteq> 2 ^ LENGTH('a) - 1" by (simp add: unat_minus_one)
    moreover have "unat w < 2 ^ LENGTH('a)" by (rule unsigned_less)
    ultimately show ?thesis by linarith
  qed
  moreover from this have "unat (w + 1) = unat w + 1"
    by (simp add: unat_word_ariths)
  ultimately show ?thesis
    using False by (simp add: saturating_add_one_def min_def)
qed

lemma le_saturating_add_one: "w \<le> saturating_add_one (w :: 'a::len word)"
proof -
  have "unat w < 2 ^ LENGTH('a)" by (rule unsigned_less)
  then have "unat w \<le> unat (saturating_add_one w)"
    unfolding unat_saturating_add_one by linarith
  then show ?thesis by (simp add: word_le_nat_alt)
qed

lemma less_saturating_add_one: "w \<noteq> - 1 \<Longrightarrow> w < saturating_add_one w"
  using le_saturating_add_one [of w]
  by (auto simp: saturating_add_one_def order_less_le)

section \<open>Results\<close>

text \<open>\<open>rbind m f\<close> is Rust's \<open>let x = m?; f x\<close>; \<open>ok_or\<close> is \<open>Option::ok_or\<close>; \<open>try_all\<close>
  is a \<open>for\<close> loop whose body ends in \<open>?\<close>.\<close>

definition rbind :: "'e + 'a \<Rightarrow> ('a \<Rightarrow> 'e + 'b) \<Rightarrow> 'e + 'b" where
  "rbind m f = (case m of Inl e \<Rightarrow> Inl e | Inr x \<Rightarrow> f x)"

definition ok_or :: "'e \<Rightarrow> 'a option \<Rightarrow> 'e + 'a" where
  "ok_or e m = (case m of None \<Rightarrow> Inl e | Some x \<Rightarrow> Inr x)"

definition map_err :: "('e \<Rightarrow> 'd) \<Rightarrow> 'e + 'a \<Rightarrow> 'd + 'a" where
  "map_err f m = (case m of Inl e \<Rightarrow> Inl (f e) | Inr x \<Rightarrow> Inr x)"

definition map_ok :: "('a \<Rightarrow> 'b) \<Rightarrow> 'e + 'a \<Rightarrow> 'e + 'b" where
  "map_ok f m = (case m of Inl e \<Rightarrow> Inl e | Inr x \<Rightarrow> Inr (f x))"

definition ok_of :: "'e + 'a \<Rightarrow> 'a option" where
  "ok_of m = (case m of Inl _ \<Rightarrow> None | Inr x \<Rightarrow> Some x)"

definition is_ok :: "'e + 'a \<Rightarrow> bool" where
  "is_ok m = (case m of Inl _ \<Rightarrow> False | Inr _ \<Rightarrow> True)"

definition is_err :: "'e + 'a \<Rightarrow> bool" where
  "is_err m \<longleftrightarrow> \<not> is_ok m"

fun try_all :: "('a \<Rightarrow> 'e + unit) \<Rightarrow> 'a list \<Rightarrow> 'e + unit" where
  "try_all f [] = Inr ()"
| "try_all f (x # xs) = rbind (f x) (\<lambda>_. try_all f xs)"

fun try_map :: "('a \<Rightarrow> 'e + 'b) \<Rightarrow> 'a list \<Rightarrow> 'e + 'b list" where
  "try_map f [] = Inr []"
| "try_map f (x # xs) = rbind (f x) (\<lambda>y. rbind (try_map f xs) (\<lambda>ys. Inr (y # ys)))"

lemma rbind_simps [simp]:
  "rbind (Inl e) f = Inl e"
  "rbind (Inr x) f = f x"
  by (simp_all add: rbind_def)

lemma rbind_Inr_iff [simp]: "rbind m f = Inr y \<longleftrightarrow> (\<exists>x. m = Inr x \<and> f x = Inr y)"
  by (cases m) auto

lemma rbind_Inr_iff' [simp]: "Inr y = rbind m f \<longleftrightarrow> (\<exists>x. m = Inr x \<and> f x = Inr y)"
  by (cases m) auto

lemma rbind_Inl_iff: "rbind m f = Inl e \<longleftrightarrow> m = Inl e \<or> (\<exists>x. m = Inr x \<and> f x = Inl e)"
  by (cases m) auto

lemma ok_or_simps [simp]:
  "ok_or e None = Inl e"
  "ok_or e (Some x) = Inr x"
  by (simp_all add: ok_or_def)

lemma ok_or_Inr_iff [simp]: "ok_or e m = Inr x \<longleftrightarrow> m = Some x"
  by (cases m) auto

lemma map_err_simps [simp]:
  "map_err f (Inl e) = Inl (f e)"
  "map_err f (Inr x) = Inr x"
  by (simp_all add: map_err_def)

lemma map_err_Inr_iff [simp]: "map_err f m = Inr x \<longleftrightarrow> m = Inr x"
  by (cases m) auto

lemma map_ok_simps [simp]:
  "map_ok f (Inl e) = Inl e"
  "map_ok f (Inr x) = Inr (f x)"
  by (simp_all add: map_ok_def)

lemma map_ok_Inr_iff [simp]: "map_ok f m = Inr y \<longleftrightarrow> (\<exists>x. m = Inr x \<and> y = f x)"
  by (cases m) auto

lemma ok_of_simps [simp]:
  "ok_of (Inl e) = None"
  "ok_of (Inr x) = Some x"
  by (simp_all add: ok_of_def)

lemma is_ok_simps [simp]:
  "is_ok (Inl e) = False"
  "is_ok (Inr x) = True"
  by (simp_all add: is_ok_def)

lemma is_err_simps [simp]:
  "is_err (Inl e)"
  "\<not> is_err (Inr x)"
  by (simp_all add: is_err_def)

lemma try_all_Inr_iff [simp]: "try_all f xs = Inr u \<longleftrightarrow> (\<forall>x \<in> set xs. f x = Inr ())"
  by (induction xs) auto

lemma try_map_Inr_iff:
  "try_map f xs = Inr ys \<longleftrightarrow> length ys = length xs \<and> (\<forall>i < length xs. f (xs ! i) = Inr (ys ! i))"
proof (induction xs arbitrary: ys)
  case Nil
  then show ?case by auto
next
  case (Cons x xs)
  show ?case
    by (cases ys) (auto simp: Cons.IH All_less_Suc2)
qed

lemma try_map_pure: "(\<And>x. x \<in> set xs \<Longrightarrow> f x = Inr (g x)) \<Longrightarrow> try_map f xs = Inr (map g xs)"
  by (induction xs) auto

section \<open>Lists\<close>

text \<open>\<open>update_first P f xs\<close> is \<open>if let Some(x) = xs.iter_mut().find(P) { f(x) }\<close>.\<close>

fun update_first :: "('a \<Rightarrow> bool) \<Rightarrow> ('a \<Rightarrow> 'a) \<Rightarrow> 'a list \<Rightarrow> 'a list" where
  "update_first P f [] = []"
| "update_first P f (x # xs) = (if P x then f x # xs else x # update_first P f xs)"

lemma map_update_first:
  "(\<And>x. g (f x) = g x) \<Longrightarrow> map g (update_first P f xs) = map g xs"
  by (induction xs) auto

lemma set_update_first_distinct:
  assumes "distinct (map g xs)" "\<And>x. P x \<longleftrightarrow> g x = k"
  shows "set (update_first P f xs) = {x \<in> set xs. g x \<noteq> k} \<union> f ` {x \<in> set xs. g x = k}"
  using assms(1)
proof (induction xs)
  case (Cons x xs)
  show ?case
  proof (cases "g x = k")
    case True
    with Cons.prems have "k \<notin> g ` set xs" by auto
    then have "{y \<in> set xs. g y = k} = {}" "{y \<in> set xs. g y \<noteq> k} = set xs" by auto
    with True show ?thesis by (auto simp: assms(2))
  next
    case False
    with Cons show ?thesis by (auto simp: assms(2))
  qed
qed simp

lemma dropWhile_no_match: "xs = [] \<or> \<not> P (hd xs) \<Longrightarrow> dropWhile P xs = xs"
  by (cases xs) auto

lemma filter_eq_self_iff: "filter P xs = xs \<longleftrightarrow> (\<forall>x \<in> set xs. P x)"
  by (induction xs) (auto, metis impossible_Cons length_filter_le)

lemma append_cons_notin_inj:
  assumes "a @ d # b = a' @ d # b'" "d \<notin> set a" "d \<notin> set a'"
  shows "a = a' \<and> b = b'"
  using assms
proof (induction a arbitrary: a')
  case Nil
  then show ?case by (cases a') auto
next
  case (Cons x a)
  then show ?case by (cases a') auto
qed

end
