(* ===== verification/Rust_Std.thy ===== *)
theory Rust_Std
  imports Prelude
begin

text \<open>
  The part of Rust's standard library the EventFS sources call: string slicing and
  splitting, the character classes, decimal printing and parsing of \<open>u64\<close>, UTF-8
  validation and decoding, \<open>str::lines\<close> and \<open>str::trim\<close>.

  A Rust \<open>str\<close> is modelled by the list of its UTF-8 bytes, one \<open>char\<close> per byte, so
  \<open>as_bytes\<close> only changes the type of the elements, and splitting or stripping at an ASCII
  pattern is the bytewise operation. Where the code looks at Unicode scalar values
  (\<open>is_control\<close>, \<open>is_whitespace\<close>) the model decodes the bytes first.
\<close>

type_synonym bytes = "u8 list"

section \<open>Prefixes, suffixes and substrings\<close>

definition starts_with :: "'a list \<Rightarrow> 'a list \<Rightarrow> bool" where
  "starts_with p s \<longleftrightarrow> take (length p) s = p"

definition strip_prefix :: "'a list \<Rightarrow> 'a list \<Rightarrow> 'a list option" where
  "strip_prefix p s = (if starts_with p s then Some (drop (length p) s) else None)"

definition ends_with :: "'a list \<Rightarrow> 'a list \<Rightarrow> bool" where
  "ends_with p s \<longleftrightarrow> starts_with (rev p) (rev s)"

definition strip_suffix :: "'a list \<Rightarrow> 'a list \<Rightarrow> 'a list option" where
  "strip_suffix p s = map_option rev (strip_prefix (rev p) (rev s))"

fun contains_str :: "'a list \<Rightarrow> 'a list \<Rightarrow> bool" where
  "contains_str p [] = (p = [])"
| "contains_str p (x # xs) = (starts_with p (x # xs) \<or> contains_str p xs)"

lemma starts_with_iff: "starts_with p s \<longleftrightarrow> (\<exists>r. s = p @ r)"
proof
  assume "starts_with p s"
  then have "s = p @ drop (length p) s"
    by (metis append_take_drop_id starts_with_def)
  then show "\<exists>r. s = p @ r" ..
qed (auto simp: starts_with_def)

lemma starts_with_append [simp]: "starts_with p (p @ r)"
  by (simp add: starts_with_def)

lemma starts_with_Nil [simp]: "starts_with [] s"
  by (simp add: starts_with_def)

lemma starts_with_Cons [simp]: "starts_with (x # p) (y # s) \<longleftrightarrow> x = y \<and> starts_with p s"
  by (auto simp: starts_with_def)

lemma starts_with_Cons_Nil [simp]: "\<not> starts_with (x # p) []"
  by (simp add: starts_with_def)

lemma strip_prefix_Some_iff: "strip_prefix p s = Some r \<longleftrightarrow> s = p @ r"
  by (auto simp: strip_prefix_def starts_with_def) (metis append_take_drop_id)

lemma strip_prefix_append [simp]: "strip_prefix p (p @ r) = Some r"
  by (simp add: strip_prefix_Some_iff)

lemma strip_prefix_None_iff: "strip_prefix p s = None \<longleftrightarrow> \<not> starts_with p s"
  by (simp add: strip_prefix_def)

lemma ends_with_iff: "ends_with p s \<longleftrightarrow> (\<exists>r. s = r @ p)"
proof -
  have "(\<exists>r. rev s = rev p @ r) \<longleftrightarrow> (\<exists>r. s = r @ p)"
    by (metis rev_append rev_rev_ident)
  then show ?thesis by (simp add: ends_with_def starts_with_iff)
qed

lemma strip_suffix_Some_iff: "strip_suffix p s = Some r \<longleftrightarrow> s = r @ p"
  by (auto simp: strip_suffix_def strip_prefix_Some_iff) (metis rev_append rev_rev_ident)

lemma strip_suffix_append [simp]: "strip_suffix p (r @ p) = Some r"
  by (simp add: strip_suffix_Some_iff)

lemma strip_suffix_None_iff: "strip_suffix p s = None \<longleftrightarrow> \<not> ends_with p s"
  by (simp add: strip_suffix_def ends_with_def strip_prefix_None_iff)

lemma contains_str_iff: "contains_str p s \<longleftrightarrow> (\<exists>a b. s = a @ p @ b)"
proof (induction s)
  case (Cons x xs)
  note IH = Cons.IH
  show ?case
  proof
    assume "contains_str p (x # xs)"
    then consider "starts_with p (x # xs)" | "contains_str p xs" by auto
    then show "\<exists>a b. x # xs = a @ p @ b"
    proof cases
      case 1
      then show ?thesis by (metis append_Nil starts_with_iff)
    next
      case 2
      then show ?thesis using IH by (metis append_Cons)
    qed
  next
    assume "\<exists>a b. x # xs = a @ p @ b"
    then obtain a b where ab: "x # xs = a @ p @ b" by blast
    show "contains_str p (x # xs)"
    proof (cases a)
      case Nil
      with ab have "starts_with p (x # xs)" unfolding starts_with_iff by auto
      then show ?thesis by simp
    next
      case (Cons y ys)
      with ab have "xs = ys @ p @ b" by simp
      then have "contains_str p xs" using IH by blast
      then show ?thesis by simp
    qed
  qed
qed simp

section \<open>Splitting and joining\<close>

text \<open>\<open>split_on d s\<close> is \<open>s.split(d)\<close>: always at least one piece, empty pieces kept.\<close>

fun split_on :: "'a \<Rightarrow> 'a list \<Rightarrow> 'a list list" where
  "split_on d [] = [[]]"
| "split_on d (x # xs) =
     (if x = d then [] # split_on d xs
      else (case split_on d xs of [] \<Rightarrow> [[x]] | p # ps \<Rightarrow> (x # p) # ps))"

fun join_with :: "'a \<Rightarrow> 'a list list \<Rightarrow> 'a list" where
  "join_with d [] = []"
| "join_with d [p] = p"
| "join_with d (p # q # ps) = p @ d # join_with d (q # ps)"

fun split_once :: "'a \<Rightarrow> 'a list \<Rightarrow> ('a list \<times> 'a list) option" where
  "split_once d [] = None"
| "split_once d (x # xs) =
     (if x = d then Some ([], xs)
      else map_option (\<lambda>(a, b). (x # a, b)) (split_once d xs))"

fun splitn :: "nat \<Rightarrow> 'a \<Rightarrow> 'a list \<Rightarrow> 'a list list" where
  "splitn 0 d s = []"
| "splitn (Suc 0) d s = [s]"
| "splitn (Suc (Suc n)) d s =
     (case split_once d s of None \<Rightarrow> [s] | Some (a, b) \<Rightarrow> a # splitn (Suc n) d b)"

definition trim_matches :: "'a \<Rightarrow> 'a list \<Rightarrow> 'a list" where
  "trim_matches d s = rev (dropWhile ((=) d) (rev (dropWhile ((=) d) s)))"

lemma split_on_not_Nil [simp]: "split_on d s \<noteq> []"
  by (cases s) (auto split: list.splits)

lemma split_on_no_delim: "p \<in> set (split_on d s) \<Longrightarrow> d \<notin> set p"
proof (induction s arbitrary: p)
  case (Cons x xs)
  then show ?case
    by (auto split: if_splits list.splits)
qed simp

lemma split_on_notin [simp]: "d \<notin> set s \<Longrightarrow> split_on d s = [s]"
  by (induction s) auto

lemma split_on_append: "split_on d (xs @ d # ys) = split_on d xs @ split_on d ys"
proof (induction xs)
  case (Cons x xs)
  then show ?case by (cases "split_on d xs") auto
qed simp

lemma join_split [simp]: "join_with d (split_on d s) = s"
proof (induction s)
  case (Cons x xs)
  obtain p ps where "split_on d xs = p # ps" by (cases "split_on d xs") auto
  with Cons show ?case by (cases ps) auto
qed simp

lemma split_join:
  "ps \<noteq> [] \<Longrightarrow> (\<And>p. p \<in> set ps \<Longrightarrow> d \<notin> set p) \<Longrightarrow> split_on d (join_with d ps) = ps"
proof (induction d ps rule: join_with.induct)
  case (3 d p q ps)
  then show ?case by (simp add: split_on_append)
qed auto

lemma split_on_inj: "split_on d s = split_on d t \<Longrightarrow> s = t"
  by (metis join_split)

lemma join_with_append:
  "ps \<noteq> [] \<Longrightarrow> qs \<noteq> [] \<Longrightarrow> join_with d (ps @ qs) = join_with d ps @ d # join_with d qs"
proof (induction d ps rule: join_with.induct)
  case (2 d p)
  then show ?case by (cases qs) auto
qed auto

lemma join_with_Cons: "qs \<noteq> [] \<Longrightarrow> join_with d (p # qs) = p @ d # join_with d qs"
  by (cases qs) auto

lemma join_with_eq_Nil_iff:
  assumes "\<And>p. p \<in> set ps \<Longrightarrow> p \<noteq> []"
  shows "join_with d ps = [] \<longleftrightarrow> ps = []"
proof (cases ps)
  case (Cons p qs)
  with assms show ?thesis by (cases qs) auto
qed simp

lemma set_join_with: "set (join_with d ps) \<subseteq> insert d (\<Union> (set ` set ps))"
  by (induction d ps rule: join_with.induct) auto

lemma set_piece_of_join: "p \<in> set ps \<Longrightarrow> set p \<subseteq> set (join_with d ps)"
  by (induction d ps rule: join_with.induct) auto

lemma split_once_Some: "split_once d s = Some (a, b) \<longleftrightarrow> s = a @ d # b \<and> d \<notin> set a"
proof (induction s arbitrary: a)
  case (Cons x xs)
  then show ?case by (cases a) auto
qed simp

lemma split_once_None: "split_once d s = None \<longleftrightarrow> d \<notin> set s"
  by (induction s) auto

lemma trim_matches_id:
  "s \<noteq> [] \<Longrightarrow> hd s \<noteq> d \<Longrightarrow> last s \<noteq> d \<Longrightarrow> trim_matches d s = s"
  by (simp add: trim_matches_def dropWhile_no_match hd_rev)

lemma trim_matches_Cons_delim [simp]: "trim_matches d (d # s) = trim_matches d s"
  by (simp add: trim_matches_def)

lemma trim_matches_Nil [simp]: "trim_matches d [] = []"
  by (simp add: trim_matches_def)

end
