(* ===== verification/Rust_Text.thy ===== *)
theory Rust_Text
  imports Rust_Std
begin

text \<open>
  Characters, numbers and text of Rust's standard library as EventFS uses them: the ASCII
  classes, \<open>u64::from_str\<close> and \<open>u64\<close>'s \<open>Display\<close>, \<open>String::from_utf8\<close>, \<open>str::chars\<close>,
  \<open>char::is_control\<close>, \<open>char::is_whitespace\<close>, \<open>str::trim\<close> and \<open>str::lines\<close>.
\<close>

section \<open>ASCII classes\<close>

definition is_ascii_digit :: "char \<Rightarrow> bool" where
  "is_ascii_digit c \<longleftrightarrow> 48 \<le> (of_char c :: nat) \<and> (of_char c :: nat) \<le> 57"

definition is_ascii_alphanumeric :: "char \<Rightarrow> bool" where
  "is_ascii_alphanumeric c \<longleftrightarrow>
     is_ascii_digit c
     \<or> (65 \<le> (of_char c :: nat) \<and> (of_char c :: nat) \<le> 90)
     \<or> (97 \<le> (of_char c :: nat) \<and> (of_char c :: nat) \<le> 122)"

lemmas ascii_defs = is_ascii_alphanumeric_def is_ascii_digit_def

section \<open>Decimal numbers\<close>

definition digit_char :: "nat \<Rightarrow> char" where
  "digit_char n = char_of (48 + n)"

fun show_nat :: "nat \<Rightarrow> string" where
  "show_nat n = (if n < 10 then [digit_char n] else show_nat (n div 10) @ [digit_char (n mod 10)])"

declare show_nat.simps [simp del]

definition show_u64 :: "u64 \<Rightarrow> string" where
  "show_u64 w = show_nat (unat w)"

text \<open>\<open>from_str_radix\<close>: one optional leading plus sign, at least one digit, every digit
  checked against overflow of 64 bits.\<close>

fun parse_digits :: "nat \<Rightarrow> string \<Rightarrow> nat option" where
  "parse_digits acc [] = Some acc"
| "parse_digits acc (c # cs) =
     (if is_ascii_digit c
      then (let next = 10 * acc + (of_char c - 48)
            in if next < 2 ^ 64 then parse_digits next cs else None)
      else None)"

definition parse_u64 :: "string \<Rightarrow> u64 option" where
  "parse_u64 s =
     (let digits = (case s of c # d # cs \<Rightarrow> (if c = CHR ''+'' then d # cs else s) | _ \<Rightarrow> s)
      in if digits = [] then None else map_option word_of_nat (parse_digits 0 digits))"

lemma of_char_digit_char: "n < 10 \<Longrightarrow> of_char (digit_char n) = (48 + n :: nat)"
  by (simp add: digit_char_def)

lemma is_ascii_digit_digit_char: "n < 10 \<Longrightarrow> is_ascii_digit (digit_char n)"
  by (simp add: is_ascii_digit_def of_char_digit_char)

lemma show_nat_digits: "c \<in> set (show_nat n) \<Longrightarrow> is_ascii_digit c"
proof (induction n rule: show_nat.induct)
  case (1 n)
  then show ?case
    by (subst (asm) (2) show_nat.simps) (auto simp: is_ascii_digit_digit_char split: if_splits)
qed

lemma show_nat_not_Nil [simp]: "show_nat n \<noteq> []"
  by (subst show_nat.simps) simp

lemma parse_digits_append:
  "parse_digits acc (xs @ ys) = Option.bind (parse_digits acc xs) (\<lambda>a. parse_digits a ys)"
  by (induction acc xs rule: parse_digits.induct) (auto simp: Let_def)

lemma parse_digits_show_nat: "n < 2 ^ 64 \<Longrightarrow> parse_digits 0 (show_nat n) = Some n"
proof (induction n rule: show_nat.induct)
  case (1 n)
  show ?case
  proof (cases "n < 10")
    case True
    then show ?thesis
      by (subst show_nat.simps)
        (simp add: is_ascii_digit_digit_char of_char_digit_char)
  next
    case False
    then have "parse_digits 0 (show_nat (n div 10)) = Some (n div 10)"
      using 1 by simp
    moreover have "10 * (n div 10) + n mod 10 = n" by simp
    ultimately show ?thesis
      using False "1.prems"
      by (subst show_nat.simps)
        (simp add: parse_digits_append is_ascii_digit_digit_char of_char_digit_char)
  qed
qed

lemma parse_show_u64 [simp]: "parse_u64 (show_u64 w) = Some w"
proof -
  have "parse_digits 0 (show_nat (unat w)) = Some (unat w)"
    using unsigned_less [of w] by (intro parse_digits_show_nat) simp
  moreover have "hd (show_nat (unat w)) \<noteq> CHR ''+''"
  proof
    assume plus: "hd (show_nat (unat w)) = CHR ''+''"
    have "is_ascii_digit (hd (show_nat (unat w)))"
      by (rule show_nat_digits [OF hd_in_set [OF show_nat_not_Nil]])
    then show False unfolding plus by (simp add: is_ascii_digit_def)
  qed
  ultimately show ?thesis
    by (auto simp: parse_u64_def show_u64_def split: list.splits)
qed

lemma show_u64_digits: "c \<in> set (show_u64 w) \<Longrightarrow> is_ascii_digit c"
  by (simp add: show_u64_def show_nat_digits)

lemma show_u64_not_Nil [simp]: "show_u64 w \<noteq> []"
  by (simp add: show_u64_def)

lemma show_u64_inj: "show_u64 v = show_u64 w \<Longrightarrow> v = w"
  by (metis option.inject parse_show_u64)

section \<open>UTF-8\<close>

definition utf8_cont :: "nat \<Rightarrow> bool" where
  "utf8_cont b \<longleftrightarrow> 128 \<le> b \<and> b \<le> 191"

definition utf8_second3 :: "nat \<Rightarrow> nat \<Rightarrow> bool" where
  "utf8_second3 a b \<longleftrightarrow>
     (if a = 224 then 160 \<le> b \<and> b \<le> 191 else if a = 237 then 128 \<le> b \<and> b \<le> 159 else utf8_cont b)"

definition utf8_second4 :: "nat \<Rightarrow> nat \<Rightarrow> bool" where
  "utf8_second4 a b \<longleftrightarrow>
     (if a = 240 then 144 \<le> b \<and> b \<le> 191 else if a = 244 then 128 \<le> b \<and> b \<le> 143 else utf8_cont b)"

text \<open>The scalar values a byte sequence encodes; \<open>None\<close> where \<open>from_utf8\<close> fails.\<close>

fun utf8_decode :: "nat list \<Rightarrow> nat list option" where
  "utf8_decode [] = Some []"
| "utf8_decode (a # r) =
     (if a < 128 then map_option (Cons a) (utf8_decode r)
      else if 194 \<le> a \<and> a \<le> 223 then
        (case r of
           b # r' \<Rightarrow>
             (if utf8_cont b
              then map_option (Cons ((a - 192) * 64 + (b - 128))) (utf8_decode r') else None)
         | _ \<Rightarrow> None)
      else if 224 \<le> a \<and> a \<le> 239 then
        (case r of
           b # c # r' \<Rightarrow>
             (if utf8_second3 a b \<and> utf8_cont c
              then map_option (Cons ((a - 224) * 4096 + (b - 128) * 64 + (c - 128))) (utf8_decode r')
              else None)
         | _ \<Rightarrow> None)
      else if 240 \<le> a \<and> a \<le> 244 then
        (case r of
           b # c # d # r' \<Rightarrow>
             (if utf8_second4 a b \<and> utf8_cont c \<and> utf8_cont d
              then map_option
                (Cons ((a - 240) * 262144 + (b - 128) * 4096 + (c - 128) * 64 + (d - 128)))
                (utf8_decode r')
              else None)
         | _ \<Rightarrow> None)
      else None)"

definition utf8_encode :: "nat \<Rightarrow> nat list" where
  "utf8_encode u =
     (if u < 128 then [u]
      else if u < 2048 then [192 + u div 64, 128 + u mod 64]
      else if u < 65536 then [224 + u div 4096, 128 + u div 64 mod 64, 128 + u mod 64]
      else [240 + u div 262144, 128 + u div 4096 mod 64, 128 + u div 64 mod 64, 128 + u mod 64])"

definition as_bytes :: "string \<Rightarrow> bytes" where
  "as_bytes s = map (\<lambda>c. word_of_nat (of_char c)) s"

definition str_of_bytes :: "bytes \<Rightarrow> string" where
  "str_of_bytes bs = map (\<lambda>b. char_of (unat b)) bs"

definition valid_utf8 :: "string \<Rightarrow> bool" where
  "valid_utf8 s \<longleftrightarrow> utf8_decode (map of_char s) \<noteq> None"

definition from_utf8 :: "bytes \<Rightarrow> string option" where
  "from_utf8 bs = (if utf8_decode (map unat bs) = None then None else Some (str_of_bytes bs))"

definition chars :: "string \<Rightarrow> nat list" where
  "chars s = (case utf8_decode (map of_char s) of None \<Rightarrow> [] | Some us \<Rightarrow> us)"

lemma unat_word_of_char [simp]: "unat (word_of_nat (of_char c) :: u8) = of_char c"
proof -
  have "of_char c < (256 :: nat)" by simp
  then show ?thesis by (simp add: unat_of_nat)
qed

lemma str_of_as_bytes [simp]: "str_of_bytes (as_bytes s) = s"
  by (simp add: str_of_bytes_def as_bytes_def map_idI)

lemma as_bytes_of_str [simp]: "as_bytes (str_of_bytes bs) = bs"
proof -
  have "word_of_nat (of_char (char_of (unat b) :: char)) = b" for b :: u8
  proof -
    have "unat b < 256" using unsigned_less [of b] by simp
    then show ?thesis by simp
  qed
  then show ?thesis by (simp add: str_of_bytes_def as_bytes_def map_idI)
qed

lemma from_utf8_as_bytes: "valid_utf8 s \<Longrightarrow> from_utf8 (as_bytes s) = Some s"
  by (simp add: from_utf8_def valid_utf8_def as_bytes_def str_of_bytes_def comp_def map_idI)

lemma from_utf8_Some: "from_utf8 bs = Some s \<longleftrightarrow> bs = as_bytes s \<and> valid_utf8 s"
proof -
  have "map unat (as_bytes s) = map of_char s"
    by (simp add: as_bytes_def)
  then show ?thesis
    by (auto simp: from_utf8_def valid_utf8_def split: if_splits)
qed

lemma utf8_decode_ascii: "(\<And>b. b \<in> set bs \<Longrightarrow> b < 128) \<Longrightarrow> utf8_decode bs = Some bs"
  by (induction bs) auto

lemma utf8_decode_ascii_str:
  "(\<And>c. c \<in> set s \<Longrightarrow> of_char c < (128 :: nat)) \<Longrightarrow>
    utf8_decode (map of_char s) = Some (map of_char s)"
  by (rule utf8_decode_ascii) auto

text \<open>Continuation bytes are not ASCII, so an ASCII byte of a valid sequence is a scalar value of it.\<close>

lemma utf8_decode_ascii_member:
  "utf8_decode bs = Some us \<Longrightarrow> b \<in> set bs \<Longrightarrow> b < 128 \<Longrightarrow> b \<in> set us"
proof (induction bs arbitrary: us rule: utf8_decode.induct)
  case (2 a r)
  consider "a < 128" | "194 \<le> a \<and> a \<le> 223" | "224 \<le> a \<and> a \<le> 239" | "240 \<le> a \<and> a \<le> 244"
    using "2.prems"(1) by (cases "a < 128") (auto split: if_splits)
  then show ?case
  proof cases
    case 1
    then show ?thesis using 2 by auto
  next
    case 2
    then obtain c r' us' where "r = c # r'" "utf8_cont c" "utf8_decode r' = Some us'"
      "us = ((a - 192) * 64 + (c - 128)) # us'"
      using "2.prems"(1) by (auto split: list.splits if_splits)
    then show ?thesis using 2 "2.IH"(2) "2.prems"(2,3) by (auto simp: utf8_cont_def)
  next
    case 3
    then obtain c d r' us' where "r = c # d # r'" "utf8_second3 a c" "utf8_cont d"
      "utf8_decode r' = Some us'"
      "us = ((a - 224) * 4096 + (c - 128) * 64 + (d - 128)) # us'"
      using "2.prems"(1) by (auto split: list.splits if_splits)
    then show ?thesis using 3 "2.IH"(3) "2.prems"(2,3)
      by (auto simp: utf8_cont_def utf8_second3_def split: if_splits)
  next
    case 4
    then obtain c d e r' us' where "r = c # d # e # r'" "utf8_second4 a c" "utf8_cont d"
      "utf8_cont e" "utf8_decode r' = Some us'"
      "us = ((a - 240) * 262144 + (c - 128) * 4096 + (d - 128) * 64 + (e - 128)) # us'"
      using "2.prems"(1) by (auto split: list.splits if_splits)
    then show ?thesis using 4 "2.IH"(4) "2.prems"(2,3)
      by (auto simp: utf8_cont_def utf8_second4_def split: if_splits)
  qed
qed simp

lemma chars_ascii_member:
  "valid_utf8 s \<Longrightarrow> c \<in> set s \<Longrightarrow> of_char c < (128 :: nat) \<Longrightarrow> of_char c \<in> set (chars s)"
  using utf8_decode_ascii_member [of "map of_char s"]
  by (auto simp: valid_utf8_def chars_def)

lemma valid_utf8_ascii: "(\<And>c. c \<in> set s \<Longrightarrow> of_char c < (128 :: nat)) \<Longrightarrow> valid_utf8 s"
  unfolding valid_utf8_def by (subst utf8_decode_ascii_str) auto

lemma chars_ascii: "(\<And>c. c \<in> set s \<Longrightarrow> of_char c < (128 :: nat)) \<Longrightarrow> chars s = map of_char s"
  unfolding chars_def by (subst utf8_decode_ascii_str) auto

section \<open>Unicode classes, trimming, lines\<close>

definition is_control :: "nat \<Rightarrow> bool" where
  "is_control u \<longleftrightarrow> u < 32 \<or> (127 \<le> u \<and> u < 160)"

definition is_whitespace :: "nat \<Rightarrow> bool" where
  "is_whitespace u \<longleftrightarrow>
     (9 \<le> u \<and> u \<le> 13) \<or> u = 32 \<or> u = 133 \<or> u = 160 \<or> u = 5760 \<or> (8192 \<le> u \<and> u \<le> 8202)
     \<or> u = 8232 \<or> u = 8233 \<or> u = 8239 \<or> u = 8287 \<or> u = 12288"

definition trim_end :: "('a \<Rightarrow> bool) \<Rightarrow> 'a list \<Rightarrow> 'a list" where
  "trim_end P s = rev (dropWhile P (rev s))"

definition trim_str :: "string \<Rightarrow> string" where
  "trim_str s =
     map char_of (concat (map utf8_encode (trim_end is_whitespace (dropWhile is_whitespace (chars s)))))"

fun split_inclusive :: "'a \<Rightarrow> 'a list \<Rightarrow> 'a list list" where
  "split_inclusive d [] = []"
| "split_inclusive d (x # xs) =
     (if x = d then [d] # split_inclusive d xs
      else (case split_inclusive d xs of [] \<Rightarrow> [[x]] | p # ps \<Rightarrow> (x # p) # ps))"

definition newline :: char where
  "newline = CHR 0x0A"

definition strip_line_ending :: "string \<Rightarrow> string" where
  "strip_line_ending l =
     (case strip_suffix [newline] l of
        None \<Rightarrow> l
      | Some l' \<Rightarrow> (case strip_suffix [CHR 0x0D] l' of None \<Rightarrow> l' | Some l'' \<Rightarrow> l''))"

definition str_lines :: "string \<Rightarrow> string list" where
  "str_lines s = map strip_line_ending (split_inclusive newline s)"

lemma concat_split_inclusive: "concat (split_inclusive d s) = s"
  by (induction s) (auto split: list.splits)

end
