(* ===== verification/Errors.thy ===== *)
theory Errors
  imports Rust_Text
begin

text \<open>
  \<open>eventfs-protocol/src/errors.rs\<close>: the error values of the protocol crate and the errno
  each one carries. An \<open>Errno\<close> wraps one of libc's constants; the model keeps the constants'
  names, which are pairwise distinct numbers on Linux, and adds \<open>EBADF\<close>, which the FUSE
  crate answers for unknown file handles.
\<close>

datatype Errno =
    ENOENT | ENOTSUP | EROFS | EINVAL | EISDIR | ENOTDIR | EEXIST | EXDEV | EIO | EBADF

datatype EventFsError =
    InvalidPath string Errno
  | Unsupported string string Errno
  | ReadOnly string Errno
  | InvalidJson string string Errno

definition invalid_path :: "string \<Rightarrow> EventFsError" where
  "invalid_path message = InvalidPath message EINVAL"

definition unsupported :: "string \<Rightarrow> string \<Rightarrow> EventFsError" where
  "unsupported operation path = Unsupported operation path ENOTSUP"

definition read_only :: "string \<Rightarrow> EventFsError" where
  "read_only path = ReadOnly path EROFS"

definition invalid_json :: "string \<Rightarrow> string \<Rightarrow> EventFsError" where
  "invalid_json path message = InvalidJson path message EINVAL"

fun errno :: "EventFsError \<Rightarrow> Errno" where
  "errno (InvalidPath _ e) = e"
| "errno (Unsupported _ _ e) = e"
| "errno (ReadOnly _ e) = e"
| "errno (InvalidJson _ _ e) = e"

lemma errno_constructors [simp]:
  "errno (invalid_path m) = EINVAL"
  "errno (unsupported oper p) = ENOTSUP"
  "errno (read_only p) = EROFS"
  "errno (invalid_json p m) = EINVAL"
  by (simp_all add: invalid_path_def unsupported_def read_only_def invalid_json_def)

text \<open>\<open>fails_with e m\<close>: the result is either a success or an error of errno \<open>e\<close>.\<close>

definition fails_with :: "Errno \<Rightarrow> EventFsError + 'a \<Rightarrow> bool" where
  "fails_with e m \<longleftrightarrow> (case m of Inl err \<Rightarrow> errno err = e | Inr _ \<Rightarrow> True)"

lemma fails_with_simps [simp]:
  "fails_with e (Inr x)"
  "fails_with e (Inl err) \<longleftrightarrow> errno err = e"
  by (simp_all add: fails_with_def)

lemma fails_with_rbind [intro!]:
  "fails_with e m \<Longrightarrow> (\<And>x. m = Inr x \<Longrightarrow> fails_with e (f x)) \<Longrightarrow> fails_with e (rbind m f)"
  by (cases m) auto

lemma fails_with_ok_or [simp]: "fails_with e (ok_or err m) \<longleftrightarrow> m \<noteq> None \<or> errno err = e"
  by (cases m) auto

lemma fails_with_try_all:
  "(\<And>x. x \<in> set xs \<Longrightarrow> fails_with e (f x)) \<Longrightarrow> fails_with e (try_all f xs)"
  by (induction xs) auto

lemma fails_with_try_map:
  "(\<And>x. x \<in> set xs \<Longrightarrow> fails_with e (f x)) \<Longrightarrow> fails_with e (try_map f xs)"
  by (induction xs) auto

end
