(* ===== verification/File_Names.thy ===== *)
theory File_Names
  imports Errors
begin

text \<open>
  \<open>eventfs-protocol/src/file_names.rs\<close>: the file name under which a NATS subject appears in
  \<open>/streams/<stream>/subjects\<close>. A path-safe subject is its own stem; any other subject is
  written in hexadecimal behind a reserved prefix. The lemmas show that the encoding is
  undone by the parser, for every subject a stream can have.
\<close>

unbundle bit_operations_syntax

definition ENCODED_SUBJECT_PREFIX :: string where
  "ENCODED_SUBJECT_PREFIX = ''__eventfs_subject_hex_''"

definition JSONL_SUFFIX :: string where
  "JSONL_SUFFIX = ''.jsonl''"

definition is_plain_subject_file_stem :: "string \<Rightarrow> bool" where
  "is_plain_subject_file_stem subject \<longleftrightarrow>
     \<not> starts_with ENCODED_SUBJECT_PREFIX subject
     \<and> subject \<noteq> []
     \<and> \<not> starts_with ''.'' subject
     \<and> \<not> ends_with ''.'' subject
     \<and> \<not> contains_str ''..'' subject
     \<and> list_all (\<lambda>ch. is_ascii_alphanumeric ch \<or> ch \<in> {CHR ''_'', CHR ''-'', CHR ''.''}) subject"

definition HEX :: string where
  "HEX = ''0123456789abcdef''"

definition hex_encode :: "bytes \<Rightarrow> string" where
  "hex_encode bs = concat (map (\<lambda>b. [HEX ! unat (drop_bit 4 b), HEX ! unat (b AND 15)]) bs)"

definition hex_value :: "u8 \<Rightarrow> EventFsError + u8" where
  "hex_value b =
     (if 48 \<le> b \<and> b \<le> 57 then Inr (b - 48)
      else if 97 \<le> b \<and> b \<le> 102 then Inr (b - 97 + 10)
      else if 65 \<le> b \<and> b \<le> 70 then Inr (b - 65 + 10)
      else Inl (invalid_path ''invalid encoded subject''))"

fun chunks_exact2 :: "'a list \<Rightarrow> ('a \<times> 'a) list" where
  "chunks_exact2 (x # y # r) = (x, y) # chunks_exact2 r"
| "chunks_exact2 _ = []"

definition hex_decode :: "string \<Rightarrow> EventFsError + bytes" where
  "hex_decode v =
     (if v = [] \<or> length v mod 2 \<noteq> 0 then Inl (invalid_path ''invalid encoded subject'')
      else try_map
        (\<lambda>(h, l). rbind (hex_value h) (\<lambda>high. rbind (hex_value l) (\<lambda>low.
           Inr (push_bit 4 high OR low))))
        (chunks_exact2 (as_bytes v)))"

definition stream_subject_file_name_from_str :: "string \<Rightarrow> string" where
  "stream_subject_file_name_from_str subject =
     (if is_plain_subject_file_stem subject then subject @ JSONL_SUFFIX
      else ENCODED_SUBJECT_PREFIX @ hex_encode (as_bytes subject) @ JSONL_SUFFIX)"

definition parse_stream_subject_file_name :: "string \<Rightarrow> EventFsError + string" where
  "parse_stream_subject_file_name name =
     (case strip_suffix JSONL_SUFFIX name of
        None \<Rightarrow> Inl (invalid_path ''stream subject files must end in .jsonl'')
      | Some stem \<Rightarrow>
          (case strip_prefix ENCODED_SUBJECT_PREFIX stem of
             Some hex \<Rightarrow>
               rbind (hex_decode hex) (\<lambda>bs.
                 ok_or (invalid_path ''invalid encoded subject'') (from_utf8 bs))
           | None \<Rightarrow>
               (if \<not> is_plain_subject_file_stem stem
                then Inl (invalid_path ''invalid stream subject file name'')
                else Inr stem)))"

section \<open>Hexadecimal\<close>

lemma nibble_cases:
  assumes "n < (16 :: nat)"
  obtains "n = 0" | "n = 1" | "n = 2" | "n = 3" | "n = 4" | "n = 5" | "n = 6" | "n = 7"
    | "n = 8" | "n = 9" | "n = 10" | "n = 11" | "n = 12" | "n = 13" | "n = 14" | "n = 15"
  using assms by (auto simp: eval_nat_numeral less_Suc_eq)

lemma hex_value_HEX:
  assumes "n < 16"
  shows "hex_value (word_of_nat (of_char (HEX ! n))) = Inr (word_of_nat n)"
  using assms by (cases n rule: nibble_cases) (simp_all add: HEX_def hex_value_def)

lemma nibbles_recombine: "push_bit 4 (drop_bit 4 b) OR (b AND 15) = (b :: u8)"
proof -
  have "b AND 15 = take_bit 4 b" by (simp add: take_bit_eq_mask mask_eq_exp_minus_1)
  then show ?thesis by (auto intro!: bit_eqI simp: bit_simps)
qed

lemma nibble_bounds:
  "unat (drop_bit 4 (b :: u8)) < 16" "unat (b AND 15 :: u8) < 16"
proof -
  have "unat (drop_bit 4 b) = unat b div 16" by (simp add: drop_bit_eq_div unat_div_distrib)
  then show "unat (drop_bit 4 b) < 16" using unat_bound [of b] by simp
  have "b AND 15 = take_bit 4 b" by (simp add: take_bit_eq_mask mask_eq_exp_minus_1)
  then show "unat (b AND 15) < 16" by (simp add: take_bit_eq_mod unat_mod_distrib)
qed

lemma chunks_exact2_hex:
  "chunks_exact2 (as_bytes (hex_encode bs)) =
     map (\<lambda>b. (word_of_nat (of_char (HEX ! unat (drop_bit 4 b))),
               word_of_nat (of_char (HEX ! unat (b AND 15))))) bs"
  by (induction bs) (auto simp: hex_encode_def as_bytes_def)

lemma length_hex_encode: "length (hex_encode bs) = 2 * length bs"
  by (induction bs) (auto simp: hex_encode_def)

lemma hex_decode_encode:
  assumes "bs \<noteq> []"
  shows "hex_decode (hex_encode bs) = Inr bs"
proof -
  have "hex_encode bs \<noteq> []" using assms by (cases bs) (auto simp: hex_encode_def)
  moreover have "try_map
        (\<lambda>(h, l). rbind (hex_value h) (\<lambda>high. rbind (hex_value l) (\<lambda>low.
           Inr (push_bit 4 high OR low))))
        (chunks_exact2 (as_bytes (hex_encode bs))) = Inr bs"
    unfolding chunks_exact2_hex
    by (induction bs) (simp_all add: hex_value_HEX nibble_bounds nibbles_recombine)
  ultimately show ?thesis by (simp add: hex_decode_def length_hex_encode)
qed

lemma HEX_chars: "n < 16 \<Longrightarrow> is_ascii_alphanumeric (HEX ! n)"
  by (cases n rule: nibble_cases) (simp_all add: HEX_def ascii_defs)

lemma hex_encode_chars: "c \<in> set (hex_encode bs) \<Longrightarrow> is_ascii_alphanumeric c"
  by (auto simp: hex_encode_def HEX_chars nibble_bounds)

section \<open>Subject file names\<close>

lemma parse_subject_file_name_roundtrip:
  assumes "s \<noteq> []" "valid_utf8 s"
  shows "parse_stream_subject_file_name (stream_subject_file_name_from_str s) = Inr s"
proof (cases "is_plain_subject_file_stem s")
  case True
  then have "strip_prefix ENCODED_SUBJECT_PREFIX s = None"
    by (simp add: strip_prefix_None_iff is_plain_subject_file_stem_def)
  with True show ?thesis
    by (simp add: parse_stream_subject_file_name_def stream_subject_file_name_from_str_def)
next
  case False
  have "as_bytes s \<noteq> []" using assms(1) by (simp add: as_bytes_def)
  then have "hex_decode (hex_encode (as_bytes s)) = Inr (as_bytes s)"
    by (rule hex_decode_encode)
  moreover have "strip_suffix JSONL_SUFFIX
      (ENCODED_SUBJECT_PREFIX @ hex_encode (as_bytes s) @ JSONL_SUFFIX) =
      Some (ENCODED_SUBJECT_PREFIX @ hex_encode (as_bytes s))"
    by (simp add: strip_suffix_Some_iff)
  ultimately show ?thesis
    using False assms(2)
    by (simp add: parse_stream_subject_file_name_def stream_subject_file_name_from_str_def
        from_utf8_as_bytes)
qed

lemma plain_stem_ascii: "is_plain_subject_file_stem s \<Longrightarrow> c \<in> set s \<Longrightarrow> of_char c < (128 :: nat)"
  by (auto simp: is_plain_subject_file_stem_def list_all_iff ascii_defs)

lemma parse_subject_file_name_result:
  assumes "parse_stream_subject_file_name name = Inr s"
  shows "valid_utf8 s"
  using assms
  by (auto simp: parse_stream_subject_file_name_def from_utf8_Some
      intro!: valid_utf8_ascii plain_stem_ascii split: option.splits if_splits)

abbreviation file_stem_char :: "char \<Rightarrow> bool" where
  "file_stem_char c \<equiv> is_ascii_alphanumeric c \<or> c \<in> {CHR ''_'', CHR ''-'', CHR ''.''}"

lemma file_name_literals:
  "list_all file_stem_char JSONL_SUFFIX" "list_all file_stem_char ENCODED_SUBJECT_PREFIX"
  by (simp_all add: JSONL_SUFFIX_def ENCODED_SUBJECT_PREFIX_def ascii_defs)

lemma subject_file_name_chars:
  assumes "c \<in> set (stream_subject_file_name_from_str s)"
  shows "file_stem_char c"
proof -
  have "list_all file_stem_char (hex_encode (as_bytes s))"
    using hex_encode_chars by (simp add: list_all_iff)
  then have "list_all file_stem_char (stream_subject_file_name_from_str s)"
    using file_name_literals
    by (simp add: stream_subject_file_name_from_str_def is_plain_subject_file_stem_def)
  with assms show ?thesis by (simp add: list_all_iff)
qed

lemma subject_file_name_nonempty [simp]: "stream_subject_file_name_from_str s \<noteq> []"
  by (simp add: stream_subject_file_name_from_str_def JSONL_SUFFIX_def)

lemma subject_file_name_not_dots:
  "stream_subject_file_name_from_str s \<noteq> ''.''" "stream_subject_file_name_from_str s \<noteq> ''..''"
proof -
  have "length (stream_subject_file_name_from_str s) \<ge> 6"
    by (simp add: stream_subject_file_name_from_str_def JSONL_SUFFIX_def)
  then show "stream_subject_file_name_from_str s \<noteq> ''.''"
    "stream_subject_file_name_from_str s \<noteq> ''..''" by auto
qed

lemma parse_subject_file_name_fails: "fails_with EINVAL (parse_stream_subject_file_name name)"
proof -
  have hv: "fails_with EINVAL (hex_value b)" for b
    by (simp add: hex_value_def)
  have "fails_with EINVAL (hex_decode h)" for h
    by (auto simp: hex_decode_def hv intro!: fails_with_try_map split: prod.splits)
  then show ?thesis
    by (auto simp: parse_stream_subject_file_name_def split: option.splits)
qed

end
