(* ===== verification/Paths.thy ===== *)
theory Paths
  imports File_Names
begin

text \<open>
  \<open>eventfs-protocol/src/path.rs\<close>: the typed mount path \<open>JetStreamPath\<close> and its parser. Each
  arm of the source's slice match is one branch here, in the same order and grouped by the
  first component. \<open>wf_path\<close> describes exactly the values the parser can produce.
\<close>

definition ROOT_DIRECTORIES :: "string list" where
  "ROOT_DIRECTORIES =
     [''kv'', ''streams'', ''objects'', ''events'', ''tasks'', ''agents'', ''semantic'', ''.eventfs'']"

definition KV_WRITEBACK_MARKER_KEY_PREFIX :: string where
  "KV_WRITEBACK_MARKER_KEY_PREFIX = ''__eventfs_writeback''"

definition KV_APPLIED_MARKER_KEY_PREFIX :: string where
  "KV_APPLIED_MARKER_KEY_PREFIX = ''__eventfs_applied''"

text \<open>The newtype \<open>StreamSubject\<close> wraps a string that \<open>validate_subject\<close> accepted.\<close>

type_synonym StreamSubject = string

datatype AgentArea = Inbox | Outbox | Tasks | Memory

datatype SemanticArea = Summaries | Tags | Relations | Timelines | Embeddings

datatype MetadataFile = Status | Cache | Queue | Capabilities | Errors

datatype JetStreamPath =
    Root
  | KvRoot
  | KvBucket string
  | KvKey string string
  | KvHistoryRoot string
  | KvHistoryKey string string
  | KvRevision string string u64
  | StreamsRoot
  | StreamRoot string
  | StreamMessages string
  | StreamMessage string u64
  | StreamSubjects string
  | StreamSubject string StreamSubject
  | ObjectsRoot
  | ObjectBucket string
  | Object string string
  | EventsRoot
  | EventLog string
  | TasksRoot
  | TaskNamespace string
  | Task string string
  | AgentsRoot
  | AgentRoot string
  | AgentMailbox string AgentArea
  | AgentDirectory string AgentArea
  | AgentRecord string AgentArea string
  | SemanticRoot
  | SemanticArea SemanticArea
  | SemanticRecord SemanticArea string
  | MetadataRoot
  | MetadataFile MetadataFile

definition AgentArea_parse :: "string \<Rightarrow> AgentArea option" where
  "AgentArea_parse v =
     (if v = ''inbox'' then Some Inbox
      else if v = ''outbox'' then Some Outbox
      else if v = ''tasks'' then Some Tasks
      else if v = ''memory'' then Some Memory
      else None)"

fun AgentArea_as_str :: "AgentArea \<Rightarrow> string" where
  "AgentArea_as_str Inbox = ''inbox''"
| "AgentArea_as_str Outbox = ''outbox''"
| "AgentArea_as_str Tasks = ''tasks''"
| "AgentArea_as_str Memory = ''memory''"

definition is_mailbox :: "AgentArea \<Rightarrow> bool" where
  "is_mailbox area \<longleftrightarrow> area = Inbox \<or> area = Outbox"

definition SemanticArea_parse :: "string \<Rightarrow> SemanticArea option" where
  "SemanticArea_parse v =
     (if v = ''summaries'' then Some Summaries
      else if v = ''tags'' then Some Tags
      else if v = ''relations'' then Some Relations
      else if v = ''timelines'' then Some Timelines
      else if v = ''embeddings'' then Some Embeddings
      else None)"

fun SemanticArea_as_str :: "SemanticArea \<Rightarrow> string" where
  "SemanticArea_as_str Summaries = ''summaries''"
| "SemanticArea_as_str Tags = ''tags''"
| "SemanticArea_as_str Relations = ''relations''"
| "SemanticArea_as_str Timelines = ''timelines''"
| "SemanticArea_as_str Embeddings = ''embeddings''"

definition MetadataFile_parse :: "string \<Rightarrow> MetadataFile option" where
  "MetadataFile_parse v =
     (if v = ''status.json'' then Some Status
      else if v = ''cache.json'' then Some Cache
      else if v = ''queue.json'' then Some Queue
      else if v = ''capabilities.json'' then Some Capabilities
      else if v = ''errors.jsonl'' then Some Errors
      else None)"

fun file_name :: "MetadataFile \<Rightarrow> string" where
  "file_name Status = ''status.json''"
| "file_name Cache = ''cache.json''"
| "file_name Queue = ''queue.json''"
| "file_name Capabilities = ''capabilities.json''"
| "file_name Errors = ''errors.jsonl''"

section \<open>Validation\<close>

definition key_has_reserved_prefix :: "string \<Rightarrow> string \<Rightarrow> bool" where
  "key_has_reserved_prefix key prfx \<longleftrightarrow>
     key = prfx
     \<or> (case strip_prefix prfx key of
          Some rest \<Rightarrow> starts_with ''.'' rest \<or> starts_with ''/'' rest
        | None \<Rightarrow> False)"

definition is_reserved_kv_key :: "string \<Rightarrow> bool" where
  "is_reserved_kv_key key \<longleftrightarrow>
     key_has_reserved_prefix key KV_WRITEBACK_MARKER_KEY_PREFIX
     \<or> key_has_reserved_prefix key KV_APPLIED_MARKER_KEY_PREFIX"

definition nul :: char where
  "nul = CHR 0x00"

definition components :: "string \<Rightarrow> EventFsError + string list" where
  "components path =
     (if nul \<in> set path then Inl (invalid_path ''path contains NUL'')
      else let trimmed = trim_matches (CHR ''/'') path in
        if trimmed = [] then Inr []
        else let parts = split_on (CHR ''/'') trimmed in
          if list_ex (\<lambda>part. part = [] \<or> part = ''.'' \<or> part = ''..'') parts
          then Inl (invalid_path ''invalid path component'')
          else Inr parts)"

definition token_char :: "char \<Rightarrow> bool" where
  "token_char ch \<longleftrightarrow> is_ascii_alphanumeric ch \<or> ch \<in> {CHR ''_'', CHR ''-''}"

definition kv_key_char :: "char \<Rightarrow> bool" where
  "kv_key_char ch \<longleftrightarrow>
     is_ascii_alphanumeric ch \<or> ch \<in> {CHR ''-'', CHR ''_'', CHR ''='', CHR ''.'', CHR ''/''}"

definition validate_token :: "string \<Rightarrow> string \<Rightarrow> EventFsError + unit" where
  "validate_token value label =
     (if value = [] then Inl (invalid_path (''missing '' @ label))
      else if list_all token_char value then Inr ()
      else Inl (invalid_path (''invalid '' @ label)))"

definition validate_bucket :: "string \<Rightarrow> EventFsError + unit" where
  "validate_bucket value = validate_token value ''bucket''"

definition validate_stream :: "string \<Rightarrow> EventFsError + unit" where
  "validate_stream value = validate_token value ''stream''"

definition validate_name :: "string \<Rightarrow> string \<Rightarrow> EventFsError + unit" where
  "validate_name value label = validate_token value label"

definition validate_materialized_root_name :: "string \<Rightarrow> string \<Rightarrow> EventFsError + unit" where
  "validate_materialized_root_name value label =
     rbind (validate_name value label) (\<lambda>_.
       if is_reserved_kv_key value
       then Inl (invalid_path (label @ '' uses a reserved internal KV prefix''))
       else Inr ())"

definition validate_subject :: "string \<Rightarrow> EventFsError + unit" where
  "validate_subject value =
     (if value = [] \<or> starts_with ''.'' value \<or> ends_with ''.'' value \<or> contains_str ''..'' value
      then Inl (invalid_path ''invalid subject'')
      else if list_ex (\<lambda>ch. is_control ch \<or> is_whitespace ch
                        \<or> ch = of_char (CHR ''*'') \<or> ch = of_char (CHR ''>'')) (chars value)
      then Inl (invalid_path ''invalid subject'')
      else Inr ())"

definition validate_component :: "string \<Rightarrow> EventFsError + unit" where
  "validate_component value =
     (if value = [] \<or> value = ''.'' \<or> value = ''..'' \<or> nul \<in> set value \<or> starts_with ''.'' value
      then Inl (invalid_path ''invalid path component'')
      else Inr ())"

definition validate_kv_key :: "string \<Rightarrow> EventFsError + unit" where
  "validate_kv_key value =
     (if value = [] \<or> starts_with ''.'' value \<or> ends_with ''.'' value
      then Inl (invalid_path ''invalid kv key'')
      else if is_reserved_kv_key value
      then Inl (invalid_path ''kv key uses a reserved internal prefix'')
      else if list_all kv_key_char value then Inr ()
      else Inl (invalid_path ''invalid kv key''))"

definition join_path :: "string list \<Rightarrow> EventFsError + string" where
  "join_path parts =
     (if parts = [] then Inl (invalid_path ''missing path'')
      else rbind (try_all validate_component parts) (\<lambda>_. Inr (join_with (CHR ''/'') parts)))"

definition join_kv_key :: "string list \<Rightarrow> EventFsError + string" where
  "join_kv_key parts = rbind (join_path parts) (\<lambda>key. rbind (validate_kv_key key) (\<lambda>_. Inr key))"

definition parse_sequence_file :: "string \<Rightarrow> EventFsError + u64" where
  "parse_sequence_file value =
     (case strip_suffix ''.json'' value of
        None \<Rightarrow> Inl (invalid_path ''stream message files must end in .json'')
      | Some stem \<Rightarrow> ok_or (invalid_path ''stream message sequence must be numeric'') (parse_u64 stem))"

definition parse_jsonl_stem :: "string \<Rightarrow> string \<Rightarrow> EventFsError + string" where
  "parse_jsonl_stem value label =
     (case strip_suffix ''.jsonl'' value of
        None \<Rightarrow> Inl (invalid_path (label @ '' must end in .jsonl''))
      | Some stem \<Rightarrow> rbind (validate_stream stem) (\<lambda>_. Inr stem))"

definition validate_json_file :: "string \<Rightarrow> string \<Rightarrow> EventFsError + unit" where
  "validate_json_file value label =
     (if ends_with ''.json'' value
      then rbind (validate_component value) (\<lambda>_. validate_kv_key value)
      else Inl (invalid_path (label @ '' must end in .json'')))"

definition parse_file_name :: "string \<Rightarrow> EventFsError + StreamSubject" where
  "parse_file_name name =
     rbind (parse_stream_subject_file_name name) (\<lambda>subject.
       rbind (validate_subject subject) (\<lambda>_. Inr subject))"

section \<open>The parser\<close>

definition parse_kv_revision_marker :: "string \<Rightarrow> EventFsError + u64 option" where
  "parse_kv_revision_marker value =
     (case strip_prefix ''@'' value of
        None \<Rightarrow> Inr None
      | Some revision \<Rightarrow>
          (if revision = []
           then Inl (invalid_path ''kv history revision marker must include a revision'')
           else map_ok Some
             (ok_or (invalid_path ''kv history revision must be numeric'') (parse_u64 revision))))"

definition parse_kv_history :: "string \<Rightarrow> string list \<Rightarrow> EventFsError + JetStreamPath" where
  "parse_kv_history bucket rest =
     rbind (validate_bucket bucket) (\<lambda>_.
       if rest = [] then Inr (KvHistoryRoot bucket)
       else rbind (parse_kv_revision_marker (last rest)) (\<lambda>marker.
         case marker of
           Some revision \<Rightarrow>
             (if length rest = 1
              then Inl (invalid_path ''kv history revision paths require a key'')
              else rbind (join_kv_key (butlast rest)) (\<lambda>key. Inr (KvRevision bucket key revision)))
         | None \<Rightarrow> rbind (join_kv_key rest) (\<lambda>key. Inr (KvHistoryKey bucket key))))"

definition parse_agent_area :: "string \<Rightarrow> string \<Rightarrow> string list \<Rightarrow> EventFsError + JetStreamPath" where
  "parse_agent_area agent area rest =
     rbind (validate_materialized_root_name agent ''agent'') (\<lambda>_.
     rbind (ok_or (invalid_path ''unknown agent area'') (AgentArea_parse area)) (\<lambda>area.
       if is_mailbox area then
         (if rest = [] then Inr (AgentMailbox agent area)
          else Inl (invalid_path ''agent mailbox paths are JSONL files, not directories''))
       else
         (if rest = [] then Inr (AgentDirectory agent area)
          else rbind (join_kv_key rest) (\<lambda>path. Inr (AgentRecord agent area path)))))"

definition unsupported_mount_path :: "EventFsError + JetStreamPath" where
  "unsupported_mount_path = Inl (invalid_path ''unsupported mount path'')"

definition parse_kv :: "string list \<Rightarrow> EventFsError + JetStreamPath" where
  "parse_kv cs =
     (case cs of
        [] \<Rightarrow> Inr KvRoot
      | [bucket] \<Rightarrow> rbind (validate_bucket bucket) (\<lambda>_. Inr (KvBucket bucket))
      | bucket # sub # rest \<Rightarrow>
          (if sub = ''.history'' then
             (if rest = [] then rbind (validate_bucket bucket) (\<lambda>_. Inr (KvHistoryRoot bucket))
              else parse_kv_history bucket rest)
           else rbind (validate_bucket bucket) (\<lambda>_.
             rbind (join_kv_key (sub # rest)) (\<lambda>key. Inr (KvKey bucket key)))))"

definition parse_streams :: "string list \<Rightarrow> EventFsError + JetStreamPath" where
  "parse_streams cs =
     (case cs of
        [] \<Rightarrow> Inr StreamsRoot
      | [stream] \<Rightarrow> rbind (validate_stream stream) (\<lambda>_. Inr (StreamRoot stream))
      | [stream, sub] \<Rightarrow>
          (if sub = ''messages'' then rbind (validate_stream stream) (\<lambda>_. Inr (StreamMessages stream))
           else if sub = ''subjects'' then rbind (validate_stream stream) (\<lambda>_. Inr (StreamSubjects stream))
           else unsupported_mount_path)
      | [stream, sub, leaf] \<Rightarrow>
          (if sub = ''messages'' then
             rbind (validate_stream stream) (\<lambda>_.
               rbind (parse_sequence_file leaf) (\<lambda>sequence. Inr (StreamMessage stream sequence)))
           else if sub = ''subjects'' then
             rbind (validate_stream stream) (\<lambda>_.
               rbind (parse_file_name leaf) (\<lambda>subject. Inr (StreamSubject stream subject)))
           else unsupported_mount_path)
      | _ \<Rightarrow> unsupported_mount_path)"

definition parse_objects :: "string list \<Rightarrow> EventFsError + JetStreamPath" where
  "parse_objects cs =
     (case cs of
        [] \<Rightarrow> Inr ObjectsRoot
      | [bucket] \<Rightarrow> rbind (validate_bucket bucket) (\<lambda>_. Inr (ObjectBucket bucket))
      | bucket # rest \<Rightarrow> rbind (validate_bucket bucket) (\<lambda>_.
          rbind (join_path rest) (\<lambda>obj. Inr (Object bucket obj))))"

definition parse_events :: "string list \<Rightarrow> EventFsError + JetStreamPath" where
  "parse_events cs =
     (case cs of
        [] \<Rightarrow> Inr EventsRoot
      | [event_file] \<Rightarrow>
          rbind (parse_jsonl_stem event_file ''event files'') (\<lambda>stream. Inr (EventLog stream))
      | _ \<Rightarrow> unsupported_mount_path)"

definition parse_tasks :: "string list \<Rightarrow> EventFsError + JetStreamPath" where
  "parse_tasks cs =
     (case cs of
        [] \<Rightarrow> Inr TasksRoot
      | [namespace] \<Rightarrow>
          rbind (validate_materialized_root_name namespace ''task namespace'') (\<lambda>_.
            Inr (TaskNamespace namespace))
      | [namespace, task] \<Rightarrow>
          rbind (validate_materialized_root_name namespace ''task namespace'') (\<lambda>_.
            rbind (validate_json_file task ''task files'') (\<lambda>_. Inr (Task namespace task)))
      | _ \<Rightarrow> unsupported_mount_path)"

definition parse_agents :: "string list \<Rightarrow> EventFsError + JetStreamPath" where
  "parse_agents cs =
     (case cs of
        [] \<Rightarrow> Inr AgentsRoot
      | [agent] \<Rightarrow> rbind (validate_materialized_root_name agent ''agent'') (\<lambda>_. Inr (AgentRoot agent))
      | agent # area # rest \<Rightarrow> parse_agent_area agent area rest)"

definition parse_semantic :: "string list \<Rightarrow> EventFsError + JetStreamPath" where
  "parse_semantic cs =
     (case cs of
        [] \<Rightarrow> Inr SemanticRoot
      | [area] \<Rightarrow>
          rbind (ok_or (invalid_path ''unknown semantic area'') (SemanticArea_parse area)) (\<lambda>area.
            Inr (SemanticArea area))
      | area # rest \<Rightarrow>
          rbind (ok_or (invalid_path ''unknown semantic area'') (SemanticArea_parse area)) (\<lambda>area.
            rbind (join_kv_key rest) (\<lambda>path. Inr (SemanticRecord area path))))"

definition parse_metadata :: "string list \<Rightarrow> EventFsError + JetStreamPath" where
  "parse_metadata cs =
     (case cs of
        [] \<Rightarrow> Inr MetadataRoot
      | [file] \<Rightarrow>
          ok_or (invalid_path ''unknown metadata file'')
            (map_option MetadataFile (MetadataFile_parse file))
      | _ \<Rightarrow> unsupported_mount_path)"

definition parse_components :: "string list \<Rightarrow> EventFsError + JetStreamPath" where
  "parse_components cs =
     (case cs of
        [] \<Rightarrow> Inr Root
      | root # rest \<Rightarrow>
          (if root = ''kv'' then parse_kv rest
           else if root = ''streams'' then parse_streams rest
           else if root = ''objects'' then parse_objects rest
           else if root = ''events'' then parse_events rest
           else if root = ''tasks'' then parse_tasks rest
           else if root = ''agents'' then parse_agents rest
           else if root = ''semantic'' then parse_semantic rest
           else if root = ''.eventfs'' then parse_metadata rest
           else unsupported_mount_path))"

definition parse :: "string \<Rightarrow> EventFsError + JetStreamPath" where
  "parse path = rbind (components path) parse_components"

fun is_directory :: "JetStreamPath \<Rightarrow> bool" where
  "is_directory Root = True"
| "is_directory KvRoot = True"
| "is_directory (KvBucket _) = True"
| "is_directory (KvHistoryRoot _) = True"
| "is_directory (KvHistoryKey _ _) = True"
| "is_directory StreamsRoot = True"
| "is_directory (StreamRoot _) = True"
| "is_directory (StreamMessages _) = True"
| "is_directory (StreamSubjects _) = True"
| "is_directory ObjectsRoot = True"
| "is_directory (ObjectBucket _) = True"
| "is_directory EventsRoot = True"
| "is_directory TasksRoot = True"
| "is_directory (TaskNamespace _) = True"
| "is_directory AgentsRoot = True"
| "is_directory (AgentRoot _) = True"
| "is_directory (AgentDirectory _ _) = True"
| "is_directory SemanticRoot = True"
| "is_directory (SemanticArea _) = True"
| "is_directory MetadataRoot = True"
| "is_directory _ = False"

lemmas validate_defs [path_defs] =
  validate_token_def validate_bucket_def validate_stream_def validate_name_def
  validate_materialized_root_name_def validate_component_def validate_kv_key_def
  validate_subject_def validate_json_file_def

lemmas parse_root_defs [path_defs] =
  parse_kv_def parse_streams_def parse_objects_def parse_events_def parse_tasks_def
  parse_agents_def parse_semantic_def parse_metadata_def unsupported_mount_path_def

lemmas parse_leaf_defs [path_defs] =
  parse_kv_history_def parse_kv_revision_marker_def parse_agent_area_def parse_sequence_file_def
  parse_jsonl_stem_def parse_file_name_def join_path_def join_kv_key_def

end
