(* ===== verification/Path_Wf.thy ===== *)
theory Path_Wf
  imports Paths
begin

text \<open>
  What the path parser guarantees: every component it hands on is clean, every error it
  reports is \<open>EINVAL\<close>, and every value it returns satisfies \<open>wf_path\<close>. The lemmas on keys
  show that no parsed path names a reserved internal KV key.
\<close>

abbreviation slash :: char where
  "slash \<equiv> CHR ''/''"

definition clean_component :: "string \<Rightarrow> bool" where
  "clean_component c \<longleftrightarrow> c \<noteq> [] \<and> c \<noteq> ''.'' \<and> c \<noteq> ''..'' \<and> nul \<notin> set c \<and> slash \<notin> set c"

definition valid_token :: "string \<Rightarrow> bool" where
  "valid_token s \<longleftrightarrow> s \<noteq> [] \<and> list_all token_char s"

definition valid_root_name :: "string \<Rightarrow> bool" where
  "valid_root_name s \<longleftrightarrow> valid_token s \<and> \<not> is_reserved_kv_key s"

text \<open>A joined object path: every slash-separated piece passes \<open>validate_component\<close>.\<close>

definition valid_object_path :: "string \<Rightarrow> bool" where
  "valid_object_path s \<longleftrightarrow> list_all (\<lambda>c. validate_component c = Inr ()) (split_on slash s)"

definition valid_kv_path :: "string \<Rightarrow> bool" where
  "valid_kv_path s \<longleftrightarrow> valid_object_path s \<and> validate_kv_key s = Inr ()"

definition valid_subject :: "string \<Rightarrow> bool" where
  "valid_subject s \<longleftrightarrow> valid_utf8 s \<and> validate_subject s = Inr ()"

definition valid_task_file :: "string \<Rightarrow> bool" where
  "valid_task_file s \<longleftrightarrow> valid_kv_path s \<and> slash \<notin> set s \<and> ends_with ''.json'' s"

fun wf_path :: "JetStreamPath \<Rightarrow> bool" where
  "wf_path (KvBucket bucket) = valid_token bucket"
| "wf_path (KvKey bucket key) = (valid_token bucket \<and> valid_kv_path key)"
| "wf_path (KvHistoryRoot bucket) = valid_token bucket"
| "wf_path (KvHistoryKey bucket key) = (valid_token bucket \<and> valid_kv_path key)"
| "wf_path (KvRevision bucket key _) = (valid_token bucket \<and> valid_kv_path key)"
| "wf_path (StreamRoot stream) = valid_token stream"
| "wf_path (StreamMessages stream) = valid_token stream"
| "wf_path (StreamMessage stream _) = valid_token stream"
| "wf_path (StreamSubjects stream) = valid_token stream"
| "wf_path (StreamSubject stream subject) = (valid_token stream \<and> valid_subject subject)"
| "wf_path (ObjectBucket bucket) = valid_token bucket"
| "wf_path (Object bucket obj) = (valid_token bucket \<and> valid_object_path obj)"
| "wf_path (EventLog stream) = valid_token stream"
| "wf_path (TaskNamespace namespace) = valid_root_name namespace"
| "wf_path (Task namespace task) = (valid_root_name namespace \<and> valid_task_file task)"
| "wf_path (AgentRoot agent) = valid_root_name agent"
| "wf_path (AgentMailbox agent area) = (valid_root_name agent \<and> is_mailbox area)"
| "wf_path (AgentDirectory agent area) = (valid_root_name agent \<and> \<not> is_mailbox area)"
| "wf_path (AgentRecord agent area path) =
     (valid_root_name agent \<and> \<not> is_mailbox area \<and> valid_kv_path path)"
| "wf_path (SemanticRecord area path) = valid_kv_path path"
| "wf_path _ = True"

definition slash_free :: "string list \<Rightarrow> bool" where
  "slash_free cs \<longleftrightarrow> list_all (\<lambda>c. slash \<notin> set c) cs"

lemma slash_free_simps [simp]:
  "slash_free []"
  "slash_free (c # cs) \<longleftrightarrow> slash \<notin> set c \<and> slash_free cs"
  "slash_free (cs @ ds) \<longleftrightarrow> slash_free cs \<and> slash_free ds"
  "slash_free (split_on slash s)"
  by (auto simp: slash_free_def list_all_iff dest: split_on_no_delim)

lemma slash_free_butlast [simp]: "slash_free cs \<Longrightarrow> slash_free (butlast cs)"
  by (auto simp: slash_free_def list_all_iff dest: in_set_butlastD)

lemma split_join_slash_free: "cs \<noteq> [] \<Longrightarrow> slash_free cs \<Longrightarrow> split_on slash (join_with slash cs) = cs"
  by (rule split_join) (auto simp: slash_free_def list_all_iff)

section \<open>Validators\<close>

lemma validate_token_iff: "validate_token s label = Inr u \<longleftrightarrow> valid_token s"
  by (simp add: validate_token_def valid_token_def)

lemma validate_bucket_iff [simp]: "validate_bucket s = Inr u \<longleftrightarrow> valid_token s"
  by (simp add: validate_bucket_def validate_token_iff)

lemma validate_stream_iff [simp]: "validate_stream s = Inr u \<longleftrightarrow> valid_token s"
  by (simp add: validate_stream_def validate_token_iff)

lemma validate_root_name_iff [simp]:
  "validate_materialized_root_name s label = Inr u \<longleftrightarrow> valid_root_name s"
  by (auto simp: validate_materialized_root_name_def validate_name_def validate_token_iff
      valid_root_name_def)

lemma validate_component_iff:
  "validate_component c = Inr u \<longleftrightarrow> c \<noteq> [] \<and> hd c \<noteq> CHR ''.'' \<and> nul \<notin> set c"
  by (cases c) (auto simp: validate_component_def)

lemma token_char_not:
  "token_char c \<Longrightarrow> c \<noteq> slash" "token_char c \<Longrightarrow> c \<noteq> CHR ''.''" "token_char c \<Longrightarrow> c \<noteq> nul"
  "token_char c \<Longrightarrow> of_char c < (128 :: nat)"
  by (auto simp: token_char_def ascii_defs nul_def)

lemma valid_token_chars: "valid_token s \<Longrightarrow> c \<in> set s \<Longrightarrow> token_char c"
  by (auto simp: valid_token_def list_all_iff)

lemma valid_token_clean:
  assumes "valid_token s"
  shows "clean_component s" "slash \<notin> set s" "CHR ''.'' \<notin> set s" "s \<noteq> []"
proof -
  show "slash \<notin> set s" "CHR ''.'' \<notin> set s"
    using valid_token_chars [OF assms] token_char_not by blast+
  moreover have "nul \<notin> set s"
    using valid_token_chars [OF assms] token_char_not by blast
  moreover show "s \<noteq> []" using assms by (simp add: valid_token_def)
  ultimately show "clean_component s" by (auto simp: clean_component_def)
qed

lemma valid_root_name_token: "valid_root_name s \<Longrightarrow> valid_token s"
  by (simp add: valid_root_name_def)

lemma clean_component_if_validated:
  "validate_component c = Inr u \<Longrightarrow> slash \<notin> set c \<Longrightarrow> clean_component c"
  by (auto simp: validate_component_iff clean_component_def)

lemma join_path_iff:
  assumes "slash_free parts"
  shows "join_path parts = Inr s \<longleftrightarrow>
    parts \<noteq> [] \<and> s = join_with slash parts \<and> valid_object_path s"
  using assms
  by (cases "parts = []")
    (auto simp: join_path_def valid_object_path_def list_all_iff split_join_slash_free)

lemma join_kv_key_iff:
  assumes "slash_free parts"
  shows "join_kv_key parts = Inr s \<longleftrightarrow>
    parts \<noteq> [] \<and> s = join_with slash parts \<and> valid_kv_path s"
  using assms by (auto simp: join_kv_key_def join_path_iff valid_kv_path_def)

lemma join_kv_key_split [simp]:
  "valid_kv_path s \<Longrightarrow> join_kv_key (split_on slash s) = Inr s"
  by (simp add: join_kv_key_iff)

lemma join_path_split [simp]:
  "valid_object_path s \<Longrightarrow> join_path (split_on slash s) = Inr s"
  by (simp add: join_path_iff)

lemma valid_object_path_clean:
  "valid_object_path s \<Longrightarrow> c \<in> set (split_on slash s) \<Longrightarrow> clean_component c"
  by (auto simp: valid_object_path_def list_all_iff intro: clean_component_if_validated
      dest: split_on_no_delim)

lemma valid_kv_path_object: "valid_kv_path s \<Longrightarrow> valid_object_path s"
  by (simp add: valid_kv_path_def)

lemma valid_kv_path_not_reserved: "valid_kv_path s \<Longrightarrow> \<not> is_reserved_kv_key s"
  by (simp add: valid_kv_path_def validate_kv_key_def split: if_splits)

lemma valid_kv_path_no_at:
  assumes "valid_kv_path s"
  shows "CHR ''@'' \<notin> set s"
proof -
  have "list_all kv_key_char s"
    using assms by (simp add: valid_kv_path_def validate_kv_key_def split: if_splits)
  then show ?thesis by (auto simp: list_all_iff kv_key_char_def ascii_defs)
qed

lemma valid_subject_no_nul:
  assumes "valid_subject s"
  shows "nul \<notin> set s"
proof
  assume "nul \<in> set s"
  then have "of_char nul \<in> set (chars s)"
    using assms chars_ascii_member [of s nul] by (simp add: valid_subject_def nul_def)
  moreover have "is_control (of_char nul)" by (simp add: is_control_def nul_def)
  ultimately show False
    using assms by (auto simp: valid_subject_def validate_subject_def list_ex_iff split: if_splits)
qed

section \<open>Components\<close>

lemma components_clean:
  assumes "components s = Inr cs" "c \<in> set cs"
  shows "clean_component c"
proof -
  from assms have nonul: "nul \<notin> set s" and cs: "cs = split_on slash (trim_matches slash s)"
    and ok: "c \<noteq> []" "c \<noteq> ''.''" "c \<noteq> ''..''"
    by (auto simp: components_def Let_def list_ex_iff split: if_splits)
  have "set (join_with slash cs) \<subseteq> set s"
  proof -
    have "set (trim_matches slash s) \<subseteq> set s"
      unfolding trim_matches_def by (metis set_dropWhileD set_rev subsetI)
    then show ?thesis by (simp add: cs)
  qed
  moreover have "set c \<subseteq> set (join_with slash cs)"
    using assms(2) by (rule set_piece_of_join)
  ultimately have "nul \<notin> set c" using nonul by blast
  moreover have "slash \<notin> set c"
    using assms(2) unfolding cs by (rule split_on_no_delim)
  ultimately show ?thesis using ok by (simp add: clean_component_def)
qed

lemma clean_component_slash: "clean_component c \<Longrightarrow> slash \<notin> set c"
  by (simp add: clean_component_def)

lemma components_of_joined:
  assumes clean: "\<And>c. c \<in> set cs \<Longrightarrow> clean_component c"
  shows "components (slash # join_with slash cs) = Inr cs"
proof (cases "cs = []")
  case True
  then show ?thesis by (simp add: components_def nul_def Let_def)
next
  case False
  let ?j = "join_with slash cs"
  have split: "split_on slash ?j = cs"
    using False clean by (auto intro!: split_join simp: clean_component_slash)
  have nonul: "nul \<notin> set ?j"
    using set_join_with [of slash cs] clean by (auto simp: clean_component_def nul_def)
  have "?j \<noteq> []"
    using False clean by (subst join_with_eq_Nil_iff) (auto simp: clean_component_def)
  moreover have "hd ?j = hd (hd cs)"
  proof -
    obtain c ds where cs: "cs = c # ds" using False by (cases cs) auto
    moreover have "c \<noteq> []" using clean [of c] cs by (auto simp: clean_component_def)
    ultimately show ?thesis by (cases ds) auto
  qed
  moreover have "last ?j = last (last cs)"
  proof -
    obtain ds c where cs: "cs = ds @ [c]" using False by (metis append_butlast_last_id)
    moreover have "c \<noteq> []" using clean [of c] cs by (auto simp: clean_component_def)
    ultimately show ?thesis by (cases "ds = []") (auto simp: join_with_append)
  qed
  moreover have "hd (hd cs) \<noteq> slash" "last (last cs) \<noteq> slash"
    using False clean [of "hd cs"] clean [of "last cs"]
    by (auto simp: clean_component_def dest: hd_in_set last_in_set)
  ultimately have "trim_matches slash ?j = ?j" by (simp add: trim_matches_id)
  with split nonul \<open>?j \<noteq> []\<close> clean show ?thesis
    by (auto simp: components_def Let_def list_ex_iff clean_component_def nul_def)
qed

section \<open>What the parser returns\<close>

lemma parse_agent_area_wf:
  "parse_agent_area agent area rest = Inr p \<Longrightarrow> slash_free rest \<Longrightarrow> wf_path p"
  by (auto simp: parse_agent_area_def join_kv_key_iff split: if_splits)

lemma parse_kv_history_wf:
  "parse_kv_history bucket rest = Inr p \<Longrightarrow> slash_free rest \<Longrightarrow> wf_path p"
  by (auto simp: parse_kv_history_def join_kv_key_iff split: if_splits option.splits)

lemma parse_file_name_valid: "parse_file_name leaf = Inr s \<Longrightarrow> valid_subject s"
  by (auto simp: parse_file_name_def valid_subject_def dest: parse_subject_file_name_result)

lemma validate_json_file_task:
  "validate_json_file task label = Inr u \<Longrightarrow> slash \<notin> set task \<Longrightarrow> valid_task_file task"
  by (auto simp: validate_json_file_def valid_task_file_def valid_kv_path_def valid_object_path_def
      split: if_splits)

lemma parse_kv_wf: "parse_kv cs = Inr p \<Longrightarrow> slash_free cs \<Longrightarrow> wf_path p"
  by (auto simp: parse_kv_def join_kv_key_iff parse_kv_history_wf split: list.splits if_splits)

lemma parse_streams_wf: "parse_streams cs = Inr p \<Longrightarrow> wf_path p"
  by (auto simp: parse_streams_def unsupported_mount_path_def parse_file_name_valid
      split: list.splits if_splits)

lemma parse_objects_wf: "parse_objects cs = Inr p \<Longrightarrow> slash_free cs \<Longrightarrow> wf_path p"
  by (auto simp: parse_objects_def join_path_iff split: list.splits)

lemma parse_events_wf: "parse_events cs = Inr p \<Longrightarrow> wf_path p"
  by (auto simp: parse_events_def unsupported_mount_path_def parse_jsonl_stem_def
      split: list.splits option.splits)

lemma parse_tasks_wf: "parse_tasks cs = Inr p \<Longrightarrow> slash_free cs \<Longrightarrow> wf_path p"
  by (auto simp: parse_tasks_def unsupported_mount_path_def validate_json_file_task
      split: list.splits)

lemma parse_agents_wf: "parse_agents cs = Inr p \<Longrightarrow> slash_free cs \<Longrightarrow> wf_path p"
  by (auto simp: parse_agents_def parse_agent_area_wf split: list.splits)

lemma parse_semantic_wf: "parse_semantic cs = Inr p \<Longrightarrow> slash_free cs \<Longrightarrow> wf_path p"
  by (auto simp: parse_semantic_def join_kv_key_iff split: list.splits)

lemma parse_metadata_wf: "parse_metadata cs = Inr p \<Longrightarrow> wf_path p"
  by (auto simp: parse_metadata_def unsupported_mount_path_def split: list.splits)

lemmas parse_root_wf =
  parse_kv_wf parse_streams_wf parse_objects_wf parse_events_wf parse_tasks_wf parse_agents_wf
  parse_semantic_wf parse_metadata_wf

lemma parse_components_wf: "parse_components cs = Inr p \<Longrightarrow> slash_free cs \<Longrightarrow> wf_path p"
  by (auto simp: parse_components_def unsupported_mount_path_def parse_root_wf
      split: list.splits if_splits)

lemma components_slash_free: "components s = Inr cs \<Longrightarrow> slash_free cs"
  by (auto simp: slash_free_def list_all_iff dest: components_clean clean_component_slash)

lemma parse_wf: "parse s = Inr p \<Longrightarrow> wf_path p"
  by (auto simp: parse_def intro: parse_components_wf dest: components_slash_free)

lemma parse_joined:
  "(\<And>c. c \<in> set cs \<Longrightarrow> clean_component c) \<Longrightarrow>
    parse (slash # join_with slash cs) = parse_components cs"
  by (simp add: parse_def components_of_joined)

end
