(* ===== verification/Subjects.thy ===== *)
theory Subjects
  imports Path_Wf
begin

text \<open>
  \<open>eventfs-protocol/src/subjects.rs\<close>: where the materialized surfaces (event logs, tasks,
  agents, semantic records) live in JetStream.
\<close>

definition TASKS_BUCKET :: string where
  "TASKS_BUCKET = ''EVENTFS_TASKS''"

definition AGENTS_BUCKET :: string where
  "AGENTS_BUCKET = ''EVENTFS_AGENTS''"

definition AGENTS_STREAM :: string where
  "AGENTS_STREAM = ''EVENTFS_AGENTS''"

definition SEMANTIC_BUCKET :: string where
  "SEMANTIC_BUCKET = ''EVENTFS_SEMANTIC''"

lemmas bucket_defs = TASKS_BUCKET_def AGENTS_BUCKET_def AGENTS_STREAM_def SEMANTIC_BUCKET_def

datatype MaterializedTarget =
    Kv string string
  | Stream string string

record AgentSubject =
  as_stream :: string
  as_subject :: string

definition agent_subject :: "string \<Rightarrow> AgentArea \<Rightarrow> AgentSubject option" where
  "agent_subject agent area =
     (if \<not> is_mailbox area then None
      else Some \<lparr>as_stream = AGENTS_STREAM,
                 as_subject = ''agents.'' @ agent @ ''.'' @ AgentArea_as_str area\<rparr>)"

definition from_path :: "JetStreamPath \<Rightarrow> MaterializedTarget option" where
  "from_path path =
     (case path of
        JetStreamPath.EventLog stream \<Rightarrow> Some (MaterializedTarget.Stream stream (''events.'' @ stream))
      | JetStreamPath.Task namespace task \<Rightarrow>
          Some (MaterializedTarget.Kv TASKS_BUCKET (namespace @ ''/'' @ task))
      | JetStreamPath.AgentMailbox agent area \<Rightarrow>
          map_option (\<lambda>subject. MaterializedTarget.Stream (as_stream subject) (as_subject subject))
            (agent_subject agent area)
      | JetStreamPath.AgentRecord agent area p \<Rightarrow>
          Some (MaterializedTarget.Kv AGENTS_BUCKET
            (agent @ ''/'' @ AgentArea_as_str area @ ''/'' @ p))
      | JetStreamPath.SemanticRecord area p \<Rightarrow>
          Some (MaterializedTarget.Kv SEMANTIC_BUCKET (SemanticArea_as_str area @ ''/'' @ p))
      | _ \<Rightarrow> None)"

section \<open>Reserved keys stay out of reach\<close>

text \<open>A key whose first slash-separated piece is not reserved, nor extends a reserved prefix
  with a dot, is itself not reserved.\<close>

lemma reserved_prefix_of_join:
  assumes "key_has_reserved_prefix (a @ ''/'' @ b) prfx" "slash \<notin> set prfx" "CHR ''.'' \<notin> set a"
    "slash \<notin> set a"
  shows "a = prfx"
proof -
  from assms(1) consider "a @ slash # b = prfx" | c where
    "a @ slash # b = prfx @ CHR ''.'' # c" | c where "a @ slash # b = prfx @ slash # c"
    by (auto simp: key_has_reserved_prefix_def starts_with_iff strip_prefix_Some_iff
        split: option.splits)
  then show ?thesis
  proof cases
    case 1
    then have "slash \<in> set prfx" by (metis in_set_conv_decomp)
    with assms(2) show ?thesis by simp
  next
    case (2 c)
    then obtain us where "a = prfx @ us \<and> us @ slash # b = CHR ''.'' # c \<or>
        a @ us = prfx \<and> slash # b = us @ CHR ''.'' # c"
      by (auto simp: append_eq_append_conv2)
    with assms(2,3) show ?thesis by (cases us) auto
  next
    case (3 c)
    then show ?thesis using append_cons_notin_inj [of a slash b prfx c] assms by simp
  qed
qed

lemma reserved_prefix_refl: "key_has_reserved_prefix p p"
  by (simp add: key_has_reserved_prefix_def)

lemma reserved_of_join:
  assumes "is_reserved_kv_key (a @ ''/'' @ b)" "CHR ''.'' \<notin> set a" "slash \<notin> set a"
  shows "is_reserved_kv_key a"
proof -
  have "a = KV_WRITEBACK_MARKER_KEY_PREFIX \<or> a = KV_APPLIED_MARKER_KEY_PREFIX"
    using assms reserved_prefix_of_join
    by (auto simp: is_reserved_kv_key_def KV_WRITEBACK_MARKER_KEY_PREFIX_def
        KV_APPLIED_MARKER_KEY_PREFIX_def)
  then show ?thesis by (auto simp: is_reserved_kv_key_def reserved_prefix_refl)
qed

lemma root_name_join_not_reserved:
  "valid_root_name a \<Longrightarrow> \<not> is_reserved_kv_key (a @ ''/'' @ b)"
  using reserved_of_join [of a b] valid_token_clean [of a]
  by (auto simp: valid_root_name_def)

lemma semantic_area_not_reserved: "\<not> is_reserved_kv_key (SemanticArea_as_str area @ ''/'' @ b)"
  by (rule root_name_join_not_reserved, cases area)
    (simp_all add: valid_root_name_def valid_token_def token_char_def ascii_defs
      is_reserved_kv_key_def key_has_reserved_prefix_def strip_prefix_def starts_with_def
      KV_WRITEBACK_MARKER_KEY_PREFIX_def KV_APPLIED_MARKER_KEY_PREFIX_def)

lemma materialized_key_not_reserved:
  "wf_path p \<Longrightarrow> from_path p = Some (MaterializedTarget.Kv bucket key) \<Longrightarrow> \<not> is_reserved_kv_key key"
  using root_name_join_not_reserved semantic_area_not_reserved
  by (auto simp: from_path_def split: JetStreamPath.splits)

end
