(* ===== verification/Plan.thy ===== *)
theory Plan
  imports Subjects
begin

text \<open>
  \<open>eventfs-protocol/src/plan.rs\<close>: which JetStream action a file operation on a typed path
  stands for, and which errno it is refused with.

  The error messages quote the path with \<open>format!("{path:?}")\<close>; the text of Rust's derived
  \<open>Debug\<close> output is the parameter \<open>dbg\<close> and no result below depends on it.
\<close>

datatype FileIntent =
    GetAttr | ReadDir | Read | Write | Create | Mkdir | Unlink | Rename JetStreamPath

datatype StaticEntryKind = Directory | File

record StaticDirectoryEntry =
  sde_name :: string
  sde_kind :: StaticEntryKind

definition sde_directory :: "string \<Rightarrow> StaticDirectoryEntry" where
  "sde_directory name = \<lparr>sde_name = name, sde_kind = Directory\<rparr>"

definition sde_file :: "string \<Rightarrow> StaticDirectoryEntry" where
  "sde_file name = \<lparr>sde_name = name, sde_kind = File\<rparr>"

text \<open>Positional arguments stand in the order of the source's fields.\<close>

datatype RenamePlan =
    Kv string string string string
  | Object string string string string

datatype RenameSurface =
    Kv | Object | Tasks | Agent AgentArea | Semantic SemanticArea

datatype JetStreamAction =
    StaticDirectory "StaticDirectoryEntry list"
  | MetadataRead MetadataFile
  | ListKvBuckets
  | EnsureKvBucket string
  | EnsureKvDirectory string string
  | ListKvPrefix string string
  | KvGet string string
  | KvPut string string
  | KvDelete string string
  | KvHistory string string
  | ListKvHistoryPrefix string string
  | KvRevision string string u64
  | ListStreams
  | ListEventLogs
  | ListAgents
  | EnsureStream string
  | ListStreamMessages string
  | ListStreamSubjects string
  | StreamMessage string u64
  | PublishJsonLines string string
  | ListObjectBuckets
  | EnsureObjectBucket string
  | EnsureObjectDirectory string string
  | ListObjectPrefix string string
  | ObjectGet string string
  | ObjectPut string string
  | ObjectDelete string string
  | MaterializedGet MaterializedTarget
  | MaterializedPut MaterializedTarget
  | MaterializedDelete MaterializedTarget
  | Rename RenamePlan
  | NoopDirectory

section \<open>The planner\<close>

definition publish_action :: "string \<Rightarrow> StreamSubject \<Rightarrow> EventFsError + JetStreamAction" where
  "publish_action stream subject = Inr (PublishJsonLines stream subject)"

definition plan_readdir ::
  "(JetStreamPath \<Rightarrow> string) \<Rightarrow> JetStreamPath \<Rightarrow> EventFsError + JetStreamAction" where
  "plan_readdir dbg path =
     (case path of
        JetStreamPath.Root \<Rightarrow> Inr (StaticDirectory (map sde_directory ROOT_DIRECTORIES))
      | JetStreamPath.KvRoot \<Rightarrow> Inr ListKvBuckets
      | JetStreamPath.KvBucket bucket \<Rightarrow> Inr (ListKvPrefix bucket [])
      | JetStreamPath.KvKey bucket key \<Rightarrow> Inr (ListKvPrefix bucket key)
      | JetStreamPath.KvHistoryRoot bucket \<Rightarrow> Inr (ListKvHistoryPrefix bucket [])
      | JetStreamPath.KvHistoryKey bucket key \<Rightarrow> Inr (KvHistory bucket key)
      | JetStreamPath.StreamsRoot \<Rightarrow> Inr ListStreams
      | JetStreamPath.StreamRoot _ \<Rightarrow>
          Inr (StaticDirectory [sde_directory ''messages'', sde_directory ''subjects''])
      | JetStreamPath.StreamMessages stream \<Rightarrow> Inr (ListStreamMessages stream)
      | JetStreamPath.StreamSubjects stream \<Rightarrow> Inr (ListStreamSubjects stream)
      | JetStreamPath.ObjectsRoot \<Rightarrow> Inr ListObjectBuckets
      | JetStreamPath.ObjectBucket bucket \<Rightarrow> Inr (ListObjectPrefix bucket [])
      | JetStreamPath.Object bucket obj \<Rightarrow> Inr (ListObjectPrefix bucket obj)
      | JetStreamPath.EventsRoot \<Rightarrow> Inr ListEventLogs
      | JetStreamPath.TasksRoot \<Rightarrow> Inr (ListKvPrefix TASKS_BUCKET [])
      | JetStreamPath.TaskNamespace namespace \<Rightarrow> Inr (ListKvPrefix TASKS_BUCKET namespace)
      | JetStreamPath.AgentsRoot \<Rightarrow> Inr ListAgents
      | JetStreamPath.AgentRoot _ \<Rightarrow>
          Inr (StaticDirectory [sde_file ''inbox'', sde_file ''outbox'',
                                sde_directory ''tasks'', sde_directory ''memory''])
      | JetStreamPath.AgentDirectory agent area \<Rightarrow>
          Inr (ListKvPrefix AGENTS_BUCKET (agent @ ''/'' @ AgentArea_as_str area))
      | JetStreamPath.SemanticRoot \<Rightarrow>
          Inr (StaticDirectory [sde_directory ''summaries'', sde_directory ''tags'',
                                sde_directory ''relations'', sde_directory ''timelines'',
                                sde_directory ''embeddings''])
      | JetStreamPath.SemanticArea area \<Rightarrow> Inr (ListKvPrefix SEMANTIC_BUCKET (SemanticArea_as_str area))
      | JetStreamPath.AgentRecord agent area p \<Rightarrow>
          Inr (ListKvPrefix AGENTS_BUCKET (agent @ ''/'' @ AgentArea_as_str area @ ''/'' @ p))
      | JetStreamPath.SemanticRecord area p \<Rightarrow>
          Inr (ListKvPrefix SEMANTIC_BUCKET (SemanticArea_as_str area @ ''/'' @ p))
      | JetStreamPath.MetadataRoot \<Rightarrow>
          Inr (StaticDirectory (map (\<lambda>f. sde_file (file_name f))
                                  [Status, Cache, Queue, Capabilities, Errors]))
      | _ \<Rightarrow> Inl (unsupported ''readdir'' (dbg path)))"

definition plan_read ::
  "(JetStreamPath \<Rightarrow> string) \<Rightarrow> JetStreamPath \<Rightarrow> EventFsError + JetStreamAction" where
  "plan_read dbg path =
     (case path of
        JetStreamPath.KvKey bucket key \<Rightarrow> Inr (KvGet bucket key)
      | JetStreamPath.KvRevision bucket key revision \<Rightarrow> Inr (JetStreamAction.KvRevision bucket key revision)
      | JetStreamPath.StreamMessage stream sequence \<Rightarrow> Inr (JetStreamAction.StreamMessage stream sequence)
      | JetStreamPath.StreamSubject stream subject \<Rightarrow> publish_action stream subject
      | JetStreamPath.Object bucket obj \<Rightarrow> Inr (ObjectGet bucket obj)
      | JetStreamPath.MetadataFile file \<Rightarrow> Inr (MetadataRead file)
      | _ \<Rightarrow> ok_or (unsupported ''read'' (dbg path)) (map_option MaterializedGet (from_path path)))"

definition plan_getattr ::
  "(JetStreamPath \<Rightarrow> string) \<Rightarrow> JetStreamPath \<Rightarrow> EventFsError + JetStreamAction" where
  "plan_getattr dbg path =
     (if is_directory path then Inr NoopDirectory else plan_read dbg path)"

text \<open>The last two arms of the source's match are \<open>plan_write_other\<close>.\<close>

definition plan_write_other ::
  "(JetStreamPath \<Rightarrow> string) \<Rightarrow> JetStreamPath \<Rightarrow> EventFsError + JetStreamAction" where
  "plan_write_other dbg path =
     (if is_directory path then Inl (Unsupported ''write'' (dbg path) EISDIR)
      else Inl (unsupported ''write'' (dbg path)))"

definition plan_write_stream ::
  "(JetStreamPath \<Rightarrow> string) \<Rightarrow> JetStreamPath \<Rightarrow> EventFsError + JetStreamAction" where
  "plan_write_stream dbg path =
     ok_or (unsupported ''write'' (dbg path))
       (Option.bind (from_path path) (\<lambda>target.
          case target of
            MaterializedTarget.Stream stream subject \<Rightarrow> Some (PublishJsonLines stream subject)
          | MaterializedTarget.Kv _ _ \<Rightarrow> None))"

definition plan_write_materialized ::
  "(JetStreamPath \<Rightarrow> string) \<Rightarrow> JetStreamPath \<Rightarrow> EventFsError + JetStreamAction" where
  "plan_write_materialized dbg path =
     ok_or (unsupported ''write'' (dbg path)) (map_option MaterializedPut (from_path path))"

definition plan_write ::
  "(JetStreamPath \<Rightarrow> string) \<Rightarrow> JetStreamPath \<Rightarrow> EventFsError + JetStreamAction" where
  "plan_write dbg path =
     (case path of
        JetStreamPath.KvKey bucket key \<Rightarrow> Inr (KvPut bucket key)
      | JetStreamPath.StreamSubject stream subject \<Rightarrow> publish_action stream subject
      | JetStreamPath.EventLog _ \<Rightarrow> plan_write_stream dbg path
      | JetStreamPath.AgentMailbox _ _ \<Rightarrow> plan_write_stream dbg path
      | JetStreamPath.Object bucket obj \<Rightarrow> Inr (ObjectPut bucket obj)
      | JetStreamPath.Task _ _ \<Rightarrow> plan_write_materialized dbg path
      | JetStreamPath.AgentRecord _ area _ \<Rightarrow>
          (if area = AgentArea.Tasks \<or> area = Memory then plan_write_materialized dbg path
           else plan_write_other dbg path)
      | JetStreamPath.SemanticRecord _ _ \<Rightarrow> plan_write_materialized dbg path
      | JetStreamPath.KvRevision _ _ _ \<Rightarrow> Inl (read_only (dbg path))
      | JetStreamPath.StreamMessage _ _ \<Rightarrow> Inl (read_only (dbg path))
      | _ \<Rightarrow> plan_write_other dbg path)"

definition plan_mkdir ::
  "(JetStreamPath \<Rightarrow> string) \<Rightarrow> JetStreamPath \<Rightarrow> EventFsError + JetStreamAction" where
  "plan_mkdir dbg path =
     (case path of
        JetStreamPath.KvBucket bucket \<Rightarrow> Inr (EnsureKvBucket bucket)
      | JetStreamPath.StreamRoot stream \<Rightarrow> Inr (EnsureStream stream)
      | JetStreamPath.StreamMessages _ \<Rightarrow> Inr NoopDirectory
      | JetStreamPath.StreamSubjects _ \<Rightarrow> Inr NoopDirectory
      | JetStreamPath.ObjectBucket bucket \<Rightarrow> Inr (EnsureObjectBucket bucket)
      | JetStreamPath.TaskNamespace _ \<Rightarrow> Inr NoopDirectory
      | JetStreamPath.AgentRoot _ \<Rightarrow> Inr NoopDirectory
      | JetStreamPath.AgentDirectory _ _ \<Rightarrow> Inr NoopDirectory
      | JetStreamPath.SemanticArea _ \<Rightarrow> Inr NoopDirectory
      | JetStreamPath.KvKey bucket key \<Rightarrow> Inr (EnsureKvDirectory bucket key)
      | JetStreamPath.Object bucket obj \<Rightarrow> Inr (EnsureObjectDirectory bucket obj)
      | _ \<Rightarrow> Inl (unsupported ''mkdir'' (dbg path)))"

definition plan_unlink_materialized ::
  "(JetStreamPath \<Rightarrow> string) \<Rightarrow> JetStreamPath \<Rightarrow> EventFsError + JetStreamAction" where
  "plan_unlink_materialized dbg path =
     ok_or (unsupported ''unlink'' (dbg path)) (map_option MaterializedDelete (from_path path))"

definition plan_unlink ::
  "(JetStreamPath \<Rightarrow> string) \<Rightarrow> JetStreamPath \<Rightarrow> EventFsError + JetStreamAction" where
  "plan_unlink dbg path =
     (case path of
        JetStreamPath.KvKey bucket key \<Rightarrow> Inr (KvDelete bucket key)
      | JetStreamPath.Object bucket obj \<Rightarrow> Inr (ObjectDelete bucket obj)
      | JetStreamPath.Task _ _ \<Rightarrow> plan_unlink_materialized dbg path
      | JetStreamPath.AgentRecord _ _ _ \<Rightarrow> plan_unlink_materialized dbg path
      | JetStreamPath.SemanticRecord _ _ \<Rightarrow> plan_unlink_materialized dbg path
      | JetStreamPath.KvRevision _ _ _ \<Rightarrow> Inl (read_only (dbg path))
      | JetStreamPath.StreamMessage _ _ \<Rightarrow> Inl (read_only (dbg path))
      | _ \<Rightarrow> Inl (unsupported ''unlink'' (dbg path)))"

definition rename_surface :: "JetStreamPath \<Rightarrow> RenameSurface option" where
  "rename_surface path =
     (case path of
        JetStreamPath.KvKey _ _ \<Rightarrow> Some RenameSurface.Kv
      | JetStreamPath.Object _ _ \<Rightarrow> Some RenameSurface.Object
      | JetStreamPath.Task _ _ \<Rightarrow> Some RenameSurface.Tasks
      | JetStreamPath.AgentRecord _ area _ \<Rightarrow> Some (RenameSurface.Agent area)
      | JetStreamPath.SemanticRecord area _ \<Rightarrow> Some (RenameSurface.Semantic area)
      | _ \<Rightarrow> None)"

definition cross_device_rename :: "(JetStreamPath \<Rightarrow> string) \<Rightarrow> JetStreamPath \<Rightarrow> EventFsError" where
  "cross_device_rename dbg path = Unsupported ''rename'' (dbg path) EXDEV"

text \<open>The wildcard arm of the source's match on \<open>(from, to)\<close>.\<close>

definition plan_rename_materialized ::
  "(JetStreamPath \<Rightarrow> string) \<Rightarrow> JetStreamPath \<Rightarrow> JetStreamPath \<Rightarrow> EventFsError + RenamePlan" where
  "plan_rename_materialized dbg src dst =
     (case from_path src of
        Some (MaterializedTarget.Kv from_bucket from_key) \<Rightarrow>
          (case from_path dst of
             Some (MaterializedTarget.Kv to_bucket to_key) \<Rightarrow>
               (if from_bucket \<noteq> to_bucket then Inl (cross_device_rename dbg src)
                else Inr (RenamePlan.Kv from_bucket from_key to_bucket to_key))
           | _ \<Rightarrow> Inl (cross_device_rename dbg src))
      | _ \<Rightarrow> Inl (cross_device_rename dbg src))"

definition plan_rename ::
  "(JetStreamPath \<Rightarrow> string) \<Rightarrow> JetStreamPath \<Rightarrow> JetStreamPath \<Rightarrow> EventFsError + JetStreamAction" where
  "plan_rename dbg src dst =
     rbind (ok_or (cross_device_rename dbg src) (rename_surface src)) (\<lambda>from_surface.
     rbind (ok_or (cross_device_rename dbg src) (rename_surface dst)) (\<lambda>to_surface.
       if from_surface \<noteq> to_surface then Inl (cross_device_rename dbg src)
       else rbind
         (case (src, dst) of
            (JetStreamPath.KvKey from_bucket from_key, JetStreamPath.KvKey to_bucket to_key) \<Rightarrow>
              (if from_bucket = to_bucket
               then Inr (RenamePlan.Kv from_bucket from_key to_bucket to_key)
               else plan_rename_materialized dbg src dst)
          | (JetStreamPath.Object from_bucket from_object, JetStreamPath.Object to_bucket to_object) \<Rightarrow>
              (if from_bucket = to_bucket
               then Inr (RenamePlan.Object from_bucket from_object to_bucket to_object)
               else plan_rename_materialized dbg src dst)
          | _ \<Rightarrow> plan_rename_materialized dbg src dst)
         (\<lambda>plan. Inr (JetStreamAction.Rename plan))))"

definition plan_operation ::
  "(JetStreamPath \<Rightarrow> string) \<Rightarrow> FileIntent \<Rightarrow> JetStreamPath \<Rightarrow> EventFsError + JetStreamAction" where
  "plan_operation dbg intent path =
     (case intent of
        GetAttr \<Rightarrow> plan_getattr dbg path
      | ReadDir \<Rightarrow> plan_readdir dbg path
      | Read \<Rightarrow> plan_read dbg path
      | Write \<Rightarrow> plan_write dbg path
      | Create \<Rightarrow> plan_write dbg path
      | Mkdir \<Rightarrow> plan_mkdir dbg path
      | Unlink \<Rightarrow> plan_unlink dbg path
      | FileIntent.Rename dst \<Rightarrow> plan_rename dbg path dst)"

lemmas planner_defs [plan_defs] =
  plan_operation_def plan_getattr_def plan_readdir_def plan_read_def plan_write_def
  plan_write_other_def plan_write_stream_def plan_write_materialized_def plan_mkdir_def
  plan_unlink_def plan_unlink_materialized_def publish_action_def from_path_def agent_subject_def

end
