(* ===== verification/Plan_Props.thy ===== *)
theory Plan_Props
  imports Plan
begin

text \<open>
  What the planner promises for every path the parser can return: attribute lookups always
  have a plan, directories can be listed, the immutable projections are never mutated,
  renames stay on one surface, and no plan touches a reserved key.
\<close>

section \<open>Actions by what they touch\<close>

text \<open>The KV entry an action reads, writes or deletes directly.\<close>

fun target_kv :: "MaterializedTarget \<Rightarrow> (string \<times> string) set" where
  "target_kv (MaterializedTarget.Kv bucket key) = {(bucket, key)}"
| "target_kv (MaterializedTarget.Stream _ _) = {}"

fun rename_kv :: "RenamePlan \<Rightarrow> (string \<times> string) set" where
  "rename_kv (RenamePlan.Kv from_bucket from_key to_bucket to_key) =
     {(from_bucket, from_key), (to_bucket, to_key)}"
| "rename_kv (RenamePlan.Object _ _ _ _) = {}"

definition action_kv_keys :: "JetStreamAction \<Rightarrow> (string \<times> string) set" where
  "action_kv_keys action =
     (case action of
        KvGet bucket key \<Rightarrow> {(bucket, key)}
      | KvPut bucket key \<Rightarrow> {(bucket, key)}
      | KvDelete bucket key \<Rightarrow> {(bucket, key)}
      | KvHistory bucket key \<Rightarrow> {(bucket, key)}
      | JetStreamAction.KvRevision bucket key _ \<Rightarrow> {(bucket, key)}
      | EnsureKvDirectory bucket key \<Rightarrow> {(bucket, key)}
      | MaterializedGet target \<Rightarrow> target_kv target
      | MaterializedPut target \<Rightarrow> target_kv target
      | MaterializedDelete target \<Rightarrow> target_kv target
      | JetStreamAction.Rename plan \<Rightarrow> rename_kv plan
      | _ \<Rightarrow> {})"

definition no_reserved :: "JetStreamAction \<Rightarrow> bool" where
  "no_reserved action \<longleftrightarrow> (\<forall>(bucket, key) \<in> action_kv_keys action. \<not> is_reserved_kv_key key)"

text \<open>Two paths are renamable into each other when they live on one surface and, for the native
  buckets, in one bucket.\<close>

definition same_surface :: "JetStreamPath \<Rightarrow> JetStreamPath \<Rightarrow> bool" where
  "same_surface src dst =
     (case src of
        JetStreamPath.KvKey b _ \<Rightarrow> (case dst of JetStreamPath.KvKey b' _ \<Rightarrow> b = b' | _ \<Rightarrow> False)
      | JetStreamPath.Object b _ \<Rightarrow> (case dst of JetStreamPath.Object b' _ \<Rightarrow> b = b' | _ \<Rightarrow> False)
      | JetStreamPath.Task _ _ \<Rightarrow> (case dst of JetStreamPath.Task _ _ \<Rightarrow> True | _ \<Rightarrow> False)
      | JetStreamPath.AgentRecord _ a _ \<Rightarrow>
          (case dst of JetStreamPath.AgentRecord _ a' _ \<Rightarrow> a = a' | _ \<Rightarrow> False)
      | JetStreamPath.SemanticRecord a _ \<Rightarrow>
          (case dst of JetStreamPath.SemanticRecord a' _ \<Rightarrow> a = a' | _ \<Rightarrow> False)
      | _ \<Rightarrow> False)"

section \<open>Planning facts per operation\<close>

lemma target_not_reserved:
  assumes "wf_path p" "from_path p = Some t" "(b, k) \<in> target_kv t"
  shows "\<not> is_reserved_kv_key k"
  using assms materialized_key_not_reserved [of p] by (cases t) auto

lemma plan_readdir_no_reserved:
  "wf_path p \<Longrightarrow> plan_readdir dbg p = Inr a \<Longrightarrow> no_reserved a"
  by (cases p) (auto simp: plan_readdir_def no_reserved_def action_kv_keys_def
      valid_kv_path_not_reserved)

lemma plan_read_no_reserved:
  "wf_path p \<Longrightarrow> plan_read dbg p = Inr a \<Longrightarrow> no_reserved a"
  using target_not_reserved [of p]
  by (cases p) (auto simp: plan_read_def no_reserved_def action_kv_keys_def publish_action_def
      valid_kv_path_not_reserved)

lemma plan_write_stream_Inr:
  "plan_write_stream dbg p = Inr a \<Longrightarrow> \<exists>stream subject. a = PublishJsonLines stream subject"
  unfolding plan_write_stream_def
  by (cases "from_path p"; cases "the (from_path p)") auto

lemma plan_write_no_reserved:
  "wf_path p \<Longrightarrow> plan_write dbg p = Inr a \<Longrightarrow> no_reserved a"
  using target_not_reserved [of p]
  by (cases p) (auto simp: plan_write_def no_reserved_def action_kv_keys_def publish_action_def
      plan_write_other_def plan_write_materialized_def valid_kv_path_not_reserved
      dest!: plan_write_stream_Inr split: if_splits)

lemma plan_mkdir_no_reserved:
  "wf_path p \<Longrightarrow> plan_mkdir dbg p = Inr a \<Longrightarrow> no_reserved a"
  by (cases p) (auto simp: plan_mkdir_def no_reserved_def action_kv_keys_def
      valid_kv_path_not_reserved)

lemma plan_unlink_no_reserved:
  "wf_path p \<Longrightarrow> plan_unlink dbg p = Inr a \<Longrightarrow> no_reserved a"
  using target_not_reserved [of p]
  by (cases p) (auto simp: plan_unlink_def no_reserved_def action_kv_keys_def
      plan_unlink_materialized_def valid_kv_path_not_reserved)

lemma rename_surface_eq:
  "rename_surface p = Some RenameSurface.Kv \<longleftrightarrow> (\<exists>b k. p = JetStreamPath.KvKey b k)"
  "rename_surface p = Some RenameSurface.Object \<longleftrightarrow> (\<exists>b n. p = JetStreamPath.Object b n)"
  "rename_surface p = Some RenameSurface.Tasks \<longleftrightarrow> (\<exists>n t. p = JetStreamPath.Task n t)"
  "rename_surface p = Some (RenameSurface.Agent area) \<longleftrightarrow>
     (\<exists>agent r. p = JetStreamPath.AgentRecord agent area r)"
  "rename_surface p = Some (RenameSurface.Semantic sarea) \<longleftrightarrow>
     (\<exists>r. p = JetStreamPath.SemanticRecord sarea r)"
  by (cases p; simp add: rename_surface_def; fail)+

text \<open>A pair of paths either has no common surface or is one of five pairs of like paths.\<close>

lemma rename_pair_cases:
  obtains (other) "rename_surface src = None \<or> rename_surface dst \<noteq> rename_surface src"
    | (kv) b k b' k' where "src = JetStreamPath.KvKey b k" "dst = JetStreamPath.KvKey b' k'"
    | (obj) b n b' n' where "src = JetStreamPath.Object b n" "dst = JetStreamPath.Object b' n'"
    | (task) n t n' t' where "src = JetStreamPath.Task n t" "dst = JetStreamPath.Task n' t'"
    | (agent) g a r g' r' where
        "src = JetStreamPath.AgentRecord g a r" "dst = JetStreamPath.AgentRecord g' a r'"
    | (semantic) a r r' where
        "src = JetStreamPath.SemanticRecord a r" "dst = JetStreamPath.SemanticRecord a r'"
proof (cases "rename_surface src = None \<or> rename_surface dst \<noteq> rename_surface src")
  case False
  then obtain f where f: "rename_surface src = Some f" "rename_surface dst = Some f" by auto
  then show ?thesis
    using kv obj task agent semantic by (cases f) (auto simp: rename_surface_eq)
qed (rule other)

lemma same_surface_pairs [simp]:
  "same_surface (JetStreamPath.KvKey b k) (JetStreamPath.KvKey b' k') \<longleftrightarrow> b = b'"
  "same_surface (JetStreamPath.Object b n) (JetStreamPath.Object b' n') \<longleftrightarrow> b = b'"
  "same_surface (JetStreamPath.Task n t) (JetStreamPath.Task n' t')"
  "same_surface (JetStreamPath.AgentRecord g a r) (JetStreamPath.AgentRecord g' a' r') \<longleftrightarrow> a = a'"
  "same_surface (JetStreamPath.SemanticRecord x r) (JetStreamPath.SemanticRecord x' r') \<longleftrightarrow> x = x'"
  by (simp_all add: same_surface_def)

lemma same_surface_rename_surface:
  "same_surface src dst \<Longrightarrow> rename_surface src \<noteq> None \<and> rename_surface dst = rename_surface src"
  by (cases src; simp add: same_surface_def; cases dst; simp add: rename_surface_def)

lemma plan_rename_pairs [simp]:
  "plan_rename dbg (JetStreamPath.KvKey b k) (JetStreamPath.KvKey b' k') =
     (if b = b' then Inr (JetStreamAction.Rename (RenamePlan.Kv b k b' k'))
      else Inl (cross_device_rename dbg (JetStreamPath.KvKey b k)))"
  "plan_rename dbg (JetStreamPath.Object b n) (JetStreamPath.Object b' n') =
     (if b = b' then Inr (JetStreamAction.Rename (RenamePlan.Object b n b' n'))
      else Inl (cross_device_rename dbg (JetStreamPath.Object b n)))"
  "plan_rename dbg (JetStreamPath.Task m t) (JetStreamPath.Task m' t') =
     Inr (JetStreamAction.Rename
       (RenamePlan.Kv TASKS_BUCKET (m @ ''/'' @ t) TASKS_BUCKET (m' @ ''/'' @ t')))"
  "plan_rename dbg (JetStreamPath.AgentRecord g a r) (JetStreamPath.AgentRecord g' a r') =
     Inr (JetStreamAction.Rename
       (RenamePlan.Kv AGENTS_BUCKET (g @ ''/'' @ AgentArea_as_str a @ ''/'' @ r)
          AGENTS_BUCKET (g' @ ''/'' @ AgentArea_as_str a @ ''/'' @ r')))"
  "plan_rename dbg (JetStreamPath.SemanticRecord x r) (JetStreamPath.SemanticRecord x r') =
     Inr (JetStreamAction.Rename
       (RenamePlan.Kv SEMANTIC_BUCKET (SemanticArea_as_str x @ ''/'' @ r)
          SEMANTIC_BUCKET (SemanticArea_as_str x @ ''/'' @ r')))"
  by (simp_all add: plan_rename_def rename_surface_def plan_rename_materialized_def from_path_def)

lemma plan_rename_other:
  assumes "rename_surface src = None \<or> rename_surface dst \<noteq> rename_surface src"
  shows "plan_rename dbg src dst = Inl (cross_device_rename dbg src)"
  using assms
  by (cases "rename_surface src"; cases "rename_surface dst") (auto simp: plan_rename_def)

lemma plan_rename_refused:
  assumes "\<not> same_surface src dst"
  shows "\<exists>m. plan_rename dbg src dst = Inl m \<and> errno m = EXDEV"
proof (cases rule: rename_pair_cases [of src dst])
  case other
  then show ?thesis by (simp only: plan_rename_other) (simp add: cross_device_rename_def)
qed (use assms in \<open>auto simp: cross_device_rename_def\<close>)

lemma plan_rename_ok:
  assumes "same_surface src dst"
  shows "is_ok (plan_rename dbg src dst)"
  using assms same_surface_rename_surface [OF assms]
  by (cases rule: rename_pair_cases [of src dst]) auto

lemma plan_rename_ok_iff: "is_ok (plan_rename dbg src dst) \<longleftrightarrow> same_surface src dst"
  using plan_rename_refused [of src dst dbg] plan_rename_ok [of src dst dbg] by fastforce

lemma plan_rename_fails: "fails_with EXDEV (plan_rename dbg src dst)"
  using plan_rename_refused [of src dst dbg] plan_rename_ok [of src dst dbg]
  by (cases "plan_rename dbg src dst") auto

lemma plan_rename_materialized_keys:
  assumes "from_path src = Some (MaterializedTarget.Kv b k)" "same_surface src dst"
  shows "\<exists>k'. from_path dst = Some (MaterializedTarget.Kv b k') \<and>
    plan_rename dbg src dst = Inr (JetStreamAction.Rename (RenamePlan.Kv b k b k'))"
  using assms same_surface_rename_surface [OF assms(2)]
  by (cases rule: rename_pair_cases [of src dst]) (auto simp: from_path_def)

lemma plan_rename_no_reserved:
  assumes "wf_path src" "wf_path dst" "plan_rename dbg src dst = Inr a"
  shows "no_reserved a"
proof (cases rule: rename_pair_cases [of src dst])
  case other
  then show ?thesis using assms(3) by (simp only: plan_rename_other) simp
qed (use assms root_name_join_not_reserved semantic_area_not_reserved in
    \<open>auto simp: no_reserved_def action_kv_keys_def valid_kv_path_not_reserved split: if_splits\<close>)

lemmas planned_no_reserved =
  plan_readdir_no_reserved plan_read_no_reserved plan_write_no_reserved plan_mkdir_no_reserved
  plan_unlink_no_reserved

lemma plan_read_of_file:
  "wf_path p \<Longrightarrow> \<not> is_directory p \<Longrightarrow> \<exists>a. plan_read dbg p = Inr a"
  by (cases p) (auto simp: plan_read_def publish_action_def from_path_def agent_subject_def)

section \<open>Properties\<close>

text \<open>C38: no plan for a parsed path, whatever the operation, reads, writes, deletes or renames a
  KV key that EventFS reserves for its own write-back and applied-operation markers.\<close>

theorem planned_actions_avoid_reserved_keys:
  assumes "parse s = Inr p" "plan_operation dbg intent p = Inr a"
    "\<And>dst. intent = FileIntent.Rename dst \<Longrightarrow> \<exists>t. parse t = Inr dst"
  shows "no_reserved a"
proof -
  have wf: "wf_path p" using assms(1) by (rule parse_wf)
  show ?thesis
  proof (cases intent)
    case (Rename dst)
    then have "wf_path dst" using assms(3) parse_wf by blast
    with wf Rename assms(2) show ?thesis
      by (simp add: plan_operation_def plan_rename_no_reserved)
  qed (use wf assms(2) in \<open>auto simp: plan_operation_def plan_getattr_def planned_no_reserved
      no_reserved_def [of NoopDirectory] action_kv_keys_def split: if_splits\<close>)
qed

theorem planned_actions_avoid_reserved_keys_witness:
  "no_reserved (MaterializedPut (MaterializedTarget.Kv ''EVENTFS_TASKS'' ''ops/run.json''))"
proof (rule planned_actions_avoid_reserved_keys)
  show "parse ''/tasks/ops/run.json'' = Inr (JetStreamPath.Task ''ops'' ''run.json'')"
    by code_simp
  show "plan_operation (\<lambda>_. []) Write (JetStreamPath.Task ''ops'' ''run.json'') =
      Inr (MaterializedPut (MaterializedTarget.Kv ''EVENTFS_TASKS'' ''ops/run.json''))"
    by code_simp
qed simp

text \<open>Every path the parser accepts has an attribute plan; listing is planned for every
  directory, and writing to or creating a directory is never planned.\<close>

lemma getattr_and_readdir_total:
  assumes "parse s = Inr p"
  shows "is_ok (plan_operation dbg GetAttr p)
    \<and> (is_directory p \<longrightarrow> is_ok (plan_operation dbg ReadDir p))
    \<and> (is_directory p \<longrightarrow> (\<exists>m. plan_operation dbg Write p = Inl m \<and> errno m = EISDIR))"
proof (intro conjI)
  show "is_ok (plan_operation dbg GetAttr p)"
    using plan_read_of_file [OF parse_wf [OF assms], of dbg]
    by (auto simp: plan_operation_def plan_getattr_def)
  show "is_directory p \<longrightarrow> is_ok (plan_operation dbg ReadDir p)"
    by (cases p) (auto simp: plan_operation_def plan_readdir_def)
  show "is_directory p \<longrightarrow> (\<exists>m. plan_operation dbg Write p = Inl m \<and> errno m = EISDIR)"
    by (cases p) (auto simp: plan_operation_def plan_write_def plan_write_other_def)
qed

text \<open>Revisions of a key and stored stream messages are immutable: writing, creating and
  unlinking them is refused with \<open>EROFS\<close>, renaming them or over them with \<open>EXDEV\<close>, and making
  them a directory is refused too.\<close>

lemma history_is_immutable:
  assumes "(\<exists>b k r. p = JetStreamPath.KvRevision b k r) \<or> (\<exists>s q. p = JetStreamPath.StreamMessage s q)"
  shows "(\<exists>m. plan_operation dbg Write p = Inl m \<and> errno m = EROFS)
    \<and> (\<exists>m. plan_operation dbg Create p = Inl m \<and> errno m = EROFS)
    \<and> (\<exists>m. plan_operation dbg Unlink p = Inl m \<and> errno m = EROFS)
    \<and> (\<exists>m. plan_operation dbg (FileIntent.Rename dst) p = Inl m \<and> errno m = EXDEV)
    \<and> (\<exists>m. plan_operation dbg (FileIntent.Rename p) src = Inl m \<and> errno m = EXDEV)
    \<and> (\<exists>m. plan_operation dbg Mkdir p = Inl m \<and> errno m = ENOTSUP)"
proof (intro conjI)
  have "\<not> same_surface p dst" "\<not> same_surface src p"
    using assms by (auto simp: rename_surface_def dest!: same_surface_rename_surface)
  then show "\<exists>m. plan_operation dbg (FileIntent.Rename dst) p = Inl m \<and> errno m = EXDEV"
    "\<exists>m. plan_operation dbg (FileIntent.Rename p) src = Inl m \<and> errno m = EXDEV"
    by (auto simp: plan_operation_def intro: plan_rename_refused)
qed (use assms in \<open>auto simp: plan_operation_def plan_write_def plan_unlink_def plan_mkdir_def\<close>)

lemma history_is_immutable_example:
  "\<exists>m. plan_operation (\<lambda>_. []) Write (JetStreamPath.KvRevision ''b'' ''k'' 3) = Inl m \<and> errno m = EROFS"
  using history_is_immutable [of "JetStreamPath.KvRevision ''b'' ''k'' 3" "\<lambda>_. []"] by blast

text \<open>A rename is planned exactly when both paths live on the same surface (and, for native
  keys and objects, in the same bucket); every refusal is \<open>EXDEV\<close>, so callers fall back to
  copy and delete. The plan names the source and the target of the two paths, in that order.\<close>

lemma rename_iff_same_surface:
  "is_ok (plan_operation dbg (FileIntent.Rename dst) src) = same_surface src dst
   \<and> fails_with EXDEV (plan_operation dbg (FileIntent.Rename dst) src)
   \<and> (from_path src = Some (MaterializedTarget.Kv b k) \<and> same_surface src dst \<longrightarrow>
       (\<exists>k'. from_path dst = Some (MaterializedTarget.Kv b k') \<and>
         plan_operation dbg (FileIntent.Rename dst) src =
           Inr (JetStreamAction.Rename (RenamePlan.Kv b k b k'))))"
  using plan_rename_materialized_keys [of src b k dst dbg]
  by (auto simp: plan_operation_def plan_rename_ok_iff plan_rename_fails)

lemma rename_iff_same_surface_example:
  "plan_operation (\<lambda>_. []) (FileIntent.Rename (JetStreamPath.Task ''ops'' ''b.json''))
     (JetStreamPath.Task ''ops'' ''a.json'') =
   Inr (JetStreamAction.Rename (RenamePlan.Kv TASKS_BUCKET ''ops/a.json'' TASKS_BUCKET ''ops/b.json''))"
  using rename_iff_same_surface [of "\<lambda>_. []" "JetStreamPath.Task ''ops'' ''b.json''"
      "JetStreamPath.Task ''ops'' ''a.json''" TASKS_BUCKET "''ops/a.json''"]
  by (simp add: from_path_def same_surface_def plan_operation_def)

end
