(* ===== verification/Mount_Paths.thy ===== *)
theory Mount_Paths
  imports Subjects
begin

text \<open>
  \<open>eventfs-protocol/src/mount_paths.rs\<close>: normalised mount paths, the storage fact behind a
  typed path, and the mount paths under which one fact is visible. The caches invalidate
  exactly these paths after a change.

  The newtype \<open>MountPath\<close> is a string; \<open>wf_mount\<close> states what its only constructors produce.
\<close>

type_synonym MountPath = string

definition validate_mount_component :: "string \<Rightarrow> EventFsError + unit" where
  "validate_mount_component component =
     (if component = [] \<or> component = ''.'' \<or> component = ''..'' \<or> nul \<in> set component
         \<or> slash \<in> set component
      then Inl (invalid_path ''invalid path component'') else Inr ())"

definition MountPath_root :: MountPath where
  "MountPath_root = ''/''"

definition from_components :: "string list \<Rightarrow> EventFsError + MountPath" where
  "from_components cs =
     (if cs = [] then Inr MountPath_root
      else rbind (try_all validate_mount_component cs) (\<lambda>_. Inr (''/'' @ join_with slash cs)))"

definition MountPath_new :: "string \<Rightarrow> EventFsError + MountPath" where
  "MountPath_new path =
     (if nul \<in> set path then Inl (invalid_path ''path contains NUL'')
      else from_components (filter (\<lambda>c. c \<noteq> []) (split_on slash path)))"

definition is_root :: "MountPath \<Rightarrow> bool" where
  "is_root m \<longleftrightarrow> m = ''/''"

definition MountPath_components :: "MountPath \<Rightarrow> string list" where
  "MountPath_components m = filter (\<lambda>c. c \<noteq> []) (split_on slash (trim_matches slash m))"

definition MountPath_parent :: "MountPath \<Rightarrow> MountPath" where
  "MountPath_parent m =
     (let cs = MountPath_components m in
        if length cs \<le> 1 then MountPath_root
        else ''/'' @ join_with slash (take (length cs - 1) cs))"

definition join_child :: "MountPath \<Rightarrow> string \<Rightarrow> EventFsError + MountPath" where
  "join_child m child =
     (if is_root m then MountPath_new (''/'' @ child) else MountPath_new (m @ ''/'' @ child))"

definition is_descendant_of :: "MountPath \<Rightarrow> MountPath \<Rightarrow> bool" where
  "is_descendant_of m root =
     (if is_root root then \<not> is_root m
      else Option.bind (strip_prefix root m) (strip_prefix ''/'') \<noteq> None)"

definition is_self_or_descendant_of :: "MountPath \<Rightarrow> MountPath \<Rightarrow> bool" where
  "is_self_or_descendant_of m root \<longleftrightarrow> m = root \<or> is_descendant_of m root"

datatype StorageFact =
    Kv string string
  | StreamSubject string string
  | Object string string

fun from_materialized_target :: "MaterializedTarget \<Rightarrow> StorageFact" where
  "from_materialized_target (MaterializedTarget.Kv bucket key) = StorageFact.Kv bucket key"
| "from_materialized_target (MaterializedTarget.Stream stream subject) =
     StorageFact.StreamSubject stream subject"

definition from_jetstream_path :: "JetStreamPath \<Rightarrow> StorageFact option" where
  "from_jetstream_path path =
     (case path of
        JetStreamPath.KvKey bucket key \<Rightarrow> Some (StorageFact.Kv bucket key)
      | JetStreamPath.StreamSubject stream subject \<Rightarrow> Some (StorageFact.StreamSubject stream subject)
      | JetStreamPath.Object bucket obj \<Rightarrow> Some (StorageFact.Object bucket obj)
      | _ \<Rightarrow> map_option from_materialized_target (from_path path))"

datatype AffectedPathReason = Exact | Ancestor | Alias | Mailbox

record AffectedPath =
  ap_path :: MountPath
  ap_reason :: AffectedPathReason

definition AffectedPath_new :: "MountPath \<Rightarrow> AffectedPathReason \<Rightarrow> AffectedPath" where
  "AffectedPath_new m reason = \<lparr>ap_path = m, ap_reason = reason\<rparr>"

section \<open>Pushing paths\<close>

text \<open>The \<open>&mut Vec\<close> parameters are threaded; a failing push drops the vector, as every caller
  returns the error with \<open>?\<close>.\<close>

definition push_unique :: "AffectedPath list \<Rightarrow> AffectedPath \<Rightarrow> AffectedPath list" where
  "push_unique paths affected =
     (if list_ex (\<lambda>candidate. ap_path candidate = ap_path affected) paths then paths
      else paths @ [affected])"

definition join_storage_path :: "string list \<Rightarrow> string option \<Rightarrow> EventFsError + MountPath" where
  "join_storage_path fixed tail =
     (case tail of
        Some t \<Rightarrow>
          (if t = [] then Inl (invalid_path ''missing path tail'')
           else from_components (fixed @ split_on slash t))
      | None \<Rightarrow> from_components fixed)"

definition push_storage_path ::
  "AffectedPath list \<Rightarrow> AffectedPathReason \<Rightarrow> string list \<Rightarrow> string option
    \<Rightarrow> EventFsError + AffectedPath list" where
  "push_storage_path paths reason fixed tail =
     rbind (join_storage_path fixed tail) (\<lambda>m. Inr (push_unique paths (AffectedPath_new m reason)))"

definition ancestor_floor :: "string list \<Rightarrow> AffectedPathReason \<Rightarrow> nat" where
  "ancestor_floor cs source_reason =
     (case cs of
        [] \<Rightarrow> length cs
      | root # _ \<Rightarrow>
          (if root = ''kv'' \<or> root = ''objects'' then 2
           else if root = ''streams'' then 3
           else if root = ''tasks'' \<or> root = ''semantic'' then 2
           else if root = ''events'' then 1
           else if root = ''agents'' \<and> source_reason = Mailbox then 1
           else if root = ''agents'' then 2
           else length cs))"

text \<open>The loop of \<open>push_ancestors\<close> over the prefix lengths \<open>lens\<close>.\<close>

fun push_ancestor_lens ::
  "string list \<Rightarrow> nat list \<Rightarrow> AffectedPath list \<Rightarrow> EventFsError + AffectedPath list" where
  "push_ancestor_lens cs [] paths = Inr paths"
| "push_ancestor_lens cs (len # lens) paths =
     rbind (from_components (take len cs)) (\<lambda>m.
       push_ancestor_lens cs lens (push_unique paths (AffectedPath_new m Ancestor)))"

definition push_ancestors ::
  "AffectedPath list \<Rightarrow> MountPath \<Rightarrow> AffectedPathReason \<Rightarrow> EventFsError + AffectedPath list" where
  "push_ancestors paths m source_reason =
     (let cs = MountPath_components m; floor = ancestor_floor cs source_reason in
        if length cs \<le> floor then Inr paths
        else push_ancestor_lens cs (rev [floor..<length cs]) paths)"

definition agent_kv_alias_parts :: "string \<Rightarrow> (string \<times> string \<times> string) option" where
  "agent_kv_alias_parts key =
     (case splitn 3 slash key of
        agent # area # rest # _ \<Rightarrow>
          (if agent \<noteq> [] \<and> area \<noteq> [] \<and> rest \<noteq> [] then Some (agent, area, rest) else None)
      | _ \<Rightarrow> None)"

definition agent_mailbox_subject_parts :: "string \<Rightarrow> (string \<times> AgentArea) option" where
  "agent_mailbox_subject_parts subject =
     (case split_on (CHR ''.'') subject of
        [root, agent, area] \<Rightarrow>
          (if root \<noteq> ''agents'' then None
           else if agent = [] \<or> is_reserved_kv_key agent then None
           else Option.bind (AgentArea_parse area) (\<lambda>area.
             if is_mailbox area then Some (agent, area) else None))
      | _ \<Rightarrow> None)"

definition push_kv_alias_paths ::
  "AffectedPath list \<Rightarrow> string \<Rightarrow> string \<Rightarrow> EventFsError + AffectedPath list" where
  "push_kv_alias_paths paths bucket key =
     (if bucket = TASKS_BUCKET then push_storage_path paths Alias [''tasks''] (Some key)
      else if bucket = AGENTS_BUCKET then
        (case agent_kv_alias_parts key of
           None \<Rightarrow> Inr paths
         | Some (agent, area, rest) \<Rightarrow>
             push_storage_path paths Alias [''agents'', agent, area] (Some rest))
      else if bucket = SEMANTIC_BUCKET then
        push_storage_path paths Alias [''semantic''] (Some key)
      else Inr paths)"

definition push_stream_alias_paths ::
  "AffectedPath list \<Rightarrow> string \<Rightarrow> string \<Rightarrow> EventFsError + AffectedPath list" where
  "push_stream_alias_paths paths stream subject =
     rbind
       (if strip_prefix ''events.'' subject = Some stream
        then push_storage_path paths Alias [''events''] (Some (stream @ ''.jsonl''))
        else Inr paths)
       (\<lambda>paths.
          if stream = AGENTS_STREAM then
            (case agent_mailbox_subject_parts subject of
               Some (agent, area) \<Rightarrow>
                 push_storage_path paths Mailbox [''agents'', agent, AgentArea_as_str area] None
             | None \<Rightarrow> Inr paths)
          else Inr paths)"

definition visible_paths :: "StorageFact \<Rightarrow> EventFsError + AffectedPath list" where
  "visible_paths sfact =
     (case sfact of
        StorageFact.Kv bucket key \<Rightarrow>
          rbind (push_storage_path [] Exact [''kv'', bucket] (Some key)) (\<lambda>paths.
            push_kv_alias_paths paths bucket key)
      | StorageFact.StreamSubject stream subject \<Rightarrow>
          rbind (push_storage_path [] Exact [''streams'', stream, ''subjects'']
              (Some (stream_subject_file_name_from_str subject))) (\<lambda>paths.
            push_stream_alias_paths paths stream subject)
      | StorageFact.Object bucket name \<Rightarrow>
          push_storage_path [] Exact [''objects'', bucket] (Some name))"

text \<open>The loop of \<open>invalidation_paths\<close> over the visible paths.\<close>

fun invalidation_loop ::
  "AffectedPath list \<Rightarrow> AffectedPath list \<Rightarrow> EventFsError + AffectedPath list" where
  "invalidation_loop paths [] = Inr paths"
| "invalidation_loop paths (affected # rest) =
     rbind (push_ancestors (push_unique paths affected) (ap_path affected) (ap_reason affected))
       (\<lambda>paths. invalidation_loop paths rest)"

definition invalidation_paths :: "StorageFact \<Rightarrow> EventFsError + AffectedPath list" where
  "invalidation_paths sfact =
     rbind (visible_paths sfact) (\<lambda>visible. invalidation_loop [] visible)"

definition prioritize_source_path ::
  "AffectedPath list \<Rightarrow> MountPath \<Rightarrow> EventFsError + AffectedPath list" where
  "prioritize_source_path paths source_path =
     (case find (\<lambda>affected. ap_path affected = source_path) paths of
        None \<Rightarrow> Inr paths
      | Some source \<Rightarrow>
          rbind (push_ancestors (push_unique [] source) (ap_path source) (ap_reason source))
            (\<lambda>reordered. Inr (foldl push_unique reordered paths)))"

definition mount_path_from_jetstream_path :: "JetStreamPath \<Rightarrow> EventFsError + MountPath" where
  "mount_path_from_jetstream_path path =
     (case path of
        JetStreamPath.Root \<Rightarrow> MountPath_new ''/''
      | JetStreamPath.KvRoot \<Rightarrow> MountPath_new ''/kv''
      | JetStreamPath.KvBucket bucket \<Rightarrow> join_storage_path [''kv'', bucket] None
      | JetStreamPath.KvKey bucket key \<Rightarrow> join_storage_path [''kv'', bucket] (Some key)
      | JetStreamPath.KvHistoryRoot bucket \<Rightarrow> join_storage_path [''kv'', bucket, ''.history''] None
      | JetStreamPath.KvHistoryKey bucket key \<Rightarrow>
          join_storage_path [''kv'', bucket, ''.history''] (Some key)
      | JetStreamPath.KvRevision bucket key revision \<Rightarrow>
          join_storage_path [''kv'', bucket, ''.history''] (Some (key @ ''/@'' @ show_u64 revision))
      | JetStreamPath.StreamsRoot \<Rightarrow> MountPath_new ''/streams''
      | JetStreamPath.StreamRoot stream \<Rightarrow> join_storage_path [''streams'', stream] None
      | JetStreamPath.StreamMessages stream \<Rightarrow> join_storage_path [''streams'', stream, ''messages''] None
      | JetStreamPath.StreamMessage stream sequence \<Rightarrow>
          join_storage_path [''streams'', stream, ''messages''] (Some (show_u64 sequence @ ''.json''))
      | JetStreamPath.StreamSubjects stream \<Rightarrow> join_storage_path [''streams'', stream, ''subjects''] None
      | JetStreamPath.StreamSubject stream subject \<Rightarrow>
          join_storage_path [''streams'', stream, ''subjects'']
            (Some (stream_subject_file_name_from_str subject))
      | JetStreamPath.ObjectsRoot \<Rightarrow> MountPath_new ''/objects''
      | JetStreamPath.ObjectBucket bucket \<Rightarrow> join_storage_path [''objects'', bucket] None
      | JetStreamPath.Object bucket obj \<Rightarrow> join_storage_path [''objects'', bucket] (Some obj)
      | JetStreamPath.EventsRoot \<Rightarrow> MountPath_new ''/events''
      | JetStreamPath.EventLog stream \<Rightarrow> join_storage_path [''events''] (Some (stream @ ''.jsonl''))
      | JetStreamPath.TasksRoot \<Rightarrow> MountPath_new ''/tasks''
      | JetStreamPath.TaskNamespace namespace \<Rightarrow> join_storage_path [''tasks'', namespace] None
      | JetStreamPath.Task namespace task \<Rightarrow> join_storage_path [''tasks'', namespace] (Some task)
      | JetStreamPath.AgentsRoot \<Rightarrow> MountPath_new ''/agents''
      | JetStreamPath.AgentRoot agent \<Rightarrow> join_storage_path [''agents'', agent] None
      | JetStreamPath.AgentMailbox agent area \<Rightarrow>
          join_storage_path [''agents'', agent, AgentArea_as_str area] None
      | JetStreamPath.AgentDirectory agent area \<Rightarrow>
          join_storage_path [''agents'', agent, AgentArea_as_str area] None
      | JetStreamPath.AgentRecord agent area p \<Rightarrow>
          join_storage_path [''agents'', agent, AgentArea_as_str area] (Some p)
      | JetStreamPath.SemanticRoot \<Rightarrow> MountPath_new ''/semantic''
      | JetStreamPath.SemanticArea area \<Rightarrow> join_storage_path [''semantic'', SemanticArea_as_str area] None
      | JetStreamPath.SemanticRecord area p \<Rightarrow>
          join_storage_path [''semantic'', SemanticArea_as_str area] (Some p)
      | JetStreamPath.MetadataRoot \<Rightarrow> MountPath_new ''/.eventfs''
      | JetStreamPath.MetadataFile file \<Rightarrow> join_storage_path [''.eventfs'', file_name file] None)"

definition invalidation_paths_for_mount_path :: "JetStreamPath \<Rightarrow> EventFsError + AffectedPath list" where
  "invalidation_paths_for_mount_path path =
     rbind (mount_path_from_jetstream_path path) (\<lambda>source_path.
       case from_jetstream_path path of
         Some sfact \<Rightarrow> rbind (invalidation_paths sfact) (\<lambda>paths. prioritize_source_path paths source_path)
       | None \<Rightarrow> push_ancestors [AffectedPath_new source_path Exact] source_path Exact)"

end
