(* ===== verification/Rust_Map.thy ===== *)
theory Rust_Map
  imports Rust_Text "HOL-Library.Product_Lexorder"
begin

text \<open>
  Rust's keyed collections. A \<open>BTreeMap\<close> is the list of its entries in key order, a
  \<open>BTreeSet\<close> the list of its elements in order; \<open>get\<close>, \<open>insert\<close>, \<open>remove\<close> and \<open>retain\<close> keep the
  order. A \<open>HashMap\<close> is modelled by the same lists: the code only iterates over one to collect
  into a set of removals or to sort the result, so the order it happens to have never shows.

  \<open>keyed_map\<close> is the contract the components rely on; it is interpreted on these lists.
\<close>

type_synonym ('k, 'v) rmap = "('k \<times> 'v) list"

definition map_get :: "('k, 'v) rmap \<Rightarrow> 'k \<Rightarrow> 'v option" where
  "map_get m k = map_of m k"

fun map_insert :: "'k::linorder \<Rightarrow> 'v \<Rightarrow> ('k, 'v) rmap \<Rightarrow> ('k, 'v) rmap" where
  "map_insert k v [] = [(k, v)]"
| "map_insert k v ((k', v') # r) =
     (if k < k' then (k, v) # (k', v') # r
      else if k = k' then (k, v) # r
      else (k', v') # map_insert k v r)"

definition map_retain :: "('k \<Rightarrow> 'v \<Rightarrow> bool) \<Rightarrow> ('k, 'v) rmap \<Rightarrow> ('k, 'v) rmap" where
  "map_retain P m = filter (\<lambda>(k, v). P k v) m"

definition map_remove :: "'k \<Rightarrow> ('k, 'v) rmap \<Rightarrow> ('k, 'v) rmap" where
  "map_remove k m = filter (\<lambda>e. fst e \<noteq> k) m"

definition map_keys :: "('k, 'v) rmap \<Rightarrow> 'k list" where
  "map_keys m = map fst m"

definition ordered :: "('k::linorder, 'v) rmap \<Rightarrow> bool" where
  "ordered m \<longleftrightarrow> sorted_wrt (<) (map fst m)"

definition set_insert :: "'k::linorder \<Rightarrow> 'k list \<Rightarrow> 'k list" where
  "set_insert x xs = insort_insert x xs"

section \<open>The contract of a keyed map\<close>

locale keyed_map =
  fixes get :: "'m \<Rightarrow> 'k \<Rightarrow> 'v option"
    and ins :: "'k \<Rightarrow> 'v \<Rightarrow> 'm \<Rightarrow> 'm"
    and del :: "'k \<Rightarrow> 'm \<Rightarrow> 'm"
    and keep :: "('k \<Rightarrow> 'v \<Rightarrow> bool) \<Rightarrow> 'm \<Rightarrow> 'm"
    and ok :: "'m \<Rightarrow> bool"
  assumes get_ins: "get (ins k v m) = (get m)(k \<mapsto> v)"
    and get_del: "get (del k m) = (get m)(k := None)"
    and get_keep: "ok m \<Longrightarrow> get (keep P m) k =
      (case get m k of Some v \<Rightarrow> if P k v then Some v else None | None \<Rightarrow> None)"
    and ok_ins: "ok m \<Longrightarrow> ok (ins k v m)"
    and ok_del: "ok m \<Longrightarrow> ok (del k m)"
    and ok_keep: "ok m \<Longrightarrow> ok (keep P m)"
begin

lemma get_keep_Some: "ok m \<Longrightarrow> get (keep P m) k = Some v \<longleftrightarrow> get m k = Some v \<and> P k v"
  by (auto simp: get_keep split: option.splits)

lemma get_keep_None: "ok m \<Longrightarrow> get (keep P m) k = None \<longleftrightarrow> (\<forall>v. get m k = Some v \<longrightarrow> \<not> P k v)"
  by (auto simp: get_keep split: option.splits)

lemma ok_fold_del: "ok m \<Longrightarrow> ok (foldl (\<lambda>m k. del k m) m ks)"
  by (induction ks arbitrary: m) (auto intro: ok_del)

lemma get_fold_del: "get (foldl (\<lambda>m k. del k m) m ks) k = (if k \<in> set ks then None else get m k)"
  by (induction ks arbitrary: m) (auto simp: get_del)

end

lemma map_of_map_insert: "map_of (map_insert k v m) = (map_of m)(k \<mapsto> v)"
proof (induction m)
  case (Cons e m)
  show ?case
  proof (cases e)
    case (Pair a b)
    with Cons show ?thesis by auto
  qed
qed auto

lemma keys_map_insert: "set (map fst (map_insert k v m)) = insert k (set (map fst m))"
  by (induction k v m rule: map_insert.induct) auto

lemma ordered_map_insert: "ordered m \<Longrightarrow> ordered (map_insert k v m)"
proof (induction k v m rule: map_insert.induct)
  case (2 k v k' v' r)
  have keys: "x = k \<or> x \<in> fst ` set r" if "x \<in> fst ` set (map_insert k v r)" for x
    using that keys_map_insert [of k v r] by auto
  from 2 show ?case
    using keys by (fastforce simp: ordered_def)
qed (simp add: ordered_def)

lemma ordered_filter: "ordered m \<Longrightarrow> ordered (filter P m)"
  by (induction m) (auto simp: ordered_def)

lemma map_of_filter_key: "map_of (filter (\<lambda>e. fst e \<noteq> k) m) = (map_of m)(k := None)"
  by (induction m) auto

lemma ordered_distinct: "ordered m \<Longrightarrow> distinct (map fst m)"
  unfolding ordered_def by (simp add: strict_sorted_iff)

lemma map_of_filter_distinct:
  "distinct (map fst m) \<Longrightarrow> map_of (filter (\<lambda>(k, v). P k v) m) k =
    (case map_of m k of Some v \<Rightarrow> if P k v then Some v else None | None \<Rightarrow> None)"
  by (induction m) (auto dest: map_of_SomeD split: option.splits, force+)

interpretation om: keyed_map map_get map_insert map_remove map_retain ordered
proof (unfold_locales, goal_cases)
  case (1 k v m)
  then show ?case unfolding map_get_def by (simp add: map_of_map_insert fun_eq_iff)
next
  case (2 k m)
  then show ?case unfolding map_get_def map_remove_def by (simp add: map_of_filter_key fun_eq_iff)
next
  case (3 m P k)
  then show ?case unfolding map_get_def map_retain_def
    by (rule map_of_filter_distinct [OF ordered_distinct])
next
  case (4 m k v)
  then show ?case by (rule ordered_map_insert)
next
  case (5 m k)
  then show ?case unfolding map_remove_def by (rule ordered_filter)
next
  case (6 m P)
  then show ?case unfolding map_retain_def by (rule ordered_filter)
qed

lemma map_get_Nil [simp]: "map_get [] k = None"
  by (simp add: map_get_def)

lemma ordered_Nil [simp]: "ordered []"
  by (simp add: ordered_def)

lemma map_get_member: "ordered m \<Longrightarrow> map_get m k = Some v \<longleftrightarrow> (k, v) \<in> set m"
  unfolding map_get_def using ordered_distinct by (metis map_of_eq_Some_iff)

lemma map_get_keys: "map_get m k \<noteq> None \<longleftrightarrow> k \<in> set (map_keys m)"
  unfolding map_get_def map_keys_def by (simp add: map_of_eq_None_iff)

lemma set_set_insert [simp]: "set (set_insert x xs) = insert x (set xs)"
  by (auto simp: set_insert_def insort_insert_key_def set_insort_key)

lemma sorted_set_insert: "sorted xs \<Longrightarrow> sorted (set_insert x xs)"
  by (simp add: set_insert_def sorted_insort_insert)

lemma distinct_set_insert: "distinct xs \<Longrightarrow> distinct (set_insert x xs)"
  by (simp add: set_insert_def distinct_insort_insert)

end
