(* ===== verification/Invalidation.thy ===== *)
theory Invalidation
  imports Mount_Paths Rust_Map
begin

text \<open>
  \<open>eventfs-transport/src/invalidation.rs\<close>: plans that say which cached paths a change makes
  stale, and the cache-entry and watch-event types of \<open>eventfs-transport/src/cache.rs\<close> they
  are computed from.
\<close>

text \<open>A \<open>SystemTime\<close> is only copied and compared; the model keeps its nanoseconds.\<close>

type_synonym SystemTime = int

record VersionStamp =
  vs_created :: SystemTime
  vs_modified :: SystemTime

definition VersionStamp_at :: "SystemTime \<Rightarrow> VersionStamp" where
  "VersionStamp_at time = \<lparr>vs_created = time, vs_modified = time\<rparr>"

datatype CacheOrigin =
    KvRevision string string u64
  | StreamSequence string u64
  | ObjectVersion string string
  | MaterializedView string
  | LocalDiagnostic

record CacheEntry =
  ce_path :: string
  ce_origin :: CacheOrigin
  ce_version :: VersionStamp
  ce_bytes :: bytes
  ce_valid :: bool

datatype WatchEvent =
    InvalidatePath MountPath
  | InvalidateAffectedPath MountPath AffectedPathReason
  | Refresh CacheEntry
  | Gap

datatype InvalidationScope = ExactEntry | Subtree | All

record InvalidationAction =
  ia_path :: MountPath
  ia_scope :: InvalidationScope

record InvalidationPlan =
  actions :: "InvalidationAction list"

definition empty_plan :: InvalidationPlan where
  "empty_plan = \<lparr>actions = []\<rparr>"

definition gap_plan :: InvalidationPlan where
  "gap_plan = \<lparr>actions = [\<lparr>ia_path = MountPath_root, ia_scope = All\<rparr>]\<rparr>"

definition exact_entry :: "MountPath \<Rightarrow> InvalidationPlan" where
  "exact_entry path = \<lparr>actions = [\<lparr>ia_path = path, ia_scope = ExactEntry\<rparr>]\<rparr>"

definition subtree :: "MountPath \<Rightarrow> InvalidationPlan" where
  "subtree path = \<lparr>actions = [\<lparr>ia_path = path, ia_scope = Subtree\<rparr>]\<rparr>"

definition for_affected_path :: "MountPath \<Rightarrow> AffectedPathReason \<Rightarrow> InvalidationPlan" where
  "for_affected_path path reason =
     (case reason of
        Ancestor \<Rightarrow> exact_entry path
      | Exact \<Rightarrow> subtree path
      | Alias \<Rightarrow> subtree path
      | Mailbox \<Rightarrow> subtree path)"

definition for_watch_event :: "WatchEvent \<Rightarrow> InvalidationPlan" where
  "for_watch_event event =
     (case event of
        InvalidatePath path \<Rightarrow> subtree path
      | InvalidateAffectedPath path reason \<Rightarrow> for_affected_path path reason
      | Refresh entry \<Rightarrow>
          (case MountPath_new (ce_path entry) of Inr path \<Rightarrow> subtree path | Inl _ \<Rightarrow> gap_plan)
      | Gap \<Rightarrow> gap_plan)"

definition push_action :: "InvalidationPlan \<Rightarrow> InvalidationAction \<Rightarrow> InvalidationPlan" where
  "push_action plan action =
     (if list_ex (\<lambda>candidate. candidate = action) (actions plan) then plan
      else plan\<lparr>actions := actions plan @ [action]\<rparr>)"

definition extend_plan :: "InvalidationPlan \<Rightarrow> InvalidationPlan \<Rightarrow> InvalidationPlan" where
  "extend_plan plan other = foldl push_action plan (actions other)"

definition from_affected_paths :: "AffectedPath list \<Rightarrow> InvalidationPlan" where
  "from_affected_paths paths =
     foldl (\<lambda>plan affected. extend_plan plan (for_affected_path (ap_path affected) (ap_reason affected)))
       empty_plan paths"

definition for_local_mutation :: "MountPath \<Rightarrow> EventFsError + InvalidationPlan" where
  "for_local_mutation path =
     rbind (parse path) (\<lambda>parsed.
     rbind (invalidation_paths_for_mount_path parsed) (\<lambda>affected.
       Inr (from_affected_paths affected)))"

definition path_matches_action :: "MountPath \<Rightarrow> InvalidationAction \<Rightarrow> bool" where
  "path_matches_action path action =
     (case ia_scope action of
        ExactEntry \<Rightarrow> path = ia_path action
      | Subtree \<Rightarrow> is_self_or_descendant_of path (ia_path action)
      | All \<Rightarrow> \<not> is_root path)"

section \<open>Plans as sets of actions\<close>

lemma set_push_action [simp]: "set (actions (push_action plan a)) = insert a (set (actions plan))"
  by (auto simp: push_action_def list_ex_iff)

lemma distinct_push_action: "distinct (actions plan) \<Longrightarrow> distinct (actions (push_action plan a))"
  by (auto simp: push_action_def list_ex_iff)

lemma set_extend_plan [simp]:
  "set (actions (extend_plan plan other)) = set (actions plan) \<union> set (actions other)"
proof -
  have "set (actions (foldl push_action plan as)) = set (actions plan) \<union> set as" for as
    by (induction as arbitrary: plan) auto
  then show ?thesis by (simp add: extend_plan_def)
qed

lemma set_from_affected_paths:
  "set (actions (from_affected_paths paths)) =
    (\<Union>a \<in> set paths. set (actions (for_affected_path (ap_path a) (ap_reason a))))"
proof -
  have "set (actions (foldl (\<lambda>plan a. extend_plan plan (for_affected_path (ap_path a) (ap_reason a)))
      plan paths)) = set (actions plan) \<union>
    (\<Union>a \<in> set paths. set (actions (for_affected_path (ap_path a) (ap_reason a))))" for plan
    by (induction paths arbitrary: plan) auto
  then show ?thesis by (simp add: from_affected_paths_def empty_plan_def)
qed

text \<open>Every affected path has one action for itself.\<close>

lemma for_affected_path_actions:
  "actions (for_affected_path m r) =
    [\<lparr>ia_path = m, ia_scope = (if r = Ancestor then ExactEntry else Subtree)\<rparr>]"
  by (cases r) (simp_all add: for_affected_path_def exact_entry_def subtree_def)

lemma self_matches: "path_matches_action m \<lparr>ia_path = m, ia_scope = (if b then ExactEntry else Subtree)\<rparr>"
  by (simp add: path_matches_action_def is_self_or_descendant_of_def)

end
