(* ===== verification/Cache.thy ===== *)
theory Cache
  imports Invalidation
begin

text \<open>
  \<open>eventfs-transport/src/cache.rs\<close>: the local cache of file contents, keyed by mount path, and
  how watch events and local mutations invalidate it.
\<close>

record LocalCache =
  lc_entries :: "(string, CacheEntry) rmap"
  lc_generation :: u64

definition LocalCache_new :: LocalCache where
  "LocalCache_new = \<lparr>lc_entries = [], lc_generation = 0\<rparr>"

definition cache_insert :: "CacheEntry \<Rightarrow> LocalCache \<Rightarrow> LocalCache" where
  "cache_insert entry cache =
     cache\<lparr>lc_entries := map_insert (ce_path entry) entry (lc_entries cache)\<rparr>"

definition cache_get :: "LocalCache \<Rightarrow> string \<Rightarrow> CacheEntry option" where
  "cache_get cache path =
     (case map_get (lc_entries cache) path of
        Some entry \<Rightarrow> if ce_valid entry then Some entry else None
      | None \<Rightarrow> None)"

definition cache_invalidate :: "string \<Rightarrow> LocalCache \<Rightarrow> LocalCache" where
  "cache_invalidate path cache = cache\<lparr>lc_entries := map_remove path (lc_entries cache)\<rparr>"

text \<open>\<open>survives action path\<close>: the closure passed to \<open>retain\<close>.\<close>

definition survives :: "InvalidationAction \<Rightarrow> string \<Rightarrow> bool" where
  "survives action path =
     (case MountPath_new path of
        Inr m \<Rightarrow> \<not> path_matches_action m action
      | Inl _ \<Rightarrow> False)"

definition apply_action :: "LocalCache \<Rightarrow> InvalidationAction \<Rightarrow> LocalCache" where
  "apply_action cache action =
     (case ia_scope action of
        All \<Rightarrow> cache\<lparr>lc_generation := saturating_add_one (lc_generation cache), lc_entries := []\<rparr>
      | ExactEntry \<Rightarrow> cache\<lparr>lc_entries := map_retain (\<lambda>path _. survives action path) (lc_entries cache)\<rparr>
      | Subtree \<Rightarrow> cache\<lparr>lc_entries := map_retain (\<lambda>path _. survives action path) (lc_entries cache)\<rparr>)"

definition apply_invalidation :: "InvalidationPlan \<Rightarrow> LocalCache \<Rightarrow> LocalCache" where
  "apply_invalidation plan cache = foldl apply_action cache (actions plan)"

definition cache_apply :: "WatchEvent \<Rightarrow> LocalCache \<Rightarrow> LocalCache" where
  "cache_apply event cache =
     (let cache = apply_invalidation (for_watch_event event) cache in
        case event of Refresh entry \<Rightarrow> cache_insert entry cache | _ \<Rightarrow> cache)"

definition generation :: "LocalCache \<Rightarrow> u64" where
  "generation cache = lc_generation cache"

definition cache_snapshot :: "LocalCache \<Rightarrow> CacheEntry list" where
  "cache_snapshot cache = sort_key ce_path (map snd (lc_entries cache))"

section \<open>Invariant\<close>

text \<open>The entries are a well-formed map and every entry is stored under its own path.\<close>

definition cache_inv :: "LocalCache \<Rightarrow> bool" where
  "cache_inv cache \<longleftrightarrow>
     ordered (lc_entries cache) \<and> list_all (\<lambda>(k, e). ce_path e = k) (lc_entries cache)"

lemma set_map_insert_subset: "set (map_insert k v m) \<subseteq> insert (k, v) (set m)"
  by (induction k v m rule: map_insert.induct) auto

lemma cache_inv_new: "cache_inv LocalCache_new"
  by (simp add: cache_inv_def LocalCache_new_def)

lemma cache_inv_insert: "cache_inv cache \<Longrightarrow> cache_inv (cache_insert e cache)"
  using set_map_insert_subset [of "ce_path e" e "lc_entries cache"]
  by (auto simp: cache_inv_def cache_insert_def list_all_iff om.ok_ins)

lemma cache_inv_filter:
  "cache_inv cache \<Longrightarrow> cache_inv (cache\<lparr>lc_entries := filter P (lc_entries cache)\<rparr>)"
  by (auto simp: cache_inv_def ordered_filter list_all_iff)

lemma cache_inv_action: "cache_inv cache \<Longrightarrow> cache_inv (apply_action cache a)"
  using cache_inv_filter [of cache]
  by (cases "ia_scope a") (auto simp: apply_action_def map_retain_def cache_inv_def)

lemma cache_inv_invalidation: "cache_inv cache \<Longrightarrow> cache_inv (apply_invalidation plan cache)"
proof -
  have "cache_inv (foldl apply_action cache as)" if "cache_inv cache" for as and cache
    using that by (induction as arbitrary: cache) (auto intro: cache_inv_action)
  then show "cache_inv cache \<Longrightarrow> ?thesis" by (simp add: apply_invalidation_def)
qed

lemma cache_inv_apply: "cache_inv cache \<Longrightarrow> cache_inv (cache_apply ev cache)"
  by (auto simp: cache_apply_def Let_def cache_inv_invalidation cache_inv_insert
      split: WatchEvent.splits)

lemma cache_inv_invalidate: "cache_inv cache \<Longrightarrow> cache_inv (cache_invalidate p cache)"
  using cache_inv_filter [of cache] by (simp add: cache_invalidate_def map_remove_def)

section \<open>What one plan does to a lookup\<close>

definition action_clears :: "string \<Rightarrow> InvalidationAction \<Rightarrow> bool" where
  "action_clears path action \<longleftrightarrow> ia_scope action = All \<or> \<not> survives action path"

lemma lookup_apply_action:
  "ordered (lc_entries cache) \<Longrightarrow>
    map_get (lc_entries (apply_action cache a)) p =
      (if action_clears p a then None else map_get (lc_entries cache) p)"
  by (cases "ia_scope a")
    (auto simp: apply_action_def action_clears_def om.get_keep split: option.splits)

lemma ordered_apply_action: "ordered (lc_entries cache) \<Longrightarrow> ordered (lc_entries (apply_action cache a))"
  by (cases "ia_scope a") (auto simp: apply_action_def intro: om.ok_keep)

lemma lookup_apply_invalidation:
  assumes "ordered (lc_entries cache)"
  shows "map_get (lc_entries (apply_invalidation plan cache)) p =
    (if \<exists>a \<in> set (actions plan). action_clears p a then None else map_get (lc_entries cache) p)"
proof -
  have "map_get (lc_entries (foldl apply_action cache as)) p =
    (if \<exists>a \<in> set as. action_clears p a then None else map_get (lc_entries cache) p)" for as
    using assms
    by (induction as arbitrary: cache) (auto simp: lookup_apply_action ordered_apply_action)
  then show ?thesis by (simp add: apply_invalidation_def)
qed

lemma get_apply_invalidation:
  assumes "cache_inv cache"
  shows "cache_get (apply_invalidation plan cache) p =
    (if \<exists>a \<in> set (actions plan). action_clears p a then None else cache_get cache p)"
  using assms lookup_apply_invalidation [of cache plan p]
  by (auto simp: cache_get_def cache_inv_def)

lemma get_insert:
  "cache_get (cache_insert e cache) p =
    (if p = ce_path e then (if ce_valid e then Some e else None) else cache_get cache p)"
  by (simp add: cache_get_def cache_insert_def om.get_ins)

lemma generation_apply_action:
  "generation (apply_action cache a) =
    (if ia_scope a = All then saturating_add_one (generation cache) else generation cache)"
  by (cases "ia_scope a") (simp_all add: apply_action_def generation_def)

end
