(* ===== verification/Mount_Props.thy ===== *)
theory Mount_Props
  imports Mount_Paths
begin

text \<open>
  Normal forms of mount paths, and the round trip between typed paths and mount paths:
  printing a parsed path and parsing the result gives the same typed path.
\<close>

abbreviation clean :: "string list \<Rightarrow> bool" where
  "clean cs \<equiv> list_all clean_component cs"

abbreviation mount_of :: "string list \<Rightarrow> MountPath" where
  "mount_of cs \<equiv> slash # join_with slash cs"

definition wf_mount :: "MountPath \<Rightarrow> bool" where
  "wf_mount m \<longleftrightarrow> clean (MountPath_components m) \<and> m = mount_of (MountPath_components m)"

section \<open>Normal forms\<close>

lemma validate_mount_component_iff [simp]:
  "validate_mount_component c = Inr u \<longleftrightarrow> clean_component c"
  by (auto simp: validate_mount_component_def clean_component_def)

lemma from_components_iff: "from_components cs = Inr m \<longleftrightarrow> clean cs \<and> m = mount_of cs"
  by (auto simp: from_components_def MountPath_root_def list_all_iff)

lemma components_mount_of: "clean cs \<Longrightarrow> components (mount_of cs) = Inr cs"
  by (rule components_of_joined) (auto simp: list_all_iff)

lemma MountPath_components_eq: "components m = Inr cs \<Longrightarrow> MountPath_components m = cs"
  by (auto simp: components_def MountPath_components_def Let_def list_ex_iff filter_eq_self_iff
      split: if_splits)

lemma MountPath_components_mount_of [simp]: "clean cs \<Longrightarrow> MountPath_components (mount_of cs) = cs"
  by (rule MountPath_components_eq) (rule components_mount_of)

lemma wf_mount_mount_of [simp]: "clean cs \<Longrightarrow> wf_mount (mount_of cs)"
  by (simp add: wf_mount_def)

lemma wf_mountE:
  assumes "wf_mount m"
  obtains cs where "clean cs" "m = mount_of cs" "MountPath_components m = cs"
  using assms by (auto simp: wf_mount_def)

lemma from_components_wf: "from_components cs = Inr m \<Longrightarrow> wf_mount m"
  by (simp add: from_components_iff)

lemma mount_of_inj: "clean cs \<Longrightarrow> clean ds \<Longrightarrow> mount_of cs = mount_of ds \<Longrightarrow> cs = ds"
  by (metis MountPath_components_mount_of)

lemma clean_not_root: "clean cs \<Longrightarrow> is_root (mount_of cs) \<longleftrightarrow> cs = []"
  using join_with_eq_Nil_iff [of cs slash]
  by (auto simp: is_root_def list_all_iff clean_component_def)

lemma filter_nonempty_split_mount:
  assumes "clean cs"
  shows "filter (\<lambda>c. c \<noteq> []) (split_on slash (mount_of cs)) = cs"
proof (cases "cs = []")
  case False
  then have "split_on slash (join_with slash cs) = cs"
    using assms by (intro split_join_slash_free)
      (auto simp: slash_free_def list_all_iff clean_component_slash)
  moreover have "filter (\<lambda>c. c \<noteq> []) cs = cs"
    using assms by (auto simp: filter_eq_self_iff list_all_iff clean_component_def)
  ultimately show ?thesis by simp
qed simp

lemma nul_notin_mount_of: "clean cs \<Longrightarrow> nul \<notin> set (mount_of cs)"
  using set_join_with [of slash cs]
  by (auto simp: list_all_iff clean_component_def nul_def)

lemma MountPath_new_mount_of: "clean cs \<Longrightarrow> MountPath_new (mount_of cs) = Inr (mount_of cs)"
  using nul_notin_mount_of [of cs] filter_nonempty_split_mount [of cs]
  by (simp add: MountPath_new_def from_components_iff)

lemma MountPath_new_wf: "MountPath_new s = Inr m \<Longrightarrow> wf_mount m"
  by (auto simp: MountPath_new_def from_components_iff split: if_splits)

lemma mount_of_append:
  assumes "cs \<noteq> []" "ds \<noteq> []"
  shows "mount_of (cs @ ds) = mount_of cs @ mount_of ds"
  using join_with_append [OF assms, of slash] by simp

lemma mount_of_append_prefix:
  assumes "clean cs" "clean ds" "cs \<noteq> []"
  shows "is_descendant_of (mount_of ds) (mount_of cs) \<longleftrightarrow> (\<exists>es. es \<noteq> [] \<and> ds = cs @ es)"
proof
  assume "is_descendant_of (mount_of ds) (mount_of cs)"
  then obtain r where r: "mount_of ds = mount_of cs @ slash # r"
    using clean_not_root [OF assms(1)] assms(3)
    by (auto simp: is_descendant_of_def strip_prefix_Some_iff bind_eq_Some_conv)
  have "cs @ filter (\<lambda>c. c \<noteq> []) (split_on slash r) =
      filter (\<lambda>c. c \<noteq> []) (split_on slash (mount_of cs @ slash # r))"
    using filter_nonempty_split_mount [OF assms(1)]
    by (simp only: split_on_append filter_append)
  then have ds: "ds = cs @ filter (\<lambda>c. c \<noteq> []) (split_on slash r)"
    using filter_nonempty_split_mount [OF assms(2)] r by simp
  have "ds \<noteq> cs" using r by auto
  with ds show "\<exists>es. es \<noteq> [] \<and> ds = cs @ es" by auto
next
  assume "\<exists>es. es \<noteq> [] \<and> ds = cs @ es"
  then obtain es where "es \<noteq> []" "ds = cs @ es" by blast
  then have "mount_of ds = mount_of cs @ slash # join_with slash es"
    using mount_of_append [OF assms(3)] by simp
  then show "is_descendant_of (mount_of ds) (mount_of cs)"
    using clean_not_root [OF assms(1)] assms(3)
    by (simp add: is_descendant_of_def strip_prefix_def)
qed

lemma is_descendant_of_components:
  assumes "clean cs" "clean ds"
  shows "is_descendant_of (mount_of ds) (mount_of cs) \<longleftrightarrow> (\<exists>es. es \<noteq> [] \<and> ds = cs @ es)"
proof (cases "cs = []")
  case True
  then show ?thesis using clean_not_root [OF assms(2)]
    by (auto simp: is_descendant_of_def is_root_def)
qed (rule mount_of_append_prefix [OF assms])

lemma is_self_or_descendant_components:
  assumes "clean cs" "clean ds"
  shows "is_self_or_descendant_of (mount_of ds) (mount_of cs) \<longleftrightarrow> (\<exists>es. ds = cs @ es)"
  using is_descendant_of_components [OF assms] mount_of_inj [OF assms(2,1)]
  by (auto simp: is_self_or_descendant_of_def)

lemma MountPath_parent_mount_of:
  assumes "clean cs"
  shows "MountPath_parent (mount_of cs) = mount_of (butlast cs)"
proof -
  have "MountPath_components (mount_of cs) = cs" using assms by simp
  moreover have "butlast cs = []" if "length cs \<le> 1"
    using that by (cases cs) auto
  ultimately show ?thesis
    by (auto simp: MountPath_parent_def Let_def MountPath_root_def butlast_conv_take)
qed

lemma join_child_mount_of:
  assumes "clean cs" "clean_component c"
  shows "join_child (mount_of cs) c = Inr (mount_of (cs @ [c]))"
proof (cases "cs = []")
  case True
  then show ?thesis using assms MountPath_new_mount_of [of "[c]"]
    by (simp add: join_child_def is_root_def)
next
  case False
  then have "mount_of (cs @ [c]) = mount_of cs @ ''/'' @ c"
    using mount_of_append [of cs "[c]"] by simp
  moreover have "clean (cs @ [c])" using assms by simp
  ultimately show ?thesis
    using MountPath_new_mount_of [of "cs @ [c]"] clean_not_root [OF assms(1)] False
    by (simp add: join_child_def)
qed

section \<open>The components of a typed path\<close>

definition path_components :: "JetStreamPath \<Rightarrow> string list" where
  "path_components path =
     (case path of
        JetStreamPath.Root \<Rightarrow> []
      | JetStreamPath.KvRoot \<Rightarrow> [''kv'']
      | JetStreamPath.KvBucket bucket \<Rightarrow> [''kv'', bucket]
      | JetStreamPath.KvKey bucket key \<Rightarrow> [''kv'', bucket] @ split_on slash key
      | JetStreamPath.KvHistoryRoot bucket \<Rightarrow> [''kv'', bucket, ''.history'']
      | JetStreamPath.KvHistoryKey bucket key \<Rightarrow> [''kv'', bucket, ''.history''] @ split_on slash key
      | JetStreamPath.KvRevision bucket key revision \<Rightarrow>
          [''kv'', bucket, ''.history''] @ split_on slash key @ [''@'' @ show_u64 revision]
      | JetStreamPath.StreamsRoot \<Rightarrow> [''streams'']
      | JetStreamPath.StreamRoot stream \<Rightarrow> [''streams'', stream]
      | JetStreamPath.StreamMessages stream \<Rightarrow> [''streams'', stream, ''messages'']
      | JetStreamPath.StreamMessage stream sequence \<Rightarrow>
          [''streams'', stream, ''messages'', show_u64 sequence @ ''.json'']
      | JetStreamPath.StreamSubjects stream \<Rightarrow> [''streams'', stream, ''subjects'']
      | JetStreamPath.StreamSubject stream subject \<Rightarrow>
          [''streams'', stream, ''subjects'', stream_subject_file_name_from_str subject]
      | JetStreamPath.ObjectsRoot \<Rightarrow> [''objects'']
      | JetStreamPath.ObjectBucket bucket \<Rightarrow> [''objects'', bucket]
      | JetStreamPath.Object bucket obj \<Rightarrow> [''objects'', bucket] @ split_on slash obj
      | JetStreamPath.EventsRoot \<Rightarrow> [''events'']
      | JetStreamPath.EventLog stream \<Rightarrow> [''events'', stream @ ''.jsonl'']
      | JetStreamPath.TasksRoot \<Rightarrow> [''tasks'']
      | JetStreamPath.TaskNamespace namespace \<Rightarrow> [''tasks'', namespace]
      | JetStreamPath.Task namespace task \<Rightarrow> [''tasks'', namespace, task]
      | JetStreamPath.AgentsRoot \<Rightarrow> [''agents'']
      | JetStreamPath.AgentRoot agent \<Rightarrow> [''agents'', agent]
      | JetStreamPath.AgentMailbox agent area \<Rightarrow> [''agents'', agent, AgentArea_as_str area]
      | JetStreamPath.AgentDirectory agent area \<Rightarrow> [''agents'', agent, AgentArea_as_str area]
      | JetStreamPath.AgentRecord agent area p \<Rightarrow>
          [''agents'', agent, AgentArea_as_str area] @ split_on slash p
      | JetStreamPath.SemanticRoot \<Rightarrow> [''semantic'']
      | JetStreamPath.SemanticArea area \<Rightarrow> [''semantic'', SemanticArea_as_str area]
      | JetStreamPath.SemanticRecord area p \<Rightarrow>
          [''semantic'', SemanticArea_as_str area] @ split_on slash p
      | JetStreamPath.MetadataRoot \<Rightarrow> [''.eventfs'']
      | JetStreamPath.MetadataFile file \<Rightarrow> [''.eventfs'', file_name file])"

lemma clean_literals [simp]:
  "clean_component ''kv''" "clean_component ''streams''" "clean_component ''objects''"
  "clean_component ''events''" "clean_component ''tasks''" "clean_component ''agents''"
  "clean_component ''semantic''" "clean_component ''.eventfs''" "clean_component ''.history''"
  "clean_component ''messages''" "clean_component ''subjects''"
  by (simp_all add: clean_component_def nul_def)

lemma clean_area_names [simp]:
  "clean_component (AgentArea_as_str a)" "clean_component (SemanticArea_as_str x)"
  "clean_component (file_name f)"
  subgoal by (cases a) (simp_all add: clean_component_def nul_def)
  subgoal by (cases x) (simp_all add: clean_component_def nul_def)
  subgoal by (cases f) (simp_all add: clean_component_def nul_def)
  done

lemma clean_show_u64:
  "clean_component (CHR ''@'' # show_u64 w)" "clean_component (show_u64 w @ ''.json'')"
proof -
  have "c \<noteq> slash \<and> c \<noteq> nul \<and> c \<noteq> CHR ''.''" if "c \<in> set (show_u64 w)" for c
    using show_u64_digits [OF that] by (auto simp: ascii_defs nul_def)
  then show "clean_component (CHR ''@'' # show_u64 w)" "clean_component (show_u64 w @ ''.json'')"
    by (auto simp: clean_component_def nul_def append_eq_Cons_conv)
qed

lemma clean_subject_file_name: "clean_component (stream_subject_file_name_from_str s)"
proof -
  have "slash \<notin> set (stream_subject_file_name_from_str s)"
    "nul \<notin> set (stream_subject_file_name_from_str s)"
    using subject_file_name_chars [of slash s] subject_file_name_chars [of nul s]
    by (auto simp: ascii_defs nul_def)
  then show ?thesis using subject_file_name_not_dots [of s] by (simp add: clean_component_def)
qed

lemma clean_token_jsonl: "valid_token s \<Longrightarrow> clean_component (s @ ''.jsonl'')"
  using valid_token_clean [of s] by (auto simp: clean_component_def append_eq_Cons_conv nul_def)

lemma clean_split_kv_path: "valid_kv_path s \<Longrightarrow> clean (split_on slash s)"
  by (auto simp: list_all_iff intro: valid_object_path_clean valid_kv_path_object)

lemma clean_split_object_path: "valid_object_path s \<Longrightarrow> clean (split_on slash s)"
  by (auto simp: list_all_iff intro: valid_object_path_clean)

lemma clean_task_file: "valid_task_file s \<Longrightarrow> clean_component s"
  using clean_split_kv_path [of s] by (auto simp: valid_task_file_def)

lemmas clean_facts =
  clean_show_u64 clean_subject_file_name clean_token_jsonl clean_split_kv_path
  clean_split_object_path clean_task_file valid_token_clean(1) valid_root_name_token

lemma path_components_clean: "wf_path p \<Longrightarrow> clean (path_components p)"
  by (cases p) (auto simp: path_components_def clean_facts)

lemma split_revision:
  "split_on slash (key @ ''/@'' @ show_u64 w) = split_on slash key @ [''@'' @ show_u64 w]"
proof -
  have "slash \<notin> set (''@'' @ show_u64 w)"
    using clean_component_slash [OF clean_show_u64(1), of w] by simp
  then show ?thesis using split_on_append [of slash key "''@'' @ show_u64 w"] by simp
qed

lemma valid_kv_path_nonempty: "valid_kv_path s \<Longrightarrow> s \<noteq> []"
  by (auto simp: valid_kv_path_def validate_kv_key_def)

lemma valid_object_path_nonempty: "valid_object_path s \<Longrightarrow> s \<noteq> []"
  by (auto simp: valid_object_path_def validate_component_def)

lemma mount_new_literals:
  "MountPath_new ''/'' = Inr (mount_of [])" "MountPath_new ''/kv'' = Inr (mount_of [''kv''])"
  "MountPath_new ''/streams'' = Inr (mount_of [''streams''])"
  "MountPath_new ''/objects'' = Inr (mount_of [''objects''])"
  "MountPath_new ''/events'' = Inr (mount_of [''events''])"
  "MountPath_new ''/tasks'' = Inr (mount_of [''tasks''])"
  "MountPath_new ''/agents'' = Inr (mount_of [''agents''])"
  "MountPath_new ''/semantic'' = Inr (mount_of [''semantic''])"
  "MountPath_new ''/.eventfs'' = Inr (mount_of [''.eventfs''])"
  using MountPath_new_mount_of [of "[]"] MountPath_new_mount_of [of "[''kv'']"]
    MountPath_new_mount_of [of "[''streams'']"] MountPath_new_mount_of [of "[''objects'']"]
    MountPath_new_mount_of [of "[''events'']"] MountPath_new_mount_of [of "[''tasks'']"]
    MountPath_new_mount_of [of "[''agents'']"] MountPath_new_mount_of [of "[''semantic'']"]
    MountPath_new_mount_of [of "[''.eventfs'']"]
  by simp_all

lemma join_storage_path_iff:
  "join_storage_path fixed None = Inr m \<longleftrightarrow> clean fixed \<and> m = mount_of fixed"
  "join_storage_path fixed (Some t) = Inr m \<longleftrightarrow>
     t \<noteq> [] \<and> clean fixed \<and> clean (split_on slash t) \<and> m = mount_of (fixed @ split_on slash t)"
  by (auto simp: join_storage_path_def from_components_iff)

lemma split_clean:
  "clean_component c \<Longrightarrow> split_on slash c = [c]"
  by (simp add: clean_component_slash)

lemmas split_names =
  split_clean [OF clean_show_u64(2)] split_clean [OF clean_subject_file_name]
  split_clean [OF clean_token_jsonl] split_clean [OF clean_task_file] split_revision

lemma mount_path_of_wf:
  assumes "wf_path p"
  shows "mount_path_from_jetstream_path p = Inr (mount_of (path_components p))"
  using assms split_revision
  by (cases p)
    (auto simp: mount_path_from_jetstream_path_def path_components_def mount_new_literals
      join_storage_path_iff clean_facts split_names valid_kv_path_nonempty
      valid_object_path_nonempty valid_task_file_def)

section \<open>Parsing the components back\<close>

lemma split_kv_path_shape:
  assumes "valid_object_path s"
  obtains c cs where "split_on slash s = c # cs" "c \<noteq> ''.history''"
proof -
  obtain c cs where split: "split_on slash s = c # cs" by (cases "split_on slash s") auto
  with assms have "validate_component c = Inr ()" by (simp add: valid_object_path_def)
  then have "hd c \<noteq> CHR ''.''" by (simp add: validate_component_iff)
  then have "c \<noteq> ''.history''" by auto
  with split that show ?thesis by blast
qed

lemma last_split_not_marker:
  assumes "valid_kv_path s"
  shows "parse_kv_revision_marker (last (split_on slash s)) = Inr None"
proof -
  have "set (last (split_on slash s)) \<subseteq> set s"
    using set_piece_of_join [of "last (split_on slash s)" "split_on slash s" slash] by simp
  then have "CHR ''@'' \<notin> set (last (split_on slash s))"
    using valid_kv_path_no_at [OF assms] by auto
  then have "strip_prefix ''@'' (last (split_on slash s)) = None"
    by (cases "last (split_on slash s)") (auto simp: strip_prefix_None_iff)
  then show ?thesis by (simp add: parse_kv_revision_marker_def)
qed

lemma AgentArea_parse_as_str [simp]: "AgentArea_parse (AgentArea_as_str a) = Some a"
  by (cases a) (simp_all add: AgentArea_parse_def)

lemma SemanticArea_parse_as_str [simp]: "SemanticArea_parse (SemanticArea_as_str a) = Some a"
  by (cases a) (simp_all add: SemanticArea_parse_def)

lemma MetadataFile_parse_file_name [simp]: "MetadataFile_parse (file_name f) = Some f"
  by (cases f) (simp_all add: MetadataFile_parse_def)

lemma parse_kv_components:
  assumes "valid_token bucket" "valid_kv_path key"
  shows "parse_kv (bucket # split_on slash key) = Inr (KvKey bucket key)"
    and "parse_kv (bucket # ''.history'' # split_on slash key) = Inr (KvHistoryKey bucket key)"
    and "parse_kv (bucket # ''.history'' # split_on slash key @ [CHR ''@'' # show_u64 w]) =
      Inr (KvRevision bucket key w)"
proof -
  obtain c cs where split: "split_on slash key = c # cs" "c \<noteq> ''.history''"
    using split_kv_path_shape [OF valid_kv_path_object [OF assms(2)]] .
  have key: "join_kv_key (c # cs) = Inr key" using join_kv_key_split [OF assms(2)] split by simp
  have bucket: "validate_bucket bucket = Inr ()" using assms(1) by simp
  show "parse_kv (bucket # split_on slash key) = Inr (KvKey bucket key)"
    using split key assms by (simp add: parse_kv_def)
  show "parse_kv (bucket # ''.history'' # split_on slash key) = Inr (KvHistoryKey bucket key)"
    using split key bucket last_split_not_marker [OF assms(2)]
    by (simp add: parse_kv_def parse_kv_history_def)
  have "parse_kv_revision_marker (CHR ''@'' # show_u64 w) = Inr (Some w)"
    by (simp add: parse_kv_revision_marker_def strip_prefix_def starts_with_def)
  then show "parse_kv (bucket # ''.history'' # split_on slash key @ [CHR ''@'' # show_u64 w]) =
      Inr (KvRevision bucket key w)"
    using split key bucket by (simp add: parse_kv_def parse_kv_history_def)
qed

lemma parse_record_components:
  assumes "valid_kv_path path"
  shows "valid_root_name agent \<Longrightarrow> \<not> is_mailbox area \<Longrightarrow>
      parse_agents (agent # AgentArea_as_str area # split_on slash path) =
      Inr (AgentRecord agent area path)"
    and "parse_semantic (SemanticArea_as_str sarea # split_on slash path) =
      Inr (SemanticRecord sarea path)"
proof -
  obtain c cs where split: "split_on slash path = c # cs"
    using split_kv_path_shape [OF valid_kv_path_object [OF assms]] by blast
  have key: "join_kv_key (c # cs) = Inr path" using join_kv_key_split [OF assms] split by simp
  show "parse_agents (agent # AgentArea_as_str area # split_on slash path) =
      Inr (AgentRecord agent area path)" if "valid_root_name agent" "\<not> is_mailbox area"
  proof -
    have "validate_materialized_root_name agent ''agent'' = Inr ()" using that(1) by simp
    then show ?thesis using that(2) split key by (simp add: parse_agents_def parse_agent_area_def)
  qed
  show "parse_semantic (SemanticArea_as_str sarea # split_on slash path) =
      Inr (SemanticRecord sarea path)"
    using split key by (simp add: parse_semantic_def)
qed

lemma parse_object_components:
  assumes "valid_token bucket" "valid_object_path obj"
  shows "parse_objects (bucket # split_on slash obj) = Inr (JetStreamPath.Object bucket obj)"
proof -
  obtain c cs where split: "split_on slash obj = c # cs" using split_kv_path_shape [OF assms(2)] by blast
  moreover from this have "join_path (c # cs) = Inr obj" using join_path_split [OF assms(2)] by simp
  ultimately show ?thesis using assms(1) by (simp add: parse_objects_def)
qed

lemma parse_stream_leaves:
  assumes "valid_token stream"
  shows "parse_streams [stream, ''messages'', show_u64 w @ ''.json''] = Inr (StreamMessage stream w)"
    and "valid_subject subject \<Longrightarrow>
      parse_streams [stream, ''subjects'', stream_subject_file_name_from_str subject] =
      Inr (JetStreamPath.StreamSubject stream subject)"
    and "parse_events [stream @ ''.jsonl''] = Inr (EventLog stream)"
proof -
  have stream: "validate_stream stream = Inr ()" using assms by simp
  have "strip_suffix ''.json'' (show_u64 w @ ''.json'') = Some (show_u64 w)"
    by (rule strip_suffix_append)
  then show "parse_streams [stream, ''messages'', show_u64 w @ ''.json''] =
      Inr (StreamMessage stream w)"
    using stream by (simp add: parse_streams_def parse_sequence_file_def)
  show "parse_streams [stream, ''subjects'', stream_subject_file_name_from_str subject] =
      Inr (JetStreamPath.StreamSubject stream subject)" if "valid_subject subject"
  proof -
    have "subject \<noteq> []" "valid_utf8 subject" "validate_subject subject = Inr ()"
      using that by (auto simp: valid_subject_def validate_subject_def)
    then show ?thesis
      using stream by (simp add: parse_streams_def parse_file_name_def
          parse_subject_file_name_roundtrip)
  qed
  have "strip_suffix ''.jsonl'' (stream @ ''.jsonl'') = Some stream" by (rule strip_suffix_append)
  then show "parse_events [stream @ ''.jsonl''] = Inr (EventLog stream)"
    using stream by (simp add: parse_events_def parse_jsonl_stem_def)
qed

lemma parse_task_components:
  assumes "valid_root_name namespace" "valid_task_file task"
  shows "parse_tasks [namespace, task] = Inr (Task namespace task)"
proof -
  have "validate_component task = Inr ()" "validate_kv_key task = Inr ()" "ends_with ''.json'' task"
    using assms(2) by (auto simp: valid_task_file_def valid_kv_path_def valid_object_path_def)
  moreover have "validate_materialized_root_name namespace ''task namespace'' = Inr ()"
    using assms(1) by simp
  ultimately show ?thesis by (simp add: parse_tasks_def validate_json_file_def)
qed

lemmas parse_components_parts =
  parse_kv_components parse_record_components parse_object_components parse_stream_leaves
  parse_task_components

lemma valid_names_ok:
  "valid_token s \<Longrightarrow> validate_bucket s = Inr ()" "valid_token s \<Longrightarrow> validate_stream s = Inr ()"
  "valid_root_name s \<Longrightarrow> validate_materialized_root_name s label = Inr ()"
  by simp_all

lemma parse_components_path_components:
  "wf_path p \<Longrightarrow> parse_components (path_components p) = Inr p"
  by (cases p)
    (simp_all add: parse_components_def path_components_def parse_components_parts,
     simp_all add: parse_kv_def parse_streams_def parse_objects_def parse_events_def parse_tasks_def
       parse_agents_def parse_semantic_def parse_metadata_def parse_agent_area_def valid_names_ok)

lemma parse_mount_of: "clean cs \<Longrightarrow> parse (mount_of cs) = parse_components cs"
  by (rule parse_joined) (auto simp: list_all_iff)

lemma parse_mount_of_path: "wf_path p \<Longrightarrow> parse (mount_of (path_components p)) = Inr p"
  by (simp add: parse_mount_of path_components_clean parse_components_path_components)

section \<open>Every refusal is \<open>EINVAL\<close>\<close>

lemma validators_fail:
  "fails_with EINVAL (validate_token s label)" "fails_with EINVAL (validate_bucket s)"
  "fails_with EINVAL (validate_stream s)" "fails_with EINVAL (validate_component s)"
  "fails_with EINVAL (validate_kv_key s)" "fails_with EINVAL (validate_subject s)"
  "fails_with EINVAL (validate_materialized_root_name s label)"
  "fails_with EINVAL (validate_json_file s label)"
  by (auto simp: validate_defs)

lemma joins_fail: "fails_with EINVAL (join_path cs)" "fails_with EINVAL (join_kv_key cs)"
  by (auto simp: join_path_def join_kv_key_def intro!: fails_with_try_all validators_fail)

lemma parse_leaves_fail:
  "fails_with EINVAL (parse_sequence_file v)" "fails_with EINVAL (parse_jsonl_stem v label)"
  "fails_with EINVAL (parse_kv_revision_marker v)" "fails_with EINVAL (parse_file_name v)"
proof -
  show "fails_with EINVAL (parse_kv_revision_marker v)"
    by (cases "parse_u64 (tl v)")
      (auto simp: parse_kv_revision_marker_def strip_prefix_def map_ok_def ok_or_def
        split: option.splits)
qed (auto simp: parse_sequence_file_def parse_jsonl_stem_def parse_file_name_def
      intro!: validators_fail parse_subject_file_name_fails split: option.splits)

lemmas parts_fail = validators_fail joins_fail parse_leaves_fail

lemma parse_kv_fails: "fails_with EINVAL (parse_kv cs)"
  by (auto simp: parse_kv_def unsupported_mount_path_def parse_kv_history_def parts_fail
      intro!: fails_with_rbind split: list.split option.split)

lemma parse_streams_fails: "fails_with EINVAL (parse_streams cs)"
  by (auto simp: parse_streams_def unsupported_mount_path_def parts_fail
      intro!: fails_with_rbind split: list.split option.split)

lemma parse_objects_fails: "fails_with EINVAL (parse_objects cs)"
  by (auto simp: parse_objects_def unsupported_mount_path_def parts_fail
      intro!: fails_with_rbind split: list.split option.split)

lemma parse_events_fails: "fails_with EINVAL (parse_events cs)"
  by (auto simp: parse_events_def unsupported_mount_path_def parts_fail
      intro!: fails_with_rbind split: list.split option.split)

lemma parse_tasks_fails: "fails_with EINVAL (parse_tasks cs)"
  by (auto simp: parse_tasks_def unsupported_mount_path_def parts_fail
      intro!: fails_with_rbind split: list.split option.split)

lemma parse_agents_fails: "fails_with EINVAL (parse_agents cs)"
  by (auto simp: parse_agents_def unsupported_mount_path_def parse_agent_area_def parts_fail
      intro!: fails_with_rbind split: list.split option.split)

lemma parse_semantic_fails: "fails_with EINVAL (parse_semantic cs)"
  by (auto simp: parse_semantic_def unsupported_mount_path_def parts_fail
      intro!: fails_with_rbind split: list.split option.split)

lemma parse_metadata_fails: "fails_with EINVAL (parse_metadata cs)"
  by (auto simp: parse_metadata_def unsupported_mount_path_def parts_fail
      intro!: fails_with_rbind split: list.split option.split)

lemmas parse_roots_fail =
  parse_kv_fails parse_streams_fails parse_objects_fails parse_events_fails parse_tasks_fails
  parse_agents_fails parse_semantic_fails parse_metadata_fails

section \<open>Properties\<close>

text \<open>C32: parsing and printing are inverse. Whatever spelling of a mount path is parsed, the typed
  path can be printed again, the result is in normal form, and parsing it gives the same path.\<close>

theorem parse_print_roundtrip:
  assumes "parse s = Inr p"
  shows "\<exists>m. mount_path_from_jetstream_path p = Inr m \<and> wf_mount m \<and> parse m = Inr p"
proof -
  have wf: "wf_path p" using assms by (rule parse_wf)
  show ?thesis
    using mount_path_of_wf [OF wf] parse_mount_of_path [OF wf]
      wf_mount_mount_of [OF path_components_clean [OF wf]] by blast
qed

theorem parse_print_roundtrip_witness:
  "\<exists>m. mount_path_from_jetstream_path (KvKey ''b'' ''a/k'') = Inr m \<and> wf_mount m
    \<and> parse m = Inr (KvKey ''b'' ''a/k'')"
proof (rule parse_print_roundtrip)
  show "parse ''//kv/b/a/k/'' = Inr (KvKey ''b'' ''a/k'')" by code_simp
qed

text \<open>C39: the parser's range. A typed path can be reached by parsing some mount path exactly when
  its names satisfy the token, key, subject and reserved-prefix rules of \<open>wf_path\<close>.\<close>

theorem parse_range: "(\<exists>s. parse s = Inr p) = wf_path p"
  using parse_mount_of_path parse_wf by blast

text \<open>The parser never panics and answers every rejected path with \<open>EINVAL\<close>.\<close>

lemma parse_errors_are_einval: "fails_with EINVAL (parse s)"
proof -
  have "fails_with EINVAL (components s)" by (simp add: components_def Let_def)
  moreover have "fails_with EINVAL (parse_components cs)" for cs
    by (auto simp: parse_components_def unsupported_mount_path_def parse_roots_fail
        split: list.splits)
  ultimately show ?thesis by (auto simp: parse_def)
qed

text \<open>A mount path is a normal form: building it again from its own text changes nothing, its
  descendants are exactly the paths whose component list strictly extends its own, and the
  parent of a joined child is the path itself.\<close>

lemma mount_path_normal_form:
  assumes "MountPath_new s = Inr m" "MountPath_new t = Inr n"
    and "clean_component c"
  shows "MountPath_new m = Inr m
    \<and> is_descendant_of n m = strict_prefix (MountPath_components m) (MountPath_components n)
    \<and> (\<exists>k. join_child m c = Inr k \<and> MountPath_parent k = m \<and> is_descendant_of k m)"
proof (intro conjI)
  obtain cs ds where m: "clean cs" "m = mount_of cs" and n: "clean ds" "n = mount_of ds"
    using MountPath_new_wf [OF assms(1)] MountPath_new_wf [OF assms(2)] wf_mountE by metis
  show "MountPath_new m = Inr m" using m MountPath_new_mount_of by simp
  have "(\<exists>es. es \<noteq> [] \<and> ds = cs @ es) \<longleftrightarrow> strict_prefix cs ds"
    by (auto simp: strict_prefix_def prefix_def)
  then show "is_descendant_of n m = strict_prefix (MountPath_components m) (MountPath_components n)"
    using m n is_descendant_of_components [OF m(1) n(1)] by simp
  note c = assms(3)
  then have "join_child m c = Inr (mount_of (cs @ [c]))" using m join_child_mount_of by simp
  moreover have "MountPath_parent (mount_of (cs @ [c])) = m"
    using m c MountPath_parent_mount_of [of "cs @ [c]"] by simp
  moreover have "is_descendant_of (mount_of (cs @ [c])) m"
    using m c is_descendant_of_components [of cs "cs @ [c]"] by auto
  ultimately show "\<exists>k. join_child m c = Inr k \<and> MountPath_parent k = m \<and> is_descendant_of k m"
    by blast
qed

lemma mount_path_normal_form_example:
  "is_descendant_of ''/kv/b/x'' ''/kv/b'' \<and> \<not> is_descendant_of ''/kv/bx'' ''/kv/b''
   \<and> (\<exists>k. join_child ''/kv/b'' ''x'' = Inr k \<and> MountPath_parent k = ''/kv/b'' \<and> is_descendant_of k ''/kv/b'')"
proof -
  have new: "MountPath_new ''kv//b/'' = Inr ''/kv/b''" "MountPath_new ''/kv/b/x'' = Inr ''/kv/b/x''"
    "MountPath_new ''/kv/bx'' = Inr ''/kv/bx''"
    by code_simp+
  have comps: "MountPath_components ''/kv/b'' = [''kv'', ''b'']"
    "MountPath_components ''/kv/b/x'' = [''kv'', ''b'', ''x'']"
    "MountPath_components ''/kv/bx'' = [''kv'', ''bx'']"
    by code_simp+
  have x: "clean_component ''x''" by code_simp
  show ?thesis
    using mount_path_normal_form [OF new(1,2) x] mount_path_normal_form [OF new(1,3) x]
    unfolding comps by (simp add: strict_prefix_def)
qed

text \<open>Distinct subjects have distinct file names, so no two subjects of a stream share a file,
  every file name is a legal path component and
  parses back to its subject.\<close>

lemma subject_file_names_injective:
  assumes "valid_utf8 s" "valid_utf8 t" "s \<noteq> []" "t \<noteq> []"
  shows "(stream_subject_file_name_from_str s = stream_subject_file_name_from_str t) = (s = t)
    \<and> clean_component (stream_subject_file_name_from_str s)
    \<and> parse_stream_subject_file_name (stream_subject_file_name_from_str s) = Inr s"
  using parse_subject_file_name_roundtrip [OF assms(3,1)]
    parse_subject_file_name_roundtrip [OF assms(4,2)] clean_subject_file_name
  by (metis sum.inject(2))

lemma subject_file_names_injective_example:
  "stream_subject_file_name_from_str ''a/b'' \<noteq> stream_subject_file_name_from_str ''a.b''
   \<and> clean_component (stream_subject_file_name_from_str ''a/b'')"
proof -
  have "valid_utf8 ''a/b''" "valid_utf8 ''a.b''" by code_simp+
  then show ?thesis using subject_file_names_injective [of "''a/b''" "''a.b''"] by blast
qed

end
