(* ===== verification/Visible_Props.thy ===== *)
theory Visible_Props
  imports Mount_Props
begin

text \<open>
  The mount paths under which a storage fact is visible: which of them exist, that every typed
  path of a fact is among them, and that a visible path never names another fact. The
  invalidation lists the caches use follow from these.
\<close>

section \<open>Pushing\<close>

abbreviation mounts :: "AffectedPath list \<Rightarrow> MountPath list" where
  "mounts paths \<equiv> map ap_path paths"

lemma AffectedPath_new_sel [simp]:
  "ap_path (AffectedPath_new m r) = m" "ap_reason (AffectedPath_new m r) = r"
  by (simp_all add: AffectedPath_new_def)

lemma list_ex_mounts: "list_ex (\<lambda>c. ap_path c = m) ps \<longleftrightarrow> m \<in> ap_path ` set ps"
  by (induction ps) auto

lemma push_unique_mounts:
  "mounts (push_unique ps a) = (if ap_path a \<in> set (mounts ps) then mounts ps else mounts ps @ [ap_path a])"
  by (auto simp: push_unique_def list_ex_mounts)

lemma set_push_unique [simp]: "ap_path ` set (push_unique ps a) = insert (ap_path a) (ap_path ` set ps)"
  by (auto simp: push_unique_def list_ex_mounts)

lemma distinct_push_unique [simp]: "distinct (mounts (push_unique ps a)) \<longleftrightarrow> distinct (mounts ps)"
  by (auto simp: push_unique_mounts)

lemma prefix_push_unique: "prefix ps (push_unique ps a)"
  by (simp add: push_unique_def)

lemma set_push_unique_subset: "set (push_unique ps a) \<subseteq> insert a (set ps)"
  by (auto simp: push_unique_def)

lemma push_storage_path_Inr:
  assumes "push_storage_path ps r fixed tail = Inr qs"
  obtains m where "join_storage_path fixed tail = Inr m" "qs = push_unique ps (AffectedPath_new m r)"
  using assms by (auto simp: push_storage_path_def)

section \<open>Which paths are visible\<close>

definition kv_aliases :: "string \<Rightarrow> string \<Rightarrow> string list list" where
  "kv_aliases bucket key =
     (if bucket = TASKS_BUCKET then [''tasks'' # split_on slash key]
      else if bucket = AGENTS_BUCKET then
        (if agent_kv_alias_parts key = None then [] else [''agents'' # split_on slash key])
      else if bucket = SEMANTIC_BUCKET then [''semantic'' # split_on slash key]
      else [])"

definition stream_aliases :: "string \<Rightarrow> string \<Rightarrow> string list list" where
  "stream_aliases stream subject =
     (if subject = ''events.'' @ stream then [''events'' # split_on slash (stream @ ''.jsonl'')] else [])
     @ (if stream = AGENTS_STREAM then
          (case agent_mailbox_subject_parts subject of
             Some (agent, area) \<Rightarrow> [[''agents'', agent, AgentArea_as_str area]] | None \<Rightarrow> [])
        else [])"

text \<open>The components of every mount path of a fact, the direct one first.\<close>

definition fact_mounts :: "StorageFact \<Rightarrow> string list list" where
  "fact_mounts f =
     (case f of
        StorageFact.Kv bucket key \<Rightarrow> ([''kv'', bucket] @ split_on slash key) # kv_aliases bucket key
      | StorageFact.StreamSubject stream subject \<Rightarrow>
          [''streams'', stream, ''subjects'', stream_subject_file_name_from_str subject]
            # stream_aliases stream subject
      | StorageFact.Object bucket name \<Rightarrow> [[''objects'', bucket] @ split_on slash name])"

lemma set_stream_aliases:
  "cs \<in> set (stream_aliases stream subject) \<longleftrightarrow>
    subject = ''events.'' @ stream \<and> cs = ''events'' # split_on slash (stream @ ''.jsonl'')
    \<or> stream = AGENTS_STREAM \<and> (\<exists>agent area.
        agent_mailbox_subject_parts subject = Some (agent, area) \<and>
        cs = [''agents'', agent, AgentArea_as_str area])"
proof -
  have "cs \<in> set (if subject = ''events.'' @ stream
      then [''events'' # split_on slash (stream @ ''.jsonl'')] else []) \<longleftrightarrow>
    subject = ''events.'' @ stream \<and> cs = ''events'' # split_on slash (stream @ ''.jsonl'')"
    by (cases "subject = ''events.'' @ stream") (simp_all del: append_Cons append_Nil)
  moreover have "cs \<in> set (if stream = AGENTS_STREAM then
          (case agent_mailbox_subject_parts subject of
             Some (agent, area) \<Rightarrow> [[''agents'', agent, AgentArea_as_str area]] | None \<Rightarrow> [])
        else []) \<longleftrightarrow>
    stream = AGENTS_STREAM \<and> (\<exists>agent area.
        agent_mailbox_subject_parts subject = Some (agent, area) \<and>
        cs = [''agents'', agent, AgentArea_as_str area])"
    by (cases "agent_mailbox_subject_parts subject"; cases "stream = AGENTS_STREAM") auto
  ultimately show ?thesis by (simp only: stream_aliases_def set_append Un_iff)
qed

lemma splitn_3: "splitn 3 d s =
  (case split_once d s of
     None \<Rightarrow> [s]
   | Some (a, b) \<Rightarrow> (case split_once d b of None \<Rightarrow> [a, b] | Some (c, e) \<Rightarrow> [a, c, e]))"
  by (simp add: numeral_3_eq_3 split: option.splits prod.splits)

lemma agent_kv_alias_parts_Some:
  "agent_kv_alias_parts key = Some (agent, area, rest) \<longleftrightarrow>
    key = agent @ slash # area @ slash # rest \<and> agent \<noteq> [] \<and> area \<noteq> [] \<and> rest \<noteq> []
    \<and> slash \<notin> set agent \<and> slash \<notin> set area"
proof
  assume "agent_kv_alias_parts key = Some (agent, area, rest)"
  then show "key = agent @ slash # area @ slash # rest \<and> agent \<noteq> [] \<and> area \<noteq> [] \<and> rest \<noteq> []
    \<and> slash \<notin> set agent \<and> slash \<notin> set area"
    by (auto simp: agent_kv_alias_parts_def splitn_3 split_once_Some
        split: option.splits prod.splits if_splits)
next
  assume rhs: "key = agent @ slash # area @ slash # rest \<and> agent \<noteq> [] \<and> area \<noteq> [] \<and> rest \<noteq> []
    \<and> slash \<notin> set agent \<and> slash \<notin> set area"
  then have "split_once slash key = Some (agent, area @ slash # rest)"
    "split_once slash (area @ slash # rest) = Some (area, rest)"
    by (simp_all add: split_once_Some)
  with rhs show "agent_kv_alias_parts key = Some (agent, area, rest)"
    by (simp add: agent_kv_alias_parts_def splitn_3)
qed

lemma split_agent_key:
  "agent_kv_alias_parts key = Some (agent, area, rest) \<Longrightarrow>
    split_on slash key = agent # area # split_on slash rest"
  by (auto simp: agent_kv_alias_parts_Some split_on_append)

lemma agent_mailbox_parts_Some:
  "agent_mailbox_subject_parts subject = Some (agent, area) \<longleftrightarrow>
    subject = ''agents.'' @ agent @ ''.'' @ AgentArea_as_str area \<and> agent \<noteq> [] \<and>
    CHR ''.'' \<notin> set agent \<and> \<not> is_reserved_kv_key agent \<and> is_mailbox area"
proof
  assume parts: "agent_mailbox_subject_parts subject = Some (agent, area)"
  then obtain a where split: "split_on (CHR ''.'') subject = [''agents'', agent, a]"
    and area: "AgentArea_parse a = Some area" and ok: "agent \<noteq> []" "\<not> is_reserved_kv_key agent"
      "is_mailbox area"
    by (auto simp: agent_mailbox_subject_parts_def bind_eq_Some_conv split: list.splits if_splits)
  have "subject = ''agents.'' @ agent @ ''.'' @ a"
    using join_split [of "CHR ''.''" subject] unfolding split by simp
  moreover have "CHR ''.'' \<notin> set agent"
    using split_on_no_delim [of agent "CHR ''.''" subject] split by simp
  moreover have "a = AgentArea_as_str area"
    using area by (auto simp: AgentArea_parse_def split: if_splits)
  ultimately show "subject = ''agents.'' @ agent @ ''.'' @ AgentArea_as_str area \<and> agent \<noteq> [] \<and>
    CHR ''.'' \<notin> set agent \<and> \<not> is_reserved_kv_key agent \<and> is_mailbox area"
    using ok by simp
next
  assume rhs: "subject = ''agents.'' @ agent @ ''.'' @ AgentArea_as_str area \<and> agent \<noteq> [] \<and>
    CHR ''.'' \<notin> set agent \<and> \<not> is_reserved_kv_key agent \<and> is_mailbox area"
  have "CHR ''.'' \<notin> set (AgentArea_as_str area)" by (cases area) auto
  with rhs have "split_on (CHR ''.'') subject = [''agents'', agent, AgentArea_as_str area]"
    using split_on_append [of "CHR ''.''" "''agents''" "agent @ CHR ''.'' # AgentArea_as_str area"]
    by (simp add: split_on_append)
  with rhs show "agent_mailbox_subject_parts subject = Some (agent, area)"
    by (simp add: agent_mailbox_subject_parts_def)
qed

text \<open>Every push of a fact adds the mount path of one component list.\<close>

definition pushes :: "AffectedPath list \<Rightarrow> string list list \<Rightarrow> AffectedPath list \<Rightarrow> bool" where
  "pushes ps css qs \<longleftrightarrow>
     (\<forall>cs \<in> set css. clean cs) \<and> ap_path ` set qs = ap_path ` set ps \<union> mount_of ` set css
     \<and> (distinct (mounts ps) \<longrightarrow> distinct (mounts qs))"

lemma pushes_Nil [simp]: "pushes ps [] ps"
  by (simp add: pushes_def)

lemma pushes_append: "pushes ps css qs \<Longrightarrow> pushes qs dss rs \<Longrightarrow> pushes ps (css @ dss) rs"
  by (auto simp: pushes_def)

lemma push_storage_path_pushes:
  assumes "push_storage_path ps r fixed tail = Inr qs"
  shows "pushes ps [fixed @ (case tail of None \<Rightarrow> [] | Some t \<Rightarrow> split_on slash t)] qs"
proof -
  obtain m where m: "join_storage_path fixed tail = Inr m"
    and qs: "qs = push_unique ps (AffectedPath_new m r)"
    using assms by (rule push_storage_path_Inr)
  then show ?thesis
    by (cases tail) (auto simp: pushes_def join_storage_path_iff)
qed

lemma push_kv_alias_paths_pushes:
  assumes "push_kv_alias_paths ps bucket key = Inr qs"
  shows "pushes ps (kv_aliases bucket key) qs"
proof (cases "bucket = AGENTS_BUCKET")
  case True
  then have bucket: "bucket \<noteq> TASKS_BUCKET" by (simp add: bucket_defs)
  show ?thesis
  proof (cases "agent_kv_alias_parts key")
    case None
    with True bucket assms show ?thesis by (simp add: push_kv_alias_paths_def kv_aliases_def)
  next
    case (Some parts)
    obtain agent area rest where parts: "parts = (agent, area, rest)" by (cases parts)
    then have "pushes ps [[''agents'', agent, area] @ split_on slash rest] qs"
      using True bucket assms Some push_storage_path_pushes [of ps Alias "[''agents'', agent, area]" "Some rest" qs]
      by (simp add: push_kv_alias_paths_def)
    then show ?thesis
      using True bucket Some parts split_agent_key [of key agent area rest]
      by (simp add: kv_aliases_def)
  qed
next
  case False
  then show ?thesis
    using assms push_storage_path_pushes [of ps Alias "[''tasks'']" "Some key" qs]
      push_storage_path_pushes [of ps Alias "[''semantic'']" "Some key" qs]
    by (auto simp: push_kv_alias_paths_def kv_aliases_def split: if_splits)
qed

lemma push_stream_alias_paths_pushes:
  assumes "push_stream_alias_paths ps stream subject = Inr qs"
  shows "pushes ps (stream_aliases stream subject) qs"
proof -
  obtain rs where first: "(if strip_prefix ''events.'' subject = Some stream
        then push_storage_path ps Alias [''events''] (Some (stream @ ''.jsonl''))
        else Inr ps) = Inr rs"
    and second: "(if stream = AGENTS_STREAM then
            (case agent_mailbox_subject_parts subject of
               Some (agent, area) \<Rightarrow>
                 push_storage_path rs Mailbox [''agents'', agent, AgentArea_as_str area] None
             | None \<Rightarrow> Inr rs)
          else Inr rs) = Inr qs"
    using assms by (auto simp: push_stream_alias_paths_def)
  show ?thesis unfolding stream_aliases_def
  proof (rule pushes_append)
    show "pushes ps (if subject = ''events.'' @ stream
        then [''events'' # split_on slash (stream @ ''.jsonl'')] else []) rs"
      using first push_storage_path_pushes [of ps Alias "[''events'']" "Some (stream @ ''.jsonl'')" rs]
      by (auto simp: strip_prefix_Some_iff split: if_splits)
    show "pushes rs (if stream = AGENTS_STREAM then
          (case agent_mailbox_subject_parts subject of
             Some (agent, area) \<Rightarrow> [[''agents'', agent, AgentArea_as_str area]] | None \<Rightarrow> [])
        else []) qs"
      using second push_storage_path_pushes [of rs Mailbox _ None qs]
      by (auto split: option.splits if_splits)
  qed
qed

lemma visible_paths_pushes:
  assumes "visible_paths f = Inr vs"
  shows "pushes [] (fact_mounts f) vs"
proof (cases f)
  case (Kv bucket key)
  then obtain ps where "push_storage_path [] Exact [''kv'', bucket] (Some key) = Inr ps"
    "push_kv_alias_paths ps bucket key = Inr vs"
    using assms by (auto simp: visible_paths_def)
  then show ?thesis
    using Kv pushes_append [OF push_storage_path_pushes push_kv_alias_paths_pushes]
    by (fastforce simp: fact_mounts_def)
next
  case (StreamSubject stream subject)
  then obtain ps where "push_storage_path [] Exact [''streams'', stream, ''subjects'']
      (Some (stream_subject_file_name_from_str subject)) = Inr ps"
    "push_stream_alias_paths ps stream subject = Inr vs"
    using assms by (auto simp: visible_paths_def)
  then show ?thesis
    using StreamSubject pushes_append [OF push_storage_path_pushes push_stream_alias_paths_pushes]
      split_clean [OF clean_subject_file_name]
    by (fastforce simp: fact_mounts_def)
next
  case (Object bucket name)
  then have "push_storage_path [] Exact [''objects'', bucket] (Some name) = Inr vs"
    using assms by (simp add: visible_paths_def)
  then show ?thesis using Object push_storage_path_pushes by (fastforce simp: fact_mounts_def)
qed

lemma visible_paths_mounts:
  assumes "visible_paths f = Inr vs"
  shows "ap_path ` set vs = mount_of ` set (fact_mounts f)"
    and "distinct (mounts vs)"
    and "cs \<in> set (fact_mounts f) \<Longrightarrow> clean cs"
  using visible_paths_pushes [OF assms] by (auto simp: pushes_def)

section \<open>When the visible paths exist\<close>

lemma join_storage_path_ok:
  "clean fixed \<Longrightarrow> t \<noteq> [] \<Longrightarrow> clean (split_on slash t) \<Longrightarrow>
    push_storage_path ps r fixed (Some t) =
      Inr (push_unique ps (AffectedPath_new (mount_of (fixed @ split_on slash t)) r))"
  "clean fixed \<Longrightarrow>
    push_storage_path ps r fixed None = Inr (push_unique ps (AffectedPath_new (mount_of fixed) r))"
  using join_storage_path_iff(2) [of fixed t "mount_of (fixed @ split_on slash t)"]
    join_storage_path_iff(1) [of fixed "mount_of fixed"]
  by (simp_all add: push_storage_path_def)

lemma visible_paths_kv_ok:
  assumes "clean_component bucket" "key \<noteq> []" "clean (split_on slash key)"
  shows "is_ok (visible_paths (StorageFact.Kv bucket key))"
proof -
  have "is_ok (push_kv_alias_paths ps bucket key)" for ps
  proof (cases "agent_kv_alias_parts key")
    case None
    then show ?thesis using assms by (simp add: push_kv_alias_paths_def join_storage_path_ok)
  next
    case (Some parts)
    obtain agent area rest where parts: "parts = (agent, area, rest)" by (cases parts)
    then have "clean [''agents'', agent, area]" "rest \<noteq> []" "clean (split_on slash rest)"
      using Some split_agent_key [of key agent area rest] assms(3)
      by (simp_all add: agent_kv_alias_parts_Some)
    then show ?thesis
      using assms Some parts by (simp add: push_kv_alias_paths_def join_storage_path_ok)
  qed
  then show ?thesis using assms by (simp add: visible_paths_def join_storage_path_ok)
qed

text \<open>The one subject whose alias is no mount path: an agent mailbox subject whose agent name
  contains a slash.\<close>

definition slashed_mailbox :: "StorageFact \<Rightarrow> bool" where
  "slashed_mailbox f =
     (case f of
        StorageFact.StreamSubject stream subject \<Rightarrow>
          stream = AGENTS_STREAM \<and>
          (case agent_mailbox_subject_parts subject of
             Some (agent, _) \<Rightarrow> slash \<in> set agent | None \<Rightarrow> False)
      | _ \<Rightarrow> False)"

lemma visible_paths_stream_ok:
  assumes "valid_token stream" "nul \<notin> set subject"
    "\<not> slashed_mailbox (StorageFact.StreamSubject stream subject)"
  shows "is_ok (visible_paths (StorageFact.StreamSubject stream subject))"
proof -
  have "is_ok (push_stream_alias_paths ps stream subject)" for ps
  proof (cases "stream = AGENTS_STREAM \<and> agent_mailbox_subject_parts subject \<noteq> None")
    case True
    then obtain agent area where parts: "agent_mailbox_subject_parts subject = Some (agent, area)"
      and stream: "stream = AGENTS_STREAM" by auto
    then have agent: "subject = ''agents.'' @ agent @ ''.'' @ AgentArea_as_str area" "agent \<noteq> []"
      "CHR ''.'' \<notin> set agent" by (auto simp: agent_mailbox_parts_Some)
    then have "clean_component agent"
      using assms(2,3) parts stream by (auto simp: slashed_mailbox_def clean_component_def)
    moreover have "subject \<noteq> ''events.'' @ stream" using agent(1) by auto
    ultimately show ?thesis
      using parts stream
      by (simp add: push_stream_alias_paths_def join_storage_path_ok strip_prefix_Some_iff)
  next
    case False
    then show ?thesis
      using clean_token_jsonl [OF assms(1)] split_clean [OF clean_token_jsonl [OF assms(1)]]
      by (auto simp: push_stream_alias_paths_def join_storage_path_ok split: option.splits)
  qed
  then show ?thesis
    using valid_token_clean(1) [OF assms(1)] clean_subject_file_name
      split_clean [OF clean_subject_file_name]
    by (simp add: visible_paths_def join_storage_path_ok)
qed

section \<open>Typed paths and their facts\<close>

lemma from_jetstream_path_simps [simp]:
  "from_jetstream_path (JetStreamPath.KvKey b k) = Some (StorageFact.Kv b k)"
  "from_jetstream_path (JetStreamPath.KvBucket b) = None"
  "from_jetstream_path (JetStreamPath.KvHistoryRoot b) = None"
  "from_jetstream_path (JetStreamPath.KvHistoryKey b k) = None"
  "from_jetstream_path (JetStreamPath.KvRevision b k w) = None"
  "from_jetstream_path (JetStreamPath.StreamSubject st su) = Some (StorageFact.StreamSubject st su)"
  "from_jetstream_path (JetStreamPath.StreamMessage st w) = None"
  "from_jetstream_path (JetStreamPath.Object b n) = Some (StorageFact.Object b n)"
  "from_jetstream_path (JetStreamPath.EventLog st) = Some (StorageFact.StreamSubject st (''events.'' @ st))"
  "from_jetstream_path (JetStreamPath.TaskNamespace ns) = None"
  "from_jetstream_path (JetStreamPath.Task ns t) = Some (StorageFact.Kv TASKS_BUCKET (ns @ ''/'' @ t))"
  "is_mailbox area \<Longrightarrow> from_jetstream_path (JetStreamPath.AgentMailbox g area) =
     Some (StorageFact.StreamSubject AGENTS_STREAM (''agents.'' @ g @ ''.'' @ AgentArea_as_str area))"
  "from_jetstream_path (JetStreamPath.AgentDirectory g area) = None"
  "from_jetstream_path (JetStreamPath.AgentRecord g area p) =
     Some (StorageFact.Kv AGENTS_BUCKET (g @ ''/'' @ AgentArea_as_str area @ ''/'' @ p))"
  "from_jetstream_path (JetStreamPath.SemanticArea sarea) = None"
  "from_jetstream_path (JetStreamPath.SemanticRecord sarea p) =
     Some (StorageFact.Kv SEMANTIC_BUCKET (SemanticArea_as_str sarea @ ''/'' @ p))"
  by (simp_all add: from_jetstream_path_def from_path_def agent_subject_def)

lemma no_fact_for_roots [simp]:
  "from_jetstream_path JetStreamPath.Root = None" "from_jetstream_path JetStreamPath.KvRoot = None"
  "from_jetstream_path JetStreamPath.StreamsRoot = None"
  "from_jetstream_path (JetStreamPath.StreamRoot st) = None"
  "from_jetstream_path (JetStreamPath.StreamMessages st) = None"
  "from_jetstream_path (JetStreamPath.StreamSubjects st) = None"
  "from_jetstream_path JetStreamPath.ObjectsRoot = None"
  "from_jetstream_path (JetStreamPath.ObjectBucket b) = None"
  "from_jetstream_path JetStreamPath.EventsRoot = None" "from_jetstream_path JetStreamPath.TasksRoot = None"
  "from_jetstream_path JetStreamPath.AgentsRoot = None"
  "from_jetstream_path (JetStreamPath.AgentRoot g) = None"
  "from_jetstream_path JetStreamPath.SemanticRoot = None"
  "from_jetstream_path JetStreamPath.MetadataRoot = None"
  "from_jetstream_path (JetStreamPath.MetadataFile f) = None"
  by (simp_all add: from_jetstream_path_def from_path_def)

lemma area_names_slash_free [simp]:
  "slash \<notin> set (AgentArea_as_str a)" "slash \<notin> set (SemanticArea_as_str x)"
  subgoal by (cases a) simp_all
  subgoal by (cases x) simp_all
  done

lemma agent_key_parts:
  assumes "valid_root_name agent" "valid_kv_path p"
  shows "agent_kv_alias_parts (agent @ ''/'' @ AgentArea_as_str area @ ''/'' @ p) =
    Some (agent, AgentArea_as_str area, p)"
proof -
  have "agent \<noteq> []" "slash \<notin> set agent" "p \<noteq> []"
    using assms valid_token_clean [OF valid_root_name_token] valid_kv_path_nonempty by auto
  moreover have "AgentArea_as_str area \<noteq> []" by (cases area) auto
  ultimately show ?thesis by (simp add: agent_kv_alias_parts_Some)
qed

lemma mailbox_subject_parts:
  "valid_root_name agent \<Longrightarrow> is_mailbox area \<Longrightarrow>
    agent_mailbox_subject_parts (''agents.'' @ agent @ ''.'' @ AgentArea_as_str area) = Some (agent, area)"
  using valid_token_clean [of agent]
  by (simp add: agent_mailbox_parts_Some valid_root_name_def)

lemma split_prefixed_key:
  "slash \<notin> set a \<Longrightarrow> split_on slash (a @ slash # b) = a # split_on slash b"
  by (simp add: split_on_append)

lemma path_components_visible:
  assumes "wf_path p" "from_jetstream_path p = Some f"
  shows "path_components p \<in> set (fact_mounts f)"
proof (cases p)
  case (Task ns t)
  then show ?thesis using assms valid_token_clean(2) [OF valid_root_name_token, of ns]
    by (auto simp: path_components_def fact_mounts_def kv_aliases_def split_prefixed_key
        valid_task_file_def)
next
  case (EventLog st)
  then have "f = StorageFact.StreamSubject st (''events.'' @ st)" "valid_token st"
    using assms by simp_all
  then show ?thesis using EventLog split_clean [OF clean_token_jsonl, of st]
    by (simp add: path_components_def fact_mounts_def set_stream_aliases)
next
  case (AgentMailbox g area)
  then have "f = StorageFact.StreamSubject AGENTS_STREAM (''agents.'' @ g @ ''.'' @ AgentArea_as_str area)"
    "valid_root_name g" "is_mailbox area" using assms by simp_all
  then show ?thesis using AgentMailbox mailbox_subject_parts [of g area]
    by (simp add: path_components_def fact_mounts_def set_stream_aliases)
next
  case (AgentRecord g area r)
  then show ?thesis
    using assms agent_key_parts [of g r area] valid_token_clean(2) [OF valid_root_name_token, of g]
    by (auto simp: path_components_def fact_mounts_def kv_aliases_def split_prefixed_key
        bucket_defs)
next
  case (SemanticRecord x r)
  then show ?thesis
    using assms
    by (auto simp: path_components_def fact_mounts_def kv_aliases_def split_prefixed_key bucket_defs)
qed (use assms in \<open>auto simp: path_components_def fact_mounts_def\<close>)

section \<open>A visible path names no other fact\<close>

text \<open>\<open>names f r\<close>: parsing succeeded only with a path that stands for \<open>f\<close> or for no fact.\<close>

definition names :: "StorageFact \<Rightarrow> EventFsError + JetStreamPath \<Rightarrow> bool" where
  "names f r \<longleftrightarrow> (\<forall>q. r = Inr q \<longrightarrow> from_jetstream_path q = None \<or> from_jetstream_path q = Some f)"

lemma names_Inl [simp]: "names f (Inl e)"
  by (simp add: names_def)

lemma names_Inr [simp]:
  "names f (Inr q) \<longleftrightarrow> from_jetstream_path q = None \<or> from_jetstream_path q = Some f"
  by (simp add: names_def)

lemma names_rbind: "(\<And>x. m = Inr x \<Longrightarrow> names f (k x)) \<Longrightarrow> names f (rbind m k)"
  by (cases m) auto

lemma split_on_two:
  "split_on slash s = a # b # cs \<Longrightarrow> s = a @ slash # join_with slash (b # cs)"
  using join_split [of slash s] by simp

lemma parse_kv_names: "names (StorageFact.Kv b k) (parse_kv (b # split_on slash k))"
proof -
  obtain c cs where split: "split_on slash k = c # cs" by (cases "split_on slash k") auto
  then have k: "k = join_with slash (c # cs)" by (metis join_split)
  have free: "slash_free (c # cs)" using slash_free_simps(4) [of k] split by simp
  show ?thesis unfolding split
    by (auto simp: parse_kv_def parse_kv_history_def k join_kv_key_iff free names_def
        simp del: slash_free_simps split: if_splits option.splits)
qed

lemma parse_objects_names: "names (StorageFact.Object b n) (parse_objects (b # split_on slash n))"
proof -
  obtain c cs where split: "split_on slash n = c # cs" by (cases "split_on slash n") auto
  then have n: "n = join_with slash (c # cs)" by (metis join_split)
  have free: "slash_free (c # cs)" using slash_free_simps(4) [of n] split by simp
  show ?thesis unfolding split
    by (auto simp: parse_objects_def n join_path_iff free names_def simp del: slash_free_simps)
qed

lemma parse_tasks_names: "names (StorageFact.Kv TASKS_BUCKET k) (parse_tasks (split_on slash k))"
  by (auto simp: parse_tasks_def unsupported_mount_path_def names_def
      dest: split_on_two split: list.splits)

lemma parse_semantic_names:
  "names (StorageFact.Kv SEMANTIC_BUCKET k) (parse_semantic (split_on slash k))"
proof -
  have area: "a = SemanticArea_as_str x" if "SemanticArea_parse a = Some x" for a x
    using that by (auto simp: SemanticArea_parse_def split: if_splits)
  have "slash_free cs" if "split_on slash k = a # cs" for a cs
    using slash_free_simps(4) [of k] that by simp
  then show ?thesis
    by (auto simp: parse_semantic_def names_def join_kv_key_iff dest!: area
        dest: split_on_two split: list.splits)
qed

lemma AgentArea_parse_Some: "AgentArea_parse a = Some x \<longleftrightarrow> a = AgentArea_as_str x"
  by (cases x) (auto simp: AgentArea_parse_def)

lemma parse_agents_names:
  assumes "agent_kv_alias_parts k = Some (agent, area, rest)"
  shows "names (StorageFact.Kv AGENTS_BUCKET k) (parse_agents (split_on slash k))"
proof -
  have k: "k = agent @ slash # area @ slash # rest"
    using assms by (simp add: agent_kv_alias_parts_Some)
  show ?thesis unfolding split_agent_key [OF assms]
    by (auto simp: parse_agents_def parse_agent_area_def names_def AgentArea_parse_Some k
        join_kv_key_iff)
qed

lemma parse_mailbox_names:
  assumes "agent_mailbox_subject_parts subject = Some (agent, area)"
  shows "names (StorageFact.StreamSubject AGENTS_STREAM subject)
    (parse_agents [agent, AgentArea_as_str area])"
  using assms
  by (auto simp: parse_agents_def parse_agent_area_def names_def agent_mailbox_parts_Some)

lemma parse_events_names:
  "names (StorageFact.StreamSubject stream (''events.'' @ stream))
    (parse_events (split_on slash (stream @ ''.jsonl'')))"
proof (cases "split_on slash (stream @ ''.jsonl'')")
  case (Cons c cs)
  show ?thesis
  proof (cases cs)
    case Nil
    with Cons have "c = stream @ ''.jsonl''" using join_split [of slash "stream @ ''.jsonl''"] by simp
    moreover have "strip_suffix ''.jsonl'' (stream @ ''.jsonl'') = Some stream"
      by (rule strip_suffix_append)
    ultimately show ?thesis using Cons Nil by (auto simp: parse_events_def parse_jsonl_stem_def names_def)
  next
    case (Cons d ds)
    with \<open>split_on slash (stream @ ''.jsonl'') = c # cs\<close> show ?thesis
      by (simp add: parse_events_def unsupported_mount_path_def)
  qed
qed simp

lemma parse_empty_subject_file: "is_err (parse_stream_subject_file_name (stream_subject_file_name_from_str []))"
  by code_simp

lemma parse_subject_names:
  assumes "valid_utf8 subject"
  shows "names (StorageFact.StreamSubject stream subject)
    (parse_streams [stream, ''subjects'', stream_subject_file_name_from_str subject])"
proof (cases "subject = []")
  case True
  then obtain e where "parse_stream_subject_file_name (stream_subject_file_name_from_str subject) = Inl e"
    using parse_empty_subject_file
    by (cases "parse_stream_subject_file_name (stream_subject_file_name_from_str [])") auto
  then show ?thesis by (auto simp: parse_streams_def parse_file_name_def names_def)
next
  case False
  then show ?thesis using assms
    by (auto simp: parse_streams_def parse_file_name_def names_def parse_subject_file_name_roundtrip)
qed

text \<open>A Rust string is always valid UTF-8; only a stream subject needs the fact here.\<close>

definition utf8_fact :: "StorageFact \<Rightarrow> bool" where
  "utf8_fact f = (case f of StorageFact.StreamSubject _ subject \<Rightarrow> valid_utf8 subject | _ \<Rightarrow> True)"

lemma fact_mounts_names:
  assumes "cs \<in> set (fact_mounts f)" "clean cs" "utf8_fact f"
  shows "names f (parse_components cs)"
proof (cases f)
  case (Kv b k)
  show ?thesis
    using assms(1) Kv parse_kv_names [of b k] parse_tasks_names [of k] parse_semantic_names [of k]
      parse_agents_names [of k]
    by (auto simp: fact_mounts_def kv_aliases_def parse_components_def split: if_splits)
next
  case (StreamSubject st su)
  with assms consider
    (direct) "cs = [''streams'', st, ''subjects'', stream_subject_file_name_from_str su]"
    | (log) "su = ''events.'' @ st" "cs = ''events'' # split_on slash (st @ ''.jsonl'')"
    | (mailbox) agent area where "st = AGENTS_STREAM"
        "agent_mailbox_subject_parts su = Some (agent, area)"
        "cs = [''agents'', agent, AgentArea_as_str area]"
    by (auto simp: fact_mounts_def set_stream_aliases)
  then show ?thesis
  proof cases
    case direct
    then show ?thesis using StreamSubject assms(3) parse_subject_names [of su st]
      by (simp add: parse_components_def utf8_fact_def)
  next
    case log
    then show ?thesis using StreamSubject parse_events_names [of st] by (simp add: parse_components_def)
  next
    case mailbox
    then show ?thesis using StreamSubject parse_mailbox_names [of su]
      by (simp add: parse_components_def)
  qed
next
  case (Object b n)
  then show ?thesis
    using assms(1) parse_objects_names [of b n] by (simp add: fact_mounts_def parse_components_def)
qed

end
