(* ===== verification/Invalidation_Props.thy ===== *)
theory Invalidation_Props
  imports Visible_Props
begin

text \<open>
  The invalidation lists: every visible path of a fact together with its ancestors down to
  the level that cannot change, without repetition, the caller's own path first.
\<close>

section \<open>Ancestors\<close>

definition ancestor_mounts :: "AffectedPath \<Rightarrow> MountPath set" where
  "ancestor_mounts a =
     (let cs = MountPath_components (ap_path a) in
        (\<lambda>len. mount_of (take len cs)) ` {ancestor_floor cs (ap_reason a)..<length cs})"

abbreviation wf_affected :: "AffectedPath list \<Rightarrow> bool" where
  "wf_affected ps \<equiv> list_all (\<lambda>a. wf_mount (ap_path a)) ps"

lemma list_all_take: "list_all P xs \<Longrightarrow> list_all P (take n xs)"
  by (auto simp: list_all_iff dest: in_set_takeD)

lemma foldl_push_unique:
  "ap_path ` set (foldl push_unique ps as) = ap_path ` set ps \<union> ap_path ` set as"
  "distinct (mounts (foldl push_unique ps as)) \<longleftrightarrow> distinct (mounts ps)"
  "prefix ps (foldl push_unique ps as)"
  "set (foldl push_unique ps as) \<subseteq> set ps \<union> set as"
proof -
  show "ap_path ` set (foldl push_unique ps as) = ap_path ` set ps \<union> ap_path ` set as"
    "distinct (mounts (foldl push_unique ps as)) \<longleftrightarrow> distinct (mounts ps)"
    by (induction as arbitrary: ps) auto
  show "prefix ps (foldl push_unique ps as)"
    by (induction as arbitrary: ps) (auto intro: prefix_order.trans prefix_push_unique)
  show "set (foldl push_unique ps as) \<subseteq> set ps \<union> set as"
    using set_push_unique_subset by (induction as arbitrary: ps) fastforce+
qed

lemma push_ancestor_lens_eq:
  "clean cs \<Longrightarrow> push_ancestor_lens cs lens ps =
    Inr (foldl push_unique ps (map (\<lambda>len. AffectedPath_new (mount_of (take len cs)) Ancestor) lens))"
proof (induction lens arbitrary: ps)
  case (Cons len lens)
  then have "from_components (take len cs) = Inr (mount_of (take len cs))"
    by (simp add: from_components_iff list_all_take)
  with Cons show ?case by simp
qed simp

text \<open>What \<open>push_ancestors\<close> appends, as one list.\<close>

definition ancestor_entries :: "MountPath \<Rightarrow> AffectedPathReason \<Rightarrow> AffectedPath list" where
  "ancestor_entries m r =
     (let cs = MountPath_components m in
        map (\<lambda>len. AffectedPath_new (mount_of (take len cs)) Ancestor)
          (rev [ancestor_floor cs r..<length cs]))"

lemma push_ancestors_eq:
  assumes "wf_mount m"
  shows "push_ancestors ps m r = Inr (foldl push_unique ps (ancestor_entries m r))"
proof -
  have "clean (MountPath_components m)" using assms by (simp add: wf_mount_def)
  then show ?thesis
    by (simp add: push_ancestors_def ancestor_entries_def Let_def push_ancestor_lens_eq)
qed

lemma ancestor_entries_mounts:
  "ap_path ` set (ancestor_entries (ap_path a) (ap_reason a)) = ancestor_mounts a"
  by (simp add: ancestor_entries_def ancestor_mounts_def Let_def image_image)

lemma ancestor_entries_wf:
  assumes "wf_mount m"
  shows "wf_affected (ancestor_entries m r)"
proof -
  have "clean (MountPath_components m)" using assms by (simp add: wf_mount_def)
  then show ?thesis
    by (auto simp: ancestor_entries_def Let_def list_all_iff intro!: wf_mount_mount_of list_all_take)
qed

lemma ancestor_floor_mono:
  "len \<noteq> 0 \<Longrightarrow> ancestor_floor cs r \<le> len \<Longrightarrow> len < length cs \<Longrightarrow>
    ancestor_floor cs r \<le> ancestor_floor (take len cs) Ancestor"
  by (cases cs; cases len) (auto simp: ancestor_floor_def split: if_splits)

lemma ancestor_floor_pos: "cs \<noteq> [] \<Longrightarrow> 0 < ancestor_floor cs r"
  by (cases cs) (simp_all add: ancestor_floor_def)

text \<open>An ancestor's own ancestors are among those of the path it was derived from.\<close>

lemma ancestor_mounts_trans:
  assumes "wf_mount (ap_path a)" "b \<in> set (ancestor_entries (ap_path a) (ap_reason a))"
  shows "ancestor_mounts b \<subseteq> ancestor_mounts a"
proof -
  define cs where "cs = MountPath_components (ap_path a)"
  have clean: "clean cs" using assms(1) by (simp add: wf_mount_def cs_def)
  from assms(2) obtain len where len: "ancestor_floor cs (ap_reason a) \<le> len" "len < length cs"
    and b: "b = AffectedPath_new (mount_of (take len cs)) Ancestor"
    by (auto simp: ancestor_entries_def Let_def cs_def)
  have comps: "MountPath_components (mount_of (take len cs)) = take len cs"
    using clean by (simp add: list_all_take)
  have "len \<noteq> 0" using len ancestor_floor_pos [of cs "ap_reason a"] by (cases "cs = []") auto
  show ?thesis
  proof
    fix m
    assume "m \<in> ancestor_mounts b"
    then obtain k where k: "ancestor_floor (take len cs) Ancestor \<le> k" "k < len"
      and m: "m = mount_of (take k cs)"
      using len unfolding b ancestor_mounts_def AffectedPath_new_sel comps by (auto simp: Let_def min_def)
    have "ancestor_floor cs (ap_reason a) \<le> k"
      using ancestor_floor_mono [OF \<open>len \<noteq> 0\<close> len] k(1) by simp
    then show "m \<in> ancestor_mounts a"
      using k(2) len(2) m by (auto simp: ancestor_mounts_def Let_def cs_def)
  qed
qed

section \<open>The invalidation list of a fact\<close>

definition closed_under_ancestors :: "AffectedPath list \<Rightarrow> bool" where
  "closed_under_ancestors ps \<longleftrightarrow> (\<forall>a \<in> set ps. ancestor_mounts a \<subseteq> ap_path ` set ps)"

lemma closed_under_ancestors_step:
  assumes "closed_under_ancestors ps" "wf_mount (ap_path a)"
    and qs: "qs = foldl push_unique (push_unique ps a) (ancestor_entries (ap_path a) (ap_reason a))"
  shows "closed_under_ancestors qs"
proof -
  have mem: "ap_path ` set qs = insert (ap_path a) (ap_path ` set ps) \<union> ancestor_mounts a"
    unfolding qs foldl_push_unique by (simp add: ancestor_entries_mounts)
  have "set qs \<subseteq> insert a (set ps) \<union> set (ancestor_entries (ap_path a) (ap_reason a))"
    unfolding qs using foldl_push_unique(4) set_push_unique_subset by fastforce
  then show ?thesis
    using assms(1) ancestor_mounts_trans [OF assms(2)] mem
    unfolding closed_under_ancestors_def by blast
qed

lemma invalidation_loop_spec:
  assumes "wf_affected vs" "closed_under_ancestors ps" "distinct (mounts ps)" "wf_affected ps"
  shows "\<exists>qs. invalidation_loop ps vs = Inr qs \<and> distinct (mounts qs) \<and> closed_under_ancestors qs
    \<and> wf_affected qs \<and> prefix ps qs
    \<and> ap_path ` set qs = ap_path ` set ps \<union> ap_path ` set vs \<union> \<Union> (ancestor_mounts ` set vs)"
  using assms
proof (induction vs arbitrary: ps)
  case (Cons a vs)
  define rs where "rs = foldl push_unique (push_unique ps a) (ancestor_entries (ap_path a) (ap_reason a))"
  have a: "wf_mount (ap_path a)" using Cons.prems(1) by simp
  then have step: "push_ancestors (push_unique ps a) (ap_path a) (ap_reason a) = Inr rs"
    by (simp add: push_ancestors_eq rs_def)
  have rs_set: "ap_path ` set rs = insert (ap_path a) (ap_path ` set ps) \<union> ancestor_mounts a"
    unfolding rs_def foldl_push_unique by (simp add: ancestor_entries_mounts)
  have "wf_affected rs"
    using rs_def foldl_push_unique(4) set_push_unique_subset [of ps a] Cons.prems(1,4)
      ancestor_entries_wf [OF a, of "ap_reason a"]
    unfolding list_all_iff by fastforce
  moreover have "closed_under_ancestors rs"
    using Cons.prems(2) a rs_def by (rule closed_under_ancestors_step)
  moreover have "distinct (mounts rs)"
    using Cons.prems(3) by (simp add: rs_def foldl_push_unique)
  ultimately obtain qs where "invalidation_loop rs vs = Inr qs" "distinct (mounts qs)"
    "closed_under_ancestors qs" "wf_affected qs" "prefix rs qs"
    "ap_path ` set qs = ap_path ` set rs \<union> ap_path ` set vs \<union> \<Union> (ancestor_mounts ` set vs)"
    using Cons.IH [of rs] Cons.prems(1) by auto
  moreover have "prefix ps rs"
    unfolding rs_def using prefix_push_unique foldl_push_unique(3) prefix_order.trans by blast
  ultimately show ?case using step rs_set by (auto intro: prefix_order.trans)
qed auto

lemma visible_paths_wf:
  assumes "visible_paths f = Inr vs"
  shows "wf_affected vs"
proof -
  have "\<forall>m \<in> ap_path ` set vs. wf_mount m"
    using visible_paths_mounts [OF assms] by auto
  then show ?thesis by (simp add: list_all_iff)
qed

lemma invalidation_paths_spec:
  assumes "visible_paths f = Inr vs"
  shows "\<exists>qs. invalidation_paths f = Inr qs \<and> distinct (mounts qs) \<and> closed_under_ancestors qs
    \<and> wf_affected qs \<and> ap_path ` set qs = ap_path ` set vs \<union> \<Union> (ancestor_mounts ` set vs)"
  using invalidation_loop_spec [OF visible_paths_wf [OF assms], of "[]"] assms
  by (auto simp: invalidation_paths_def closed_under_ancestors_def)

lemma prioritize_source_path_spec:
  assumes "closed_under_ancestors ps" "distinct (mounts ps)" "wf_affected ps" "m \<in> ap_path ` set ps"
  shows "\<exists>qs. prioritize_source_path ps m = Inr qs \<and> qs \<noteq> [] \<and> ap_path (hd qs) = m
    \<and> distinct (mounts qs) \<and> ap_path ` set qs = ap_path ` set ps"
proof -
  obtain a where a: "find (\<lambda>a. ap_path a = m) ps = Some a" "a \<in> set ps" "ap_path a = m"
  proof -
    have "find (\<lambda>a. ap_path a = m) ps \<noteq> None" using assms(4) by (auto simp: find_None_iff)
    then obtain b where "find (\<lambda>a. ap_path a = m) ps = Some b" by auto
    moreover from this have "b \<in> set ps" "ap_path b = m" by (auto simp: find_Some_iff)
    ultimately show ?thesis using that by blast
  qed
  define rs where "rs = foldl push_unique [a] (ancestor_entries (ap_path a) (ap_reason a))"
  have wf: "wf_mount (ap_path a)" using assms(3) a(2) by (simp add: list_all_iff)
  then have eq: "prioritize_source_path ps m = Inr (foldl push_unique rs ps)"
    using a(1) by (simp add: prioritize_source_path_def push_ancestors_eq rs_def push_unique_def)
  have "prefix [a] (foldl push_unique rs ps)"
    unfolding rs_def using foldl_push_unique(3) prefix_order.trans by blast
  then have "foldl push_unique rs ps \<noteq> [] \<and> hd (foldl push_unique rs ps) = a"
    by (cases "foldl push_unique rs ps") auto
  moreover have "ap_path ` set (foldl push_unique rs ps) = ap_path ` set ps"
    using assms(1) a(2,3) ancestor_entries_mounts [of a]
    unfolding foldl_push_unique rs_def closed_under_ancestors_def by auto
  moreover have "distinct (mounts (foldl push_unique rs ps))"
    by (simp add: foldl_push_unique rs_def)
  ultimately show ?thesis using eq a(3) by auto
qed

section \<open>Properties\<close>

lemma wf_path_utf8_fact:
  assumes "wf_path p" "from_jetstream_path p = Some f"
  shows "utf8_fact f"
proof -
  have token: "of_char c < (128 :: nat)" if "valid_token s" "c \<in> set s" for s and c :: char
    using token_char_not(4) valid_token_chars that by blast
  have "valid_utf8 (''events.'' @ s)" if "valid_token s" for s
    by (rule valid_utf8_ascii) (use token [OF that] in auto)
  moreover have "valid_utf8 (''agents.'' @ g @ ''.'' @ AgentArea_as_str area)" if "valid_root_name g" for g area
    by (rule valid_utf8_ascii)
      (use token [OF valid_root_name_token [OF that]] in \<open>cases area; auto\<close>)
  ultimately show ?thesis
    using assms by (cases p) (auto simp: utf8_fact_def valid_subject_def)
qed

lemma bucket_tokens:
  "valid_token TASKS_BUCKET" "valid_token AGENTS_BUCKET" "valid_token SEMANTIC_BUCKET"
  "valid_token AGENTS_STREAM"
  by (simp_all add: bucket_defs valid_token_def token_char_def ascii_defs)

lemma kv_fact_parts:
  assumes "wf_path p" "from_jetstream_path p = Some (StorageFact.Kv b k)"
  shows "valid_token b \<and> k \<noteq> [] \<and> clean (split_on slash k)"
  using assms bucket_tokens
  by (cases p) (auto simp: valid_kv_path_nonempty clean_facts split_prefixed_key
      valid_token_clean(2) valid_task_file_def from_jetstream_path_def from_path_def
      agent_subject_def split: if_splits)

lemma stream_fact_parts:
  assumes "wf_path p" "from_jetstream_path p = Some (StorageFact.StreamSubject st su)"
  shows "valid_token st \<and> nul \<notin> set su"
proof -
  have token: "nul \<notin> set s" if "valid_token s" for s
    using valid_token_clean(1) [OF that] by (simp add: clean_component_def)
  show ?thesis
    using assms bucket_tokens token valid_subject_no_nul
    by (cases p) (auto simp: from_jetstream_path_def from_path_def agent_subject_def nul_def
        valid_root_name_token is_mailbox_def split: if_splits)
qed

lemma object_fact_parts:
  assumes "wf_path p" "from_jetstream_path p = Some (StorageFact.Object b n)"
  shows "valid_token b \<and> valid_object_path n"
  using assms
  by (cases p) (auto simp: from_jetstream_path_def from_path_def agent_subject_def split: if_splits)

lemma slashed_mailbox_fails:
  assumes "slashed_mailbox f"
  shows "is_err (visible_paths f)"
proof (cases "visible_paths f")
  case (Inr vs)
  obtain subject agent area where f: "f = StorageFact.StreamSubject AGENTS_STREAM subject"
    and parts: "agent_mailbox_subject_parts subject = Some (agent, area)" "slash \<in> set agent"
    using assms by (auto simp: slashed_mailbox_def split: StorageFact.splits option.splits)
  then have "[''agents'', agent, AgentArea_as_str area] \<in> set (fact_mounts f)"
    by (auto simp: fact_mounts_def set_stream_aliases)
  then have "clean_component agent" using visible_paths_mounts(3) [OF Inr] by fastforce
  with parts(2) show ?thesis by (simp add: clean_component_def)
qed simp

lemma visible_paths_ok_iff:
  assumes "wf_path p" "from_jetstream_path p = Some f"
  shows "is_ok (visible_paths f) \<longleftrightarrow> \<not> slashed_mailbox f"
proof
  assume "is_ok (visible_paths f)"
  then show "\<not> slashed_mailbox f" using slashed_mailbox_fails by (auto simp: is_err_def)
next
  assume no: "\<not> slashed_mailbox f"
  show "is_ok (visible_paths f)"
  proof (cases f)
    case (Kv b k)
    then show ?thesis using assms kv_fact_parts visible_paths_kv_ok valid_token_clean(1) by blast
  next
    case (StreamSubject st su)
    then show ?thesis using assms no stream_fact_parts visible_paths_stream_ok by blast
  next
    case (Object b n)
    then have "valid_token b" "valid_object_path n" using assms object_fact_parts by blast+
    then show ?thesis using Object
      by (simp add: visible_paths_def join_storage_path_ok clean_facts valid_object_path_nonempty)
  qed
qed

text \<open>C33: the visible paths of a stored value are exactly its aliases. Of two parsed paths that stand
  for stored values, the second one's mount path is among the first one's visible paths if and
  only if both stand for the same value, and no visible path is listed twice.\<close>

theorem visible_paths_are_the_aliases:
  assumes "parse s = Inr p" "parse t = Inr q"
    and "from_jetstream_path p = Some f" "from_jetstream_path q = Some g"
    and "visible_paths f = Inr vs" "mount_path_from_jetstream_path q = Inr m"
  shows "(m \<in> set (mounts vs)) = (f = g) \<and> distinct (mounts vs)"
proof (rule conjI)
  have wf: "wf_path p" "wf_path q" using assms(1,2) parse_wf by blast+
  have m: "m = mount_of (path_components q)" using assms(6) mount_path_of_wf [OF wf(2)] by simp
  show "distinct (mounts vs)" using visible_paths_mounts(2) [OF assms(5)] .
  show "(m \<in> set (mounts vs)) = (f = g)"
  proof
    assume "m \<in> set (mounts vs)"
    then obtain cs where cs: "cs \<in> set (fact_mounts f)" "m = mount_of cs"
      using visible_paths_mounts(1) [OF assms(5)] by auto
    then have clean: "clean cs" using visible_paths_mounts(3) [OF assms(5)] by blast
    have "parse_components cs = Inr q"
      using parse_mount_of [OF clean] parse_mount_of_path [OF wf(2)] m cs(2) by simp
    then show "f = g"
      using fact_mounts_names [OF cs(1) clean wf_path_utf8_fact [OF wf(1) assms(3)]] assms(4) by simp
  next
    assume "f = g"
    then show "m \<in> set (mounts vs)"
      using path_components_visible [OF wf(2) assms(4)] visible_paths_mounts(1) [OF assms(5)] m by auto
  qed
qed

theorem visible_paths_are_the_aliases_witness:
  "''/tasks/ops/a.json'' \<in> set (mounts [AffectedPath_new ''/kv/EVENTFS_TASKS/ops/a.json'' Exact,
      AffectedPath_new ''/tasks/ops/a.json'' Alias])"
proof (rule visible_paths_are_the_aliases [THEN conjunct1, THEN iffD2])
  show "parse ''/kv/EVENTFS_TASKS/ops/a.json'' = Inr (JetStreamPath.KvKey ''EVENTFS_TASKS'' ''ops/a.json'')"
    by code_simp
  show "parse ''/tasks/ops/a.json'' = Inr (JetStreamPath.Task ''ops'' ''a.json'')" by code_simp
  show "from_jetstream_path (JetStreamPath.KvKey ''EVENTFS_TASKS'' ''ops/a.json'') =
      Some (StorageFact.Kv ''EVENTFS_TASKS'' ''ops/a.json'')" by code_simp
  show "from_jetstream_path (JetStreamPath.Task ''ops'' ''a.json'') =
      Some (StorageFact.Kv ''EVENTFS_TASKS'' ''ops/a.json'')" by code_simp
  show "visible_paths (StorageFact.Kv ''EVENTFS_TASKS'' ''ops/a.json'') =
      Inr [AffectedPath_new ''/kv/EVENTFS_TASKS/ops/a.json'' Exact,
           AffectedPath_new ''/tasks/ops/a.json'' Alias]" by code_simp
  show "mount_path_from_jetstream_path (JetStreamPath.Task ''ops'' ''a.json'') =
      Inr ''/tasks/ops/a.json''" by code_simp
qed simp

text \<open>C34: invalidation after a change to a parsed path's stored value reaches the path itself first,
  then, without repetition, every alias of the value and exactly their ancestors above the
  fixed levels of the mount tree.\<close>

theorem invalidation_reaches_aliases_and_ancestors:
  assumes "parse s = Inr p" "from_jetstream_path p = Some f" "visible_paths f = Inr vs"
    and "mount_path_from_jetstream_path p = Inr m"
  shows "\<exists>ps. invalidation_paths_for_mount_path p = Inr ps \<and> ps \<noteq> [] \<and> ap_path (hd ps) = m
    \<and> distinct (mounts ps)
    \<and> set (mounts ps) = set (mounts vs) \<union> \<Union> (ancestor_mounts ` set vs)"
proof -
  have wf: "wf_path p" using assms(1) by (rule parse_wf)
  obtain qs where qs: "invalidation_paths f = Inr qs" "distinct (mounts qs)"
    "closed_under_ancestors qs" "wf_affected qs"
    "ap_path ` set qs = ap_path ` set vs \<union> \<Union> (ancestor_mounts ` set vs)"
    using invalidation_paths_spec [OF assms(3)] by blast
  have "m \<in> ap_path ` set qs"
    using path_components_visible [OF wf assms(2)] visible_paths_mounts(1) [OF assms(3)] qs(5)
      mount_path_of_wf [OF wf] assms(4) by auto
  then obtain ps where "prioritize_source_path qs m = Inr ps" "ps \<noteq> []" "ap_path (hd ps) = m"
    "distinct (mounts ps)" "ap_path ` set ps = ap_path ` set qs"
    using prioritize_source_path_spec [OF qs(3,2,4)] by blast
  then show ?thesis using assms(2,4) qs by (simp add: invalidation_paths_for_mount_path_def)
qed

theorem invalidation_reaches_aliases_and_ancestors_witness:
  "\<exists>ps. invalidation_paths_for_mount_path (JetStreamPath.AgentMailbox ''amy'' Inbox) = Inr ps
    \<and> ps \<noteq> [] \<and> ap_path (hd ps) = ''/agents/amy/inbox'' \<and> distinct (mounts ps)
    \<and> set (mounts ps) = set (mounts
        [AffectedPath_new ''/streams/EVENTFS_AGENTS/subjects/agents.amy.inbox.jsonl'' Exact,
         AffectedPath_new ''/agents/amy/inbox'' Mailbox])
      \<union> \<Union> (ancestor_mounts `
          set [AffectedPath_new ''/streams/EVENTFS_AGENTS/subjects/agents.amy.inbox.jsonl'' Exact,
            AffectedPath_new ''/agents/amy/inbox'' Mailbox])"
proof (rule invalidation_reaches_aliases_and_ancestors)
  show "parse ''/agents/amy/inbox'' = Inr (JetStreamPath.AgentMailbox ''amy'' Inbox)" by code_simp
  show "from_jetstream_path (JetStreamPath.AgentMailbox ''amy'' Inbox) =
      Some (StorageFact.StreamSubject ''EVENTFS_AGENTS'' ''agents.amy.inbox'')" by code_simp
  show "visible_paths (StorageFact.StreamSubject ''EVENTFS_AGENTS'' ''agents.amy.inbox'') =
      Inr [AffectedPath_new ''/streams/EVENTFS_AGENTS/subjects/agents.amy.inbox.jsonl'' Exact,
           AffectedPath_new ''/agents/amy/inbox'' Mailbox]" by code_simp
  show "mount_path_from_jetstream_path (JetStreamPath.AgentMailbox ''amy'' Inbox) =
      Inr ''/agents/amy/inbox''" by code_simp
qed

text \<open>C40: the visible paths of a parsed path's value always exist, with one exception: a mailbox
  subject of the agents stream whose agent name contains a slash is a legal subject file, but
  computing its visible paths fails, because the mailbox alias is no legal mount path.\<close>

theorem visible_paths_total_up_to_slashed_mailboxes:
  assumes "parse s = Inr p" "from_jetstream_path p = Some f"
  shows "is_ok (visible_paths f) \<longleftrightarrow> \<not> slashed_mailbox f"
  using parse_wf [OF assms(1)] assms(2) by (rule visible_paths_ok_iff)

theorem visible_paths_total_up_to_slashed_mailboxes_witness:
  "slashed_mailbox (StorageFact.StreamSubject AGENTS_STREAM ''agents.a/b.inbox'')
   \<and> \<not> is_ok (visible_paths (StorageFact.StreamSubject AGENTS_STREAM ''agents.a/b.inbox''))"
proof -
  let ?p = "JetStreamPath.StreamSubject AGENTS_STREAM ''agents.a/b.inbox''"
  have "wf_path ?p"
    by (simp add: valid_subject_def valid_utf8_def validate_subject_def chars_def starts_with_def
        ends_with_def is_control_def is_whitespace_def bucket_tokens)
  then have p: "parse (mount_of (path_components ?p)) = Inr ?p" by (rule parse_mount_of_path)
  have "slashed_mailbox (StorageFact.StreamSubject AGENTS_STREAM ''agents.a/b.inbox'')" by code_simp
  then show ?thesis using visible_paths_total_up_to_slashed_mailboxes [OF p] by simp
qed

end
