(* ===== verification/Cache_Props.thy ===== *)
theory Cache_Props
  imports Cache Invalidation_Props
begin

text \<open>
  Cache coherence: a local mutation or a watch event leaves no stale entry under any alias of
  the changed value, keeps unrelated entries, and a gap empties the cache.
\<close>

section \<open>Visible paths keep their subtree action\<close>

lemma fact_mounts_roots_differ:
  assumes "cs \<in> set (fact_mounts f)" "ds \<in> set (fact_mounts f)" "hd cs = hd ds"
  shows "cs = ds"
proof (cases f)
  case (Kv b k)
  with assms show ?thesis
    by (auto simp: fact_mounts_def kv_aliases_def split: if_splits)
next
  case (StreamSubject st su)
  with assms show ?thesis
    by (auto simp: fact_mounts_def set_stream_aliases)
next
  case (Object b n)
  with assms show ?thesis by (simp add: fact_mounts_def)
qed

lemma push_storage_path_reasons:
  "push_storage_path ps r fixed tail = Inr qs \<Longrightarrow> r \<noteq> Ancestor \<Longrightarrow>
    \<forall>a \<in> set ps. ap_reason a \<noteq> Ancestor \<Longrightarrow> \<forall>a \<in> set qs. ap_reason a \<noteq> Ancestor"
  by (auto simp: push_storage_path_def push_unique_def split: if_splits)

lemma push_kv_alias_reasons:
  "push_kv_alias_paths ps b k = Inr qs \<Longrightarrow> \<forall>a \<in> set ps. ap_reason a \<noteq> Ancestor \<Longrightarrow>
    \<forall>a \<in> set qs. ap_reason a \<noteq> Ancestor"
  by (auto simp: push_kv_alias_paths_def dest: push_storage_path_reasons
      split: if_splits option.splits)

lemma push_stream_alias_reasons:
  assumes "push_stream_alias_paths ps st su = Inr qs" "\<forall>a \<in> set ps. ap_reason a \<noteq> Ancestor"
  shows "\<forall>a \<in> set qs. ap_reason a \<noteq> Ancestor"
proof -
  obtain rs where first: "(if strip_prefix ''events.'' su = Some st
        then push_storage_path ps Alias [''events''] (Some (st @ ''.jsonl''))
        else Inr ps) = Inr rs"
    and second: "(if st = AGENTS_STREAM then
            (case agent_mailbox_subject_parts su of
               Some (agent, area) \<Rightarrow>
                 push_storage_path rs Mailbox [''agents'', agent, AgentArea_as_str area] None
             | None \<Rightarrow> Inr rs)
          else Inr rs) = Inr qs"
    using assms(1) by (auto simp: push_stream_alias_paths_def)
  have "\<forall>a \<in> set rs. ap_reason a \<noteq> Ancestor"
    using first assms(2) push_storage_path_reasons [of ps Alias] by (auto split: if_splits)
  then show ?thesis
    using second push_storage_path_reasons [of rs Mailbox] by (auto split: if_splits option.splits)
qed

lemma visible_paths_reasons:
  assumes "visible_paths f = Inr vs" "a \<in> set vs"
  shows "ap_reason a \<noteq> Ancestor"
proof (cases f)
  case (Kv b k)
  then obtain ps where "push_storage_path [] Exact [''kv'', b] (Some k) = Inr ps"
    "push_kv_alias_paths ps b k = Inr vs" using assms(1) by (auto simp: visible_paths_def)
  then show ?thesis using assms(2) push_storage_path_reasons [of "[]" Exact] push_kv_alias_reasons [of ps]
    by auto
next
  case (StreamSubject st su)
  then obtain ps where "push_storage_path [] Exact [''streams'', st, ''subjects'']
      (Some (stream_subject_file_name_from_str su)) = Inr ps"
    "push_stream_alias_paths ps st su = Inr vs" using assms(1) by (auto simp: visible_paths_def)
  then show ?thesis
    using assms(2) push_storage_path_reasons [of "[]" Exact] push_stream_alias_reasons [of ps] by auto
next
  case (Object b n)
  then show ?thesis
    using assms push_storage_path_reasons [of "[]" Exact] by (auto simp: visible_paths_def)
qed

lemma invalidation_loop_set:
  assumes "invalidation_loop ps vs = Inr qs" "wf_affected vs"
  shows "set qs \<subseteq> set ps \<union> set vs \<union> (\<Union>v \<in> set vs. set (ancestor_entries (ap_path v) (ap_reason v)))"
  using assms
proof (induction vs arbitrary: ps)
  case (Cons a vs)
  let ?rs = "foldl push_unique (push_unique ps a) (ancestor_entries (ap_path a) (ap_reason a))"
  have "invalidation_loop ?rs vs = Inr qs" using Cons.prems by (simp add: push_ancestors_eq)
  then have "set qs \<subseteq> set ?rs \<union> set vs \<union>
      (\<Union>v \<in> set vs. set (ancestor_entries (ap_path v) (ap_reason v)))"
    using Cons.IH Cons.prems(2) by simp
  moreover have "set ?rs \<subseteq> insert a (set ps) \<union> set (ancestor_entries (ap_path a) (ap_reason a))"
    using foldl_push_unique(4) [of "push_unique ps a" "ancestor_entries (ap_path a) (ap_reason a)"]
      set_push_unique_subset [of ps a] by blast
  ultimately show ?case by auto
qed simp

lemma prioritize_source_path_set:
  assumes "prioritize_source_path ps m = Inr qs" "wf_affected ps"
  shows "set qs \<subseteq> set ps \<union> (\<Union>v \<in> set ps. set (ancestor_entries (ap_path v) (ap_reason v)))"
proof (cases "find (\<lambda>a. ap_path a = m) ps")
  case None
  then show ?thesis using assms(1) by (auto simp: prioritize_source_path_def)
next
  case (Some a)
  then have a: "a \<in> set ps" by (auto simp: find_Some_iff)
  then have "wf_mount (ap_path a)" using assms(2) by (simp add: list_all_iff)
  then have "qs = foldl push_unique (foldl push_unique [a] (ancestor_entries (ap_path a) (ap_reason a))) ps"
    using assms(1) Some by (simp add: prioritize_source_path_def push_ancestors_eq push_unique_def)
  then have "set qs \<subseteq> set [a] \<union> set (ancestor_entries (ap_path a) (ap_reason a)) \<union> set ps"
    using foldl_push_unique(4) [of "foldl push_unique [a] (ancestor_entries (ap_path a) (ap_reason a))" ps]
      foldl_push_unique(4) [of "[a]" "ancestor_entries (ap_path a) (ap_reason a)"] by blast
  then show ?thesis using a by auto
qed

lemma ancestor_entry_cases:
  assumes "b \<in> set (ancestor_entries m r)" "wf_mount m"
  shows "\<exists>len < length (MountPath_components m). 0 < len \<and>
    ap_path b = mount_of (take len (MountPath_components m))"
proof -
  define cs where "cs = MountPath_components m"
  obtain len where len: "ancestor_floor cs r \<le> len" "len < length cs"
    and b: "ap_path b = mount_of (take len cs)"
    using assms(1) by (auto simp: ancestor_entries_def Let_def cs_def)
  moreover have "0 < len" using len ancestor_floor_pos [of cs r] by (cases "cs = []") auto
  ultimately show ?thesis unfolding cs_def by blast
qed

text \<open>No ancestor of a visible path is itself a visible path of the same value.\<close>

lemma visible_not_ancestor:
  assumes vs: "visible_paths f = Inr vs" and v: "v \<in> set vs" and w: "w \<in> set vs"
    and len: "0 < len" "len < length (MountPath_components (ap_path v))"
  shows "ap_path w \<noteq> mount_of (take len (MountPath_components (ap_path v)))"
proof
  assume eq: "ap_path w = mount_of (take len (MountPath_components (ap_path v)))"
  obtain cs where cs: "cs \<in> set (fact_mounts f)" "ap_path v = mount_of cs" "clean cs"
    using visible_paths_mounts [OF vs] v by blast
  obtain ds where ds: "ds \<in> set (fact_mounts f)" "ap_path w = mount_of ds" "clean ds"
    using visible_paths_mounts [OF vs] w by blast
  have "ds = take len cs"
    using eq cs ds mount_of_inj [of ds "take len cs"] by (simp add: list_all_take)
  moreover have "hd (take len cs) = hd cs" using len(1) by (cases cs; cases len) auto
  ultimately have "ds = cs" using fact_mounts_roots_differ [OF ds(1) cs(1)] by simp
  then have "length (take len cs) = length cs" using \<open>ds = take len cs\<close> by simp
  with len(2) cs show False by simp
qed

lemma invalidation_entry_of_visible:
  assumes vs: "visible_paths f = Inr vs" and w: "w \<in> set vs"
    and qs: "invalidation_paths f = Inr qs" and a: "a \<in> set qs" "ap_path a = ap_path w"
  shows "ap_reason a \<noteq> Ancestor"
proof -
  have "set qs \<subseteq> set vs \<union> (\<Union>v \<in> set vs. set (ancestor_entries (ap_path v) (ap_reason v)))"
    using invalidation_loop_set [of "[]" vs qs] qs vs visible_paths_wf [OF vs]
    by (simp add: invalidation_paths_def)
  then consider "a \<in> set vs" | v where "v \<in> set vs" "a \<in> set (ancestor_entries (ap_path v) (ap_reason v))"
    using a(1) by blast
  then show ?thesis
  proof cases
    case 1
    then show ?thesis using visible_paths_reasons [OF vs] by blast
  next
    case (2 v)
    then have "wf_mount (ap_path v)" using visible_paths_wf [OF vs] by (simp add: list_all_iff)
    then obtain len where "0 < len" "len < length (MountPath_components (ap_path v))"
      "ap_path a = mount_of (take len (MountPath_components (ap_path v)))"
      using ancestor_entry_cases [OF 2(2)] by blast
    then show ?thesis using visible_not_ancestor [OF vs 2(1) w] a(2) by metis
  qed
qed

lemma invalidation_set_cases:
  assumes "visible_paths f = Inr vs" "invalidation_paths f = Inr qs" "b \<in> set qs"
  shows "b \<in> set vs \<or> (\<exists>v \<in> set vs. b \<in> set (ancestor_entries (ap_path v) (ap_reason v)))"
  using invalidation_loop_set [of "[]" vs qs] assms visible_paths_wf [OF assms(1)]
  by (auto simp: invalidation_paths_def)

lemma prefix_of_invalidated_not_visible:
  assumes vs: "visible_paths f = Inr vs" and w: "w \<in> set vs"
    and qs: "invalidation_paths f = Inr qs" and b: "b \<in> set qs"
    and a: "a \<in> set (ancestor_entries (ap_path b) (ap_reason b))"
  shows "ap_path a \<noteq> ap_path w"
proof -
  have "\<exists>v \<in> set vs. \<exists>n \<le> length (MountPath_components (ap_path v)). 0 < n \<and>
      MountPath_components (ap_path b) = take n (MountPath_components (ap_path v)) \<and> wf_mount (ap_path b)"
    using invalidation_set_cases [OF vs qs b]
  proof (elim disjE bexE)
    assume bv: "b \<in> set vs"
    have "wf_mount (ap_path b)" using bv visible_paths_wf [OF vs] by (simp add: list_all_iff)
    moreover have "MountPath_components (ap_path b) \<noteq> []"
      using a by (auto simp: ancestor_entries_def Let_def)
    ultimately show ?thesis using bv by (intro bexI [of _ b]) auto
  next
    fix v
    assume v: "v \<in> set vs" and bv: "b \<in> set (ancestor_entries (ap_path v) (ap_reason v))"
    then have wf: "wf_mount (ap_path v)" using visible_paths_wf [OF vs] by (simp add: list_all_iff)
    obtain n where n: "n < length (MountPath_components (ap_path v))" "0 < n"
      "ap_path b = mount_of (take n (MountPath_components (ap_path v)))"
      using ancestor_entry_cases [OF bv wf] by blast
    have "clean (take n (MountPath_components (ap_path v)))"
      using wf by (simp add: wf_mount_def list_all_take)
    then have "MountPath_components (ap_path b) = take n (MountPath_components (ap_path v))"
      "wf_mount (ap_path b)" unfolding n(3) by simp_all
    then show ?thesis using v n by (auto intro!: bexI [of _ v] exI [of _ n])
  qed
  then obtain v n where v: "v \<in> set vs" and n: "n \<le> length (MountPath_components (ap_path v))"
    and comps: "MountPath_components (ap_path b) = take n (MountPath_components (ap_path v))"
    and wf: "wf_mount (ap_path b)" by blast
  obtain len where len: "len < length (MountPath_components (ap_path b))" "0 < len"
    "ap_path a = mount_of (take len (MountPath_components (ap_path b)))"
    using ancestor_entry_cases [OF a wf] by blast
  then have "ap_path a = mount_of (take len (MountPath_components (ap_path v)))"
    "len < length (MountPath_components (ap_path v))" using comps n by (auto simp: min_def split: if_splits)
  then show ?thesis using visible_not_ancestor [OF vs v w len(2)] by metis
qed

lemma local_plan_covers_visible:
  assumes p: "parse s = Inr p" "from_jetstream_path p = Some f"
    and vs: "visible_paths f = Inr vs" and w: "w \<in> set vs"
  shows "\<exists>plan. for_local_mutation s = Inr plan \<and>
    \<lparr>ia_path = ap_path w, ia_scope = Subtree\<rparr> \<in> set (actions plan)"
proof -
  have wf: "wf_path p" using p(1) by (rule parse_wf)
  obtain m where m: "mount_path_from_jetstream_path p = Inr m" using mount_path_of_wf [OF wf] by blast
  obtain qs where qs: "invalidation_paths f = Inr qs" "distinct (mounts qs)"
    "closed_under_ancestors qs" "wf_affected qs"
    "ap_path ` set qs = ap_path ` set vs \<union> \<Union> (ancestor_mounts ` set vs)"
    using invalidation_paths_spec [OF vs] by blast
  have "m \<in> ap_path ` set qs"
    using path_components_visible [OF wf p(2)] visible_paths_mounts(1) [OF vs] qs(5)
      mount_path_of_wf [OF wf] m by auto
  then obtain ps where ps: "prioritize_source_path qs m = Inr ps" "ap_path ` set ps = ap_path ` set qs"
    using prioritize_source_path_spec [OF qs(3,2,4)] by blast
  have "ap_path w \<in> ap_path ` set ps" using ps(2) qs(5) w by auto
  then obtain a where a: "a \<in> set ps" "ap_path a = ap_path w" by auto
  have "ap_reason a \<noteq> Ancestor"
    using prioritize_source_path_set [OF ps(1) qs(4)] a
      invalidation_entry_of_visible [OF vs w qs(1)] prefix_of_invalidated_not_visible [OF vs w qs(1)]
    by blast
  then have "\<lparr>ia_path = ap_path w, ia_scope = Subtree\<rparr> \<in> set (actions (from_affected_paths ps))"
    using a by (force simp: set_from_affected_paths for_affected_path_actions)
  moreover have "for_local_mutation s = Inr (from_affected_paths ps)"
    using p m qs(1) ps(1)
    by (simp add: for_local_mutation_def invalidation_paths_for_mount_path_def)
  ultimately show ?thesis by blast
qed

section \<open>Properties\<close>

text \<open>C35: after a local mutation of a parsed path the cache holds nothing at or below any alias of
  the changed value, whatever it held before.\<close>

theorem local_mutation_leaves_no_stale_alias:
  assumes "cache_inv cache"
    and "parse s = Inr p" "from_jetstream_path p = Some f" "visible_paths f = Inr vs"
    and "parse t = Inr q" "from_jetstream_path q = Some f" "mount_path_from_jetstream_path q = Inr m"
    and "wf_mount k" "is_self_or_descendant_of k m"
  shows "\<exists>plan. for_local_mutation s = Inr plan \<and> cache_get (apply_invalidation plan cache) k = None"
proof -
  have "wf_path q" using assms(5) by (rule parse_wf)
  then obtain w where w: "w \<in> set vs" "ap_path w = m"
    using path_components_visible [of q f] assms(6,7) visible_paths_mounts(1) [OF assms(4)]
      mount_path_of_wf [of q] by (metis imageE image_eqI sum.inject(2))
  obtain plan where plan: "for_local_mutation s = Inr plan"
    "\<lparr>ia_path = m, ia_scope = Subtree\<rparr> \<in> set (actions plan)"
    using local_plan_covers_visible [OF assms(2,3,4) w(1)] w(2) by auto
  have "MountPath_new k = Inr k"
    using assms(8) MountPath_new_mount_of by (metis wf_mountE)
  then have "action_clears k \<lparr>ia_path = m, ia_scope = Subtree\<rparr>"
    using assms(9) by (simp add: action_clears_def survives_def path_matches_action_def)
  then show ?thesis using plan get_apply_invalidation [OF assms(1), of plan k] by auto
qed

definition sample_entry :: "string \<Rightarrow> CacheEntry" where
  "sample_entry path =
     \<lparr>ce_path = path, ce_origin = LocalDiagnostic, ce_version = VersionStamp_at 0, ce_bytes = [],
      ce_valid = True\<rparr>"

theorem local_mutation_leaves_no_stale_alias_witness:
  "\<exists>plan. for_local_mutation ''/tasks/ops/a.json'' = Inr plan \<and>
     cache_get (apply_invalidation plan
       (cache_insert (sample_entry ''/kv/EVENTFS_TASKS/ops/a.json'') LocalCache_new))
       ''/kv/EVENTFS_TASKS/ops/a.json'' = None"
proof (rule local_mutation_leaves_no_stale_alias)
  show "cache_inv (cache_insert (sample_entry ''/kv/EVENTFS_TASKS/ops/a.json'') LocalCache_new)"
    by (intro cache_inv_insert cache_inv_new)
  show "parse ''/tasks/ops/a.json'' = Inr (JetStreamPath.Task ''ops'' ''a.json'')" by code_simp
  show "from_jetstream_path (JetStreamPath.Task ''ops'' ''a.json'') =
      Some (StorageFact.Kv ''EVENTFS_TASKS'' ''ops/a.json'')" by code_simp
  show "visible_paths (StorageFact.Kv ''EVENTFS_TASKS'' ''ops/a.json'') =
      Inr [AffectedPath_new ''/kv/EVENTFS_TASKS/ops/a.json'' Exact,
           AffectedPath_new ''/tasks/ops/a.json'' Alias]" by code_simp
  show "parse ''/kv/EVENTFS_TASKS/ops/a.json'' = Inr (JetStreamPath.KvKey ''EVENTFS_TASKS'' ''ops/a.json'')"
    by code_simp
  show "from_jetstream_path (JetStreamPath.KvKey ''EVENTFS_TASKS'' ''ops/a.json'') =
      Some (StorageFact.Kv ''EVENTFS_TASKS'' ''ops/a.json'')" by code_simp
  show "mount_path_from_jetstream_path (JetStreamPath.KvKey ''EVENTFS_TASKS'' ''ops/a.json'') =
      Inr ''/kv/EVENTFS_TASKS/ops/a.json''" by code_simp
  show "wf_mount ''/kv/EVENTFS_TASKS/ops/a.json''" by code_simp
  show "is_self_or_descendant_of ''/kv/EVENTFS_TASKS/ops/a.json'' ''/kv/EVENTFS_TASKS/ops/a.json''"
    by code_simp
qed

text \<open>What one watch event does to a lookup. A gap forgets every entry and moves the cache to a
  new generation, unless the counter is saturated; invalidating a path forgets exactly the
  entries at or below it (and entries under no mount path) and keeps the others; a refresh of a
  mount path makes its entry the cached one. The map stays well formed throughout.\<close>

lemma watch_event_effect:
  assumes "cache_inv cache"
  shows "cache_inv (cache_apply ev cache)
    \<and> (ev = Gap \<longrightarrow> cache_get (cache_apply ev cache) k = None
         \<and> generation (cache_apply ev cache) = saturating_add_one (generation cache)
         \<and> (generation cache \<noteq> - 1 \<longrightarrow> generation cache < generation (cache_apply ev cache)))
    \<and> (ev = InvalidatePath m \<and> MountPath_new k = Inr k \<longrightarrow>
         cache_get (cache_apply ev cache) k =
           (if is_self_or_descendant_of k m then None else cache_get cache k)
         \<and> generation (cache_apply ev cache) = generation cache)
    \<and> (ev = Refresh e \<and> ce_valid e \<longrightarrow> cache_get (cache_apply ev cache) (ce_path e) = Some e)"
proof (intro conjI impI)
  show "cache_inv (cache_apply ev cache)" using assms by (rule cache_inv_apply)
next
  assume "ev = Gap"
  then show "cache_get (cache_apply ev cache) k = None"
    using get_apply_invalidation [OF assms, of gap_plan k]
    by (simp add: cache_apply_def for_watch_event_def gap_plan_def action_clears_def Let_def)
  show gen: "generation (cache_apply ev cache) = saturating_add_one (generation cache)"
    using \<open>ev = Gap\<close> by (simp add: cache_apply_def for_watch_event_def gap_plan_def
        apply_invalidation_def generation_apply_action Let_def)
  assume "generation cache \<noteq> - 1"
  then show "generation cache < generation (cache_apply ev cache)"
    unfolding gen by (rule less_saturating_add_one)
next
  assume ev: "ev = InvalidatePath m \<and> MountPath_new k = Inr k"
  then show "cache_get (cache_apply ev cache) k =
      (if is_self_or_descendant_of k m then None else cache_get cache k)"
    using get_apply_invalidation [OF assms, of "subtree m" k]
    by (simp add: cache_apply_def for_watch_event_def subtree_def action_clears_def survives_def
        path_matches_action_def)
  show "generation (cache_apply ev cache) = generation cache"
    using ev by (simp add: cache_apply_def for_watch_event_def subtree_def
        apply_invalidation_def generation_apply_action)
next
  assume "ev = Refresh e \<and> ce_valid e"
  then show "cache_get (cache_apply ev cache) (ce_path e) = Some e"
    by (simp add: cache_apply_def Let_def get_insert)
qed

lemma watch_event_effect_example:
  "cache_get (cache_apply (InvalidatePath ''/kv/b'')
     (cache_insert (sample_entry ''/kv/bx'') (cache_insert (sample_entry ''/kv/b/k'') LocalCache_new)))
     ''/kv/b/k'' = None
   \<and> cache_get (cache_apply (InvalidatePath ''/kv/b'')
     (cache_insert (sample_entry ''/kv/bx'') (cache_insert (sample_entry ''/kv/b/k'') LocalCache_new)))
     ''/kv/bx'' = Some (sample_entry ''/kv/bx'')"
proof -
  let ?c = "cache_insert (sample_entry ''/kv/bx'') (cache_insert (sample_entry ''/kv/b/k'') LocalCache_new)"
  have inv: "cache_inv ?c" by (intro cache_inv_insert cache_inv_new)
  have new: "MountPath_new ''/kv/b/k'' = Inr ''/kv/b/k''" "MountPath_new ''/kv/bx'' = Inr ''/kv/bx''"
    "is_self_or_descendant_of ''/kv/b/k'' ''/kv/b''" "\<not> is_self_or_descendant_of ''/kv/bx'' ''/kv/b''"
    by code_simp+
  show ?thesis
    using watch_event_effect [OF inv, of "InvalidatePath ''/kv/b''" "''/kv/b/k''" "''/kv/b''" "sample_entry []"]
      watch_event_effect [OF inv, of "InvalidatePath ''/kv/b''" "''/kv/bx''" "''/kv/b''" "sample_entry []"] new
    by (simp add: get_insert sample_entry_def)
qed

end
