(* ===== verification/Json_Lines.thy ===== *)
theory Json_Lines
  imports Errors
begin

text \<open>
  \<open>eventfs-protocol/src/json.rs\<close>. The JSON parser is serde_json's and is a parameter:
  \<open>json_parse\<close> answers \<open>Inl\<close> with the error's text when the bytes are no JSON value. The text of a
  \<open>Utf8Error\<close> is the parameter \<open>utf8_text\<close>; it only appears inside error messages.
\<close>

record Json =
  json_parse :: "bytes \<Rightarrow> string + unit"
  utf8_text :: "bytes \<Rightarrow> string"

definition validate_json_document :: "Json \<Rightarrow> string \<Rightarrow> bytes \<Rightarrow> EventFsError + unit" where
  "validate_json_document json path bs = map_err (invalid_json path) (json_parse json bs)"

definition json_lines :: "Json \<Rightarrow> string \<Rightarrow> bytes \<Rightarrow> EventFsError + string list" where
  "json_lines json path bs =
     rbind (ok_or (invalid_json path (utf8_text json bs)) (from_utf8 bs)) (\<lambda>text.
       Inr (filter (\<lambda>line. line \<noteq> []) (map trim_str (str_lines text))))"

definition validate_json_lines :: "Json \<Rightarrow> string \<Rightarrow> bytes \<Rightarrow> EventFsError + unit" where
  "validate_json_lines json path bs =
     rbind (json_lines json path bs)
       (try_all (\<lambda>line. map_err (invalid_json path) (json_parse json (as_bytes line))))"

lemma validate_json_lines_Inr:
  "validate_json_lines json path bs = Inr u \<longleftrightarrow>
    (\<exists>lines. json_lines json path bs = Inr lines \<and>
      (\<forall>line \<in> set lines. json_parse json (as_bytes line) = Inr ()))"
  by (auto simp: validate_json_lines_def)

lemma json_lines_nonempty: "json_lines json path bs = Inr lines \<Longrightarrow> line \<in> set lines \<Longrightarrow> line \<noteq> []"
  by (auto simp: json_lines_def)

lemma json_lines_errors: "fails_with EINVAL (json_lines json path bs)"
  by (auto simp: json_lines_def)

lemma validate_json_lines_errors: "fails_with EINVAL (validate_json_lines json path bs)"
proof -
  have "fails_with EINVAL (map_err (invalid_json path) r)" for r :: "string + unit"
    by (cases r) auto
  then show ?thesis
    by (auto simp: validate_json_lines_def intro!: json_lines_errors fails_with_try_all)
qed

end
