(* ===== verification/Storage.thy ===== *)
theory Storage
  imports Invalidation Json_Lines
begin

text \<open>
  \<open>eventfs-transport/src/error.rs\<close> and \<open>eventfs-transport/src/storage/mod.rs\<close>: the transport's
  errors, the values a storage backend returns, and the trait \<open>ReplayStorage\<close> the write-back
  queue talks to. A trait object is a record of its methods; a method that takes \<open>&self\<close> and
  mutates behind it threads the backend's state.
\<close>

text \<open>An \<open>io::Error\<close> is its kind, as far as the sources look at it, and its text; a
  \<open>serde_json::Error\<close> is kept as its text.\<close>

datatype ErrorKind = KindNotFound | KindAlreadyExists | KindTimedOut | KindInvalidData | KindOther

record IoError =
  io_kind :: ErrorKind
  io_text :: string

datatype TransportError =
    Io IoError
  | Json_Error string
  | Invalid string
  | QueueFull
  | QueueLocked string
  | NotFound

datatype EntryKind = Directory | File

record DirectoryEntry =
  de_name :: string
  de_kind :: EntryKind

record KeyRevision =
  kr_revision :: u64
  kr_created :: SystemTime
  kr_bytes :: bytes

record StreamMessageView =
  sm_stream :: string
  sm_sequence :: u64
  sm_published :: SystemTime
  sm_subject :: string
  sm_payload :: bytes

record ObjectVersion =
  ov_modified :: SystemTime
  ov_sequence :: u64
  ov_nuid :: string
  ov_bytes :: bytes

record ObjectMetadata =
  om_modified :: SystemTime
  om_size :: u64
  om_sequence :: u64

text \<open>The result of a storage method: an error or a value, and the new state of the backend.\<close>

type_synonym ('s, 'a) outcome = "(TransportError + 'a) \<times> 's"

record 's ReplayStorage =
  kv_put_idempotent :: "string \<Rightarrow> string \<Rightarrow> bytes \<Rightarrow> string \<Rightarrow> 's \<Rightarrow> ('s, u64) outcome"
  kv_put_applied :: "string \<Rightarrow> string \<Rightarrow> string \<Rightarrow> 's \<Rightarrow> ('s, bool) outcome"
  kv_delete_if_revision :: "string \<Rightarrow> string \<Rightarrow> u64 \<Rightarrow> 's \<Rightarrow> ('s, unit) outcome"
  kv_delete_if_revision_applied :: "string \<Rightarrow> string \<Rightarrow> u64 \<Rightarrow> 's \<Rightarrow> ('s, bool) outcome"
  publish_json_lines :: "string \<Rightarrow> string \<Rightarrow> bytes \<Rightarrow> string \<Rightarrow> 's \<Rightarrow> ('s, u64 list) outcome"
  publish_json_lines_applied :: "string \<Rightarrow> string \<Rightarrow> bytes \<Rightarrow> string \<Rightarrow> 's \<Rightarrow> ('s, bool) outcome"
  publish_json_lines_applied_prefix :: "string \<Rightarrow> string \<Rightarrow> bytes \<Rightarrow> string \<Rightarrow> 's \<Rightarrow> ('s, nat) outcome"
  object_put_idempotent :: "string \<Rightarrow> string \<Rightarrow> bytes \<Rightarrow> string \<Rightarrow> 's \<Rightarrow> ('s, unit) outcome"
  object_put_applied :: "string \<Rightarrow> string \<Rightarrow> string \<Rightarrow> 's \<Rightarrow> ('s, bool) outcome"
  object_delete_if_sequence :: "string \<Rightarrow> string \<Rightarrow> u64 \<Rightarrow> string \<Rightarrow> 's \<Rightarrow> ('s, unit) outcome"
  object_delete_if_sequence_applied :: "string \<Rightarrow> string \<Rightarrow> u64 \<Rightarrow> string \<Rightarrow> 's \<Rightarrow> ('s, bool) outcome"

text \<open>\<open>obind m f\<close> is \<open>let x = m?; f(x)\<close> for calls that thread the backend's state.\<close>

definition obind :: "('s, 'a) outcome \<Rightarrow> ('a \<Rightarrow> 's \<Rightarrow> ('s, 'b) outcome) \<Rightarrow> ('s, 'b) outcome" where
  "obind m f = (case m of (Inl e, s) \<Rightarrow> (Inl e, s) | (Inr x, s) \<Rightarrow> f x s)"

lemma obind_simps [simp]:
  "obind (Inl e, s) f = (Inl e, s)"
  "obind (Inr x, s) f = f x s"
  by (simp_all add: obind_def)

lemma obind_Inr_iff: "obind m f = (Inr y, s') \<longleftrightarrow> (\<exists>x s. m = (Inr x, s) \<and> f x s = (Inr y, s'))"
  by (auto simp: obind_def split: prod.splits sum.splits)

text \<open>The default method of \<open>MountStorage\<close>: metadata from the object itself. \<open>len() as u64\<close>
  truncates to 64 bits.\<close>

definition object_metadata_of :: "ObjectVersion \<Rightarrow> ObjectMetadata" where
  "object_metadata_of v =
     \<lparr>om_modified = ov_modified v, om_size = word_of_nat (length (ov_bytes v)),
      om_sequence = ov_sequence v\<rparr>"

end
