(* ===== verification/Writeback.thy ===== *)
theory Writeback
  imports Mount_Paths Storage
begin

text \<open>
  \<open>eventfs-transport/src/writeback.rs\<close>: the durable queue of failed writes, its replay against a
  storage backend, the gate that refuses new writes while entries are pending, and the overlay
  of pending writes.

  The queue file lives on a \<open>Disk\<close>. Saving it writes a temporary file, syncs it, renames it over
  the queue file and syncs the directory; each of these steps can fail. \<open>d_faults\<close> lists, for the
  next saves, which step fails and how (\<open>None\<close> for a save that succeeds; an empty list for no
  more failures): before the rename the queue file keeps its old content, after it the new one.
  serde_json's printer and parser for a queue entry are the parameter \<open>serde\<close>.
\<close>

datatype QueueOperation =
    KvPut string string bytes
  | KvRenameComplete string string u64 string string bytes
  | ObjectPut string string bytes
  | ObjectRenameComplete string string u64 string string string bytes
  | PublishJsonLines string string bytes nat
  | MaterializedPut string string bytes

record QueueEntry =
  qe_idempotency_key :: string
  qe_version :: VersionStamp
  qe_operation :: QueueOperation
  qe_attempts :: u32
  qe_done :: bool

record KvSourceGeneration =
  ks_revision :: u64

record ObjectSourceGeneration =
  os_sequence :: u64
  os_nuid :: string

datatype FailedWriteOperation =
    KvPut string string bytes
  | KvRenameComplete string string KvSourceGeneration string string bytes
  | ObjectPut string string bytes
  | ObjectRenameComplete string string ObjectSourceGeneration string string bytes
  | PublishJsonLines string string bytes nat
  | MaterializedPut string string bytes

record FailedWrite =
  fw_idempotency_key :: string
  fw_version :: VersionStamp
  fw_diagnostic_path :: MountPath
  fw_operation :: FailedWriteOperation

record QueueState =
  qs_capacity :: nat
  qs_pending :: nat
  qs_done :: nat

record QueueEntryView =
  qv_idempotency_key :: string
  qv_version :: VersionStamp
  qv_operation_kind :: string
  qv_target :: string
  qv_bytes_len :: nat
  qv_attempts :: u32

record QueueSnapshot =
  qn_state :: QueueState
  qn_pending :: "QueueEntryView list"

record WriteGateState =
  gs_accepting_writes :: bool

datatype WritebackGateTransition = Unchanged | Blocked | Unblocked

record ReplayQueueOutcome =
  ro_queue :: QueueState
  ro_write_gate :: WriteGateState
  ro_gate_transition :: WritebackGateTransition

datatype PendingWritePayload =
    WholeValue bytes
  | JsonLines string string bytes nat

record PendingWriteOverlay =
  po_idempotency_key :: string
  po_version :: VersionStamp
  po_visible_paths :: "MountPath list"
  po_deleted_paths :: "MountPath list"
  po_payload :: PendingWritePayload

section \<open>The write gate\<close>

record WritebackGate =
  accepting_writes :: bool

definition WritebackGate_new :: WritebackGate where
  "WritebackGate_new = \<lparr>accepting_writes = True\<rparr>"

definition accepts_writes :: "WritebackGate \<Rightarrow> bool" where
  "accepts_writes gate = accepting_writes gate"

definition gate_state :: "WritebackGate \<Rightarrow> WriteGateState" where
  "gate_state gate = \<lparr>gs_accepting_writes = accepting_writes gate\<rparr>"

definition sync_pending :: "bool \<Rightarrow> WritebackGate \<Rightarrow> WritebackGateTransition \<times> WritebackGate" where
  "sync_pending has_pending gate =
     (if accepting_writes gate \<and> has_pending then (Blocked, gate\<lparr>accepting_writes := False\<rparr>)
      else if \<not> accepting_writes gate \<and> \<not> has_pending then (Unblocked, gate\<lparr>accepting_writes := True\<rparr>)
      else (Unchanged, gate))"

definition block_new_writes :: "WritebackGate \<Rightarrow> bool \<times> WritebackGate" where
  "block_new_writes gate =
     (case sync_pending True gate of (transition, gate) \<Rightarrow> (transition = Blocked, gate))"

section \<open>The queue file\<close>

record Serde =
  to_string :: "QueueEntry \<Rightarrow> string + string"
  from_str :: "string \<Rightarrow> (bool \<times> string) + QueueEntry"

text \<open>\<open>from_str\<close> answers, on failure, whether the error's category is \<open>Eof\<close>, and its text.\<close>

datatype PersistStep = OpenTmp | WriteTmp | SyncTmp | RenameTmp | FsyncDir

record Disk =
  d_file :: "string option"
  d_locked :: bool
  d_faults :: "(PersistStep \<times> IoError) option list"

definition renamed :: "(PersistStep \<times> IoError) option \<Rightarrow> bool" where
  "renamed fault = (case fault of None \<Rightarrow> True | Some (step, _) \<Rightarrow> step = FsyncDir)"

definition serialize_entries :: "Serde \<Rightarrow> QueueEntry list \<Rightarrow> TransportError + string" where
  "serialize_entries serde entries =
     rbind (try_map (\<lambda>e. map_err Json_Error (to_string serde e)) entries) (\<lambda>lines.
       Inr (concat (map (\<lambda>line. line @ [newline]) lines)))"

definition persist_entries ::
  "Serde \<Rightarrow> QueueEntry list \<Rightarrow> Disk \<Rightarrow> (TransportError + unit) \<times> Disk" where
  "persist_entries serde entries disk =
     (case serialize_entries serde entries of
        Inl e \<Rightarrow> (Inl e, disk)
      | Inr content \<Rightarrow>
          (let fault = (case d_faults disk of [] \<Rightarrow> None | f # _ \<Rightarrow> f);
               disk = disk\<lparr>d_faults := tl (d_faults disk),
                           d_file := if renamed fault then Some content else d_file disk\<rparr> in
             case fault of None \<Rightarrow> (Inr (), disk) | Some (_, err) \<Rightarrow> (Inl (Io err), disk)))"

definition compact_completed_entries :: "QueueEntry list \<Rightarrow> bool \<times> QueueEntry list" where
  "compact_completed_entries entries =
     (let kept = filter (\<lambda>e. \<not> qe_done e) entries in (length kept \<noteq> length entries, kept))"

definition is_torn_final_record :: "nat \<Rightarrow> nat \<Rightarrow> bool \<Rightarrow> bool \<Rightarrow> bool" where
  "is_torn_final_record index line_count trailing_newline eof \<longleftrightarrow>
     index = line_count - 1 \<and> \<not> trailing_newline \<and> eof"

fun read_loop :: "Serde \<Rightarrow> nat \<Rightarrow> bool \<Rightarrow> nat \<Rightarrow> string list \<Rightarrow> TransportError + QueueEntry list" where
  "read_loop serde line_count trailing_newline index [] = Inr []"
| "read_loop serde line_count trailing_newline index (line # lines) =
     (if trim_str line = [] then read_loop serde line_count trailing_newline (Suc index) lines
      else (case from_str serde line of
              Inr entry \<Rightarrow>
                rbind (read_loop serde line_count trailing_newline (Suc index) lines) (\<lambda>entries.
                  Inr (entry # entries))
            | Inl (eof, text) \<Rightarrow>
                (if is_torn_final_record index line_count trailing_newline eof then Inr []
                 else Inl (Json_Error text))))"

text \<open>\<open>fs::read_to_string\<close> refuses a file that is not UTF-8.\<close>

definition read_entries :: "Serde \<Rightarrow> string \<Rightarrow> TransportError + QueueEntry list" where
  "read_entries serde content =
     (if \<not> valid_utf8 content then Inl (Io \<lparr>io_kind = KindInvalidData, io_text = ''stream did not contain valid UTF-8''\<rparr>)
      else (let lines = str_lines content in
              read_loop serde (length lines) (ends_with [newline] content) 0 lines))"

section \<open>The queue\<close>

record WritebackQueue =
  wq_capacity :: nat
  wq_entries :: "QueueEntry list"

type_synonym 'a qresult = "(TransportError + 'a) \<times> WritebackQueue \<times> Disk"

definition replace_entries :: "Serde \<Rightarrow> QueueEntry list \<Rightarrow> WritebackQueue \<Rightarrow> Disk \<Rightarrow> unit qresult" where
  "replace_entries serde entries queue disk =
     (case persist_entries serde entries disk of
        (Inl e, disk) \<Rightarrow> (Inl e, queue, disk)
      | (Inr _, disk) \<Rightarrow> (Inr (), queue\<lparr>wq_entries := entries\<rparr>, disk))"

text \<open>\<open>open_error\<close> is the error of creating the directory or the lock file, if any. A failing open
  drops the lock again.\<close>

definition queue_open ::
  "Serde \<Rightarrow> string \<Rightarrow> IoError option \<Rightarrow> nat \<Rightarrow> Disk \<Rightarrow> (TransportError + WritebackQueue) \<times> Disk" where
  "queue_open serde dir open_error capacity disk =
     (case open_error of
        Some err \<Rightarrow> (Inl (Io err), disk)
      | None \<Rightarrow>
          (if d_locked disk then (Inl (QueueLocked (dir @ ''/writeback.lock'')), disk)
           else (case (case d_file disk of
                         Some content \<Rightarrow> read_entries serde content
                       | None \<Rightarrow> Inr []) of
                   Inl e \<Rightarrow> (Inl e, disk)
                 | Inr entries \<Rightarrow>
                     (case compact_completed_entries entries of
                        (compacted, entries) \<Rightarrow>
                          (let queue = \<lparr>wq_capacity = capacity, wq_entries = entries\<rparr> in
                             if compacted then
                               (case persist_entries serde entries disk of
                                  (Inl e, disk) \<Rightarrow> (Inl e, disk)
                                | (Inr _, disk) \<Rightarrow> (Inr queue, disk\<lparr>d_locked := True\<rparr>))
                             else (Inr queue, disk\<lparr>d_locked := True\<rparr>))))))"

definition drop_lock :: "Disk \<Rightarrow> Disk" where
  "drop_lock disk = disk\<lparr>d_locked := False\<rparr>"

text \<open>The first loop of \<open>enqueue_all\<close>: entries whose key is new.\<close>

definition add_pending :: "QueueEntry list \<Rightarrow> QueueEntry list \<Rightarrow> QueueEntry \<Rightarrow> QueueEntry list" where
  "add_pending existing pending entry =
     (if list_ex (\<lambda>e. qe_idempotency_key e = qe_idempotency_key entry) existing
         \<or> list_ex (\<lambda>e. qe_idempotency_key e = qe_idempotency_key entry) pending
      then pending else pending @ [entry])"

definition enqueue_all :: "Serde \<Rightarrow> QueueEntry list \<Rightarrow> WritebackQueue \<Rightarrow> Disk \<Rightarrow> unit qresult" where
  "enqueue_all serde entries queue disk =
     (let pending = foldl (add_pending (wq_entries queue)) [] entries in
        if pending = [] then (Inr (), queue, disk)
        else if length (wq_entries queue) + length pending > wq_capacity queue
        then (Inl QueueFull, queue, disk)
        else replace_entries serde (wq_entries queue @ pending) queue disk)"

definition enqueue :: "Serde \<Rightarrow> QueueEntry \<Rightarrow> WritebackQueue \<Rightarrow> Disk \<Rightarrow> unit qresult" where
  "enqueue serde entry = enqueue_all serde [entry]"

fun durable_operation_from_failed_write :: "FailedWriteOperation \<Rightarrow> QueueOperation" where
  "durable_operation_from_failed_write (FailedWriteOperation.KvPut bucket key bs) =
     QueueOperation.KvPut bucket key bs"
| "durable_operation_from_failed_write
     (FailedWriteOperation.KvRenameComplete from_bucket from_key source to_bucket to_key bs) =
     QueueOperation.KvRenameComplete from_bucket from_key (ks_revision source) to_bucket to_key bs"
| "durable_operation_from_failed_write (FailedWriteOperation.ObjectPut bucket obj bs) =
     QueueOperation.ObjectPut bucket obj bs"
| "durable_operation_from_failed_write
     (FailedWriteOperation.ObjectRenameComplete from_bucket from_object source to_bucket to_object bs) =
     QueueOperation.ObjectRenameComplete from_bucket from_object (os_sequence source) (os_nuid source)
       to_bucket to_object bs"
| "durable_operation_from_failed_write (FailedWriteOperation.PublishJsonLines stream subject bs applied) =
     QueueOperation.PublishJsonLines stream subject bs applied"
| "durable_operation_from_failed_write (FailedWriteOperation.MaterializedPut bucket key bs) =
     QueueOperation.MaterializedPut bucket key bs"

definition durable_entry_from_failed_write :: "FailedWrite \<Rightarrow> QueueEntry" where
  "durable_entry_from_failed_write failed =
     \<lparr>qe_idempotency_key = fw_idempotency_key failed, qe_version = fw_version failed,
      qe_operation = durable_operation_from_failed_write (fw_operation failed),
      qe_attempts = 0, qe_done = False\<rparr>"

definition enqueue_failed_write :: "Serde \<Rightarrow> FailedWrite \<Rightarrow> WritebackQueue \<Rightarrow> Disk \<Rightarrow> unit qresult" where
  "enqueue_failed_write serde failed = enqueue serde (durable_entry_from_failed_write failed)"

definition pending_len :: "WritebackQueue \<Rightarrow> nat" where
  "pending_len queue = length (filter (\<lambda>e. \<not> qe_done e) (wq_entries queue))"

definition queue_state :: "WritebackQueue \<Rightarrow> QueueState" where
  "queue_state queue =
     \<lparr>qs_capacity = wq_capacity queue, qs_pending = pending_len queue,
      qs_done = length (filter qe_done (wq_entries queue))\<rparr>"

definition has_pending :: "WritebackQueue \<Rightarrow> bool" where
  "has_pending queue \<longleftrightarrow> pending_len queue > 0"

definition sync_with_queue ::
  "WritebackQueue \<Rightarrow> WritebackGate \<Rightarrow> WritebackGateTransition \<times> WritebackGate" where
  "sync_with_queue queue gate = sync_pending (has_pending queue) gate"

end
