(* ===== verification/Writeback_Replay.thy ===== *)
theory Writeback_Replay
  imports Writeback
begin

text \<open>
  The rest of \<open>eventfs-transport/src/writeback.rs\<close>: replaying the queue through a write executor,
  the executor that talks to a \<open>ReplayStorage\<close>, the queue together with its gate, and the views
  of pending entries.
\<close>

section \<open>Replay\<close>

record 's WriteExecutor =
  is_applied :: "QueueEntry \<Rightarrow> 's \<Rightarrow> ('s, bool) outcome"
  refresh_after_failed_execute :: "QueueEntry \<Rightarrow> 's \<Rightarrow> (TransportError + unit) \<times> QueueEntry \<times> 's"
  execute :: "QueueEntry \<Rightarrow> 's \<Rightarrow> ('s, unit) outcome"

definition bump_attempts :: "QueueEntry \<Rightarrow> QueueEntry" where
  "bump_attempts e = e\<lparr>qe_attempts := saturating_add_one (qe_attempts e)\<rparr>"

text \<open>\<open>index\<close> stays 0, so each round of the loop looks at the head of the queue; the first argument
  is the queue's entries. A failing refresh is only logged.\<close>

fun replay_loop ::
  "Serde \<Rightarrow> 's WriteExecutor \<Rightarrow> QueueEntry list \<Rightarrow> WritebackQueue \<Rightarrow> Disk \<Rightarrow> 's
    \<Rightarrow> (TransportError + unit) \<times> WritebackQueue \<times> Disk \<times> 's" where
  "replay_loop serde ex [] queue disk s = (Inr (), queue, disk, s)"
| "replay_loop serde ex (e # rest) queue disk s =
     (if qe_done e then
        (case replace_entries serde rest queue disk of
           (Inl err, queue, disk) \<Rightarrow> (Inl err, queue, disk, s)
         | (Inr _, queue, disk) \<Rightarrow> replay_loop serde ex rest queue disk s)
      else
        (case is_applied ex e s of
           (Inl err, s) \<Rightarrow> (Inl err, queue, disk, s)
         | (Inr True, s) \<Rightarrow>
             (case replace_entries serde rest queue disk of
                (Inl err, queue, disk) \<Rightarrow> (Inl err, queue, disk, s)
              | (Inr _, queue, disk) \<Rightarrow> replay_loop serde ex rest queue disk s)
         | (Inr False, s) \<Rightarrow>
             (case replace_entries serde (bump_attempts e # rest) queue disk of
                (Inl err, queue, disk) \<Rightarrow> (Inl err, queue, disk, s)
              | (Inr _, queue, disk) \<Rightarrow>
                  (case execute ex (bump_attempts e) s of
                     (Inl err, s) \<Rightarrow>
                       (case refresh_after_failed_execute ex (bump_attempts e) s of
                          (_, refreshed, s) \<Rightarrow>
                            (case replace_entries serde (refreshed # rest) queue disk of
                               (Inl perr, queue, disk) \<Rightarrow> (Inl perr, queue, disk, s)
                             | (Inr _, queue, disk) \<Rightarrow> (Inl err, queue, disk, s)))
                   | (Inr _, s) \<Rightarrow>
                       (case replace_entries serde rest queue disk of
                          (Inl err, queue, disk) \<Rightarrow> (Inl err, queue, disk, s)
                        | (Inr _, queue, disk) \<Rightarrow> replay_loop serde ex rest queue disk s)))))"

definition replay ::
  "Serde \<Rightarrow> 's WriteExecutor \<Rightarrow> WritebackQueue \<Rightarrow> Disk \<Rightarrow> 's
    \<Rightarrow> (TransportError + unit) \<times> WritebackQueue \<times> Disk \<times> 's" where
  "replay serde ex queue disk s = replay_loop serde ex (wq_entries queue) queue disk s"

section \<open>The executor over a storage backend\<close>

definition store_is_applied :: "'s ReplayStorage \<Rightarrow> QueueEntry \<Rightarrow> 's \<Rightarrow> ('s, bool) outcome" where
  "store_is_applied store entry s =
     (case qe_operation entry of
        QueueOperation.KvPut bucket key _ \<Rightarrow> kv_put_applied store bucket key (qe_idempotency_key entry) s
      | QueueOperation.MaterializedPut bucket key _ \<Rightarrow>
          kv_put_applied store bucket key (qe_idempotency_key entry) s
      | QueueOperation.KvRenameComplete from_bucket from_key expected to_bucket to_key _ \<Rightarrow>
          obind (kv_put_applied store to_bucket to_key (qe_idempotency_key entry) s) (\<lambda>applied s.
            if \<not> applied then (Inr False, s)
            else kv_delete_if_revision_applied store from_bucket from_key expected s)
      | QueueOperation.ObjectPut bucket obj _ \<Rightarrow>
          object_put_applied store bucket obj (qe_idempotency_key entry) s
      | QueueOperation.ObjectRenameComplete from_bucket from_object expected nuid to_bucket to_object _ \<Rightarrow>
          obind (object_put_applied store to_bucket to_object (qe_idempotency_key entry) s) (\<lambda>applied s.
            if \<not> applied then (Inr False, s)
            else object_delete_if_sequence_applied store from_bucket from_object expected nuid s)
      | QueueOperation.PublishJsonLines stream subject bs _ \<Rightarrow>
          publish_json_lines_applied store stream subject bs (qe_idempotency_key entry) s)"

definition store_refresh ::
  "'s ReplayStorage \<Rightarrow> QueueEntry \<Rightarrow> 's \<Rightarrow> (TransportError + unit) \<times> QueueEntry \<times> 's" where
  "store_refresh store entry s =
     (case qe_operation entry of
        QueueOperation.PublishJsonLines stream subject bs applied_lines \<Rightarrow>
          (case publish_json_lines_applied_prefix store stream subject bs (qe_idempotency_key entry) s of
             (Inl err, s) \<Rightarrow> (Inl err, entry, s)
           | (Inr durable_prefix, s) \<Rightarrow>
               (Inr (),
                entry\<lparr>qe_operation := QueueOperation.PublishJsonLines stream subject bs
                         (max applied_lines durable_prefix)\<rparr>, s))
      | _ \<Rightarrow> (Inr (), entry, s))"

definition ignore_value :: "('s, 'a) outcome \<Rightarrow> ('s, unit) outcome" where
  "ignore_value m = obind m (\<lambda>_ s. (Inr (), s))"

definition store_execute :: "'s ReplayStorage \<Rightarrow> QueueEntry \<Rightarrow> 's \<Rightarrow> ('s, unit) outcome" where
  "store_execute store entry s =
     (case qe_operation entry of
        QueueOperation.KvPut bucket key bs \<Rightarrow>
          ignore_value (kv_put_idempotent store bucket key bs (qe_idempotency_key entry) s)
      | QueueOperation.MaterializedPut bucket key bs \<Rightarrow>
          ignore_value (kv_put_idempotent store bucket key bs (qe_idempotency_key entry) s)
      | QueueOperation.KvRenameComplete from_bucket from_key expected to_bucket to_key bs \<Rightarrow>
          obind (kv_put_idempotent store to_bucket to_key bs (qe_idempotency_key entry) s) (\<lambda>_ s.
            kv_delete_if_revision store from_bucket from_key expected s)
      | QueueOperation.ObjectPut bucket obj bs \<Rightarrow>
          object_put_idempotent store bucket obj bs (qe_idempotency_key entry) s
      | QueueOperation.ObjectRenameComplete from_bucket from_object expected nuid to_bucket to_object bs \<Rightarrow>
          obind (object_put_idempotent store to_bucket to_object bs (qe_idempotency_key entry) s) (\<lambda>_ s.
            object_delete_if_sequence store from_bucket from_object expected nuid s)
      | QueueOperation.PublishJsonLines stream subject bs _ \<Rightarrow>
          ignore_value (publish_json_lines store stream subject bs (qe_idempotency_key entry) s))"

definition StoreReplayExecutor :: "'s ReplayStorage \<Rightarrow> 's WriteExecutor" where
  "StoreReplayExecutor store =
     \<lparr>is_applied = store_is_applied store, refresh_after_failed_execute = store_refresh store,
      execute = store_execute store\<rparr>"

definition replay_with_store ::
  "Serde \<Rightarrow> 's ReplayStorage \<Rightarrow> WritebackQueue \<Rightarrow> Disk \<Rightarrow> 's
    \<Rightarrow> (TransportError + unit) \<times> WritebackQueue \<times> Disk \<times> 's" where
  "replay_with_store serde store queue disk s =
     replay serde (StoreReplayExecutor store) queue disk s"

section \<open>The queue with its gate\<close>

record WritebackReplay =
  wr_queue :: WritebackQueue
  wr_gate :: WritebackGate

definition sync_gate :: "WritebackReplay \<Rightarrow> ReplayQueueOutcome \<times> WritebackReplay" where
  "sync_gate wr =
     (case sync_with_queue (wr_queue wr) (wr_gate wr) of
        (transition, gate) \<Rightarrow>
          (\<lparr>ro_queue = queue_state (wr_queue wr), ro_write_gate = gate_state gate,
            ro_gate_transition = transition\<rparr>, wr\<lparr>wr_gate := gate\<rparr>))"

definition from_queue :: "WritebackQueue \<Rightarrow> WritebackReplay" where
  "from_queue queue = snd (sync_gate \<lparr>wr_queue = queue, wr_gate = WritebackGate_new\<rparr>)"

definition writeback_open ::
  "Serde \<Rightarrow> string \<Rightarrow> IoError option \<Rightarrow> nat \<Rightarrow> Disk \<Rightarrow> (TransportError + WritebackReplay) \<times> Disk" where
  "writeback_open serde dir open_error capacity disk =
     (case queue_open serde dir open_error capacity disk of
        (r, disk) \<Rightarrow> (map_ok from_queue r, disk))"

definition writeback_enqueue ::
  "Serde \<Rightarrow> FailedWrite \<Rightarrow> WritebackReplay \<Rightarrow> Disk
    \<Rightarrow> (TransportError + ReplayQueueOutcome) \<times> WritebackReplay \<times> Disk" where
  "writeback_enqueue serde failed wr disk =
     (case enqueue_failed_write serde failed (wr_queue wr) disk of
        (Inl e, queue, disk) \<Rightarrow> (Inl e, wr\<lparr>wr_queue := queue\<rparr>, disk)
      | (Inr _, queue, disk) \<Rightarrow>
          (case sync_gate (wr\<lparr>wr_queue := queue\<rparr>) of (outcome, wr) \<Rightarrow> (Inr outcome, wr, disk)))"

definition writeback_replay ::
  "Serde \<Rightarrow> 's ReplayStorage \<Rightarrow> WritebackReplay \<Rightarrow> Disk \<Rightarrow> 's
    \<Rightarrow> (TransportError + ReplayQueueOutcome) \<times> WritebackReplay \<times> Disk \<times> 's" where
  "writeback_replay serde store wr disk s =
     (case replay_with_store serde store (wr_queue wr) disk s of
        (result, queue, disk, s) \<Rightarrow>
          (case sync_gate (wr\<lparr>wr_queue := queue\<rparr>) of
             (outcome, wr) \<Rightarrow> (map_ok (\<lambda>_. outcome) result, wr, disk, s)))"

section \<open>Views of pending entries\<close>

definition queue_entry_view :: "QueueEntry \<Rightarrow> QueueEntryView" where
  "queue_entry_view entry =
     (let (operation_kind, target, bytes_len) =
        (case qe_operation entry of
           QueueOperation.KvPut bucket key bs \<Rightarrow>
             (''kv_put'', ''/kv/'' @ bucket @ ''/'' @ key, length bs)
         | QueueOperation.KvRenameComplete from_bucket from_key _ to_bucket to_key bs \<Rightarrow>
             (''kv_rename_complete'',
              ''/kv/'' @ from_bucket @ ''/'' @ from_key @ '' -> /kv/'' @ to_bucket @ ''/'' @ to_key,
              length bs)
         | QueueOperation.ObjectPut bucket obj bs \<Rightarrow>
             (''object_put'', ''/objects/'' @ bucket @ ''/'' @ obj, length bs)
         | QueueOperation.ObjectRenameComplete from_bucket from_object _ _ to_bucket to_object bs \<Rightarrow>
             (''object_rename_complete'',
              ''/objects/'' @ from_bucket @ ''/'' @ from_object @ '' -> /objects/'' @ to_bucket @ ''/''
                @ to_object,
              length bs)
         | QueueOperation.PublishJsonLines stream subject bs _ \<Rightarrow>
             (''publish_json_lines'',
              ''/streams/'' @ stream @ ''/subjects/'' @ stream_subject_file_name_from_str subject,
              length bs)
         | QueueOperation.MaterializedPut bucket key bs \<Rightarrow>
             (''materialized_put'', ''kv://'' @ bucket @ ''/'' @ key, length bs)) in
        \<lparr>qv_idempotency_key = qe_idempotency_key entry, qv_version = qe_version entry,
         qv_operation_kind = operation_kind, qv_target = target, qv_bytes_len = bytes_len,
         qv_attempts = qe_attempts entry\<rparr>)"

definition queue_snapshot :: "WritebackQueue \<Rightarrow> QueueSnapshot" where
  "queue_snapshot queue =
     \<lparr>qn_state = queue_state queue,
      qn_pending = map queue_entry_view (filter (\<lambda>e. \<not> qe_done e) (wq_entries queue))\<rparr>"

definition storage_fact_visible_paths :: "StorageFact \<Rightarrow> MountPath list" where
  "storage_fact_visible_paths f =
     (case visible_paths f of Inr paths \<Rightarrow> map ap_path paths | Inl _ \<Rightarrow> [])"

definition kv_visible_mount_paths :: "string \<Rightarrow> string \<Rightarrow> MountPath list" where
  "kv_visible_mount_paths bucket key = storage_fact_visible_paths (StorageFact.Kv bucket key)"

definition object_visible_mount_paths :: "string \<Rightarrow> string \<Rightarrow> MountPath list" where
  "object_visible_mount_paths bucket name = storage_fact_visible_paths (StorageFact.Object bucket name)"

definition publish_jsonl_visible_mount_paths :: "string \<Rightarrow> string \<Rightarrow> MountPath list" where
  "publish_jsonl_visible_mount_paths stream subject =
     storage_fact_visible_paths (StorageFact.StreamSubject stream subject)"

definition queue_entry_pending_overlay :: "QueueEntry \<Rightarrow> PendingWriteOverlay" where
  "queue_entry_pending_overlay entry =
     (let (visible, deleted, payload) =
        (case qe_operation entry of
           QueueOperation.KvPut bucket key bs \<Rightarrow> (kv_visible_mount_paths bucket key, [], WholeValue bs)
         | QueueOperation.MaterializedPut bucket key bs \<Rightarrow>
             (kv_visible_mount_paths bucket key, [], WholeValue bs)
         | QueueOperation.KvRenameComplete from_bucket from_key _ to_bucket to_key bs \<Rightarrow>
             (kv_visible_mount_paths to_bucket to_key, kv_visible_mount_paths from_bucket from_key,
              WholeValue bs)
         | QueueOperation.ObjectPut bucket obj bs \<Rightarrow>
             (object_visible_mount_paths bucket obj, [], WholeValue bs)
         | QueueOperation.ObjectRenameComplete from_bucket from_object _ _ to_bucket to_object bs \<Rightarrow>
             (object_visible_mount_paths to_bucket to_object,
              object_visible_mount_paths from_bucket from_object, WholeValue bs)
         | QueueOperation.PublishJsonLines stream subject bs applied_lines \<Rightarrow>
             (publish_jsonl_visible_mount_paths stream subject, [],
              JsonLines stream subject bs applied_lines)) in
        \<lparr>po_idempotency_key = qe_idempotency_key entry, po_version = qe_version entry,
         po_visible_paths = visible, po_deleted_paths = deleted, po_payload = payload\<rparr>)"

definition pending_overlays :: "WritebackQueue \<Rightarrow> PendingWriteOverlay list" where
  "pending_overlays queue =
     map queue_entry_pending_overlay (filter (\<lambda>e. \<not> qe_done e) (wq_entries queue))"

end
