(* ===== verification/Memory_Storage.thy ===== *)
theory Memory_Storage
  imports Storage
begin

text \<open>
  \<open>eventfs-transport/src/storage/memory.rs\<close>: the in-memory backend. The mutex is held for the
  whole of every method, so a method is one step on \<open>MemoryStorageState\<close>. \<open>now i\<close> is what the
  \<open>i\<close>-th call of \<open>SystemTime::now()\<close> in a method answers; the JSON parser is a parameter.
\<close>

record MemoryStorageState =
  kv_buckets :: "string list"
  kv :: "(string \<times> string, KeyRevision) rmap"
  kv_hist :: "(string \<times> string, KeyRevision list) rmap"
  kv_applied :: "(string \<times> string \<times> string, u64) rmap"
  streams :: "(string, StreamMessageView list) rmap"
  stream_applied :: "(string \<times> string \<times> string, u64 list) rmap"
  object_buckets :: "string list"
  objects :: "(string \<times> string, ObjectVersion) rmap"
  object_generations :: "(string \<times> string, u64) rmap"
  object_applied :: "(string \<times> string \<times> string) list"

type_synonym clock = "nat \<Rightarrow> SystemTime"

definition MemoryStorage_new :: MemoryStorageState where
  "MemoryStorage_new =
     \<lparr>kv_buckets = [], kv = [], kv_hist = [], kv_applied = [], streams = [], stream_applied = [],
      object_buckets = [], objects = [], object_generations = [], object_applied = []\<rparr>"

definition next_revision :: "KeyRevision list option \<Rightarrow> u64" where
  "next_revision history =
     (case history of
        Some h \<Rightarrow> if h = [] then 1 else saturating_add_one (kr_revision (last h))
      | None \<Rightarrow> 1)"

definition put_kv ::
  "clock \<Rightarrow> string \<Rightarrow> string \<Rightarrow> bytes \<Rightarrow> MemoryStorageState \<Rightarrow> u64 \<times> MemoryStorageState" where
  "put_kv now bucket key bs st =
     (let map_key = (bucket, key);
          revision = next_revision (map_get (kv_hist st) map_key);
          entry = \<lparr>kr_revision = revision, kr_created = now 0, kr_bytes = bs\<rparr>;
          history = (case map_get (kv_hist st) map_key of Some h \<Rightarrow> h | None \<Rightarrow> []) in
        (revision,
         st\<lparr>kv_buckets := set_insert bucket (kv_buckets st),
            kv := map_insert map_key entry (kv st),
            kv_hist := map_insert map_key (history @ [entry]) (kv_hist st)\<rparr>))"

definition put_object ::
  "clock \<Rightarrow> string \<Rightarrow> string \<Rightarrow> bytes \<Rightarrow> MemoryStorageState \<Rightarrow> u64 \<times> MemoryStorageState" where
  "put_object now bucket obj bs st =
     (let map_key = (bucket, obj);
          gen = (case map_get (object_generations st) map_key of Some g \<Rightarrow> g | None \<Rightarrow> 0);
          sequence = saturating_add_one gen in
        (sequence,
         st\<lparr>object_buckets := set_insert bucket (object_buckets st),
            object_generations := map_insert map_key sequence (object_generations st),
            objects := map_insert map_key
              \<lparr>ov_modified = now 0, ov_sequence = sequence,
               ov_nuid = ''memory-object-'' @ show_u64 sequence, ov_bytes = bs\<rparr> (objects st)\<rparr>))"

section \<open>Directory listings\<close>

definition merge_child_entry :: "DirectoryEntry list \<Rightarrow> string \<Rightarrow> EntryKind \<Rightarrow> DirectoryEntry list" where
  "merge_child_entry entries name kind =
     (if list_ex (\<lambda>e. de_name e = name) entries then
        update_first (\<lambda>e. de_name e = name)
          (\<lambda>e. if de_kind e = EntryKind.Directory \<and> kind = EntryKind.File then e\<lparr>de_kind := EntryKind.File\<rparr> else e)
          entries
      else entries @ [\<lparr>de_name = name, de_kind = kind\<rparr>])"

text \<open>One iteration of the loop over the keys.\<close>

definition add_child :: "string option \<Rightarrow> DirectoryEntry list \<Rightarrow> string \<Rightarrow> DirectoryEntry list" where
  "add_child prefix_with_sep entries key =
     (case (case prefix_with_sep of Some p \<Rightarrow> strip_prefix p key | None \<Rightarrow> Some key) of
        None \<Rightarrow> entries
      | Some remainder \<Rightarrow>
          (if remainder = [] then entries
           else (case split_once (CHR ''/'') remainder of
                   Some (name, _) \<Rightarrow> merge_child_entry entries name EntryKind.Directory
                 | None \<Rightarrow> merge_child_entry entries remainder EntryKind.File)))"

definition immediate_children :: "string list \<Rightarrow> string \<Rightarrow> DirectoryEntry list" where
  "immediate_children keys prfx =
     (let normalized = trim_matches (CHR ''/'') prfx;
          prefix_with_sep = (if normalized \<noteq> [] then Some (normalized @ ''/'') else None) in
        sort_key de_name (foldl (add_child prefix_with_sep) [] keys))"

definition immediate_history_children :: "string list \<Rightarrow> string \<Rightarrow> DirectoryEntry list" where
  "immediate_history_children keys prfx =
     map (\<lambda>e. if de_kind e = EntryKind.File then e\<lparr>de_kind := EntryKind.Directory\<rparr> else e) (immediate_children keys prfx)"

section \<open>ReplayStorage\<close>

type_synonym 'a mem_outcome = "(MemoryStorageState, 'a) outcome"

definition mem_kv_put_idempotent ::
  "clock \<Rightarrow> string \<Rightarrow> string \<Rightarrow> bytes \<Rightarrow> string \<Rightarrow> MemoryStorageState \<Rightarrow> u64 mem_outcome" where
  "mem_kv_put_idempotent now bucket key bs idempotency_key st =
     (let applied_key = (bucket, key, idempotency_key) in
        case map_get (kv_applied st) applied_key of
          Some revision \<Rightarrow> (Inr revision, st)
        | None \<Rightarrow>
            (case put_kv now bucket key bs st of
               (revision, st) \<Rightarrow>
                 (Inr revision, st\<lparr>kv_applied := map_insert applied_key revision (kv_applied st)\<rparr>)))"

definition mem_kv_put_applied ::
  "string \<Rightarrow> string \<Rightarrow> string \<Rightarrow> MemoryStorageState \<Rightarrow> bool mem_outcome" where
  "mem_kv_put_applied bucket key idempotency_key st =
     (Inr (map_get (kv_applied st) (bucket, key, idempotency_key) \<noteq> None), st)"

definition mem_kv_delete_if_revision ::
  "string \<Rightarrow> string \<Rightarrow> u64 \<Rightarrow> MemoryStorageState \<Rightarrow> unit mem_outcome" where
  "mem_kv_delete_if_revision bucket key expected_revision st =
     (case map_get (kv st) (bucket, key) of
        None \<Rightarrow> (Inr (), st)
      | Some entry \<Rightarrow>
          (if kr_revision entry \<noteq> expected_revision then (Inr (), st)
           else (Inr (), st\<lparr>kv := map_remove (bucket, key) (kv st)\<rparr>)))"

definition mem_kv_get :: "string \<Rightarrow> string \<Rightarrow> MemoryStorageState \<Rightarrow> KeyRevision option mem_outcome" where
  "mem_kv_get bucket key st = (Inr (map_get (kv st) (bucket, key)), st)"

definition mem_kv_delete_if_revision_applied ::
  "string \<Rightarrow> string \<Rightarrow> u64 \<Rightarrow> MemoryStorageState \<Rightarrow> bool mem_outcome" where
  "mem_kv_delete_if_revision_applied bucket key expected_revision st =
     obind (mem_kv_get bucket key st) (\<lambda>entry st.
       (Inr (case entry of None \<Rightarrow> True | Some entry \<Rightarrow> kr_revision entry \<noteq> expected_revision), st))"

definition transport_invalid :: "(EventFsError \<Rightarrow> string) \<Rightarrow> EventFsError + 'a \<Rightarrow> TransportError + 'a" where
  "transport_invalid display r = map_err (\<lambda>e. Invalid (display e)) r"

text \<open>The publishing loop: one message per line, numbered after the last message.\<close>

fun push_messages ::
  "clock \<Rightarrow> nat \<Rightarrow> string \<Rightarrow> string \<Rightarrow> string list \<Rightarrow> StreamMessageView list
    \<Rightarrow> StreamMessageView list \<times> u64 list" where
  "push_messages now i stream subject [] messages = (messages, [])"
| "push_messages now i stream subject (line # lines) messages =
     (let sequence = (if messages = [] then 1 else saturating_add_one (sm_sequence (last messages)));
          message = \<lparr>sm_stream = stream, sm_sequence = sequence, sm_published = now i,
                     sm_subject = subject, sm_payload = as_bytes line\<rparr>;
          (messages, sequences) =
            push_messages now (Suc i) stream subject lines (messages @ [message]) in
        (messages, sequence # sequences))"

definition mem_publish_json_lines ::
  "Json \<Rightarrow> (EventFsError \<Rightarrow> string) \<Rightarrow> clock \<Rightarrow> string \<Rightarrow> string \<Rightarrow> bytes \<Rightarrow> string
    \<Rightarrow> MemoryStorageState \<Rightarrow> u64 list mem_outcome" where
  "mem_publish_json_lines json display now stream subject bs idempotency_seed st =
     (case rbind (transport_invalid display (validate_json_lines json subject bs)) (\<lambda>_.
             transport_invalid display (json_lines json subject bs)) of
        Inl e \<Rightarrow> (Inl e, st)
      | Inr lines \<Rightarrow>
          (let applied_key = (stream, subject, idempotency_seed) in
             case map_get (stream_applied st) applied_key of
               Some sequences \<Rightarrow> (Inr sequences, st)
             | None \<Rightarrow>
                 (let messages = (case map_get (streams st) stream of Some m \<Rightarrow> m | None \<Rightarrow> []);
                      (messages, sequences) = push_messages now 0 stream subject lines messages in
                    (Inr sequences,
                     st\<lparr>streams := map_insert stream messages (streams st),
                        stream_applied := map_insert applied_key sequences (stream_applied st)\<rparr>))))"

definition mem_publish_json_lines_applied ::
  "Json \<Rightarrow> (EventFsError \<Rightarrow> string) \<Rightarrow> string \<Rightarrow> string \<Rightarrow> bytes \<Rightarrow> string
    \<Rightarrow> MemoryStorageState \<Rightarrow> bool mem_outcome" where
  "mem_publish_json_lines_applied json display stream subject bs idempotency_seed st =
     (rbind (transport_invalid display (validate_json_lines json subject bs)) (\<lambda>_.
        Inr (map_get (stream_applied st) (stream, subject, idempotency_seed) \<noteq> None)), st)"

definition mem_publish_json_lines_applied_prefix ::
  "Json \<Rightarrow> (EventFsError \<Rightarrow> string) \<Rightarrow> string \<Rightarrow> string \<Rightarrow> bytes \<Rightarrow> string
    \<Rightarrow> MemoryStorageState \<Rightarrow> nat mem_outcome" where
  "mem_publish_json_lines_applied_prefix json display stream subject bs idempotency_seed st =
     (rbind (transport_invalid display (validate_json_lines json subject bs)) (\<lambda>_.
        Inr (case map_get (stream_applied st) (stream, subject, idempotency_seed) of
               Some sequences \<Rightarrow> length sequences | None \<Rightarrow> 0)), st)"

definition mem_object_put_idempotent ::
  "clock \<Rightarrow> string \<Rightarrow> string \<Rightarrow> bytes \<Rightarrow> string \<Rightarrow> MemoryStorageState \<Rightarrow> unit mem_outcome" where
  "mem_object_put_idempotent now bucket obj bs idempotency_key st =
     (let applied_key = (bucket, obj, idempotency_key) in
        if applied_key \<in> set (object_applied st) then (Inr (), st)
        else
          (let st = snd (put_object now bucket obj bs st) in
             (Inr (), st\<lparr>object_applied := set_insert applied_key (object_applied st)\<rparr>)))"

definition mem_object_put_applied ::
  "string \<Rightarrow> string \<Rightarrow> string \<Rightarrow> MemoryStorageState \<Rightarrow> bool mem_outcome" where
  "mem_object_put_applied bucket obj idempotency_key st =
     (Inr ((bucket, obj, idempotency_key) \<in> set (object_applied st)), st)"

definition object_mismatch :: "ObjectVersion \<Rightarrow> u64 \<Rightarrow> string \<Rightarrow> bool" where
  "object_mismatch entry expected_sequence expected_nuid \<longleftrightarrow>
     ov_sequence entry \<noteq> expected_sequence \<or> (expected_nuid \<noteq> [] \<and> ov_nuid entry \<noteq> expected_nuid)"

definition mem_object_delete_if_sequence ::
  "string \<Rightarrow> string \<Rightarrow> u64 \<Rightarrow> string \<Rightarrow> MemoryStorageState \<Rightarrow> unit mem_outcome" where
  "mem_object_delete_if_sequence bucket obj expected_sequence expected_nuid st =
     (case map_get (objects st) (bucket, obj) of
        None \<Rightarrow> (Inr (), st)
      | Some entry \<Rightarrow>
          (if object_mismatch entry expected_sequence expected_nuid then (Inr (), st)
           else (Inr (), st\<lparr>objects := map_remove (bucket, obj) (objects st)\<rparr>)))"

definition mem_object_delete_if_sequence_applied ::
  "string \<Rightarrow> string \<Rightarrow> u64 \<Rightarrow> string \<Rightarrow> MemoryStorageState \<Rightarrow> bool mem_outcome" where
  "mem_object_delete_if_sequence_applied bucket obj expected_sequence expected_nuid st =
     (Inr (case map_get (objects st) (bucket, obj) of
             None \<Rightarrow> True
           | Some entry \<Rightarrow> object_mismatch entry expected_sequence expected_nuid), st)"

definition memory_storage ::
  "Json \<Rightarrow> (EventFsError \<Rightarrow> string) \<Rightarrow> clock \<Rightarrow> MemoryStorageState ReplayStorage" where
  "memory_storage json display now =
     \<lparr>kv_put_idempotent = mem_kv_put_idempotent now,
      kv_put_applied = mem_kv_put_applied,
      kv_delete_if_revision = mem_kv_delete_if_revision,
      kv_delete_if_revision_applied = mem_kv_delete_if_revision_applied,
      publish_json_lines = mem_publish_json_lines json display now,
      publish_json_lines_applied = mem_publish_json_lines_applied json display,
      publish_json_lines_applied_prefix = mem_publish_json_lines_applied_prefix json display,
      object_put_idempotent = mem_object_put_idempotent now,
      object_put_applied = mem_object_put_applied,
      object_delete_if_sequence = mem_object_delete_if_sequence,
      object_delete_if_sequence_applied = mem_object_delete_if_sequence_applied\<rparr>"

section \<open>MountStorage\<close>

definition mem_list_kv_buckets :: "MemoryStorageState \<Rightarrow> string list mem_outcome" where
  "mem_list_kv_buckets st = (Inr (kv_buckets st), st)"

definition mem_ensure_kv_bucket :: "string \<Rightarrow> MemoryStorageState \<Rightarrow> unit mem_outcome" where
  "mem_ensure_kv_bucket bucket st = (Inr (), st\<lparr>kv_buckets := set_insert bucket (kv_buckets st)\<rparr>)"

definition bucket_keys :: "string \<Rightarrow> (string \<times> string, 'v) rmap \<Rightarrow> string list" where
  "bucket_keys bucket m = map snd (filter (\<lambda>(b, _). b = bucket) (map_keys m))"

definition mem_list_kv_prefix ::
  "string \<Rightarrow> string \<Rightarrow> MemoryStorageState \<Rightarrow> DirectoryEntry list mem_outcome" where
  "mem_list_kv_prefix bucket prfx st =
     (if bucket \<notin> set (kv_buckets st) then (Inl NotFound, st)
      else (Inr (immediate_children (bucket_keys bucket (kv st)) prfx), st))"

definition mem_kv_put ::
  "clock \<Rightarrow> string \<Rightarrow> string \<Rightarrow> bytes \<Rightarrow> MemoryStorageState \<Rightarrow> u64 mem_outcome" where
  "mem_kv_put now bucket key bs st = (case put_kv now bucket key bs st of (r, st) \<Rightarrow> (Inr r, st))"

definition mem_kv_delete :: "string \<Rightarrow> string \<Rightarrow> MemoryStorageState \<Rightarrow> unit mem_outcome" where
  "mem_kv_delete bucket key st =
     (case map_get (kv st) (bucket, key) of
        Some _ \<Rightarrow> (Inr (), st\<lparr>kv := map_remove (bucket, key) (kv st)\<rparr>)
      | None \<Rightarrow> (Inl NotFound, st))"

definition mem_kv_history ::
  "string \<Rightarrow> string \<Rightarrow> MemoryStorageState \<Rightarrow> KeyRevision list mem_outcome" where
  "mem_kv_history bucket key st =
     (Inr (case map_get (kv_hist st) (bucket, key) of Some h \<Rightarrow> h | None \<Rightarrow> []), st)"

definition mem_list_kv_history_prefix ::
  "string \<Rightarrow> string \<Rightarrow> MemoryStorageState \<Rightarrow> DirectoryEntry list mem_outcome" where
  "mem_list_kv_history_prefix bucket prfx st =
     (if bucket \<notin> set (kv_buckets st) then (Inl NotFound, st)
      else (Inr (immediate_history_children (bucket_keys bucket (kv_hist st)) prfx), st))"

definition mem_kv_revision ::
  "string \<Rightarrow> string \<Rightarrow> u64 \<Rightarrow> MemoryStorageState \<Rightarrow> KeyRevision option mem_outcome" where
  "mem_kv_revision bucket key revision st =
     (Inr (Option.bind (map_get (kv_hist st) (bucket, key))
        (find (\<lambda>entry. kr_revision entry = revision))), st)"

definition mem_list_streams :: "MemoryStorageState \<Rightarrow> string list mem_outcome" where
  "mem_list_streams st = (Inr (map_keys (streams st)), st)"

definition mem_ensure_stream :: "string \<Rightarrow> MemoryStorageState \<Rightarrow> unit mem_outcome" where
  "mem_ensure_stream stream st =
     (Inr (), if map_get (streams st) stream = None
              then st\<lparr>streams := map_insert stream [] (streams st)\<rparr> else st)"

definition mem_list_stream_messages :: "string \<Rightarrow> MemoryStorageState \<Rightarrow> DirectoryEntry list mem_outcome" where
  "mem_list_stream_messages stream st =
     (case map_get (streams st) stream of
        None \<Rightarrow> (Inl NotFound, st)
      | Some messages \<Rightarrow>
          (Inr (map (\<lambda>m. \<lparr>de_name = show_u64 (sm_sequence m) @ ''.json'', de_kind = EntryKind.File\<rparr>) messages), st))"

definition mem_list_stream_subjects :: "string \<Rightarrow> MemoryStorageState \<Rightarrow> DirectoryEntry list mem_outcome" where
  "mem_list_stream_subjects stream st =
     (case map_get (streams st) stream of
        None \<Rightarrow> (Inl NotFound, st)
      | Some messages \<Rightarrow>
          (Inr (map (\<lambda>subject. \<lparr>de_name = stream_subject_file_name_from_str subject, de_kind = EntryKind.File\<rparr>)
             (fold set_insert (map sm_subject messages) [])), st))"

definition agent_of_subject :: "string \<Rightarrow> string option" where
  "agent_of_subject subject =
     (case split_on (CHR ''.'') subject of
        [root, agent, area] \<Rightarrow>
          (if root = ''agents'' \<and> (area = ''inbox'' \<or> area = ''outbox'') \<and> \<not> is_reserved_kv_key agent
           then Some agent else None)
      | _ \<Rightarrow> None)"

definition mem_list_agent_names :: "MemoryStorageState \<Rightarrow> string list mem_outcome" where
  "mem_list_agent_names st =
     (let messages = (case map_get (streams st) AGENTS_STREAM of Some m \<Rightarrow> m | None \<Rightarrow> []) in
        (Inr (fold (\<lambda>m agents.
                case agent_of_subject (sm_subject m) of Some a \<Rightarrow> set_insert a agents | None \<Rightarrow> agents)
           messages []), st))"

definition mem_stream_message ::
  "string \<Rightarrow> u64 \<Rightarrow> MemoryStorageState \<Rightarrow> StreamMessageView mem_outcome" where
  "mem_stream_message stream sequence st =
     (ok_or NotFound (Option.bind (map_get (streams st) stream)
        (find (\<lambda>m. sm_sequence m = sequence))), st)"

definition mem_list_object_buckets :: "MemoryStorageState \<Rightarrow> string list mem_outcome" where
  "mem_list_object_buckets st = (Inr (object_buckets st), st)"

definition mem_ensure_object_bucket :: "string \<Rightarrow> MemoryStorageState \<Rightarrow> unit mem_outcome" where
  "mem_ensure_object_bucket bucket st =
     (Inr (), st\<lparr>object_buckets := set_insert bucket (object_buckets st)\<rparr>)"

definition mem_list_object_prefix ::
  "string \<Rightarrow> string \<Rightarrow> MemoryStorageState \<Rightarrow> DirectoryEntry list mem_outcome" where
  "mem_list_object_prefix bucket prfx st =
     (if bucket \<notin> set (object_buckets st) then (Inl NotFound, st)
      else (Inr (immediate_children (bucket_keys bucket (objects st)) prfx), st))"

definition mem_object_get ::
  "string \<Rightarrow> string \<Rightarrow> MemoryStorageState \<Rightarrow> ObjectVersion option mem_outcome" where
  "mem_object_get bucket obj st = (Inr (map_get (objects st) (bucket, obj)), st)"

definition mem_object_put ::
  "clock \<Rightarrow> string \<Rightarrow> string \<Rightarrow> bytes \<Rightarrow> MemoryStorageState \<Rightarrow> unit mem_outcome" where
  "mem_object_put now bucket obj bs st = (Inr (), snd (put_object now bucket obj bs st))"

definition mem_object_delete :: "string \<Rightarrow> string \<Rightarrow> MemoryStorageState \<Rightarrow> unit mem_outcome" where
  "mem_object_delete bucket obj st =
     (case map_get (objects st) (bucket, obj) of
        Some _ \<Rightarrow> (Inr (), st\<lparr>objects := map_remove (bucket, obj) (objects st)\<rparr>)
      | None \<Rightarrow> (Inl NotFound, st))"

end
