(* ===== verification/Memory_Props.thy ===== *)
theory Memory_Props
  imports Memory_Storage "HOL-Library.Multiset"
begin

text \<open>
  Invariants and behaviour of the in-memory backend: revisions and sequences are numbered
  1, 2, 3, ... up to saturation, the current value of a key is the last of its history, and
  directory listings show exactly the immediate children.
\<close>

section \<open>Numbering\<close>

text \<open>The \<open>n\<close>-th number a saturating \<open>u64\<close> counter hands out.\<close>

definition seq_no :: "nat \<Rightarrow> u64" where
  "seq_no n = word_of_nat (min n (2 ^ 64 - 1))"

lemma unat_seq_no: "unat (seq_no n) = min n (2 ^ 64 - 1)"
proof -
  have "min n (2 ^ 64 - 1) < (2 :: nat) ^ 64" by simp
  then show ?thesis unfolding seq_no_def by (simp add: unat_of_nat take_bit_eq_mod)
qed

lemma saturating_seq_no: "saturating_add_one (seq_no n) = seq_no (Suc n)"
proof -
  have "unat (saturating_add_one (seq_no n)) = unat (seq_no (Suc n))"
    unfolding unat_saturating_add_one unat_seq_no by simp
  then show ?thesis by (simp only: word_unat_eq_iff)
qed

lemma seq_no_0: "seq_no 0 = 0"
  by (simp add: seq_no_def)

lemma seq_no_1: "seq_no (Suc 0) = 1"
  by (simp add: seq_no_def)

lemma seq_no_inj: "m < 2 ^ 64 \<Longrightarrow> n < 2 ^ 64 \<Longrightarrow> seq_no m = seq_no n \<longleftrightarrow> m = n"
proof -
  assume "m < 2 ^ 64" "n < 2 ^ 64"
  then have "unat (seq_no m) = m" "unat (seq_no n) = n" unfolding unat_seq_no by simp_all
  then show "seq_no m = seq_no n \<longleftrightarrow> m = n" by metis
qed

text \<open>\<open>numbered f xs\<close>: the elements carry the numbers 1, 2, ... in order.\<close>

definition numbered :: "('a \<Rightarrow> u64) \<Rightarrow> 'a list \<Rightarrow> bool" where
  "numbered f xs \<longleftrightarrow> (\<forall>i < length xs. f (xs ! i) = seq_no (Suc i))"

lemma numbered_Nil [simp]: "numbered f []"
  by (simp add: numbered_def)

lemma numbered_snoc: "numbered f (xs @ [x]) \<longleftrightarrow> numbered f xs \<and> f x = seq_no (Suc (length xs))"
  by (auto simp: numbered_def nth_append less_Suc_eq)

lemma numbered_last: "numbered f xs \<Longrightarrow> xs \<noteq> [] \<Longrightarrow> f (last xs) = seq_no (length xs)"
  by (simp add: numbered_def last_conv_nth)

lemma next_number:
  "numbered f xs \<Longrightarrow> (if xs = [] then 1 else saturating_add_one (f (last xs))) = seq_no (Suc (length xs))"
  by (simp add: numbered_last saturating_seq_no seq_no_1)

lemma find_numbered:
  assumes "numbered f xs" "length xs < 2 ^ 64" "i < length xs"
  shows "find (\<lambda>x. f x = seq_no (Suc i)) xs = Some (xs ! i)"
proof -
  have "f (xs ! j) \<noteq> seq_no (Suc i)" if "j < i" for j
    using assms that seq_no_inj [of "Suc j" "Suc i"] by (auto simp: numbered_def)
  moreover have "f (xs ! i) = seq_no (Suc i)" using assms by (simp add: numbered_def)
  ultimately show ?thesis using assms(3) by (auto simp: find_Some_iff)
qed

section \<open>Invariant\<close>

definition mem_inv :: "MemoryStorageState \<Rightarrow> bool" where
  "mem_inv st \<longleftrightarrow>
     ordered (kv st) \<and> ordered (kv_hist st) \<and> ordered (streams st) \<and> ordered (objects st)
     \<and> sorted (kv_buckets st) \<and> distinct (kv_buckets st)
     \<and> (\<forall>b k h. map_get (kv_hist st) (b, k) = Some h \<longrightarrow>
          h \<noteq> [] \<and> numbered kr_revision h \<and> b \<in> set (kv_buckets st))
     \<and> (\<forall>b k e. map_get (kv st) (b, k) = Some e \<longrightarrow>
          (\<exists>h. map_get (kv_hist st) (b, k) = Some h \<and> e = last h))
     \<and> (\<forall>s ms. map_get (streams st) s = Some ms \<longrightarrow> numbered sm_sequence ms)
     \<and> (\<forall>b n v. map_get (objects st) (b, n) = Some v \<longrightarrow>
          map_get (object_generations st) (b, n) = Some (ov_sequence v) \<and> b \<in> set (object_buckets st))"

lemma mem_inv_new: "mem_inv MemoryStorage_new"
  by (simp add: mem_inv_def MemoryStorage_new_def)

lemma mem_inv_history:
  "mem_inv st \<Longrightarrow> map_get (kv_hist st) (b, k) = Some h \<Longrightarrow>
    h \<noteq> [] \<and> numbered kr_revision h \<and> b \<in> set (kv_buckets st)"
  unfolding mem_inv_def by blast

lemma mem_inv_current:
  assumes "mem_inv st" "map_get (kv st) (b, k) = Some e"
  obtains h where "map_get (kv_hist st) (b, k) = Some h" "e = last h"
  using assms unfolding mem_inv_def by meson

lemma next_revision_eq:
  "mem_inv st \<Longrightarrow> next_revision (map_get (kv_hist st) (b, k)) =
    seq_no (Suc (length (case map_get (kv_hist st) (b, k) of Some h \<Rightarrow> h | None \<Rightarrow> [])))"
  using mem_inv_history [of st b k]
  by (cases "map_get (kv_hist st) (b, k)")
    (auto simp: next_revision_def seq_no_1 numbered_last saturating_seq_no)

lemma put_kv_inv:
  assumes "mem_inv st"
  shows "mem_inv (snd (put_kv now b k bs st))"
proof -
  have num: "next_revision (map_get (kv_hist st) (b, k)) =
      seq_no (Suc (length (case map_get (kv_hist st) (b, k) of Some h \<Rightarrow> h | None \<Rightarrow> [])))"
    using assms by (rule next_revision_eq)
  have "numbered kr_revision (case map_get (kv_hist st) (b, k) of Some h \<Rightarrow> h | None \<Rightarrow> [])"
    using assms by (auto simp: mem_inv_def split: option.splits)
  then show ?thesis
    using assms num
    by (auto simp: mem_inv_def put_kv_def Let_def om.get_ins om.ok_ins numbered_snoc
        sorted_set_insert distinct_set_insert)
qed

lemma put_object_inv:
  assumes "mem_inv st"
  shows "mem_inv (snd (put_object now b n bs st))"
  using assms by (auto simp: mem_inv_def put_object_def Let_def om.get_ins om.ok_ins)

lemma push_messages_numbered:
  "numbered sm_sequence ms \<Longrightarrow> push_messages now i s sub lines ms = (ms', ns) \<Longrightarrow>
    numbered sm_sequence ms' \<and> length ms' = length ms + length lines
    \<and> ns = map (\<lambda>j. seq_no (Suc (length ms + j))) [0..<length lines]
    \<and> (\<exists>new. ms' = ms @ new \<and> map sm_payload new = map as_bytes lines
        \<and> (\<forall>m \<in> set new. sm_subject m = sub \<and> sm_stream m = s))"
proof (induction lines arbitrary: i ms ms' ns)
  case (Cons line lines)
  define m where "m = \<lparr>sm_stream = s, sm_sequence = seq_no (Suc (length ms)), sm_published = now i,
    sm_subject = sub, sm_payload = as_bytes line\<rparr>"
  obtain ns0 where rec: "push_messages now (Suc i) s sub lines (ms @ [m]) = (ms', ns0)"
    and ns: "ns = seq_no (Suc (length ms)) # ns0"
    using Cons.prems next_number [OF Cons.prems(1)]
    by (auto simp: Let_def m_def split: prod.splits)
  have "numbered sm_sequence (ms @ [m])" using Cons.prems(1) by (simp add: numbered_snoc m_def)
  note IH = Cons.IH [OF this rec]
  then obtain new where new: "ms' = (ms @ [m]) @ new" "map sm_payload new = map as_bytes lines"
    "\<forall>m \<in> set new. sm_subject m = sub \<and> sm_stream m = s" by blast
  have "ns = map (\<lambda>j. seq_no (Suc (length ms + j))) [0..<length (line # lines)]"
    using IH ns by (simp add: upt_conv_Cons map_Suc_upt [symmetric] del: upt_Suc)
  moreover have "\<exists>new. ms' = ms @ new \<and> map sm_payload new = map as_bytes (line # lines)
      \<and> (\<forall>m \<in> set new. sm_subject m = sub \<and> sm_stream m = s)"
    using new by (intro exI [of _ "m # new"]) (auto simp: m_def)
  ultimately show ?case using IH by simp
qed auto

section \<open>The backend as a state machine\<close>

text \<open>One call of a method that can change the state, with any parser, clock and arguments.\<close>

inductive mem_step :: "MemoryStorageState \<Rightarrow> MemoryStorageState \<Rightarrow> bool" where
  "mem_step st (snd (mem_kv_put now b k bs st))"
| "mem_step st (snd (mem_kv_put_idempotent now b k bs key st))"
| "mem_step st (snd (mem_kv_delete b k st))"
| "mem_step st (snd (mem_kv_delete_if_revision b k r0 st))"
| "mem_step st (snd (mem_ensure_kv_bucket b st))"
| "mem_step st (snd (mem_publish_json_lines json display now s sub bs key st))"
| "mem_step st (snd (mem_ensure_stream s st))"
| "mem_step st (snd (mem_object_put now b n bs st))"
| "mem_step st (snd (mem_object_put_idempotent now b n bs key st))"
| "mem_step st (snd (mem_object_delete b n st))"
| "mem_step st (snd (mem_object_delete_if_sequence b n q nuid st))"
| "mem_step st (snd (mem_ensure_object_bucket b st))"

inductive mem_reachable :: "MemoryStorageState \<Rightarrow> bool" where
  mem_init: "mem_reachable MemoryStorage_new"
| mem_next: "mem_reachable st \<Longrightarrow> mem_step st st' \<Longrightarrow> mem_reachable st'"

lemma mem_inv_kv_applied: "mem_inv (st\<lparr>kv_applied := x\<rparr>) \<longleftrightarrow> mem_inv st"
  by (simp add: mem_inv_def)

lemma mem_inv_object_applied: "mem_inv (st\<lparr>object_applied := x\<rparr>) \<longleftrightarrow> mem_inv st"
  by (simp add: mem_inv_def)

lemma mem_inv_kv_remove: "mem_inv st \<Longrightarrow> mem_inv (st\<lparr>kv := map_remove x (kv st)\<rparr>)"
  by (auto simp: mem_inv_def om.get_del om.ok_del)

lemma mem_inv_objects_remove: "mem_inv st \<Longrightarrow> mem_inv (st\<lparr>objects := map_remove x (objects st)\<rparr>)"
  by (auto simp: mem_inv_def om.get_del om.ok_del)

lemma mem_inv_streams:
  "mem_inv st \<Longrightarrow> numbered sm_sequence ms \<Longrightarrow>
    mem_inv (st\<lparr>streams := map_insert s ms (streams st), stream_applied := x\<rparr>)"
  by (auto simp: mem_inv_def om.get_ins om.ok_ins)

lemma mem_inv_stream: "mem_inv st \<Longrightarrow> map_get (streams st) s = Some ms \<Longrightarrow> numbered sm_sequence ms"
  by (auto simp: mem_inv_def)

lemma mem_publish_inv:
  assumes "mem_inv st"
  shows "mem_inv (snd (mem_publish_json_lines json display now s sub bs key st))"
proof -
  have "numbered sm_sequence (case map_get (streams st) s of Some m \<Rightarrow> m | None \<Rightarrow> [])"
    using mem_inv_stream [OF assms] by (auto split: option.splits)
  then have "numbered sm_sequence (fst (push_messages now 0 s sub lines
      (case map_get (streams st) s of Some m \<Rightarrow> m | None \<Rightarrow> [])))" for lines
    using push_messages_numbered by (metis prod.collapse)
  then show ?thesis
    using assms
    by (cases "map_get (streams st) s")
      (auto simp: mem_publish_json_lines_def Let_def case_prod_unfold
        intro!: mem_inv_streams split: sum.split option.split)
qed

lemma mem_step_inv: "mem_step st st' \<Longrightarrow> mem_inv st \<Longrightarrow> mem_inv st'"
proof (induction rule: mem_step.induct)
  case (1 st now b k bs)
  then show ?case using put_kv_inv [of st now b k bs] by (simp add: mem_kv_put_def case_prod_unfold)
next
  case (2 st now b k bs key)
  then show ?case using put_kv_inv [of st now b k bs]
    by (simp add: mem_kv_put_idempotent_def Let_def mem_inv_kv_applied case_prod_unfold
        split: option.split)
next
  case (3 st b k)
  then show ?case by (auto simp: mem_kv_delete_def mem_inv_kv_remove split: option.splits)
next
  case (4 st b k r0)
  then show ?case by (auto simp: mem_kv_delete_if_revision_def mem_inv_kv_remove split: option.splits)
next
  case (5 st b)
  then show ?case
    by (auto simp: mem_ensure_kv_bucket_def mem_inv_def sorted_set_insert distinct_set_insert)
next
  case (6 st json display now s sub bs key)
  then show ?case by (intro mem_publish_inv)
next
  case (7 st s)
  then show ?case by (auto simp: mem_ensure_stream_def mem_inv_def om.get_ins om.ok_ins)
next
  case (8 st now b n bs)
  then show ?case using put_object_inv by (simp add: mem_object_put_def)
next
  case (9 st now b n bs key)
  then show ?case using put_object_inv [of st now b n bs]
    by (simp add: mem_object_put_idempotent_def Let_def mem_inv_object_applied)
next
  case (10 st b n)
  then show ?case by (auto simp: mem_object_delete_def mem_inv_objects_remove split: option.splits)
next
  case (11 st b n q nuid)
  then show ?case
    by (auto simp: mem_object_delete_if_sequence_def mem_inv_objects_remove split: option.splits)
next
  case (12 st b)
  then show ?case by (auto simp: mem_ensure_object_bucket_def mem_inv_def)
qed

lemma mem_reachable_inv: "mem_reachable st \<Longrightarrow> mem_inv st"
  by (induction rule: mem_reachable.induct) (auto intro: mem_inv_new mem_step_inv)

section \<open>Listings\<close>

text \<open>What one key contributes to the listing of a prefix: its next component, as a file if the key
  ends there.\<close>

definition child_of :: "string \<Rightarrow> string \<Rightarrow> (string \<times> EntryKind) option" where
  "child_of prfx key =
     (let normalized = trim_matches (CHR ''/'') prfx in
        case (if normalized = [] then Some key else strip_prefix (normalized @ ''/'') key) of
          None \<Rightarrow> None
        | Some remainder \<Rightarrow>
            (if remainder = [] then None
             else (case split_once (CHR ''/'') remainder of
                     Some (name, _) \<Rightarrow> Some (name, EntryKind.Directory)
                   | None \<Rightarrow> Some (remainder, EntryKind.File))))"

definition kind_at :: "DirectoryEntry list \<Rightarrow> string \<Rightarrow> EntryKind option" where
  "kind_at es name = map_option de_kind (find (\<lambda>e. de_name e = name) es)"

lemma kind_at_Nil [simp]: "kind_at [] n = None"
  by (simp add: kind_at_def)

lemma kind_at_Cons: "kind_at (e # es) n = (if de_name e = n then Some (de_kind e) else kind_at es n)"
  by (simp add: kind_at_def)

lemma kind_at_snoc:
  "kind_at (es @ [e]) n = (case kind_at es n of Some k \<Rightarrow> Some k | None \<Rightarrow> if de_name e = n then Some (de_kind e) else None)"
  by (induction es) (auto simp: kind_at_Cons)

lemma kind_at_None: "kind_at es n = None \<longleftrightarrow> n \<notin> de_name ` set es"
  by (induction es) (auto simp: kind_at_Cons)

lemma kind_at_update_first:
  assumes "\<And>e. de_name (f e) = de_name e" "\<And>e e'. de_kind e = de_kind e' \<Longrightarrow> de_kind (f e) = de_kind (f e')"
  shows "kind_at (update_first (\<lambda>e. de_name e = n) f es) m =
    (if m = n then map_option (\<lambda>k. de_kind (f \<lparr>de_name = n, de_kind = k\<rparr>)) (kind_at es n) else kind_at es m)"
  by (induction es) (auto simp: kind_at_Cons assms(1) intro!: assms(2))

definition merged_kind :: "EntryKind option \<Rightarrow> EntryKind \<Rightarrow> EntryKind" where
  "merged_kind old k = (if old = Some EntryKind.File then EntryKind.File else k)"

lemma kind_at_merge:
  "kind_at (merge_child_entry es n k) m =
    (if m = n then Some (merged_kind (kind_at es n) k) else kind_at es m)"
proof (cases "n \<in> de_name ` set es")
  case True
  then have "list_ex (\<lambda>e. de_name e = n) es" by (auto simp: list_ex_iff)
  moreover obtain k0 where "kind_at es n = Some k0" using True kind_at_None by fastforce
  ultimately show ?thesis
    unfolding merge_child_entry_def
    by (cases k0; cases k) (auto simp: kind_at_update_first merged_kind_def)
next
  case False
  then have "\<not> list_ex (\<lambda>e. de_name e = n) es" by (auto simp: list_ex_iff)
  then show ?thesis using False
    by (auto simp: merge_child_entry_def kind_at_snoc kind_at_None [THEN iffD2] merged_kind_def
        split: option.splits)
qed

lemma distinct_merge:
  "distinct (map de_name es) \<Longrightarrow> distinct (map de_name (merge_child_entry es n k))"
  by (auto simp: merge_child_entry_def map_update_first list_ex_iff)

lemma add_child_eq:
  "add_child (if trim_matches (CHR ''/'') prfx \<noteq> [] then Some (trim_matches (CHR ''/'') prfx @ ''/'') else None) es key =
    (case child_of prfx key of None \<Rightarrow> es | Some (n, k) \<Rightarrow> merge_child_entry es n k)"
  by (auto simp: add_child_def child_of_def Let_def split: option.splits)

definition listed_kind :: "string \<Rightarrow> string list \<Rightarrow> string \<Rightarrow> EntryKind option" where
  "listed_kind prfx keys n =
     (if \<exists>key \<in> set keys. child_of prfx key = Some (n, EntryKind.File) then Some EntryKind.File
      else if \<exists>key \<in> set keys. child_of prfx key = Some (n, EntryKind.Directory) then Some EntryKind.Directory
      else None)"

definition fold_children :: "string \<Rightarrow> string list \<Rightarrow> DirectoryEntry list" where
  "fold_children prfx keys =
     foldl (add_child (if trim_matches (CHR ''/'') prfx \<noteq> []
       then Some (trim_matches (CHR ''/'') prfx @ ''/'') else None)) [] keys"

lemma fold_children_spec:
  "distinct (map de_name (fold_children prfx keys)) \<and>
   kind_at (fold_children prfx keys) n = listed_kind prfx keys n"
proof (induction keys arbitrary: n rule: rev_induct)
  case (snoc key keys)
  let ?es = "fold_children prfx keys"
  have step: "fold_children prfx (keys @ [key]) =
      (case child_of prfx key of None \<Rightarrow> ?es | Some (m, k) \<Rightarrow> merge_child_entry ?es m k)"
    using add_child_eq [of prfx ?es key] by (simp only: fold_children_def foldl_append foldl.simps)
  show ?case
  proof (cases "child_of prfx key")
    case None
    then show ?thesis using snoc unfolding step by (auto simp: listed_kind_def)
  next
    case (Some mk)
    obtain m k where mk: "mk = (m, k)" by (cases mk)
    have "kind_at (merge_child_entry ?es m k) n = listed_kind prfx (keys @ [key]) n"
      using snoc Some mk
      by (cases k) (auto simp: kind_at_merge listed_kind_def merged_kind_def)
    moreover have "distinct (map de_name (merge_child_entry ?es m k))"
      using snoc distinct_merge by blast
    ultimately show ?thesis using Some mk unfolding step by simp
  qed
qed (simp add: listed_kind_def fold_children_def)

lemma kind_at_member:
  "distinct (map de_name es) \<Longrightarrow> kind_at es n = Some k \<longleftrightarrow> \<lparr>de_name = n, de_kind = k\<rparr> \<in> set es"
proof (induction es)
  case (Cons e es)
  then show ?case by (cases e) (auto simp: kind_at_Cons image_iff)
qed simp

lemma immediate_children_spec:
  "sorted (map de_name (immediate_children keys prfx))"
  "distinct (map de_name (immediate_children keys prfx))"
  "\<lparr>de_name = n, de_kind = k\<rparr> \<in> set (immediate_children keys prfx) \<longleftrightarrow> listed_kind prfx keys n = Some k"
proof -
  have eq: "immediate_children keys prfx = sort_key de_name (fold_children prfx keys)"
    by (simp add: immediate_children_def Let_def fold_children_def)
  show "sorted (map de_name (immediate_children keys prfx))" unfolding eq by simp
  have d: "distinct (map de_name (fold_children prfx keys))" using fold_children_spec by blast
  have "mset (map de_name (sort_key de_name (fold_children prfx keys))) =
      mset (map de_name (fold_children prfx keys))" by simp
  then show "distinct (map de_name (immediate_children keys prfx))"
    unfolding eq using d mset_eq_imp_distinct_iff by blast
  show "\<lparr>de_name = n, de_kind = k\<rparr> \<in> set (immediate_children keys prfx) \<longleftrightarrow> listed_kind prfx keys n = Some k"
    using kind_at_member [OF d, of n k] fold_children_spec [of prfx keys n] unfolding eq by auto
qed

section \<open>Properties\<close>

text \<open>C37: history of a key in a reachable backend. Revisions are 1, 2, 3, ... up to saturation, the
  stored value is the newest revision, and every revision ever written can be read back by its
  number while fewer than 2^64 of them exist.\<close>

theorem key_history_is_complete:
  assumes "mem_reachable st" "mem_kv_history b k st = (Inr h, st')"
  shows "st' = st \<and> numbered kr_revision h
    \<and> (\<forall>e. mem_kv_get b k st = (Inr (Some e), st) \<longrightarrow> h \<noteq> [] \<and> e = last h)
    \<and> (length h < 2 ^ 64 \<longrightarrow>
        (\<forall>i < length h. mem_kv_revision b k (seq_no (Suc i)) st = (Inr (Some (h ! i)), st)))"
proof -
  have inv: "mem_inv st" using assms(1) by (rule mem_reachable_inv)
  have h: "h = (case map_get (kv_hist st) (b, k) of Some h \<Rightarrow> h | None \<Rightarrow> [])" "st' = st"
    using assms(2) by (auto simp: mem_kv_history_def)
  have num: "numbered kr_revision h"
    using h mem_inv_history [OF inv] by (auto split: option.splits)
  have get: "h \<noteq> [] \<and> e = last h" if "map_get (kv st) (b, k) = Some e" for e
  proof -
    obtain h' where "map_get (kv_hist st) (b, k) = Some h'" "e = last h'"
      using inv \<open>map_get (kv st) (b, k) = Some e\<close> by (rule mem_inv_current)
    then show ?thesis using h(1) mem_inv_history [OF inv, of b k h'] by simp
  qed
  have "mem_kv_revision b k (seq_no (Suc i)) st = (Inr (Some (h ! i)), st)"
    if "length h < 2 ^ 64" "i < length h" for i
    using that h(1) find_numbered [OF num that]
    by (auto simp: mem_kv_revision_def split: option.splits)
  then show ?thesis using h(2) num get by (auto simp: mem_kv_get_def)
qed

theorem key_history_is_complete_witness:
  "mem_kv_revision ''b'' ''k'' (seq_no 1)
     (snd (mem_kv_put (\<lambda>_. 0) ''b'' ''k'' [7] MemoryStorage_new)) =
   (Inr (Some \<lparr>kr_revision = 1, kr_created = 0, kr_bytes = [7]\<rparr>),
     snd (mem_kv_put (\<lambda>_. 0) ''b'' ''k'' [7] MemoryStorage_new))"
proof -
  let ?st = "snd (mem_kv_put (\<lambda>_. 0) ''b'' ''k'' [7] MemoryStorage_new)"
  have reach: "mem_reachable ?st" by (rule mem_next [OF mem_init]) (rule mem_step.intros(1))
  have h: "mem_kv_history ''b'' ''k'' ?st =
      (Inr [\<lparr>kr_revision = 1, kr_created = 0, kr_bytes = [7]\<rparr>], ?st)"
    by (simp add: mem_kv_history_def mem_kv_put_def put_kv_def MemoryStorage_new_def Let_def
        next_revision_def map_get_def)
  from key_history_is_complete [OF reach h] show ?thesis by simp
qed

text \<open>Writing a key. The value read afterwards is the one written, under the answered revision,
  which is one past the history; the history gains exactly this entry; every other key, its
  history and every stream and object are untouched.\<close>

lemma put_then_get:
  assumes "mem_reachable st" "mem_kv_put now b k bs st = (Inr r, st')"
    and "mem_kv_history b k st = (Inr h, st)"
  shows "mem_kv_get b k st' = (Inr (Some \<lparr>kr_revision = r, kr_created = now 0, kr_bytes = bs\<rparr>), st')
    \<and> mem_kv_history b k st' = (Inr (h @ [\<lparr>kr_revision = r, kr_created = now 0, kr_bytes = bs\<rparr>]), st')
    \<and> r = seq_no (Suc (length h))
    \<and> (\<forall>b' k'. (b', k') \<noteq> (b, k) \<longrightarrow>
         map_get (kv st') (b', k') = map_get (kv st) (b', k')
         \<and> map_get (kv_hist st') (b', k') = map_get (kv_hist st) (b', k'))
    \<and> streams st' = streams st \<and> objects st' = objects st"
proof -
  have inv: "mem_inv st" using assms(1) by (rule mem_reachable_inv)
  have h: "h = (case map_get (kv_hist st) (b, k) of Some h \<Rightarrow> h | None \<Rightarrow> [])"
    using assms(3) by (simp add: mem_kv_history_def)
  have r: "r = next_revision (map_get (kv_hist st) (b, k))" and st': "st' = snd (put_kv now b k bs st)"
    using assms(2) by (auto simp: mem_kv_put_def put_kv_def Let_def)
  show ?thesis
    using r h next_revision_eq [OF inv, of b k]
    by (auto simp: st' put_kv_def Let_def mem_kv_get_def mem_kv_history_def om.get_ins)
qed

text \<open>Publishing JSON lines. Each line becomes one message, in order, numbered on from the last
  message of the stream; invalid input changes nothing; publishing the same lines again under
  the same idempotency seed answers the same sequence numbers and changes nothing.\<close>

lemma publish_is_ordered_and_idempotent:
  assumes "mem_reachable st"
    and "mem_publish_json_lines json display now s sub bs seed st = (r, st')"
  shows "(\<forall>e. r = Inl e \<longrightarrow> st' = st)
    \<and> (\<forall>ns. r = Inr ns \<longrightarrow>
         mem_publish_json_lines json display now' s sub bs seed st' = (Inr ns, st')
         \<and> (map_get (stream_applied st) (s, sub, seed) = None \<longrightarrow>
             (\<exists>lines old new. json_lines json sub bs = Inr lines
               \<and> old = (case map_get (streams st) s of Some m \<Rightarrow> m | None \<Rightarrow> [])
               \<and> map_get (streams st') s = Some (old @ new)
               \<and> map sm_payload new = map as_bytes lines
               \<and> ns = map (\<lambda>j. seq_no (Suc (length old + j))) [0..<length lines])))"
proof (cases "rbind (transport_invalid display (validate_json_lines json sub bs)) (\<lambda>_.
             transport_invalid display (json_lines json sub bs))")
  case (Inl e)
  then have "r = Inl e" "st' = st" using assms(2) by (simp_all add: mem_publish_json_lines_def)
  then show ?thesis by simp
next
  case (Inr lines)
  then have lines: "json_lines json sub bs = Inr lines" by (auto simp: transport_invalid_def)
  show ?thesis
  proof (cases "map_get (stream_applied st) (s, sub, seed)")
    case (Some ns)
    moreover from this have "r = Inr ns" "st' = st"
      "mem_publish_json_lines json display now' s sub bs seed st = (Inr ns, st)"
      using assms(2) Inr by (simp_all add: mem_publish_json_lines_def Let_def)
    ultimately show ?thesis by simp
  next
    case None
    let ?old = "case map_get (streams st) s of Some m \<Rightarrow> m | None \<Rightarrow> []"
    obtain ms ns where push: "push_messages now 0 s sub lines ?old = (ms, ns)" by fastforce
    have st': "r = Inr ns" "st' = st\<lparr>streams := map_insert s ms (streams st),
        stream_applied := map_insert (s, sub, seed) ns (stream_applied st)\<rparr>"
      using assms(2) Inr None push by (auto simp: mem_publish_json_lines_def Let_def)
    have "numbered sm_sequence ?old"
      using mem_inv_stream [OF mem_reachable_inv [OF assms(1)]] by (auto split: option.splits)
    from push_messages_numbered [OF this push] obtain new where "ms = ?old @ new"
      "map sm_payload new = map as_bytes lines"
      "ns = map (\<lambda>j. seq_no (Suc (length ?old + j))) [0..<length lines]" by blast
    moreover have "mem_publish_json_lines json display now' s sub bs seed st' = (Inr ns, st')"
      using Inr by (simp add: mem_publish_json_lines_def Let_def st' om.get_ins)
    ultimately show ?thesis using st' lines by (auto simp: om.get_ins)
  qed
qed

definition any_json :: Json where
  "any_json = \<lparr>json_parse = (\<lambda>_. Inr ()), utf8_text = (\<lambda>_. [])\<rparr>"

lemma publish_is_ordered_and_idempotent_example:
  "mem_publish_json_lines any_json (\<lambda>_. []) (\<lambda>_. 1) ''s'' ''x'' [49] ''id''
     (snd (mem_publish_json_lines any_json (\<lambda>_. []) (\<lambda>_. 0) ''s'' ''x'' [49] ''id'' MemoryStorage_new))
   = (Inr [1], snd (mem_publish_json_lines any_json (\<lambda>_. []) (\<lambda>_. 0) ''s'' ''x'' [49] ''id'' MemoryStorage_new))"
proof -
  let ?st = "snd (mem_publish_json_lines any_json (\<lambda>_. []) (\<lambda>_. 0) ''s'' ''x'' [49] ''id'' MemoryStorage_new)"
  have pub: "mem_publish_json_lines any_json (\<lambda>_. []) (\<lambda>_. 0) ''s'' ''x'' [49] ''id'' MemoryStorage_new =
      (Inr [1], ?st)"
    by (simp add: mem_publish_json_lines_def transport_invalid_def validate_json_lines_def json_lines_def
        any_json_def from_utf8_def str_of_bytes_def str_lines_def strip_line_ending_def newline_def
        strip_suffix_def strip_prefix_def starts_with_def trim_str_def trim_end_def chars_def
        is_whitespace_def utf8_encode_def MemoryStorage_new_def Let_def char_of_def)
  show ?thesis
    using publish_is_ordered_and_idempotent [OF mem_init pub, where now' = "\<lambda>_. 1"] by blast
qed

text \<open>A KV listing shows, sorted and without repetition, exactly the immediate children of the
  prefix among the bucket's keys: a name is a file if a key ends there, and a directory only
  if keys continue below it and none ends there.\<close>

lemma kv_listing_is_exact:
  assumes "mem_list_kv_prefix b prfx st = (Inr es, st')"
  shows "st' = st \<and> sorted (map de_name es) \<and> distinct (map de_name es)
    \<and> (\<lparr>de_name = n, de_kind = c\<rparr> \<in> set es) = (listed_kind prfx (bucket_keys b (kv st)) n = Some c)"
proof -
  have "st' = st" "es = immediate_children (bucket_keys b (kv st)) prfx"
    using assms by (auto simp: mem_list_kv_prefix_def split: if_splits)
  then show ?thesis using immediate_children_spec by simp
qed

lemma kv_listing_is_exact_example:
  "\<exists>es. mem_list_kv_prefix ''b'' ''d'' (snd (mem_kv_put (\<lambda>_. 0) ''b'' ''d/k'' [] MemoryStorage_new)) =
      (Inr es, snd (mem_kv_put (\<lambda>_. 0) ''b'' ''d/k'' [] MemoryStorage_new))
    \<and> \<lparr>de_name = ''k'', de_kind = EntryKind.File\<rparr> \<in> set es"
proof -
  let ?st = "snd (mem_kv_put (\<lambda>_. 0) ''b'' ''d/k'' [] MemoryStorage_new)"
  obtain es where es: "mem_list_kv_prefix ''b'' ''d'' ?st = (Inr es, ?st)"
    by (simp add: mem_list_kv_prefix_def mem_kv_put_def put_kv_def MemoryStorage_new_def Let_def)
  have "listed_kind ''d'' (bucket_keys ''b'' (kv ?st)) ''k'' = Some EntryKind.File"
    by (simp add: listed_kind_def child_of_def bucket_keys_def map_keys_def mem_kv_put_def put_kv_def
        MemoryStorage_new_def Let_def trim_matches_def strip_prefix_def starts_with_def)
  then show ?thesis using es kv_listing_is_exact [OF es, of "''k''" EntryKind.File] by blast
qed

end
