(* ===== verification/Fs_Helpers.thy ===== *)
theory Fs_Helpers
  imports Writeback_Replay Memory_Props Plan
begin

unbundle bit_operations_syntax

text \<open>
  The data types and helper functions of \<open>eventfs-fuse/src/fs.rs\<close> that the overlay, the projection
  and the runtime share: handles, snapshots, directory-entry lists, open flags and JSON lines.
  libc's flag constants are the ones of Linux on x86-64.
\<close>

section \<open>Data\<close>

datatype HandleMode = WholeValueMode | JsonLinesMode

record StagedCreate =
  sc_default_payload :: bytes
  sc_version :: VersionStamp

record Handle =
  h_path :: MountPath
  h_buffer :: bytes
  h_dirty :: bool
  h_committed :: bool
  h_writable :: bool
  h_commit_seed :: string
  h_mode :: HandleMode
  h_base_offset :: nat
  h_staged_create :: "StagedCreate option"

record FileSnapshot =
  fs_bytes :: bytes
  fs_version :: VersionStamp

record FileMetadata =
  fm_size :: u64
  fm_version :: VersionStamp

datatype DynamicPathKind = DpMissing | DpFile | DpDirectory

record QueuedJsonlEntry =
  qj_idempotency_key :: string
  qj_stream :: string
  qj_subject :: string
  qj_bytes :: bytes
  qj_applied_lines :: nat
  qj_version :: VersionStamp

record KvRenameCompletion =
  kc_from_path :: MountPath
  kc_to_path :: MountPath
  kc_from_bucket :: string
  kc_from_key :: string
  kc_expected_from_revision :: u64
  kc_to_bucket :: string
  kc_to_key :: string
  kc_bytes :: bytes
  kc_seed :: string

record ObjectRenameCompletion =
  oc_from_path :: MountPath
  oc_to_path :: MountPath
  oc_from_bucket :: string
  oc_from_object :: string
  oc_expected_from_sequence :: u64
  oc_expected_from_nuid :: string
  oc_to_bucket :: string
  oc_to_object :: string
  oc_bytes :: bytes
  oc_seed :: string

record RuntimeOpenOptions =
  oo_writable :: bool
  oo_truncate :: bool
  oo_create :: bool

section \<open>Directory entries\<close>

definition names_as_dirs :: "string list \<Rightarrow> DirectoryEntry list" where
  "names_as_dirs names = map (\<lambda>name. \<lparr>de_name = name, de_kind = EntryKind.Directory\<rparr>) names"

definition names_as_event_files :: "string list \<Rightarrow> DirectoryEntry list" where
  "names_as_event_files names =
     map (\<lambda>name. \<lparr>de_name = name @ ''.jsonl'', de_kind = EntryKind.File\<rparr>) names"

definition directory_listing_unavailable :: "Errno \<Rightarrow> bool" where
  "directory_listing_unavailable err \<longleftrightarrow> err = ENOENT \<or> err = EIO"

definition insert_directory_entry :: "DirectoryEntry list \<Rightarrow> DirectoryEntry \<Rightarrow> DirectoryEntry list" where
  "insert_directory_entry entries entry =
     (if list_ex (\<lambda>candidate. de_name candidate = de_name entry) entries then
        update_first (\<lambda>candidate. de_name candidate = de_name entry)
          (\<lambda>existing. if de_kind entry = EntryKind.File then existing\<lparr>de_kind := EntryKind.File\<rparr> else existing)
          entries
      else entries @ [entry])"

text \<open>\<open>entries.insert(position, entry)\<close> before the first entry with a greater name.\<close>

fun insert_before :: "('a \<Rightarrow> bool) \<Rightarrow> 'a \<Rightarrow> 'a list \<Rightarrow> 'a list" where
  "insert_before P x [] = [x]"
| "insert_before P x (y # ys) = (if P y then x # y # ys else y # insert_before P x ys)"

definition insert_directory_entry_sorted ::
  "DirectoryEntry list \<Rightarrow> DirectoryEntry \<Rightarrow> DirectoryEntry list" where
  "insert_directory_entry_sorted entries entry =
     (if list_ex (\<lambda>candidate. de_name candidate = de_name entry) entries then
        update_first (\<lambda>candidate. de_name candidate = de_name entry)
          (\<lambda>existing. if de_kind entry = EntryKind.Directory
                       then existing\<lparr>de_kind := EntryKind.Directory\<rparr> else existing)
          entries
      else insert_before (\<lambda>candidate. de_name entry < de_name candidate) entry entries)"

definition directory_entries_contain_exact_file :: "DirectoryEntry list \<Rightarrow> string \<Rightarrow> bool" where
  "directory_entries_contain_exact_file entries name =
     list_ex (\<lambda>entry. de_name entry = name \<and> de_kind entry = EntryKind.File) entries"

section \<open>Open flags and committed bytes\<close>

definition O_ACCMODE :: "32 word" where "O_ACCMODE = 3"
definition O_RDONLY :: "32 word" where "O_RDONLY = 0"
definition O_TRUNC :: "32 word" where "O_TRUNC = 512"

definition runtime_open_options_from_flags :: "32 word \<Rightarrow> bool \<Rightarrow> RuntimeOpenOptions" where
  "runtime_open_options_from_flags flags create =
     (let writable = (create \<or> flags AND O_ACCMODE \<noteq> O_RDONLY) in
        \<lparr>oo_writable = writable, oo_truncate = \<not> create \<and> writable \<and> flags AND O_TRUNC \<noteq> 0,
         oo_create = create\<rparr>)"

definition handle_commit_bytes :: "Handle \<Rightarrow> bytes" where
  "handle_commit_bytes handle =
     (if h_mode handle = WholeValueMode \<and> h_buffer handle = [] then
        (case h_staged_create handle of
           Some staged_create \<Rightarrow> sc_default_payload staged_create
         | None \<Rightarrow> h_buffer handle)
      else h_buffer handle)"

section \<open>JSON lines\<close>

definition message_sequence :: "DirectoryEntry \<Rightarrow> u64 option" where
  "message_sequence entry =
     (if de_kind entry \<noteq> EntryKind.File then None
      else Option.bind (strip_suffix ''.json'' (de_name entry)) parse_u64)"

definition append_json_line :: "bytes \<Rightarrow> bytes \<Rightarrow> bytes" where
  "append_json_line output payload =
     output @ payload @ (if ends_with [10] payload then [] else [10])"

definition action_publishes_jsonl :: "JetStreamAction \<Rightarrow> bool" where
  "action_publishes_jsonl action =
     (case action of
        JetStreamAction.PublishJsonLines _ _ \<Rightarrow> True
      | JetStreamAction.MaterializedPut (MaterializedTarget.Stream _ _) \<Rightarrow> True
      | _ \<Rightarrow> False)"

definition jsonl_canonical_lines :: "Json \<Rightarrow> string \<Rightarrow> bytes \<Rightarrow> Errno + bytes list" where
  "jsonl_canonical_lines json path bs =
     map_ok (map (\<lambda>line. append_json_line [] (as_bytes line)))
       (map_err errno (json_lines json path bs))"

definition jsonl_applied_prefix_count ::
  "Json \<Rightarrow> string \<Rightarrow> bytes \<Rightarrow> bytes \<Rightarrow> bytes \<Rightarrow> Errno + nat" where
  "jsonl_applied_prefix_count json path base current pending =
     rbind (jsonl_canonical_lines json path base) (\<lambda>base.
     rbind (jsonl_canonical_lines json path current) (\<lambda>current.
     rbind (jsonl_canonical_lines json path pending) (\<lambda>pending.
       if length current < length base \<or> take (length base) current \<noteq> base then Inr 0
       else (let appended = drop (length base) current in
               Inr (length (takeWhile (\<lambda>(left, right). left = right) (zip appended pending)))))))"

definition unapplied_jsonl_bytes :: "Json \<Rightarrow> string \<Rightarrow> bytes \<Rightarrow> nat \<Rightarrow> Errno + bytes" where
  "unapplied_jsonl_bytes json path bs applied_lines =
     rbind (jsonl_canonical_lines json path bs) (\<lambda>lines. Inr (concat (drop applied_lines lines)))"

definition rename_completion_key_material :: "string \<Rightarrow> u64 \<Rightarrow> bytes \<Rightarrow> bytes" where
  "rename_completion_key_material source_path source_generation bs =
     as_bytes source_path @ [0] @ as_bytes (show_u64 source_generation) @ [0] @ bs"

text \<open>\<open>later.duration_since(earlier)\<close> succeeds when \<open>later\<close> is not before \<open>earlier\<close>.\<close>

definition max_system_time :: "SystemTime option \<Rightarrow> SystemTime \<Rightarrow> SystemTime" where
  "max_system_time current candidate =
     (case current of
        Some current \<Rightarrow> if candidate \<le> current then current else candidate
      | None \<Rightarrow> candidate)"

definition max_version_stamp :: "VersionStamp option \<Rightarrow> VersionStamp \<Rightarrow> VersionStamp" where
  "max_version_stamp current candidate =
     (case current of
        Some current \<Rightarrow> if vs_modified candidate \<le> vs_modified current then current else candidate
      | None \<Rightarrow> candidate)"

section \<open>Lemmas\<close>

lemma insert_directory_entry_merge:
  "insert_directory_entry es e = merge_child_entry es (de_name e) (de_kind e)"
proof -
  have f: "(\<lambda>x :: DirectoryEntry. if de_kind e = EntryKind.File then x\<lparr>de_kind := EntryKind.File\<rparr> else x) =
    (\<lambda>x. if de_kind x = EntryKind.Directory \<and> de_kind e = EntryKind.File then x\<lparr>de_kind := EntryKind.File\<rparr> else x)"
  proof
    fix x :: DirectoryEntry
    show "(if de_kind e = EntryKind.File then x\<lparr>de_kind := EntryKind.File\<rparr> else x) =
      (if de_kind x = EntryKind.Directory \<and> de_kind e = EntryKind.File then x\<lparr>de_kind := EntryKind.File\<rparr> else x)"
      by (cases x; cases "de_kind x") auto
  qed
  show ?thesis unfolding insert_directory_entry_def merge_child_entry_def f by (cases e) simp
qed

text \<open>A file and a directory of the same name: the file wins.\<close>

definition kind_among :: "(string \<times> EntryKind) set \<Rightarrow> string \<Rightarrow> EntryKind option" where
  "kind_among S n =
     (if (n, EntryKind.File) \<in> S then Some EntryKind.File
      else if (n, EntryKind.Directory) \<in> S then Some EntryKind.Directory else None)"

lemma fold_insert_entries:
  "distinct (map de_name (foldl insert_directory_entry [] es)) \<and>
   kind_at (foldl insert_directory_entry [] es) n = kind_among ((\<lambda>e. (de_name e, de_kind e)) ` set es) n"
proof (induction es arbitrary: n rule: rev_induct)
  case (snoc e es)
  then show ?case
    by (cases "de_kind e")
      (auto simp: insert_directory_entry_merge kind_at_merge merged_kind_def kind_among_def distinct_merge
        image_iff)
qed (simp add: kind_among_def)

lemma sorted_entries_spec:
  assumes "entries = sort_key de_name (foldl insert_directory_entry [] es)"
  shows "sorted (map de_name entries)" "distinct (map de_name entries)"
    and "\<lparr>de_name = n, de_kind = k\<rparr> \<in> set entries \<longleftrightarrow>
      kind_among ((\<lambda>e. (de_name e, de_kind e)) ` set es) n = Some k"
proof -
  let ?raw = "foldl insert_directory_entry [] es"
  have d: "distinct (map de_name ?raw)" using fold_insert_entries by blast
  have "mset (map de_name entries) = mset (map de_name ?raw)" by (simp add: assms)
  then show "distinct (map de_name entries)" using d mset_eq_imp_distinct_iff by blast
  show "sorted (map de_name entries)" by (simp add: assms)
  show "\<lparr>de_name = n, de_kind = k\<rparr> \<in> set entries \<longleftrightarrow>
      kind_among ((\<lambda>e. (de_name e, de_kind e)) ` set es) n = Some k"
    using kind_at_member [OF d, of n k] fold_insert_entries [of es n] by (simp add: assms)
qed

end
