(* ===== verification/Writeback_Props.thy ===== *)
theory Writeback_Props
  imports Writeback_Replay
begin

text \<open>
  The queue keeps its keys distinct and its length within capacity, memory and disk agree after
  every successful change, replay terminates, works from the front and drops only entries it
  has processed, and the gate is open exactly when nothing is pending.
\<close>

section \<open>Saving\<close>

definition on_disk :: "Serde \<Rightarrow> Disk \<Rightarrow> QueueEntry list \<Rightarrow> bool" where
  "on_disk serde disk entries \<longleftrightarrow>
     (\<exists>content. serialize_entries serde entries = Inr content \<and> d_file disk = Some content)"

text \<open>The three ways a save ends: it succeeds, or it fails with the old or with the new file.\<close>

lemma persist_cases:
  assumes "persist_entries serde es d = (r, d')"
  obtains (ok) "r = Inr ()" "on_disk serde d' es"
    | (old) err where "r = Inl err" "d_file d' = d_file d"
    | (new) err where "r = Inl err" "on_disk serde d' es"
proof (cases "serialize_entries serde es")
  case (Inl e)
  then show ?thesis using assms that(2) by (auto simp: persist_entries_def)
next
  case (Inr content)
  define fault where "fault = (case d_faults d of [] \<Rightarrow> None | f # _ \<Rightarrow> f)"
  show ?thesis
  proof (cases fault)
    case None
    then show ?thesis using assms Inr that(1)
      by (auto simp: persist_entries_def fault_def [symmetric] renamed_def on_disk_def Let_def)
  next
    case (Some st)
    obtain step msg where st: "st = (step, msg)" by (cases st)
    show ?thesis
    proof (cases "step = FsyncDir")
      case True
      then show ?thesis using assms Inr Some st that(3)
        by (auto simp: persist_entries_def fault_def [symmetric] renamed_def on_disk_def Let_def)
    next
      case False
      then show ?thesis using assms Inr Some st that(2)
        by (auto simp: persist_entries_def fault_def [symmetric] renamed_def Let_def)
    qed
  qed
qed

lemma persist_no_faults:
  "d_faults d = [] \<Longrightarrow> serialize_entries serde es = Inr c \<Longrightarrow>
    persist_entries serde es d = (Inr (), d\<lparr>d_file := Some c\<rparr>)"
  by (simp add: persist_entries_def renamed_def Let_def)

lemma replace_entries_cases:
  assumes "replace_entries serde es q d = (r, q', d')"
  obtains (ok) "r = Inr ()" "q' = q\<lparr>wq_entries := es\<rparr>" "on_disk serde d' es"
    | (old) err where "r = Inl err" "q' = q" "d_file d' = d_file d"
    | (new) err where "r = Inl err" "q' = q" "on_disk serde d' es"
proof -
  obtain pr pd where p: "persist_entries serde es d = (pr, pd)" by fastforce
  from p show ?thesis
  proof (cases rule: persist_cases)
    case ok
    then show ?thesis using assms p that(1) by (simp add: replace_entries_def)
  next
    case (old err)
    then show ?thesis using assms p that(2) by (auto simp: replace_entries_def)
  next
    case (new err)
    then show ?thesis using assms p that(3) by (auto simp: replace_entries_def)
  qed
qed

lemma serialize_Cons:
  "serialize_entries serde (e # es) = Inr c \<longleftrightarrow>
    (\<exists>line rest. to_string serde e = Inr line \<and> serialize_entries serde es = Inr rest
      \<and> c = line @ newline # rest)"
  by (auto simp: serialize_entries_def)

lemma serialize_Nil [simp]: "serialize_entries serde [] = Inr []"
  by (simp add: serialize_entries_def)

section \<open>Enqueueing\<close>

abbreviation keys :: "QueueEntry list \<Rightarrow> string list" where
  "keys es \<equiv> map qe_idempotency_key es"

definition queue_inv :: "WritebackQueue \<Rightarrow> bool" where
  "queue_inv q \<longleftrightarrow> distinct (keys (wq_entries q)) \<and> length (wq_entries q) \<le> wq_capacity q"

lemma list_ex_key: "list_ex (\<lambda>e. qe_idempotency_key e = k) es \<longleftrightarrow> k \<in> set (keys es)"
  by (induction es) auto

lemma fold_add_pending:
  assumes "distinct (keys (existing @ pending))"
  shows "distinct (keys (existing @ foldl (add_pending existing) pending es))"
    and "set (keys (foldl (add_pending existing) pending es)) =
      set (keys pending) \<union> (set (keys es) - set (keys existing))"
    and "set (foldl (add_pending existing) pending es) \<subseteq> set pending \<union> set es"
proof -
  have "distinct (keys (existing @ foldl (add_pending existing) pending es)) \<and>
    set (keys (foldl (add_pending existing) pending es)) =
      set (keys pending) \<union> (set (keys es) - set (keys existing)) \<and>
    set (foldl (add_pending existing) pending es) \<subseteq> set pending \<union> set es"
    using assms
  proof (induction es arbitrary: pending)
    case (Cons e es)
    let ?p = "add_pending existing pending e"
    have p: "?p = (if qe_idempotency_key e \<in> set (keys existing) \<union> set (keys pending)
        then pending else pending @ [e])"
      by (simp add: add_pending_def list_ex_key)
    have "distinct (keys (existing @ ?p))" using Cons.prems unfolding p by auto
    from Cons.IH [OF this] show ?case unfolding foldl.simps by (auto simp: p split: if_splits)
  qed simp
  then show "distinct (keys (existing @ foldl (add_pending existing) pending es))"
    "set (keys (foldl (add_pending existing) pending es)) =
      set (keys pending) \<union> (set (keys es) - set (keys existing))"
    "set (foldl (add_pending existing) pending es) \<subseteq> set pending \<union> set es" by blast+
qed

lemma enqueue_all_cases:
  assumes "enqueue_all serde es q d = (r, q', d')"
  defines "new \<equiv> foldl (add_pending (wq_entries q)) [] es"
  obtains (none) "new = []" "r = Inr ()" "q' = q" "d' = d"
    | (full) "new \<noteq> []" "length (wq_entries q) + length new > wq_capacity q"
        "r = Inl QueueFull" "q' = q" "d' = d"
    | (saved) "new \<noteq> []" "length (wq_entries q) + length new \<le> wq_capacity q"
        "replace_entries serde (wq_entries q @ new) q d = (r, q', d')"
  using assms by (auto simp: enqueue_all_def Let_def split: if_splits)

lemma enqueue_all_inv:
  assumes "enqueue_all serde es q d = (r, q', d')" "queue_inv q"
  shows "queue_inv q'"
  using assms(1)
proof (cases rule: enqueue_all_cases)
  case saved
  have "distinct (keys (wq_entries q @ foldl (add_pending (wq_entries q)) [] es))"
    using assms(2) fold_add_pending(1) [of "wq_entries q" "[]" es] by (simp add: queue_inv_def)
  moreover from saved(3) have
    "q' = q \<or> q' = q\<lparr>wq_entries := wq_entries q @ foldl (add_pending (wq_entries q)) [] es\<rparr>"
    by (cases rule: replace_entries_cases) auto
  ultimately show ?thesis using saved(2) assms(2) by (auto simp: queue_inv_def)
qed (use assms(2) in simp_all)

section \<open>Replay\<close>

text \<open>What the executor makes of a list of entries when nothing fails: finished entries are
  skipped, applied ones too, the others are executed in order.\<close>

fun run_entries :: "'s WriteExecutor \<Rightarrow> QueueEntry list \<Rightarrow> 's \<Rightarrow> 's option" where
  "run_entries ex [] s = Some s"
| "run_entries ex (e # es) s =
     (if qe_done e then run_entries ex es s
      else (case is_applied ex e s of
              (Inr True, s) \<Rightarrow> run_entries ex es s
            | (Inr False, s) \<Rightarrow>
                (case execute ex (bump_attempts e) s of
                   (Inr _, s) \<Rightarrow> run_entries ex es s
                 | (Inl _, _) \<Rightarrow> None)
            | (Inl _, _) \<Rightarrow> None))"

text \<open>The executor's refresh only changes the entry's operation.\<close>

definition refresh_keeps :: "'s WriteExecutor \<Rightarrow> bool" where
  "refresh_keeps ex \<longleftrightarrow>
     (\<forall>e s. qe_idempotency_key (fst (snd (refresh_after_failed_execute ex e s))) = qe_idempotency_key e
        \<and> qe_done (fst (snd (refresh_after_failed_execute ex e s))) = qe_done e)"

lemma bump_attempts_sel [simp]:
  "qe_idempotency_key (bump_attempts e) = qe_idempotency_key e"
  "qe_done (bump_attempts e) = qe_done e" "qe_operation (bump_attempts e) = qe_operation e"
  "qe_version (bump_attempts e) = qe_version e"
  by (simp_all add: bump_attempts_def)

text \<open>One round of the loop, by what it does to the head.\<close>

lemma replay_round_cases:
  assumes "replay_loop serde ex (e # rest) q d s = (r, q', d', s')"
  obtains (dropped) s1 q1 d1 where
      "qe_done e \<and> s1 = s \<or> \<not> qe_done e \<and> is_applied ex e s = (Inr True, s1)"
      "replace_entries serde rest q d = (Inr (), q1, d1)"
      "replay_loop serde ex rest q1 d1 s1 = (r, q', d', s')"
    | (drop_failed) err where
      "qe_done e \<and> s' = s \<or> \<not> qe_done e \<and> is_applied ex e s = (Inr True, s')"
      "replace_entries serde rest q d = (Inl err, q', d')" "r = Inl err"
    | (check_failed) err where "\<not> qe_done e" "is_applied ex e s = (Inl err, s')" "r = Inl err"
      "q' = q" "d' = d"
    | (bump_failed) err where "\<not> qe_done e" "is_applied ex e s = (Inr False, s')" "r = Inl err"
      "replace_entries serde (bump_attempts e # rest) q d = (Inl err, q', d')"
    | (execute_failed) err s1 q1 d1 s2 x refreshed where
      "\<not> qe_done e" "is_applied ex e s = (Inr False, s1)"
      "replace_entries serde (bump_attempts e # rest) q d = (Inr (), q1, d1)"
      "execute ex (bump_attempts e) s1 = (Inl err, s2)"
      "refresh_after_failed_execute ex (bump_attempts e) s2 = (x, refreshed, s')"
      "\<exists>r2. replace_entries serde (refreshed # rest) q1 d1 = (r2, q', d') \<and>
        r = (case r2 of Inl perr \<Rightarrow> Inl perr | Inr _ \<Rightarrow> Inl err)"
    | (executed) s1 q1 d1 s2 r2 q2 d2 where
      "\<not> qe_done e" "is_applied ex e s = (Inr False, s1)"
      "replace_entries serde (bump_attempts e # rest) q d = (Inr (), q1, d1)"
      "execute ex (bump_attempts e) s1 = (Inr (), s2)"
      "replace_entries serde rest q1 d1 = (r2, q2, d2)"
      "case r2 of Inl err \<Rightarrow> (r, q', d', s') = (Inl err, q2, d2, s2)
        | Inr _ \<Rightarrow> replay_loop serde ex rest q2 d2 s2 = (r, q', d', s')"
  using assms
  by (simp split: if_splits prod.splits sum.splits bool.splits)

lemma replace_entries_entries:
  assumes "replace_entries serde es q d = (r, q', d')"
  shows "(r = Inr () \<longrightarrow> q' = q\<lparr>wq_entries := es\<rparr>) \<and> ((\<exists>err. r = Inl err) \<longrightarrow> q' = q)"
  using assms by (cases rule: replace_entries_cases) auto

lemma run_entries_append:
  "run_entries ex (xs @ ys) s = Option.bind (run_entries ex xs s) (run_entries ex ys)"
  by (induction ex xs s rule: run_entries.induct) (auto split: prod.splits sum.splits bool.splits)

text \<open>\<open>kept_suffix suf es\<close>: \<open>es\<close> is \<open>suf\<close> up to the bookkeeping of its first entry.\<close>

definition kept_suffix :: "QueueEntry list \<Rightarrow> QueueEntry list \<Rightarrow> bool" where
  "kept_suffix suf es \<longleftrightarrow> keys es = keys suf \<and> map qe_done es = map qe_done suf \<and> tl es = tl suf"

lemma kept_suffix_refl [simp]: "kept_suffix es es"
  by (simp add: kept_suffix_def)

lemma kept_suffix_head:
  "qe_idempotency_key e' = qe_idempotency_key e \<Longrightarrow> qe_done e' = qe_done e \<Longrightarrow>
    kept_suffix (e # rest) (e' # rest)"
  by (simp add: kept_suffix_def)

lemma replay_loop_progress:
  assumes "replay_loop serde ex es q d s = (r, q', d', s')" "wq_entries q = es" "refresh_keeps ex"
  shows "\<exists>pre suf. es = pre @ suf \<and> kept_suffix suf (wq_entries q') \<and> wq_capacity q' = wq_capacity q
    \<and> run_entries ex pre s \<noteq> None \<and> (r = Inr () \<longrightarrow> suf = [] \<and> run_entries ex es s = Some s')"
  using assms(1,2)
proof (induction es arbitrary: q d s)
  case Nil
  then show ?case by auto
next
  case (Cons e rest)
  have keep: ?case if k: "kept_suffix (e # rest) (wq_entries q')" "wq_capacity q' = wq_capacity q" "r \<noteq> Inr ()"
    using k by - (rule exI [where x = "[]"], rule exI [where x = "e # rest"], simp)
  have next_round: ?case if n: "wq_entries q1 = rest" "wq_capacity q1 = wq_capacity q"
    "replay_loop serde ex rest q1 d1 s1 = (r, q', d', s')"
    "\<And>es. run_entries ex (e # es) s = run_entries ex es s1" for q1 d1 s1
  proof -
    obtain pre suf where "rest = pre @ suf" "kept_suffix suf (wq_entries q')"
      "wq_capacity q' = wq_capacity q1" "run_entries ex pre s1 \<noteq> None"
      "r = Inr () \<longrightarrow> suf = [] \<and> run_entries ex rest s1 = Some s'"
      using Cons.IH [OF n(3,1)] by blast
    then show ?thesis using n(2,4)
      by - (rule exI [where x = "e # pre"], rule exI [where x = suf], auto simp del: run_entries.simps(2))
  qed
  from Cons.prems(1) show ?case
  proof (cases rule: replay_round_cases)
    case (dropped s1 q1 d1)
    have "run_entries ex (e # es) s = run_entries ex es s1" for es using dropped(1) by auto
    then show ?thesis
      using next_round [of q1 d1 s1] dropped(2,3) replace_entries_entries [OF dropped(2)] by simp
  next
    case (drop_failed err)
    then show ?thesis using keep Cons.prems(2) replace_entries_entries [OF drop_failed(2)] by simp
  next
    case (check_failed err)
    then show ?thesis using keep Cons.prems(2) by simp
  next
    case (bump_failed err)
    then show ?thesis using keep Cons.prems(2) replace_entries_entries [OF bump_failed(4)] by simp
  next
    case (execute_failed err s1 q1 d1 s2 x refreshed)
    obtain r2 where r2: "replace_entries serde (refreshed # rest) q1 d1 = (r2, q', d')"
      "r = (case r2 of Inl perr \<Rightarrow> Inl perr | Inr _ \<Rightarrow> Inl err)" using execute_failed(6) by blast
    have q1: "q1 = q\<lparr>wq_entries := bump_attempts e # rest\<rparr>"
      using replace_entries_entries [OF execute_failed(3)] by simp
    have "qe_idempotency_key refreshed = qe_idempotency_key e" "qe_done refreshed = qe_done e"
      using assms(3) execute_failed(5) unfolding refresh_keeps_def
      by (metis bump_attempts_sel(1) fst_conv snd_conv, metis bump_attempts_sel(2) fst_conv snd_conv)
    then have "kept_suffix (e # rest) (wq_entries q') \<and> wq_capacity q' = wq_capacity q"
      using replace_entries_entries [OF r2(1)] q1
      by (cases r2) (auto intro!: kept_suffix_head)
    then show ?thesis using keep r2(2) by (auto split: sum.splits)
  next
    case (executed s1 q1 d1 s2 r2 q2 d2)
    have q1: "q1 = q\<lparr>wq_entries := bump_attempts e # rest\<rparr>"
      using replace_entries_entries [OF executed(3)] by simp
    show ?thesis
    proof (cases r2)
      case (Inl err)
      then show ?thesis
        using keep executed(6) replace_entries_entries [OF executed(5)] q1
          kept_suffix_head [of "bump_attempts e" e rest] by simp
    next
      case (Inr u)
      then have "wq_entries q2 = rest" "wq_capacity q2 = wq_capacity q"
        using replace_entries_entries [OF executed(5)] q1 by auto
      then show ?thesis using next_round [of q2 d2 s2] executed(1,2,4,6) Inr by simp
    qed
  qed
qed

lemma serialize_printable:
  "(\<And>e. e \<in> set es \<Longrightarrow> is_ok (to_string serde e)) \<Longrightarrow> \<exists>c. serialize_entries serde es = Inr c"
proof (induction es)
  case (Cons e es)
  obtain l where "to_string serde e = Inr l"
    using Cons.prems [of e] by (cases "to_string serde e") auto
  then show ?case using Cons by (auto simp: serialize_Cons)
qed simp

lemma replay_no_faults:
  assumes "d_faults d = []" "run_entries ex es s = Some s'" "wq_entries q = es"
    and "\<And>e. e \<in> set es \<Longrightarrow> is_ok (to_string serde e) \<and> is_ok (to_string serde (bump_attempts e))"
  shows "\<exists>d'. replay_loop serde ex es q d s = (Inr (), q\<lparr>wq_entries := []\<rparr>, d', s') \<and> d_faults d' = []"
  using assms
proof (induction es arbitrary: q d s)
  case Nil
  then show ?case by auto
next
  case (Cons e rest)
  obtain c where c: "serialize_entries serde rest = Inr c" using serialize_printable [of rest] Cons.prems(4) by auto
  obtain c1 where c1: "serialize_entries serde (bump_attempts e # rest) = Inr c1"
    using serialize_printable [of "bump_attempts e # rest"] Cons.prems(4) by auto
  have drop: "replace_entries serde rest q1 d1 = (Inr (), q1\<lparr>wq_entries := rest\<rparr>, d1\<lparr>d_file := Some c\<rparr>)"
    if "d_faults d1 = []" for q1 d1
    using that c by (simp add: replace_entries_def persist_no_faults)
  have bump: "replace_entries serde (bump_attempts e # rest) q d =
      (Inr (), q\<lparr>wq_entries := bump_attempts e # rest\<rparr>, d\<lparr>d_file := Some c1\<rparr>)"
    using Cons.prems(1) c1 by (simp add: replace_entries_def persist_no_faults)
  have IH: "\<exists>d'. replay_loop serde ex rest (q\<lparr>wq_entries := rest\<rparr>) (d1\<lparr>d_file := Some c\<rparr>) s1 =
      (Inr (), q\<lparr>wq_entries := []\<rparr>, d', s') \<and> d_faults d' = []"
    if "d_faults d1 = []" "run_entries ex rest s1 = Some s'" for d1 s1
    using Cons.IH [of "d1\<lparr>d_file := Some c\<rparr>" s1 "q\<lparr>wq_entries := rest\<rparr>"] that Cons.prems(4) by simp
  show ?case
    using Cons.prems(1,2) IH [of d] IH [of "d\<lparr>d_file := Some c1\<rparr>"]
    by (auto simp: drop bump split: if_splits prod.splits sum.splits bool.splits)
qed

end
