(* ===== verification/Writeback_Steps.thy ===== *)
theory Writeback_Steps
  imports Writeback_Props
begin

text \<open>
  The queue and its gate as a state machine: enqueueing, replaying, and whatever other clients
  do to the backend and the disk does to the next saves. The queue stays within its capacity and
  free of duplicate keys, and the gate is open exactly when the queue is empty.
\<close>

section \<open>The executor over a backend\<close>

lemma store_refresh_keeps: "refresh_keeps (StoreReplayExecutor store)"
  unfolding refresh_keeps_def StoreReplayExecutor_def
  by (auto simp: store_refresh_def split: QueueOperation.splits prod.splits sum.splits)

lemma durable_entry_sel [simp]:
  "qe_idempotency_key (durable_entry_from_failed_write failed) = fw_idempotency_key failed"
  "\<not> qe_done (durable_entry_from_failed_write failed)"
  by (simp_all add: durable_entry_from_failed_write_def)

lemma replay_keeps:
  assumes "replay serde ex q d s = (r, q', d', s')" "refresh_keeps ex"
  shows "\<exists>pre suf. wq_entries q = pre @ suf \<and> kept_suffix suf (wq_entries q')
    \<and> wq_capacity q' = wq_capacity q \<and> run_entries ex pre s \<noteq> None
    \<and> (r = Inr () \<longrightarrow> suf = [] \<and> run_entries ex (wq_entries q) s = Some s')"
  using replay_loop_progress [OF assms(1) [unfolded replay_def] refl assms(2)] .

section \<open>The state machine\<close>

inductive writeback_step ::
  "Serde \<Rightarrow> 's ReplayStorage \<Rightarrow> WritebackReplay \<times> Disk \<times> 's \<Rightarrow> WritebackReplay \<times> Disk \<times> 's \<Rightarrow> bool"
  for serde :: Serde and store :: "'s ReplayStorage" where
  enqueued:
    "writeback_enqueue serde failed wr d = (r, wr', d') \<Longrightarrow>
      writeback_step serde store (wr, d, s) (wr', d', s)"
| replayed:
    "writeback_replay serde store wr d s = (r, wr', d', s') \<Longrightarrow>
      writeback_step serde store (wr, d, s) (wr', d', s')"
| environment: "writeback_step serde store (wr, d, s) (wr, d\<lparr>d_faults := faults\<rparr>, s')"

inductive_cases writeback_stepE: "writeback_step serde store (wr, d, s) (wr', d', s')"

text \<open>The gate's part of the invariant, and that of the flags.\<close>

definition wr_inv :: "WritebackReplay \<Rightarrow> bool" where
  "wr_inv wr \<longleftrightarrow> (\<forall>e\<in>set (wq_entries (wr_queue wr)). \<not> qe_done e)
     \<and> (accepts_writes (wr_gate wr) \<longleftrightarrow> wq_entries (wr_queue wr) = [])"

lemma sync_gate_result:
  "sync_gate wr = (out, wr') \<Longrightarrow> wr_queue wr' = wr_queue wr
    \<and> (accepts_writes (wr_gate wr') \<longleftrightarrow> \<not> has_pending (wr_queue wr))
    \<and> out = \<lparr>ro_queue = queue_state (wr_queue wr), ro_write_gate = gate_state (wr_gate wr'),
             ro_gate_transition =
               if accepts_writes (wr_gate wr) = accepts_writes (wr_gate wr') then Unchanged
               else if accepts_writes (wr_gate wr') then Unblocked else Blocked\<rparr>"
  by (auto simp: sync_gate_def sync_with_queue_def sync_pending_def accepts_writes_def split: if_splits)

lemma has_pending_iff: "\<forall>e\<in>set (wq_entries q). \<not> qe_done e \<Longrightarrow> has_pending q \<longleftrightarrow> wq_entries q \<noteq> []"
  by (simp add: has_pending_def pending_len_def)

lemma sync_gate_inv:
  assumes "sync_gate wr = (out, wr')" "\<forall>e\<in>set (wq_entries (wr_queue wr)). \<not> qe_done e"
  shows "wr_inv wr'"
  using sync_gate_result [OF assms(1)] assms(2) has_pending_iff [OF assms(2)] by (simp add: wr_inv_def)

lemma open_inv:
  assumes "writeback_open serde dir open_error cap d = (Inr wr, d')"
  shows "wr_inv wr \<and> wq_capacity (wr_queue wr) = cap"
proof -
  obtain q where q: "queue_open serde dir open_error cap d = (Inr q, d')" "wr = from_queue q"
    using assms by (auto simp: writeback_open_def split: prod.splits)
  have "(\<forall>e\<in>set (wq_entries q). \<not> qe_done e) \<and> wq_capacity q = cap"
    using q(1) by (auto simp: queue_open_def compact_completed_entries_def Let_def
      split: option.splits if_splits sum.splits prod.splits)
  moreover obtain out wr' where "sync_gate \<lparr>wr_queue = q, wr_gate = WritebackGate_new\<rparr> = (out, wr')"
    by fastforce
  ultimately show ?thesis
    using sync_gate_inv sync_gate_result unfolding q(2) from_queue_def by fastforce
qed

section \<open>One enqueued write\<close>

lemma enqueue_one:
  assumes "enqueue serde e q d = (r, q', d')"
  shows "if qe_idempotency_key e \<in> set (keys (wq_entries q)) then r = Inr () \<and> q' = q \<and> d' = d
    else if wq_capacity q \<le> length (wq_entries q) then r = Inl QueueFull \<and> q' = q \<and> d' = d
    else replace_entries serde (wq_entries q @ [e]) q d = (r, q', d')"
  using assms by (auto simp: enqueue_def enqueue_all_def add_pending_def list_ex_key)

lemma enqueue_inv:
  assumes "writeback_enqueue serde failed wr d = (r, wr', d')" "wr_inv wr"
  shows "wr_inv wr' \<and> wq_capacity (wr_queue wr') = wq_capacity (wr_queue wr)
    \<and> (queue_inv (wr_queue wr) \<longrightarrow> queue_inv (wr_queue wr'))"
proof -
  let ?e = "durable_entry_from_failed_write failed"
  obtain r1 q1 d1 where e: "enqueue serde ?e (wr_queue wr) d = (r1, q1, d1)" by (metis prod_cases3)
  have entries: "(q1 = wr_queue wr \<or> q1 = (wr_queue wr)\<lparr>wq_entries := wq_entries (wr_queue wr) @ [?e]\<rparr>)
      \<and> (\<forall>err. r1 = Inl err \<longrightarrow> q1 = wr_queue wr)"
    using enqueue_one [OF e] by (auto split: if_splits elim: replace_entries_cases)
  have undone: "\<forall>e\<in>set (wq_entries q1). \<not> qe_done e" using assms(2) entries by (auto simp: wr_inv_def)
  have inv: "queue_inv (wr_queue wr) \<longrightarrow> queue_inv q1"
    using enqueue_all_inv [OF e [unfolded enqueue_def]] by blast
  show ?thesis
  proof (cases r1)
    case (Inl err)
    then have "wr' = wr" using assms(1) e entries
      by (auto simp: writeback_enqueue_def enqueue_failed_write_def)
    then show ?thesis using assms(2) by simp
  next
    case (Inr u)
    then obtain out where "sync_gate (wr\<lparr>wr_queue := q1\<rparr>) = (out, wr')"
      using assms(1) e by (auto simp: writeback_enqueue_def enqueue_failed_write_def split: prod.splits)
    then show ?thesis using sync_gate_inv [of "wr\<lparr>wr_queue := q1\<rparr>" out wr']
        sync_gate_result [of "wr\<lparr>wr_queue := q1\<rparr>" out wr'] undone inv entries by auto
  qed
qed

section \<open>One replay\<close>

lemma kept_suffix_inv:
  assumes "wq_entries q = pre @ suf" "kept_suffix suf (wq_entries q')" "wq_capacity q' = wq_capacity q"
  shows "(queue_inv q \<longrightarrow> queue_inv q') \<and>
    ((\<forall>e\<in>set (wq_entries q). \<not> qe_done e) \<longrightarrow> (\<forall>e\<in>set (wq_entries q'). \<not> qe_done e))"
proof -
  have "keys (wq_entries q') = keys suf" "map qe_done (wq_entries q') = map qe_done suf"
    using assms(2) by (simp_all add: kept_suffix_def)
  then have "length (wq_entries q') = length suf" "qe_done ` set (wq_entries q') = qe_done ` set suf"
    by (metis length_map, metis list.set_map)
  with \<open>keys (wq_entries q') = keys suf\<close> show ?thesis using assms(1,3) unfolding queue_inv_def
    by (auto simp: image_iff)
qed

lemma replay_result:
  assumes "writeback_replay serde store wr d s = (r, wr', d', s')"
  obtains r1 out where
    "replay serde (StoreReplayExecutor store) (wr_queue wr) d s = (r1, wr_queue wr', d', s')"
    "sync_gate (wr\<lparr>wr_queue := wr_queue wr'\<rparr>) = (out, wr')" "r = map_ok (\<lambda>_. out) r1"
proof -
  obtain r1 q1 d1 s1 where e: "replay serde (StoreReplayExecutor store) (wr_queue wr) d s = (r1, q1, d1, s1)"
    by (metis prod_cases4)
  obtain out wr1 where g: "sync_gate (wr\<lparr>wr_queue := q1\<rparr>) = (out, wr1)" by fastforce
  have "wr_queue wr1 = q1" using sync_gate_result [OF g] by simp
  then show ?thesis using that [of r1 out] assms e g by (simp add: writeback_replay_def replay_with_store_def)
qed

lemma replay_inv:
  assumes "writeback_replay serde store wr d s = (r, wr', d', s')" "wr_inv wr"
  shows "wr_inv wr' \<and> wq_capacity (wr_queue wr') = wq_capacity (wr_queue wr)
    \<and> (queue_inv (wr_queue wr) \<longrightarrow> queue_inv (wr_queue wr'))"
  using assms(1)
proof (rule replay_result)
  fix r1 out
  assume r: "replay serde (StoreReplayExecutor store) (wr_queue wr) d s = (r1, wr_queue wr', d', s')"
    "sync_gate (wr\<lparr>wr_queue := wr_queue wr'\<rparr>) = (out, wr')"
  from replay_keeps [OF r(1) store_refresh_keeps] obtain pre suf where
    "wq_entries (wr_queue wr) = pre @ suf" "kept_suffix suf (wq_entries (wr_queue wr'))"
    "wq_capacity (wr_queue wr') = wq_capacity (wr_queue wr)" by blast
  then show ?thesis
    using kept_suffix_inv [of "wr_queue wr" pre suf "wr_queue wr'"] sync_gate_inv [OF r(2)] assms(2)
    by (simp add: wr_inv_def)
qed

lemma steps_inv:
  assumes "(writeback_step serde store)\<^sup>*\<^sup>* (wr, d, s) (wr', d', s')" "wr_inv wr"
  shows "wr_inv wr' \<and> wq_capacity (wr_queue wr') = wq_capacity (wr_queue wr)
    \<and> (queue_inv (wr_queue wr) \<longrightarrow> queue_inv (wr_queue wr'))"
  using assms(1)
proof (induction "(wr', d', s')" arbitrary: wr' d' s' rule: rtranclp_induct)
  case base
  then show ?case using assms(2) by simp
next
  case (step st)
  obtain wr1 d1 s1 where st: "st = (wr1, d1, s1)" by (metis prod_cases3)
  note IH = step.hyps(3) [OF st]
  from step.hyps(2) [unfolded st] show ?case
    by (rule writeback_stepE) (use IH enqueue_inv replay_inv in \<open>metis+\<close>)
qed

section \<open>Properties\<close>

text \<open>C10: From the moment the write-back queue is opened, through any sequence of enqueued writes
  and replays, with other clients changing the backend and saves failing at any step, the gate
  accepts new writes exactly when the queue is empty, no finished entry stays in the queue, its
  capacity does not change, and distinct keys and the capacity bound are kept.\<close>

theorem queue_and_gate_invariant:
  assumes "writeback_open serde dir open_error cap d0 = (Inr wr, d)"
    and "(writeback_step serde store)\<^sup>*\<^sup>* (wr, d, s) (wr', d', s')"
  shows "(accepts_writes (wr_gate wr') \<longleftrightarrow> wq_entries (wr_queue wr') = [])
    \<and> queue_state (wr_queue wr') = \<lparr>qs_capacity = cap, qs_pending = length (wq_entries (wr_queue wr')), qs_done = 0\<rparr>
    \<and> (queue_inv (wr_queue wr) \<longrightarrow> queue_inv (wr_queue wr'))"
  using steps_inv [OF assms(2)] open_inv [OF assms(1)]
  by (auto simp: wr_inv_def queue_state_def pending_len_def filter_empty_conv filter_id_conv)

definition sample_write :: FailedWrite where
  "sample_write =
     \<lparr>fw_idempotency_key = ''w1'', fw_version = VersionStamp_at 0, fw_diagnostic_path = ''/kv/b/k'',
      fw_operation = FailedWriteOperation.KvPut ''b'' ''k'' [1]\<rparr>"

definition line_serde :: Serde where
  "line_serde = \<lparr>to_string = (\<lambda>_. Inr ''{}''), from_str = (\<lambda>_. Inl (True, ''EOF''))\<rparr>"

definition blank_disk :: Disk where
  "blank_disk = \<lparr>d_file = None, d_locked = False, d_faults = []\<rparr>"

lemma sample_open:
  "writeback_open line_serde dir None 1 blank_disk =
    (Inr (from_queue \<lparr>wq_capacity = 1, wq_entries = []\<rparr>), blank_disk\<lparr>d_locked := True\<rparr>)"
  by (simp add: writeback_open_def queue_open_def blank_disk_def compact_completed_entries_def)

lemma sample_enqueue:
  "wr_queue (fst (snd (writeback_enqueue line_serde sample_write
      (from_queue \<lparr>wq_capacity = 1, wq_entries = []\<rparr>) (blank_disk\<lparr>d_locked := True\<rparr>)))) =
    \<lparr>wq_capacity = 1, wq_entries = [durable_entry_from_failed_write sample_write]\<rparr>"
  by (simp add: writeback_enqueue_def enqueue_failed_write_def enqueue_def enqueue_all_def add_pending_def
    replace_entries_def persist_entries_def serialize_entries_def line_serde_def blank_disk_def renamed_def
    from_queue_def sync_gate_def sync_with_queue_def sync_pending_def has_pending_def pending_len_def
    WritebackGate_new_def Let_def)

theorem queue_and_gate_invariant_witness:
  "\<exists>wr' d'. (writeback_step line_serde (undefined :: unit ReplayStorage))\<^sup>*\<^sup>*
      (from_queue \<lparr>wq_capacity = 1, wq_entries = []\<rparr>, blank_disk\<lparr>d_locked := True\<rparr>, ()) (wr', d', ())
    \<and> wq_entries (wr_queue wr') \<noteq> [] \<and> \<not> accepts_writes (wr_gate wr')"
proof -
  obtain r wr' d' where e: "writeback_enqueue line_serde sample_write
      (from_queue \<lparr>wq_capacity = 1, wq_entries = []\<rparr>) (blank_disk\<lparr>d_locked := True\<rparr>) = (r, wr', d')"
    by (metis prod_cases3)
  have steps: "(writeback_step line_serde (undefined :: unit ReplayStorage))\<^sup>*\<^sup>*
      (from_queue \<lparr>wq_capacity = 1, wq_entries = []\<rparr>, blank_disk\<lparr>d_locked := True\<rparr>, ()) (wr', d', ())"
    by (rule r_into_rtranclp, rule writeback_step.enqueued [OF e])
  have "wq_entries (wr_queue wr') \<noteq> []" using sample_enqueue unfolding e by simp
  then show ?thesis using queue_and_gate_invariant [OF sample_open steps] steps by blast
qed

text \<open>C11: Enqueueing a failed write. A key that is already queued changes nothing; a full queue
  refuses the write and changes nothing; otherwise success means the entry is last in the queue,
  the file holds exactly the queue and the gate is closed, and an error leaves queue and gate
  as they were.\<close>

theorem enqueue_is_durable_or_unchanged:
  "\<forall>r wr' d'. writeback_enqueue serde failed wr d = (r, wr', d') \<longrightarrow>
    (if fw_idempotency_key failed \<in> set (keys (wq_entries (wr_queue wr)))
     then is_ok r \<and> wr_queue wr' = wr_queue wr \<and> d' = d
     else if wq_capacity (wr_queue wr) \<le> length (wq_entries (wr_queue wr))
     then r = Inl QueueFull \<and> wr' = wr \<and> d' = d
     else (case r of
             Inl _ \<Rightarrow> wr' = wr
           | Inr out \<Rightarrow>
               wr_queue wr' = (wr_queue wr)\<lparr>wq_entries :=
                 wq_entries (wr_queue wr) @ [durable_entry_from_failed_write failed]\<rparr>
               \<and> on_disk serde d' (wq_entries (wr_queue wr'))
               \<and> \<not> accepts_writes (wr_gate wr') \<and> ro_queue out = queue_state (wr_queue wr')))"
proof (intro allI impI)
  fix r wr' d'
  let ?e = "durable_entry_from_failed_write failed"
  let ?q = "wr_queue wr"
  assume w: "writeback_enqueue serde failed wr d = (r, wr', d')"
  obtain r1 q1 d1 where e: "enqueue serde ?e ?q d = (r1, q1, d1)" by (metis prod_cases3)
  obtain out wr1 where g: "sync_gate (wr\<lparr>wr_queue := q1\<rparr>) = (out, wr1)" by fastforce
  note one = enqueue_one [OF e, unfolded durable_entry_sel(1)]
  have r: "d' = d1" "(\<exists>err. r1 = Inl err \<and> r = Inl err \<and> wr' = wr\<lparr>wr_queue := q1\<rparr>) \<or> r1 = Inr () \<and> r = Inr out \<and> wr' = wr1"
    using w e g by (auto simp: writeback_enqueue_def enqueue_failed_write_def split: sum.splits)
  have ok: "wr_queue wr1 = q1" "accepts_writes (wr_gate wr1) \<longleftrightarrow> \<not> has_pending q1" "ro_queue out = queue_state q1"
    using sync_gate_result [OF g] by simp_all
  show "if fw_idempotency_key failed \<in> set (keys (wq_entries ?q))
     then is_ok r \<and> wr_queue wr' = ?q \<and> d' = d
     else if wq_capacity ?q \<le> length (wq_entries ?q) then r = Inl QueueFull \<and> wr' = wr \<and> d' = d
     else (case r of
             Inl _ \<Rightarrow> wr' = wr
           | Inr out \<Rightarrow> wr_queue wr' = ?q\<lparr>wq_entries := wq_entries ?q @ [?e]\<rparr>
               \<and> on_disk serde d' (wq_entries (wr_queue wr'))
               \<and> \<not> accepts_writes (wr_gate wr') \<and> ro_queue out = queue_state (wr_queue wr'))"
  proof (cases "fw_idempotency_key failed \<in> set (keys (wq_entries ?q)) \<or> wq_capacity ?q \<le> length (wq_entries ?q)")
    case True
    then show ?thesis using one r ok(1) by auto
  next
    case False
    then have "replace_entries serde (wq_entries ?q @ [?e]) ?q d = (r1, q1, d1)" using one by simp
    then show ?thesis
      by (cases rule: replace_entries_cases)
        (use False r ok in \<open>auto simp: has_pending_def pending_len_def\<close>)
  qed
qed

theorem enqueue_is_durable_or_unchanged_witness:
  "\<exists>wr' d'. writeback_enqueue line_serde sample_write (from_queue \<lparr>wq_capacity = 0, wq_entries = []\<rparr>)
      blank_disk = (Inl QueueFull, wr', d') \<and> d' = blank_disk"
proof -
  let ?wr = "from_queue \<lparr>wq_capacity = 0, wq_entries = []\<rparr>"
  have q: "wr_queue ?wr = \<lparr>wq_capacity = 0, wq_entries = []\<rparr>"
    by (simp add: from_queue_def sync_gate_def sync_with_queue_def sync_pending_def has_pending_def
      pending_len_def WritebackGate_new_def)
  obtain r wr' d' where e: "writeback_enqueue line_serde sample_write ?wr blank_disk = (r, wr', d')"
    by (metis prod_cases3)
  from enqueue_is_durable_or_unchanged [rule_format, OF e] show ?thesis using e by (simp add: q)
qed

end
