(* ===== verification/Queued_Overlay.thy ===== *)
theory Queued_Overlay
  imports Fs_Helpers Invalidation_Props Writeback_Steps
begin

text \<open>
  \<open>eventfs-fuse/src/fs/queued_overlay.rs\<close>: what the mount shows of writes that are still queued.
  The facts are the pending overlays of the write-back queue, oldest first.
\<close>

record QueuedOverlayChange =
  qo_deleted_paths :: "MountPath list"
  qo_visible_paths :: "MountPath list"

record QueuedOverlayProjection =
  qo_facts :: "PendingWriteOverlay list"

definition QueuedOverlayProjection_new :: "PendingWriteOverlay list \<Rightarrow> QueuedOverlayProjection" where
  "QueuedOverlayProjection_new facts = \<lparr>qo_facts = facts\<rparr>"

text \<open>The loop of \<open>whole_value_snapshot\<close>, over the reversed facts.\<close>

fun snapshot_loop :: "MountPath \<Rightarrow> PendingWriteOverlay list \<Rightarrow> FileSnapshot option" where
  "snapshot_loop path [] = None"
| "snapshot_loop path (f # fs) =
     (if list_ex (\<lambda>candidate. candidate = path) (po_deleted_paths f) then None
      else if \<not> list_ex (\<lambda>candidate. candidate = path) (po_visible_paths f) then snapshot_loop path fs
      else (case po_payload f of
              WholeValue bs \<Rightarrow> Some \<lparr>fs_bytes = bs, fs_version = po_version f\<rparr>
            | JsonLines _ _ _ _ \<Rightarrow> snapshot_loop path fs))"

definition whole_value_snapshot :: "QueuedOverlayProjection \<Rightarrow> MountPath \<Rightarrow> FileSnapshot option" where
  "whole_value_snapshot overlay path = snapshot_loop path (rev (qo_facts overlay))"

definition jsonl_entry :: "MountPath \<Rightarrow> PendingWriteOverlay \<Rightarrow> QueuedJsonlEntry option" where
  "jsonl_entry path f =
     (if \<not> list_ex (\<lambda>candidate. candidate = path) (po_visible_paths f) then None
      else (case po_payload f of
              JsonLines stream subject bs applied_lines \<Rightarrow>
                Some \<lparr>qj_idempotency_key = po_idempotency_key f, qj_stream = stream, qj_subject = subject,
                      qj_bytes = bs, qj_applied_lines = applied_lines, qj_version = po_version f\<rparr>
            | WholeValue _ \<Rightarrow> None))"

definition jsonl_entries :: "QueuedOverlayProjection \<Rightarrow> MountPath \<Rightarrow> QueuedJsonlEntry list" where
  "jsonl_entries overlay path = List.map_filter (jsonl_entry path) (qo_facts overlay)"

definition has_jsonl_entry :: "QueuedOverlayProjection \<Rightarrow> MountPath \<Rightarrow> bool" where
  "has_jsonl_entry overlay path =
     list_ex (\<lambda>f. (case po_payload f of JsonLines _ _ _ _ \<Rightarrow> True | WholeValue _ \<Rightarrow> False)
                   \<and> list_ex (\<lambda>candidate. candidate = path) (po_visible_paths f)) (qo_facts overlay)"

definition overlay_version :: "QueuedOverlayProjection \<Rightarrow> MountPath \<Rightarrow> VersionStamp option" where
  "overlay_version overlay path =
     foldl (\<lambda>newest f.
        if list_ex (\<lambda>candidate. is_self_or_descendant_of candidate path) (po_visible_paths f)
        then Some (max_version_stamp newest (po_version f)) else newest)
      None (qo_facts overlay)"

fun delete_loop :: "MountPath \<Rightarrow> PendingWriteOverlay list \<Rightarrow> bool" where
  "delete_loop path [] = False"
| "delete_loop path (f # fs) =
     (if list_ex (\<lambda>candidate. candidate = path) (po_deleted_paths f) then True
      else if list_ex (\<lambda>candidate. candidate = path) (po_visible_paths f) then False
      else delete_loop path fs)"

definition latest_delete_covers :: "QueuedOverlayProjection \<Rightarrow> MountPath \<Rightarrow> bool" where
  "latest_delete_covers overlay path = delete_loop path (rev (qo_facts overlay))"

definition queued_directory_child :: "MountPath \<Rightarrow> MountPath \<Rightarrow> DirectoryEntry option" where
  "queued_directory_child dir_path file_path =
     (if \<not> is_descendant_of file_path dir_path then None
      else Option.bind
        (if is_root dir_path then strip_prefix ''/'' file_path
         else Option.bind (strip_prefix dir_path file_path) (strip_prefix ''/''))
        (\<lambda>remainder.
           if remainder = [] then None
           else (case split_on slash remainder of
                   [] \<Rightarrow> None
                 | [name] \<Rightarrow> Some \<lparr>de_name = name, de_kind = EntryKind.File\<rparr>
                 | name # _ \<Rightarrow> Some \<lparr>de_name = name, de_kind = EntryKind.Directory\<rparr>)))"

definition insert_queued_child ::
  "MountPath \<Rightarrow> DirectoryEntry list \<Rightarrow> MountPath \<Rightarrow> DirectoryEntry list" where
  "insert_queued_child path entries queued_path =
     (case queued_directory_child path queued_path of
        Some child \<Rightarrow> insert_directory_entry entries child
      | None \<Rightarrow> entries)"

definition directory_entries :: "QueuedOverlayProjection \<Rightarrow> MountPath \<Rightarrow> DirectoryEntry list" where
  "directory_entries overlay path =
     sort_key de_name
       (foldl (\<lambda>entries f. foldl (insert_queued_child path) entries (po_visible_paths f)) [] (qo_facts overlay))"

definition overlay_changes :: "QueuedOverlayProjection \<Rightarrow> QueuedOverlayChange list" where
  "overlay_changes overlay =
     map (\<lambda>f. \<lparr>qo_deleted_paths = po_deleted_paths f, qo_visible_paths = po_visible_paths f\<rparr>) (qo_facts overlay)"

definition has_deleted_descendant :: "QueuedOverlayProjection \<Rightarrow> MountPath \<Rightarrow> bool" where
  "has_deleted_descendant overlay path =
     list_ex (\<lambda>deleted_path. is_descendant_of deleted_path path)
       (concat (map po_deleted_paths (qo_facts overlay)))"

definition queued_delete_can_empty_synthetic_directory :: "JetStreamPath \<Rightarrow> bool" where
  "queued_delete_can_empty_synthetic_directory parsed =
     (case parsed of
        JetStreamPath.KvKey _ _ \<Rightarrow> True
      | JetStreamPath.Object _ _ \<Rightarrow> True
      | JetStreamPath.TaskNamespace _ \<Rightarrow> True
      | JetStreamPath.AgentRecord _ _ _ \<Rightarrow> True
      | JetStreamPath.SemanticRecord _ _ \<Rightarrow> True
      | _ \<Rightarrow> False)"

definition exact_delete_reveals_synthetic_directory :: "JetStreamPath \<Rightarrow> bool \<Rightarrow> bool" where
  "exact_delete_reveals_synthetic_directory parsed has_known_visible_entries \<longleftrightarrow>
     queued_delete_can_empty_synthetic_directory parsed \<and> has_known_visible_entries"

definition deleted_descendant_empties_synthetic_directory :: "JetStreamPath \<Rightarrow> bool \<Rightarrow> bool \<Rightarrow> bool" where
  "deleted_descendant_empties_synthetic_directory parsed exact_dynamic_file_exists has_visible_entries \<longleftrightarrow>
     queued_delete_can_empty_synthetic_directory parsed
     \<and> \<not> exact_dynamic_file_exists \<and> \<not> has_visible_entries"

definition delete_can_elide_directory_child :: "MountPath \<Rightarrow> bool" where
  "delete_can_elide_directory_child path =
     (case parse path of
        Inr parsed \<Rightarrow> queued_delete_can_empty_synthetic_directory parsed
      | Inl _ \<Rightarrow> False)"

section \<open>The overlay as a sequence of updates\<close>

text \<open>The reference: the facts applied to one path in order. The state is whether the path was
  deleted last, and the value it has from whole-value writes.\<close>

definition overlay_step ::
  "MountPath \<Rightarrow> bool \<times> FileSnapshot option \<Rightarrow> PendingWriteOverlay \<Rightarrow> bool \<times> FileSnapshot option" where
  "overlay_step path st f =
     (if path \<in> set (po_deleted_paths f) then (True, None)
      else if path \<in> set (po_visible_paths f) then
        (False, case po_payload f of
                  WholeValue bs \<Rightarrow> Some \<lparr>fs_bytes = bs, fs_version = po_version f\<rparr>
                | JsonLines _ _ _ _ \<Rightarrow> snd st)
      else st)"

definition overlay_state :: "PendingWriteOverlay list \<Rightarrow> MountPath \<Rightarrow> bool \<times> FileSnapshot option" where
  "overlay_state facts path = foldl (overlay_step path) (False, None) facts"

lemma list_ex_eq [simp]: "list_ex (\<lambda>candidate. candidate = x) xs \<longleftrightarrow> x \<in> set xs"
  by (auto simp: list_ex_iff)

lemma overlay_state_snoc: "overlay_state (facts @ [f]) path = overlay_step path (overlay_state facts path) f"
  by (simp add: overlay_state_def)

lemma overlay_loops:
  "delete_loop path (rev facts) = fst (overlay_state facts path)"
  "snapshot_loop path (rev facts) = snd (overlay_state facts path)"
  by (induction facts rule: rev_induct)
    (auto simp: overlay_state_snoc overlay_step_def overlay_state_def [of "[]"] split: PendingWritePayload.splits)

lemma overlay_version_snoc:
  "overlay_version \<lparr>qo_facts = facts @ [f]\<rparr> path =
    (if \<exists>v \<in> set (po_visible_paths f). is_self_or_descendant_of v path
     then Some (max_version_stamp (overlay_version \<lparr>qo_facts = facts\<rparr> path) (po_version f))
     else overlay_version \<lparr>qo_facts = facts\<rparr> path)"
  by (simp add: overlay_version_def list_ex_iff)

section \<open>Directory children\<close>

lemma split_mount_tail:
  assumes "clean (n # rest)"
  shows "split_on slash (join_with slash (n # rest)) = n # rest" "join_with slash (n # rest) \<noteq> []"
proof -
  show "split_on slash (join_with slash (n # rest)) = n # rest"
    using assms by (intro split_join_slash_free)
      (auto simp: slash_free_def list_all_iff clean_component_slash)
  have "c \<noteq> []" if "c \<in> set (n # rest)" for c using assms that by (auto simp: list_all_iff clean_component_def)
  then show "join_with slash (n # rest) \<noteq> []" using join_with_eq_Nil_iff [of "n # rest" slash] by blast
qed

lemma queued_directory_child_below:
  assumes "clean (ds @ n # rest)"
  shows "queued_directory_child (mount_of ds) (mount_of (ds @ n # rest)) =
    Some \<lparr>de_name = n, de_kind = if rest = [] then EntryKind.File else EntryKind.Directory\<rparr>"
proof -
  have clean: "clean ds" "clean (n # rest)" using assms by auto
  have "is_descendant_of (mount_of (ds @ n # rest)) (mount_of ds)"
    using is_descendant_of_components [OF clean(1) assms] by blast
  moreover have "(if is_root (mount_of ds) then strip_prefix ''/'' (mount_of (ds @ n # rest))
      else Option.bind (strip_prefix (mount_of ds) (mount_of (ds @ n # rest))) (strip_prefix ''/'')) =
    Some (join_with slash (n # rest))"
  proof (cases "ds = []")
    case True
    then show ?thesis by (simp add: is_root_def strip_prefix_def)
  next
    case False
    have "mount_of (ds @ n # rest) = mount_of ds @ slash # join_with slash (n # rest)"
      using mount_of_append [OF False, of "n # rest"] by simp
    then show ?thesis using clean_not_root [OF clean(1)] False by (simp add: strip_prefix_def)
  qed
  ultimately show ?thesis
    using split_mount_tail [OF clean(2)] by (auto simp: queued_directory_child_def split: list.splits)
qed

lemma queued_directory_child_iff:
  assumes "wf_mount d" "wf_mount v"
  shows "queued_directory_child d v = Some \<lparr>de_name = n, de_kind = k\<rparr> \<longleftrightarrow>
    (\<exists>rest. MountPath_components v = MountPath_components d @ n # rest
      \<and> k = (if rest = [] then EntryKind.File else EntryKind.Directory))"
proof -
  obtain ds where ds: "clean ds" "d = mount_of ds" "MountPath_components d = ds" using assms(1) by (rule wf_mountE)
  obtain cs where cs: "clean cs" "v = mount_of cs" "MountPath_components v = cs" using assms(2) by (rule wf_mountE)
  show ?thesis
  proof (cases "\<exists>m rest. cs = ds @ m # rest")
    case True
    then obtain m rest where m: "cs = ds @ m # rest" by blast
    show ?thesis using queued_directory_child_below [of ds m rest] cs ds unfolding m by auto
  next
    case False
    then have "\<not> is_descendant_of v d"
      using is_descendant_of_components [OF ds(1) cs(1)] unfolding ds(2) cs(2) by (metis list.exhaust)
    then show ?thesis using False ds(3) cs(3) by (auto simp: queued_directory_child_def)
  qed
qed

lemma directory_entries_eq:
  "directory_entries \<lparr>qo_facts = facts\<rparr> path = sort_key de_name (foldl insert_directory_entry []
    (List.map_filter (queued_directory_child path) (concat (map po_visible_paths facts))))"
proof -
  have one: "foldl (insert_queued_child path) es vs =
      foldl insert_directory_entry es (List.map_filter (queued_directory_child path) vs)" for es vs
    by (induction vs arbitrary: es) (auto simp: insert_queued_child_def map_filter_simps split: option.splits)
  have "foldl (\<lambda>entries f. foldl (insert_queued_child path) entries (po_visible_paths f)) es facts =
      foldl insert_directory_entry es
        (List.map_filter (queued_directory_child path) (concat (map po_visible_paths facts)))" for es
    by (induction facts arbitrary: es) (auto simp: one map_filter_def map_filter_simps)
  then show ?thesis by (simp add: directory_entries_def)
qed

section \<open>Properties\<close>

text \<open>C29: The overlay is last-writer-wins. Reading a path through the queued facts, newest first,
  gives the same as applying the facts to it oldest first: a delete removes it, a whole-value
  write sets it, a queued publish leaves the value and undoes a delete, and facts about other
  paths leave it alone.\<close>

theorem overlay_refines_sequential_updates:
  "whole_value_snapshot \<lparr>qo_facts = facts\<rparr> path = snd (overlay_state facts path)
    \<and> latest_delete_covers \<lparr>qo_facts = facts\<rparr> path = fst (overlay_state facts path)"
  by (simp add: whole_value_snapshot_def latest_delete_covers_def overlay_loops)

text \<open>The directory entries of the overlay are sorted, carry no name twice, and show exactly the
  next component of every queued path below the directory: as a file when some queued path ends
  there, as a directory when all go further.\<close>

lemma overlay_directory_is_exact:
  assumes "wf_mount path" "list_all (list_all wf_mount) (map po_visible_paths facts)"
  defines "below \<equiv> \<lambda>n rest. \<exists>f \<in> set facts. \<exists>v \<in> set (po_visible_paths f).
    MountPath_components v = MountPath_components path @ n # rest"
  shows "sorted (map de_name (directory_entries \<lparr>qo_facts = facts\<rparr> path))
    \<and> distinct (map de_name (directory_entries \<lparr>qo_facts = facts\<rparr> path))
    \<and> (\<lparr>de_name = n, de_kind = k\<rparr> \<in> set (directory_entries \<lparr>qo_facts = facts\<rparr> path)) =
        (if below n [] then k = EntryKind.File else k = EntryKind.Directory \<and> (\<exists>rest. below n rest))"
proof -
  let ?children = "List.map_filter (queued_directory_child path) (concat (map po_visible_paths facts))"
  have wf: "wf_mount v" if "f \<in> set facts" "v \<in> set (po_visible_paths f)" for f v
    using assms(2) that by (auto simp: list_all_iff)
  have child: "\<lparr>de_name = n, de_kind = k\<rparr> \<in> set ?children \<longleftrightarrow>
      (\<exists>rest. below n rest \<and> k = (if rest = [] then EntryKind.File else EntryKind.Directory))" for k
  proof -
    have "\<lparr>de_name = n, de_kind = k\<rparr> \<in> set ?children \<longleftrightarrow>
        (\<exists>f \<in> set facts. \<exists>v \<in> set (po_visible_paths f). queued_directory_child path v = Some \<lparr>de_name = n, de_kind = k\<rparr>)"
      by (force simp: List.map_filter_def)
    then show ?thesis
      using queued_directory_child_iff [OF assms(1) wf] unfolding below_def by blast
  qed
  have pairs: "(n, k) \<in> (\<lambda>e. (de_name e, de_kind e)) ` set ?children \<longleftrightarrow> \<lparr>de_name = n, de_kind = k\<rparr> \<in> set ?children" for k
  proof
    assume "(n, k) \<in> (\<lambda>e. (de_name e, de_kind e)) ` set ?children"
    then obtain e where "e \<in> set ?children" "n = de_name e" "k = de_kind e" by auto
    moreover have "e = \<lparr>de_name = de_name e, de_kind = de_kind e\<rparr>" by simp
    ultimately show "\<lparr>de_name = n, de_kind = k\<rparr> \<in> set ?children" by metis
  qed force
  note spec = sorted_entries_spec [OF directory_entries_eq]
  have "kind_among ((\<lambda>e. (de_name e, de_kind e)) ` set ?children) n = Some k \<longleftrightarrow>
      (if below n [] then k = EntryKind.File else k = EntryKind.Directory \<and> (\<exists>rest. below n rest))"
    unfolding kind_among_def pairs child by (cases k) (auto, metis)
  then show ?thesis using spec(1,2) spec(3) [of n k facts path] by simp
qed

text \<open>The version an overlay gives a path is the newest modification among the facts that
  show something at or below it, and there is one exactly when some fact does.\<close>

lemma overlay_version_is_newest:
  defines "touching \<equiv> \<lambda>facts path.
    {f \<in> set facts. \<exists>v \<in> set (po_visible_paths f). is_self_or_descendant_of v path}"
  shows "case overlay_version \<lparr>qo_facts = facts\<rparr> path of
      None \<Rightarrow> touching facts path = {}
    | Some v \<Rightarrow> v \<in> po_version ` touching facts path
        \<and> vs_modified v = Max ((\<lambda>f. vs_modified (po_version f)) ` touching facts path)"
proof (induction facts rule: rev_induct)
  case Nil
  then show ?case by (simp add: overlay_version_def touching_def)
next
  case (snoc f facts)
  have fin: "finite (touching facts path)" by (simp add: touching_def)
  show ?case
  proof (cases "\<exists>v \<in> set (po_visible_paths f). is_self_or_descendant_of v path")
    case True
    then have t: "touching (facts @ [f]) path = insert f (touching facts path)" by (auto simp: touching_def)
    show ?thesis
    proof (cases "overlay_version \<lparr>qo_facts = facts\<rparr> path")
      case None
      then show ?thesis using snoc True
        by (auto simp: overlay_version_snoc t max_version_stamp_def)
    next
      case (Some v)
      then have "touching facts path \<noteq> {}" using snoc by auto
      then have "Max ((\<lambda>f. vs_modified (po_version f)) ` touching (facts @ [f]) path) =
          max (vs_modified (po_version f)) (vs_modified v)"
        using snoc Some fin by (simp add: t)
      then show ?thesis using snoc True Some
        by (auto simp: overlay_version_snoc t max_version_stamp_def)
    qed
  next
    case False
    then have "touching (facts @ [f]) path = touching facts path" by (auto simp: touching_def)
    then show ?thesis using snoc False
      by (cases "overlay_version \<lparr>qo_facts = facts\<rparr> path") (simp_all add: overlay_version_snoc)
  qed
qed

lemma overlay_directory_is_exact_example:
  "\<lparr>de_name = ''dir'', de_kind = EntryKind.Directory\<rparr> \<in> set (directory_entries \<lparr>qo_facts =
    [\<lparr>po_idempotency_key = ''w'', po_version = VersionStamp_at 4, po_visible_paths = [''/kv/b/dir/f''],
      po_deleted_paths = [], po_payload = WholeValue []\<rparr>]\<rparr> ''/kv/b'')"
proof -
  let ?f = "\<lparr>po_idempotency_key = ''w'', po_version = VersionStamp_at 4, po_visible_paths = [''/kv/b/dir/f''],
      po_deleted_paths = [], po_payload = WholeValue []\<rparr>"
  have "wf_mount ''/kv/b''" "list_all (list_all wf_mount) (map po_visible_paths [?f])" by code_simp+
  moreover have "MountPath_components ''/kv/b/dir/f'' = MountPath_components ''/kv/b'' @ ''dir'' # [''f'']" by code_simp
  ultimately show ?thesis
    using overlay_directory_is_exact [of "''/kv/b''" "[?f]" "''dir''" EntryKind.Directory] by auto
qed

text \<open>C28: A queued write can be read before it reaches the backend. Once a failed write of a KV
  value or an object is enqueued under a new key, every path of the mount that stands for
  that value reads the written bytes from the overlay, with the write's version, and no
  older queued rename hides it.\<close>

theorem queued_write_is_read_back:
  assumes "parse t = Inr p" "from_jetstream_path p = Some f" "mount_path_from_jetstream_path p = Inr m"
    and "fw_operation failed \<in> (case f of
           StorageFact.Kv b k \<Rightarrow> {FailedWriteOperation.KvPut b k bs, FailedWriteOperation.MaterializedPut b k bs}
         | StorageFact.Object b n \<Rightarrow> {FailedWriteOperation.ObjectPut b n bs} | _ \<Rightarrow> {})"
    and "fw_idempotency_key failed \<notin> set (keys (wq_entries (wr_queue wr)))"
    and "writeback_enqueue serde failed wr d = (Inr out, wr', d')"
  defines "overlay \<equiv> QueuedOverlayProjection_new (pending_overlays (wr_queue wr'))"
  shows "whole_value_snapshot overlay m = Some \<lparr>fs_bytes = bs, fs_version = fw_version failed\<rparr>
    \<and> \<not> latest_delete_covers overlay m"
proof -
  let ?e = "durable_entry_from_failed_write failed"
  have wf: "wf_path p" using assms(1) parse_wf by blast
  have "\<not> slashed_mailbox f" using assms(4) by (auto simp: slashed_mailbox_def split: StorageFact.splits)
  then obtain vs where vs: "visible_paths f = Inr vs"
    using visible_paths_ok_iff [OF wf assms(2)] by (cases "visible_paths f") auto
  have "m = mount_of (path_components p)" using assms(3) mount_path_of_wf [OF wf] by simp
  then have m: "m \<in> set (mounts vs)"
    using path_components_visible [OF wf assms(2)] visible_paths_mounts(1) [OF vs] by auto
  have ov: "po_visible_paths (queue_entry_pending_overlay ?e) = mounts vs"
      "po_deleted_paths (queue_entry_pending_overlay ?e) = []"
      "po_payload (queue_entry_pending_overlay ?e) = WholeValue bs"
      "po_version (queue_entry_pending_overlay ?e) = fw_version failed"
    using assms(4) vs
    by (auto simp: queue_entry_pending_overlay_def durable_entry_from_failed_write_def kv_visible_mount_paths_def
      object_visible_mount_paths_def storage_fact_visible_paths_def split: StorageFact.splits)
  obtain r1 q1 d1 where e: "enqueue serde ?e (wr_queue wr) d = (r1, q1, d1)" by (metis prod_cases3)
  then have ok: "r1 = Inr ()" "wr_queue wr' = q1"
    using assms(6) sync_gate_result [of "wr\<lparr>wr_queue := q1\<rparr>"]
    by (auto simp: writeback_enqueue_def enqueue_failed_write_def split: sum.splits prod.splits)
  then have "wq_entries (wr_queue wr') = wq_entries (wr_queue wr) @ [?e]"
    using enqueue_one [OF e] assms(5) by (auto split: if_splits elim: replace_entries_cases)
  then have "pending_overlays (wr_queue wr') = pending_overlays (wr_queue wr) @ [queue_entry_pending_overlay ?e]"
    by (simp add: pending_overlays_def)
  then show ?thesis using m ov
    by (simp add: overlay_def QueuedOverlayProjection_new_def whole_value_snapshot_def latest_delete_covers_def)
qed

theorem queued_write_is_read_back_witness:
  "\<exists>wr' :: WritebackReplay. whole_value_snapshot (QueuedOverlayProjection_new (pending_overlays (wr_queue wr'))) ''/kv/b/k'' =
    Some \<lparr>fs_bytes = [1], fs_version = VersionStamp_at 0\<rparr>"
proof -
  let ?wr = "from_queue \<lparr>wq_capacity = 1, wq_entries = []\<rparr>"
  let ?d = "blank_disk\<lparr>d_locked := True\<rparr>"
  obtain out wr' d' where e: "writeback_enqueue line_serde sample_write ?wr ?d = (Inr out, wr', d')"
    by (simp add: writeback_enqueue_def enqueue_failed_write_def enqueue_def enqueue_all_def add_pending_def
      replace_entries_def persist_entries_def serialize_entries_def line_serde_def blank_disk_def renamed_def
      from_queue_def sync_gate_def sync_with_queue_def sync_pending_def has_pending_def pending_len_def
      WritebackGate_new_def Let_def)
  have p: "parse ''/kv/b/k'' = Inr (JetStreamPath.KvKey ''b'' ''k'')"
    "from_jetstream_path (JetStreamPath.KvKey ''b'' ''k'') = Some (StorageFact.Kv ''b'' ''k'')"
    "mount_path_from_jetstream_path (JetStreamPath.KvKey ''b'' ''k'') = Inr ''/kv/b/k''" by code_simp+
  have "wq_entries (wr_queue ?wr) = []"
    by (simp add: from_queue_def sync_gate_def sync_with_queue_def sync_pending_def split: prod.splits if_splits)
  then have "whole_value_snapshot (QueuedOverlayProjection_new (pending_overlays (wr_queue wr'))) ''/kv/b/k'' =
      Some \<lparr>fs_bytes = [1], fs_version = VersionStamp_at 0\<rparr>"
    using queued_write_is_read_back [OF p _ _ e, of "[1]"] by (simp add: sample_write_def)
  then show ?thesis by (rule exI [where x = wr'])
qed

end
