(* ===== verification/Path_Cache.thy ===== *)
theory Path_Cache
  imports Mount_Props Rust_Map
begin

text \<open>
  \<open>eventfs-fuse/src/path_cache.rs\<close>: the two maps between mount paths and inode numbers that
  FUSE's \<open>lookup\<close>, \<open>readdir\<close> and \<open>forget\<close> rely on. The file kind is \<open>fuser::FileType\<close>, of which
  the cache only stores values: it is the type parameter \<open>'kind\<close>.

  \<open>next_ino += 1\<close> is addition on \<open>u64\<close>: it wraps in a release build. The results below say
  where they need that 2^64 inodes have not been handed out.
\<close>

definition ROOT_INO :: u64 where
  "ROOT_INO = 1"

record 'kind PathCache =
  by_path :: "(MountPath, u64 \<times> 'kind) rmap"
  by_ino :: "(u64, MountPath) rmap"
  next_ino :: u64

definition remember :: "MountPath \<Rightarrow> u64 \<Rightarrow> 'kind \<Rightarrow> 'kind PathCache \<Rightarrow> 'kind PathCache" where
  "remember path ino kind cache =
     cache\<lparr>by_path := map_insert path (ino, kind) (by_path cache),
           by_ino := map_insert ino path (by_ino cache)\<rparr>"

definition PathCache_new :: "'kind \<Rightarrow> 'kind PathCache" where
  "PathCache_new directory =
     remember MountPath_root ROOT_INO directory
       \<lparr>by_path = [], by_ino = [], next_ino = ROOT_INO + 1\<rparr>"

definition pc_path :: "'kind PathCache \<Rightarrow> u64 \<Rightarrow> MountPath option" where
  "pc_path cache ino = map_get (by_ino cache) ino"

definition pc_entry :: "'kind PathCache \<Rightarrow> MountPath \<Rightarrow> (u64 \<times> 'kind) option" where
  "pc_entry cache path = map_get (by_path cache) path"

definition ensure :: "MountPath \<Rightarrow> 'kind \<Rightarrow> 'kind PathCache \<Rightarrow> u64 \<times> 'kind PathCache" where
  "ensure path kind cache =
     (case map_get (by_path cache) path of
        Some (ino, _) \<Rightarrow> (ino, cache\<lparr>by_path := map_insert path (ino, kind) (by_path cache)\<rparr>)
      | None \<Rightarrow>
          (let ino = next_ino cache in
             (ino, remember path ino kind (cache\<lparr>next_ino := next_ino cache + 1\<rparr>))))"

definition pc_remove :: "MountPath \<Rightarrow> 'kind PathCache \<Rightarrow> 'kind PathCache" where
  "pc_remove path cache =
     (case map_get (by_path cache) path of
        Some (ino, _) \<Rightarrow>
          cache\<lparr>by_path := map_remove path (by_path cache), by_ino := map_remove ino (by_ino cache)\<rparr>
      | None \<Rightarrow> cache)"

text \<open>Both bulk removals collect the inodes of the matching paths, retain the other paths and
  then remove the collected inodes.\<close>

definition remove_matching :: "(MountPath \<Rightarrow> bool) \<Rightarrow> 'kind PathCache \<Rightarrow> 'kind PathCache" where
  "remove_matching matches cache =
     (let removed = map (\<lambda>(_, (ino, _)). ino) (filter (\<lambda>(candidate, _). matches candidate) (by_path cache)) in
        cache\<lparr>by_path := map_retain (\<lambda>candidate _. \<not> matches candidate) (by_path cache),
              by_ino := foldl (\<lambda>m ino. map_remove ino m) (by_ino cache) removed\<rparr>)"

definition remove_recursive :: "MountPath \<Rightarrow> 'kind PathCache \<Rightarrow> 'kind PathCache" where
  "remove_recursive path cache =
     (if is_root path then
        (let root = map_get (by_path cache) MountPath_root;
             cleared = cache\<lparr>by_path := [], by_ino := []\<rparr> in
           case root of
             Some (ino, kind) \<Rightarrow> remember MountPath_root ino kind cleared
           | None \<Rightarrow> cleared)
      else remove_matching (\<lambda>candidate. is_self_or_descendant_of candidate path) cache)"

definition remove_descendants :: "MountPath \<Rightarrow> 'kind PathCache \<Rightarrow> 'kind PathCache" where
  "remove_descendants path cache =
     remove_matching
       (\<lambda>candidate. candidate \<noteq> MountPath_root \<and> is_descendant_of candidate path) cache"

text \<open>\<open>name\<close> is the result of \<open>OsStr::to_string_lossy\<close>.\<close>

definition child_path :: "'kind PathCache \<Rightarrow> u64 \<Rightarrow> string \<Rightarrow> MountPath option" where
  "child_path cache parent name =
     Option.bind (pc_path cache parent) (\<lambda>p. ok_of (join_child p name))"

definition pc_snapshot :: "'kind PathCache \<Rightarrow> (MountPath \<times> u64 \<times> 'kind) list" where
  "pc_snapshot cache = sort_key fst (by_path cache)"

section \<open>Invariant\<close>

definition maps_inv :: "(MountPath, u64 \<times> 'kind) rmap \<Rightarrow> (u64, MountPath) rmap \<Rightarrow> u64 \<Rightarrow> bool" where
  "maps_inv paths inos n \<longleftrightarrow>
     ordered paths \<and> ordered inos
     \<and> (\<forall>p i k. map_get paths p = Some (i, k) \<longrightarrow> map_get inos i = Some p)
     \<and> (\<forall>i p. map_get inos i = Some p \<longrightarrow> (\<exists>k. map_get paths p = Some (i, k)))
     \<and> (\<forall>i p. map_get inos i = Some p \<longrightarrow> 0 < i \<and> i < n)"

definition pc_inv :: "'kind PathCache \<Rightarrow> bool" where
  "pc_inv cache \<longleftrightarrow> maps_inv (by_path cache) (by_ino cache) (next_ino cache)"

lemma maps_invD:
  assumes "maps_inv paths inos n"
  shows "ordered paths" "ordered inos"
    "map_get paths p = Some (i, k) \<Longrightarrow> map_get inos i = Some p"
    "map_get inos i = Some p \<Longrightarrow> \<exists>k. map_get paths p = Some (i, k)"
    "map_get inos i = Some p \<Longrightarrow> 0 < i \<and> i < n"
  using assms unfolding maps_inv_def by blast+

lemmas pc_invD = maps_invD [OF pc_inv_def [THEN iffD1]]

lemma maps_inv_insert:
  assumes inv: "maps_inv paths inos n" and fresh: "map_get paths p = None" "map_get inos i = None"
    and i: "0 < i" "i < n"
  shows "maps_inv (map_insert p (i, k) paths) (map_insert i p inos) n"
  unfolding maps_inv_def
proof (intro conjI allI impI)
  show "ordered (map_insert p (i, k) paths)" "ordered (map_insert i p inos)"
    using maps_invD(1,2) [OF inv] by (simp_all add: om.ok_ins)
next
  fix q j l
  assume "map_get (map_insert p (i, k) paths) q = Some (j, l)"
  then show "map_get (map_insert i p inos) j = Some q"
    using maps_invD(3) [OF inv, of q j l] fresh(2) by (auto simp: om.get_ins split: if_splits)
next
  fix j q
  assume j: "map_get (map_insert i p inos) j = Some q"
  then show "\<exists>l. map_get (map_insert p (i, k) paths) q = Some (j, l)"
    using maps_invD(4) [OF inv, of j q] fresh(1) by (auto simp: om.get_ins split: if_splits)
  show "0 < j" "j < n"
    using j i maps_invD(5) [OF inv, of j q] by (auto simp: om.get_ins split: if_splits)
qed

lemma maps_inv_set_kind:
  assumes inv: "maps_inv paths inos n" and p: "map_get paths p = Some (i, k0)"
  shows "maps_inv (map_insert p (i, k) paths) inos n"
  unfolding maps_inv_def
proof (intro conjI allI impI)
  show "ordered (map_insert p (i, k) paths)" "ordered inos"
    using maps_invD(1,2) [OF inv] by (simp_all add: om.ok_ins)
next
  fix q j l
  assume "map_get (map_insert p (i, k) paths) q = Some (j, l)"
  then show "map_get inos j = Some q"
    using maps_invD(3) [OF inv, of q j l] maps_invD(3) [OF inv p]
    by (auto simp: om.get_ins split: if_splits)
next
  fix j q
  assume j: "map_get inos j = Some q"
  then show "\<exists>l. map_get (map_insert p (i, k) paths) q = Some (j, l)"
    using maps_invD(4) [OF inv, of j q] p by (auto simp: om.get_ins split: if_splits)
  show "0 < j" "j < n" using maps_invD(5) [OF inv j] by simp_all
qed

lemma maps_inv_remove:
  assumes inv: "maps_inv paths inos n" and p: "map_get paths p = Some (i, k)"
  shows "maps_inv (map_remove p paths) (map_remove i inos) n"
  unfolding maps_inv_def
proof (intro conjI allI impI)
  show "ordered (map_remove p paths)" "ordered (map_remove i inos)"
    using maps_invD(1,2) [OF inv] by (simp_all add: om.ok_del)
next
  fix q j l
  assume "map_get (map_remove p paths) q = Some (j, l)"
  then have q: "q \<noteq> p" "map_get paths q = Some (j, l)" by (auto simp: om.get_del split: if_splits)
  then have "j \<noteq> i" using maps_invD(3) [OF inv p] maps_invD(3) [OF inv q(2)] by auto
  then show "map_get (map_remove i inos) j = Some q"
    using maps_invD(3) [OF inv q(2)] by (simp add: om.get_del)
next
  fix j q
  assume "map_get (map_remove i inos) j = Some q"
  then have j: "j \<noteq> i" "map_get inos j = Some q" by (auto simp: om.get_del split: if_splits)
  then obtain l where l: "map_get paths q = Some (j, l)" using maps_invD(4) [OF inv] by blast
  then have "q \<noteq> p" using p j(1) by auto
  then show "\<exists>l. map_get (map_remove p paths) q = Some (j, l)" using l by (simp add: om.get_del)
  show "0 < j" "j < n" using maps_invD(5) [OF inv j(2)] by simp_all
qed

lemma maps_inv_mono: "maps_inv paths inos n \<Longrightarrow> n < n' \<Longrightarrow> maps_inv paths inos n'"
  unfolding maps_inv_def by (meson order.strict_trans)

lemma pc_inv_new: "pc_inv (PathCache_new d)"
  by (auto simp: pc_inv_def maps_inv_def PathCache_new_def remember_def om.get_ins ROOT_INO_def
      ordered_def map_get_def)

text \<open>Handing out the next number is safe until the counter wraps.\<close>

lemma less_next_ino:
  assumes "(n :: u64) \<noteq> - 1"
  shows "n < n + 1"
proof -
  have "saturating_add_one n = n + 1"
    using assms by (simp only: saturating_add_one_def if_False)
  then show ?thesis using less_saturating_add_one [OF assms] by (simp only:)
qed

lemma next_ino_fresh: "pc_inv cache \<Longrightarrow> map_get (by_ino cache) (next_ino cache) = None"
  using pc_invD(5) by (metis not_Some_eq order_less_irrefl)

lemma pc_inv_ensure:
  assumes inv: "pc_inv cache" and room: "next_ino cache \<noteq> - 1" "0 < next_ino cache"
  shows "pc_inv (snd (ensure p k cache))"
proof (cases "map_get (by_path cache) p")
  case None
  have "maps_inv (by_path cache) (by_ino cache) (next_ino cache + 1)"
    using inv less_next_ino [OF room(1)] maps_inv_mono unfolding pc_inv_def by blast
  from maps_inv_insert [OF this None next_ino_fresh [OF inv] room(2) less_next_ino [OF room(1)]]
  show ?thesis using None by (simp add: ensure_def Let_def remember_def pc_inv_def)
next
  case (Some e)
  then show ?thesis using inv maps_inv_set_kind
    by (cases e) (fastforce simp: ensure_def pc_inv_def)
qed

lemma remove_matching_lookup:
  assumes inv: "pc_inv cache"
  shows "map_get (by_path (remove_matching P cache)) p =
      (if P p then None else map_get (by_path cache) p)"
    and "map_get (by_ino (remove_matching P cache)) i =
      (case map_get (by_ino cache) i of Some p \<Rightarrow> if P p then None else Some p | None \<Rightarrow> None)"
proof -
  note ord = pc_invD(1,2) [OF inv]
  show "map_get (by_path (remove_matching P cache)) p =
      (if P p then None else map_get (by_path cache) p)"
    using ord(1) by (auto simp: remove_matching_def Let_def om.get_keep split: option.splits)
  let ?removed = "map (\<lambda>(_, (ino, _)). ino) (filter (\<lambda>(candidate, _). P candidate) (by_path cache))"
  have "i \<in> set ?removed \<longleftrightarrow> (\<exists>p k. map_get (by_path cache) p = Some (i, k) \<and> P p)"
    using map_get_member [OF ord(1)] by force
  also have "\<dots> \<longleftrightarrow> (\<exists>p. map_get (by_ino cache) i = Some p \<and> P p)"
    using pc_invD(3,4) [OF inv] by metis
  finally have removed: "i \<in> set ?removed \<longleftrightarrow> (\<exists>p. map_get (by_ino cache) i = Some p \<and> P p)" .
  have "map_get (by_ino (remove_matching P cache)) i =
      (if i \<in> set ?removed then None else map_get (by_ino cache) i)"
    using om.get_fold_del [of "by_ino cache" ?removed i] by (simp add: remove_matching_def Let_def)
  then show "map_get (by_ino (remove_matching P cache)) i =
      (case map_get (by_ino cache) i of Some p \<Rightarrow> if P p then None else Some p | None \<Rightarrow> None)"
    unfolding removed by (auto split: option.splits)
qed

lemma pc_inv_remove_matching:
  assumes inv: "pc_inv cache"
  shows "pc_inv (remove_matching P cache)"
proof -
  have "ordered (by_path (remove_matching P cache))" "ordered (by_ino (remove_matching P cache))"
    using pc_invD(1,2) [OF inv]
    by (simp_all add: remove_matching_def Let_def om.ok_keep om.ok_fold_del)
  moreover have "next_ino (remove_matching P cache) = next_ino cache"
    by (simp add: remove_matching_def Let_def)
  ultimately show ?thesis
    unfolding pc_inv_def maps_inv_def remove_matching_lookup [OF inv]
    using pc_invD(3,4,5) [OF inv]
    by (auto split: option.splits if_splits)
qed

lemma remove_recursive_root:
  assumes "is_root path"
  shows "remove_recursive path cache =
    (case map_get (by_path cache) MountPath_root of
       Some (ino, kind) \<Rightarrow> cache\<lparr>by_path := [(MountPath_root, (ino, kind))], by_ino := [(ino, MountPath_root)]\<rparr>
     | None \<Rightarrow> cache\<lparr>by_path := [], by_ino := []\<rparr>)"
  using assms by (auto simp: remove_recursive_def Let_def remember_def split: option.splits)

lemma pc_inv_remove_recursive:
  assumes inv: "pc_inv cache"
  shows "pc_inv (remove_recursive p cache)"
proof (cases "is_root p")
  case True
  have "0 < i \<and> i < next_ino cache" if "map_get (by_path cache) MountPath_root = Some (i, k)" for i k
    using pc_invD(3,5) [OF inv] that by blast
  then show ?thesis unfolding remove_recursive_root [OF True]
    by (auto simp: pc_inv_def maps_inv_def ordered_def map_get_def split: option.splits)
next
  case False
  then show ?thesis using pc_inv_remove_matching [OF inv] by (simp add: remove_recursive_def)
qed

lemma pc_inv_remove_descendants: "pc_inv cache \<Longrightarrow> pc_inv (remove_descendants p cache)"
  by (simp add: remove_descendants_def pc_inv_remove_matching)

lemma pc_inv_remove:
  assumes inv: "pc_inv cache"
  shows "pc_inv (pc_remove p cache)"
proof (cases "map_get (by_path cache) p")
  case (Some e)
  then show ?thesis using inv maps_inv_remove
    by (cases e) (fastforce simp: pc_remove_def pc_inv_def)
qed (simp add: pc_remove_def inv)

section \<open>The cache as a state machine\<close>

text \<open>One call of a mutating method. \<open>PathCache::ensure\<close> is a step as long as the inode counter
  is not about to wrap.\<close>

inductive pc_step :: "'kind PathCache \<Rightarrow> 'kind PathCache \<Rightarrow> bool" where
  step_ensure: "next_ino c \<noteq> - 1 \<Longrightarrow> pc_step c (snd (ensure p k c))"
| step_remove: "pc_step c (pc_remove p c)"
| step_recursive: "pc_step c (remove_recursive p c)"
| step_descendants: "pc_step c (remove_descendants p c)"

inductive pc_reachable :: "'kind PathCache \<Rightarrow> bool" where
  reach_new: "pc_reachable (PathCache_new d)"
| reach_step: "pc_reachable c \<Longrightarrow> pc_step c c' \<Longrightarrow> pc_reachable c'"

lemma next_ino_unchanged [simp]:
  "next_ino (pc_remove p c) = next_ino c" "next_ino (remove_recursive p c) = next_ino c"
  "next_ino (remove_descendants p c) = next_ino c"
  by (simp_all add: pc_remove_def remove_recursive_def remove_descendants_def remove_matching_def
      remember_def Let_def split: option.splits prod.splits)

lemma next_ino_ensure:
  "next_ino (snd (ensure p k c)) = (if pc_entry c p = None then next_ino c + 1 else next_ino c)"
  by (simp add: ensure_def remember_def pc_entry_def Let_def split: option.splits prod.splits)

lemma pc_step_next_ino: "pc_step c c' \<Longrightarrow> pc_inv c \<Longrightarrow> 0 < next_ino c \<Longrightarrow> next_ino c \<le> next_ino c'"
proof (induction rule: pc_step.induct)
  case (step_ensure c p k)
  then show ?case using less_next_ino [of "next_ino c"] by (auto simp: next_ino_ensure)
qed auto

lemma pc_reachable_inv: "pc_reachable c \<Longrightarrow> pc_inv c \<and> 0 < next_ino c"
proof (induction rule: pc_reachable.induct)
  case (reach_new d)
  show ?case using pc_inv_new by (simp add: PathCache_new_def remember_def ROOT_INO_def)
next
  case (reach_step c c')
  then have "0 < next_ino c'" using pc_step_next_ino [of c c'] by (auto intro: order.strict_trans2)
  moreover from reach_step.hyps(2) reach_step.IH have "pc_inv c'"
    by (cases rule: pc_step.cases)
      (auto intro: pc_inv_ensure pc_inv_remove pc_inv_remove_recursive pc_inv_remove_descendants)
  ultimately show ?case by simp
qed

section \<open>Properties\<close>

text \<open>C36: in every reachable cache the two maps are inverse to each other: a path has an inode if
  and only if the inode leads back to the path, so no two paths share an inode, and every
  inode handed out is below the counter.\<close>

theorem path_cache_maps_are_inverse:
  assumes "pc_reachable c"
  shows "(pc_path c i = Some p) = (\<exists>k. pc_entry c p = Some (i, k))
    \<and> (pc_path c i = Some p \<longrightarrow> 0 < i \<and> i < next_ino c)"
proof -
  have inv: "pc_inv c" using pc_reachable_inv [OF assms] by simp
  show ?thesis
    using pc_invD(3) [OF inv, of p i] pc_invD(4,5) [OF inv, of i p]
    unfolding pc_path_def pc_entry_def by blast
qed

theorem path_cache_maps_are_inverse_witness:
  "pc_path (snd (ensure ''/kv'' True (PathCache_new True))) 2 = Some ''/kv''
   \<and> 2 < next_ino (snd (ensure ''/kv'' True (PathCache_new True)))"
proof -
  let ?c = "snd (ensure ''/kv'' True (PathCache_new True))"
  have "next_ino (PathCache_new True) \<noteq> - 1"
    by (simp add: PathCache_new_def remember_def ROOT_INO_def)
  then have reach: "pc_reachable ?c"
    by (intro reach_step [OF reach_new [of True]] step_ensure)
  have "pc_entry ?c ''/kv'' = Some (2, True)"
    by (simp add: pc_entry_def ensure_def PathCache_new_def remember_def ROOT_INO_def
        MountPath_root_def map_get_def Let_def)
  then show ?thesis using path_cache_maps_are_inverse [OF reach, of 2 "''/kv''"] by blast
qed

text \<open>C31: \<open>ensure\<close> is stable and fresh. It answers the inode the path already has, without touching
  any other path; a new path gets an inode no path had; afterwards the path has the answered
  inode and the given kind, and every other lookup is unchanged.\<close>

lemma ensure_stable_and_fresh:
  assumes "pc_reachable c" "ensure p k c = (i, c')"
  shows "pc_entry c' p = Some (i, k)
    \<and> (\<forall>q. q \<noteq> p \<longrightarrow> pc_entry c' q = pc_entry c q)
    \<and> (\<forall>j k0. pc_entry c p = Some (j, k0) \<longrightarrow> i = j)
    \<and> (pc_entry c p = None \<longrightarrow> pc_path c i = None \<and> pc_path c' i = Some p)"
proof (cases "map_get (by_path c) p")
  case None
  have "map_get (by_ino c) (next_ino c) = None"
    using next_ino_fresh pc_reachable_inv [OF assms(1)] by blast
  with None assms(2) show ?thesis
    by (auto simp: ensure_def pc_entry_def pc_path_def remember_def Let_def om.get_ins)
next
  case (Some e)
  with assms(2) show ?thesis
    by (cases e) (auto simp: ensure_def pc_entry_def om.get_ins)
qed

text \<open>Recursive removal forgets exactly the paths at or below the given one, in both maps, but
  never the root: afterwards a lookup answers what it did before unless the path was removed.\<close>

lemma remove_recursive_effect:
  assumes "pc_reachable c" "wf_mount p"
  shows "pc_entry (remove_recursive p c) q =
      (if is_self_or_descendant_of q p \<and> q \<noteq> MountPath_root then None else pc_entry c q)"
proof (cases "is_root p")
  case True
  have "is_self_or_descendant_of q p"
    using True by (auto simp: is_self_or_descendant_of_def is_descendant_of_def is_root_def)
  then show ?thesis unfolding remove_recursive_root [OF True]
    by (auto simp: pc_entry_def map_get_def split: option.splits)
next
  case False
  have inv: "pc_inv c" using pc_reachable_inv [OF assms(1)] by simp
  have "\<not> is_self_or_descendant_of MountPath_root p"
  proof -
    obtain cs where cs: "clean cs" "p = mount_of cs" using assms(2) by (rule wf_mountE)
    then have "cs \<noteq> []" using False clean_not_root by blast
    then show ?thesis
      using is_self_or_descendant_components [OF cs(1), of "[]"] cs(2)
      by (simp add: MountPath_root_def)
  qed
  then show ?thesis
    using False remove_matching_lookup(1) [OF inv]
    by (auto simp: remove_recursive_def pc_entry_def)
qed

lemma remove_recursive_effect_example:
  "pc_entry (remove_recursive ''/kv'' (snd (ensure ''/kv/b'' True (PathCache_new True)))) ''/kv/b'' = None"
proof -
  have "next_ino (PathCache_new True) \<noteq> - 1"
    by (simp add: PathCache_new_def remember_def ROOT_INO_def)
  then have "pc_reachable (snd (ensure ''/kv/b'' True (PathCache_new True)))"
    by (intro reach_step [OF reach_new [of True]] step_ensure)
  moreover have "wf_mount ''/kv''" "is_self_or_descendant_of ''/kv/b'' ''/kv''" by code_simp+
  ultimately show ?thesis
    using remove_recursive_effect [of _ "''/kv''" "''/kv/b''"] by (simp add: MountPath_root_def)
qed

end
