(* ===== verification/Writeback_Durability.thy ===== *)
theory Writeback_Durability
  imports Writeback_Props
begin

text \<open>
  Reading the queue file back: a file written by \<open>persist_entries\<close> holds the entries it was given,
  a torn last record is dropped and a damaged complete record is an error. The contract
  \<open>replay_executor\<close> of a write executor makes a replay that is interrupted at any point safe to
  run again on what the disk holds.
\<close>

section \<open>The laws of the entry codec\<close>

text \<open>serde_json's compact printer puts an object on one line, in braces and in UTF-8, and its parser
  reads it back; whether an entry can be printed does not depend on its attempt count.\<close>

definition serde_roundtrip :: "Serde \<Rightarrow> bool" where
  "serde_roundtrip serde \<longleftrightarrow>
     (\<forall>e line. to_string serde e = Inr line \<longrightarrow>
        from_str serde line = Inr e \<and> newline \<notin> set line \<and> valid_utf8 line
        \<and> trim_str line \<noteq> [] \<and> \<not> ends_with [CHR 0x0D] line)
     \<and> (\<forall>e. is_ok (to_string serde e) \<longrightarrow> is_ok (to_string serde (bump_attempts e)))"

lemma serde_roundtripD:
  assumes "serde_roundtrip serde" "to_string serde e = Inr line"
  shows "from_str serde line = Inr e" "newline \<notin> set line" "valid_utf8 line" "trim_str line \<noteq> []"
    "\<not> ends_with [CHR 0x0D] line"
  using assms by (auto simp: serde_roundtrip_def)

lemma serde_roundtrip_bump:
  "serde_roundtrip serde \<Longrightarrow> is_ok (to_string serde e) \<Longrightarrow> is_ok (to_string serde (bump_attempts e))"
  by (simp add: serde_roundtrip_def)

lemma utf8_decode_append:
  "utf8_decode xs = Some us \<Longrightarrow> utf8_decode (xs @ ys) = map_option ((@) us) (utf8_decode ys)"
proof (induction xs arbitrary: us rule: utf8_decode.induct)
  case 1
  then show ?case by (simp add: option.map_ident)
next
  case (2 a r)
  then show ?case
    by (cases "utf8_decode ys") (auto split: if_splits list.splits)
qed

lemma valid_utf8_append: "valid_utf8 xs \<Longrightarrow> valid_utf8 (xs @ ys) \<longleftrightarrow> valid_utf8 ys"
  by (auto simp: valid_utf8_def utf8_decode_append)

lemma valid_utf8_Nil [simp]: "valid_utf8 []"
  by (simp add: valid_utf8_def)

lemma valid_utf8_newline [simp]: "valid_utf8 (newline # s) \<longleftrightarrow> valid_utf8 s"
  by (auto simp: valid_utf8_def newline_def)

lemma split_inclusive_line:
  "d \<notin> set xs \<Longrightarrow> split_inclusive d (xs @ d # ys) = (xs @ [d]) # split_inclusive d ys"
  by (induction xs) auto

lemma split_inclusive_last: "d \<notin> set xs \<Longrightarrow> split_inclusive d xs = (if xs = [] then [] else [xs])"
  by (induction xs) auto

lemma strip_line_ending_line:
  "\<not> ends_with [CHR 0x0D] line \<Longrightarrow> strip_line_ending (line @ [newline]) = line"
  by (auto simp: strip_line_ending_def strip_suffix_None_iff [symmetric])

lemma str_lines_Cons:
  "newline \<notin> set line \<Longrightarrow> \<not> ends_with [CHR 0x0D] line \<Longrightarrow>
    str_lines (line @ newline # rest) = line # str_lines rest"
  by (simp add: str_lines_def split_inclusive_line strip_line_ending_line)

text \<open>The part of the file before an arbitrary tail.\<close>

lemma serialized_prefix:
  assumes "serde_roundtrip serde" "serialize_entries serde es = Inr content"
  shows "valid_utf8 (content @ tail) \<longleftrightarrow> valid_utf8 tail"
    and "\<exists>lines. str_lines (content @ tail) = lines @ str_lines tail \<and> length lines = length es
      \<and> (\<forall>n nl i. read_loop serde n nl i (lines @ str_lines tail) =
            map_ok ((@) es) (read_loop serde n nl (i + length es) (str_lines tail)))"
proof -
  have "(valid_utf8 (content @ tail) \<longleftrightarrow> valid_utf8 tail) \<and>
    (\<exists>lines. str_lines (content @ tail) = lines @ str_lines tail \<and> length lines = length es
      \<and> (\<forall>n nl i. read_loop serde n nl i (lines @ str_lines tail) =
            map_ok ((@) es) (read_loop serde n nl (i + length es) (str_lines tail))))"
    using assms(2)
  proof (induction es arbitrary: content)
    case Nil
    have "map_ok (\<lambda>a. a) r = r" for r :: "TransportError + QueueEntry list" by (cases r) simp_all
    with Nil show ?case by simp
  next
    case (Cons e es)
    obtain line rest where l: "to_string serde e = Inr line" "serialize_entries serde es = Inr rest"
      "content = line @ newline # rest" using Cons.prems by (auto simp: serialize_Cons)
    note laws = serde_roundtripD [OF assms(1) l(1)]
    obtain lines where "str_lines (rest @ tail) = lines @ str_lines tail" "length lines = length es"
      "\<And>n nl i. read_loop serde n nl i (lines @ str_lines tail) =
            map_ok ((@) es) (read_loop serde n nl (i + length es) (str_lines tail))"
      and v: "valid_utf8 (rest @ tail) \<longleftrightarrow> valid_utf8 tail" using Cons.IH [OF l(2)] by blast
    moreover have "rbind (map_ok ((@) es) r) (\<lambda>entries. Inr (e # entries)) = map_ok ((@) (e # es)) r"
      for r :: "TransportError + QueueEntry list" by (cases r) simp_all
    ultimately have "str_lines (content @ tail) = (line # lines) @ str_lines tail
      \<and> length (line # lines) = length (e # es)
      \<and> (\<forall>n nl i. read_loop serde n nl i ((line # lines) @ str_lines tail) =
            map_ok ((@) (e # es)) (read_loop serde n nl (i + length (e # es)) (str_lines tail)))"
      using laws by (simp add: l(3) str_lines_Cons)
    moreover have "valid_utf8 (content @ tail) \<longleftrightarrow> valid_utf8 tail"
      using laws v by (simp add: l(3) valid_utf8_append)
    ultimately show ?case by blast
  qed
  then show "valid_utf8 (content @ tail) \<longleftrightarrow> valid_utf8 tail"
    "\<exists>lines. str_lines (content @ tail) = lines @ str_lines tail \<and> length lines = length es
      \<and> (\<forall>n nl i. read_loop serde n nl i (lines @ str_lines tail) =
            map_ok ((@) es) (read_loop serde n nl (i + length es) (str_lines tail)))" by blast+
qed

lemma read_entries_serialized:
  assumes "serde_roundtrip serde" "serialize_entries serde es = Inr content"
  shows "read_entries serde content = Inr es"
  using serialized_prefix [OF assms, of "[]"]
  by (auto simp: read_entries_def Let_def str_lines_def)

text \<open>What follows the last complete record.\<close>

lemma read_entries_tail:
  assumes "serde_roundtrip serde" "serialize_entries serde es = Inr content"
    and "newline \<notin> set tail" "tail \<noteq> []" "valid_utf8 tail" "trim_str tail \<noteq> []"
  shows "read_entries serde (content @ tail) =
    (case from_str serde tail of Inr e \<Rightarrow> Inr (es @ [e])
     | Inl (eof, msg) \<Rightarrow> if eof then Inr es else Inl (Json_Error msg))"
proof -
  have "strip_suffix [newline] tail = None" using assms(3) by (auto simp: strip_suffix_None_iff ends_with_iff)
  then have t: "str_lines tail = [tail]"
    using assms(3,4) by (simp add: str_lines_def split_inclusive_last strip_line_ending_def)
  have "\<not> ends_with [newline] (content @ tail)"
    using assms(3,4) by (auto simp: ends_with_iff append_eq_append_conv2 Cons_eq_append_conv append_eq_Cons_conv)
  then show ?thesis
    using serialized_prefix [OF assms(1,2), of tail] assms(5,6) t
    by (auto simp: read_entries_def Let_def is_torn_final_record_def split: sum.splits)
qed

lemma read_entries_damaged:
  assumes "serde_roundtrip serde" "serialize_entries serde es = Inr content"
    and "newline \<notin> set line" "valid_utf8 line" "\<not> ends_with [CHR 0x0D] line" "trim_str line \<noteq> []"
    and "from_str serde line = Inl (eof, msg)" "ends_with [newline] rest \<or> rest = []" "valid_utf8 rest"
  shows "read_entries serde (content @ line @ newline # rest) = Inl (Json_Error msg)"
proof -
  have "ends_with [newline] (content @ line @ newline # rest)"
    using assms(8) by (auto simp: ends_with_iff)
  then show ?thesis
    using serialized_prefix [OF assms(1,2), of "line @ newline # rest"] assms(3-9)
    by (auto simp: read_entries_def Let_def valid_utf8_append str_lines_Cons is_torn_final_record_def)
qed

section \<open>Replaying again after an interruption\<close>

text \<open>What replay needs of a write executor: the check reads only, neither it nor the execution
  looks at the attempt count, and an entry that was executed is seen as applied.\<close>

locale replay_executor =
  fixes ex :: "'s WriteExecutor"
  assumes applied_pure: "is_applied ex e s = (r, s') \<Longrightarrow> s' = s"
    and applied_bump: "is_applied ex (bump_attempts e) s = is_applied ex e s"
    and execute_bump: "execute ex (bump_attempts e) s = execute ex e s"
    and execute_applies: "execute ex e s = (Inr (), s') \<Longrightarrow> is_applied ex e s' = (Inr True, s')"

text \<open>The disk holds entries that lead the backend from \<open>s\<close> to \<open>t\<close>.\<close>

definition resumable :: "Serde \<Rightarrow> 's WriteExecutor \<Rightarrow> Disk \<Rightarrow> 's \<Rightarrow> 's \<Rightarrow> bool" where
  "resumable serde ex d s t \<longleftrightarrow> (\<exists>es. on_disk serde d es \<and> run_entries ex es s = Some t)"

lemma on_disk_cong: "d_file d' = d_file d \<Longrightarrow> on_disk serde d' es = on_disk serde d es"
  by (simp add: on_disk_def)

text \<open>After a replacement the disk holds the old or the new entries.\<close>

lemma replace_resumable:
  assumes "replace_entries serde es' q d = (r, q', d')" "on_disk serde d es"
    and "run_entries ex es s = Some t" "run_entries ex es' s = Some t"
  shows "resumable serde ex d' s t"
  using assms(1)
proof (cases rule: replace_entries_cases)
  case (old err)
  then show ?thesis using assms(2,3) on_disk_cong [OF old(3)] by (auto simp: resumable_def)
qed (use assms(4) in \<open>auto simp: resumable_def\<close>)

context replay_executor
begin

lemma run_bump: "run_entries ex (bump_attempts e # es) s = run_entries ex (e # es) s"
  by (auto simp: applied_bump execute_bump split: prod.splits sum.splits bool.splits)

lemma run_executed:
  assumes "execute ex (bump_attempts e) s = (Inr (), s')"
  shows "run_entries ex (e # es) s' = run_entries ex es s'"
    and "run_entries ex (bump_attempts e # es) s' = run_entries ex es s'"
  using execute_applies [OF assms] by (simp_all add: applied_bump)

lemma replay_loop_resumable:
  assumes "replay_loop serde ex es q d s = (r, q', d', s')" "wq_entries q = es"
    and "on_disk serde d es" "run_entries ex es s = Some t"
  shows "resumable serde ex d' s' t \<and> run_entries ex (wq_entries q') s' = Some t"
  using assms
proof (induction es arbitrary: q d s)
  case Nil
  then show ?case by (auto simp: resumable_def)
next
  case (Cons e rest)
  note run = Cons.prems(4)
  from Cons.prems(1) show ?case
  proof (cases rule: replay_round_cases)
    case (dropped s1 q1 d1)
    have s1: "s1 = s" using dropped(1) applied_pure by blast
    have "run_entries ex rest s = Some t" using run dropped(1) s1 by auto
    then show ?thesis
      using Cons.IH [OF dropped(3)] replace_entries_entries [OF dropped(2)] dropped(2) s1
      by (auto elim: replace_entries_cases)
  next
    case (drop_failed err)
    have s1: "s' = s" using drop_failed(1) applied_pure by blast
    then have "run_entries ex rest s = Some t" using run drop_failed(1) by auto
    then show ?thesis
      using replace_resumable [OF drop_failed(2) Cons.prems(3) run] s1
        replace_entries_entries [OF drop_failed(2)] drop_failed(3) run Cons.prems(2) by simp
  next
    case (check_failed err)
    then show ?thesis using run by simp
  next
    case (bump_failed err)
    have s1: "s' = s" using bump_failed(2) applied_pure by blast
    then show ?thesis
      using replace_resumable [OF bump_failed(4) Cons.prems(3) run] run
        replace_entries_entries [OF bump_failed(4)] bump_failed(3) Cons.prems(2)
      by (simp add: run_bump del: run_entries.simps)
  next
    case (execute_failed err s1 q1 d1 s2 x refreshed)
    then show ?thesis using run by simp
  next
    case (executed s1 q1 d1 s2 r2 q2 d2)
    have rest: "run_entries ex rest s2 = Some t" using run executed(1,2,4) by simp
    have disk: "on_disk serde d1 (bump_attempts e # rest)" and q1: "wq_entries q1 = bump_attempts e # rest"
      using executed(3) by (auto elim: replace_entries_cases)
    show ?thesis
    proof (cases r2)
      case (Inl err)
      then show ?thesis
        using replace_resumable [OF executed(5) disk, of ex s2 t] replace_entries_entries [OF executed(5)]
          executed(6) rest run_executed(2) [OF executed(4)] q1 by (simp del: run_entries.simps)
    next
      case (Inr u)
      then have "on_disk serde d2 rest" "wq_entries q2 = rest"
        using executed(5) by (auto elim: replace_entries_cases)
      then show ?thesis using Cons.IH [of q2 d2 s2] executed(6) Inr rest by simp
    qed
  qed
qed

end

text \<open>A process that opens the queue and replays it, with saves failing anywhere. A process killed
  between two calls leaves what a process leaves whose next save fails, before the rename or
  after it, so these steps cover it.\<close>

inductive crash_step :: "Serde \<Rightarrow> 's WriteExecutor \<Rightarrow> Disk \<times> 's \<Rightarrow> Disk \<times> 's \<Rightarrow> bool"
  for serde :: Serde and ex :: "'s WriteExecutor" where
  open_failed:
    "queue_open serde dir open_error cap (d\<lparr>d_locked := False, d_faults := faults\<rparr>) = (Inl err, d') \<Longrightarrow>
      crash_step serde ex (d, s) (d', s)"
| replayed:
    "queue_open serde dir open_error cap (d\<lparr>d_locked := False, d_faults := faults\<rparr>) = (Inr q, d1) \<Longrightarrow>
      replay serde ex q d1 s = (r, q', d', s') \<Longrightarrow>
      crash_step serde ex (d, s) (d', s')"

inductive_cases crash_stepE: "crash_step serde ex (d, s) (d', s')"

lemma run_entries_pending: "run_entries ex (filter (\<lambda>e. \<not> qe_done e) es) s = run_entries ex es s"
  by (induction ex es s rule: run_entries.induct) (auto split: prod.splits sum.splits bool.splits)

lemma queue_open_on_disk:
  assumes "serde_roundtrip serde" "on_disk serde d es" "run_entries ex es s = Some t"
    and "queue_open serde dir open_error cap d = (r, d')"
  shows "resumable serde ex d' s t"
    and "r = Inr q \<Longrightarrow> wq_entries q = filter (\<lambda>e. \<not> qe_done e) es \<and> wq_capacity q = cap
      \<and> on_disk serde d' (wq_entries q)"
proof -
  let ?kept = "filter (\<lambda>e. \<not> qe_done e) es"
  obtain content where c: "serialize_entries serde es = Inr content" "d_file d = Some content"
    using assms(2) by (auto simp: on_disk_def)
  have read: "read_entries serde content = Inr es" by (rule read_entries_serialized [OF assms(1) c(1)])
  have kept: "?kept = es" if "length ?kept = length es" using that by (metis filter_True length_filter_less less_irrefl)
  have stay: "resumable serde ex d1 s t" if "d_file d1 = d_file d" for d1
    using assms(2,3) on_disk_cong [OF that] by (auto simp: resumable_def)
  have "resumable serde ex d' s t \<and> (r = Inr q \<longrightarrow> wq_entries q = ?kept \<and> wq_capacity q = cap
      \<and> on_disk serde d' (wq_entries q))"
  proof (cases "open_error = None \<and> \<not> d_locked d \<and> length ?kept \<noteq> length es")
    case True
    obtain pr pd where p: "persist_entries serde ?kept d = (pr, pd)" by fastforce
    have d': "d_file d' = d_file pd" "r = Inr q \<longrightarrow> pr = Inr () \<and> q = \<lparr>wq_capacity = cap, wq_entries = ?kept\<rparr>"
      using assms(4) True c(2) read p
      by (auto simp: queue_open_def compact_completed_entries_def Let_def split: sum.splits)
    have new: "resumable serde ex d' s t \<and> on_disk serde d' ?kept" if "on_disk serde pd ?kept"
      using that on_disk_cong [OF d'(1)] assms(3) run_entries_pending [of ex es s]
      unfolding resumable_def by metis
    from p show ?thesis
    proof (cases rule: persist_cases)
      case (old err)
      then show ?thesis using d' stay [of d'] by simp
    qed (use d' new in auto)
  next
    case False
    then have "d_file d' = d_file d"
      "r = Inr q \<longrightarrow> q = \<lparr>wq_capacity = cap, wq_entries = ?kept\<rparr> \<and> ?kept = es"
      using assms(4) c(2) read kept
      by (auto simp: queue_open_def compact_completed_entries_def Let_def split: option.splits if_splits)
    then show ?thesis using stay [of d'] assms(2) on_disk_cong [of d' d serde es] by auto
  qed
  then show "resumable serde ex d' s t"
    "r = Inr q \<Longrightarrow> wq_entries q = filter (\<lambda>e. \<not> qe_done e) es \<and> wq_capacity q = cap
      \<and> on_disk serde d' (wq_entries q)" by blast+
qed

lemma on_disk_printable: "on_disk serde d es \<Longrightarrow> e \<in> set es \<Longrightarrow> is_ok (to_string serde e)"
proof -
  have "serialize_entries serde es = Inr c \<Longrightarrow> e \<in> set es \<Longrightarrow> is_ok (to_string serde e)" for c
    by (induction es arbitrary: c) (auto simp: serialize_Cons)
  then show "on_disk serde d es \<Longrightarrow> e \<in> set es \<Longrightarrow> is_ok (to_string serde e)"
    by (auto simp: on_disk_def)
qed

text \<open>Opening and replaying without a fault brings the backend to \<open>t\<close> and empties the queue.\<close>

lemma open_replay_finishes:
  assumes "serde_roundtrip serde" "resumable serde ex d s t"
  shows "\<exists>q d1 d'. queue_open serde dir None cap (d\<lparr>d_locked := False, d_faults := []\<rparr>) = (Inr q, d1)
    \<and> replay serde ex q d1 s = (Inr (), q\<lparr>wq_entries := []\<rparr>, d', t)"
proof -
  let ?d = "d\<lparr>d_locked := False, d_faults := []\<rparr>"
  obtain es where es: "on_disk serde d es" "run_entries ex es s = Some t"
    using assms(2) by (auto simp: resumable_def)
  let ?kept = "filter (\<lambda>e. \<not> qe_done e) es"
  have disk: "on_disk serde ?d es" using es(1) by (simp add: on_disk_def)
  obtain content where c: "serialize_entries serde es = Inr content" "d_file d = Some content"
    using es(1) by (auto simp: on_disk_def)
  have "\<exists>k. serialize_entries serde xs = Inr k" if "\<And>e. e \<in> set xs \<Longrightarrow> is_ok (to_string serde e)" for xs
    using that serialize_printable [of xs serde] by blast
  then obtain k where k: "serialize_entries serde ?kept = Inr k"
    using on_disk_printable [OF es(1)] by (meson filter_is_subset subsetD)
  obtain q d1 where opened: "queue_open serde dir None cap ?d = (Inr q, d1)" "d_faults d1 = []"
    using read_entries_serialized [OF assms(1) c(1)] c(2) k
    by (cases "length ?kept = length es")
      (auto simp: queue_open_def compact_completed_entries_def Let_def persist_no_faults)
  have q: "wq_entries q = ?kept"
    using queue_open_on_disk(2) [OF assms(1) disk es(2) opened(1)] by blast
  have "run_entries ex ?kept s = Some t" using es(2) by (simp add: run_entries_pending)
  moreover have "is_ok (to_string serde e) \<and> is_ok (to_string serde (bump_attempts e))" if "e \<in> set ?kept" for e
    using that on_disk_printable [OF es(1)] serde_roundtrip_bump [OF assms(1)] by auto
  ultimately show ?thesis
    using replay_no_faults [OF opened(2) _ q, of ex s t serde] opened(1) q by (auto simp: replay_def)
qed

context replay_executor
begin

lemma crash_step_resumable:
  assumes "serde_roundtrip serde" "crash_step serde ex (d, s) (d', s')" "resumable serde ex d s t"
  shows "resumable serde ex d' s' t"
proof -
  obtain es where es: "on_disk serde d es" "run_entries ex es s = Some t"
    using assms(3) by (auto simp: resumable_def)
  have disk: "on_disk serde (d\<lparr>d_locked := False, d_faults := faults\<rparr>) es" for faults
    using es(1) by (simp add: on_disk_def)
  from assms(2) show ?thesis
  proof (rule crash_stepE)
    fix dir open_error cap faults err
    assume "s' = s"
      "queue_open serde dir open_error cap (d\<lparr>d_locked := False, d_faults := faults\<rparr>) = (Inl err, d')"
    then show ?thesis using queue_open_on_disk(1) [OF assms(1) disk es(2)] by simp
  next
    fix dir open_error cap faults q d1 r q'
    assume 2: "queue_open serde dir open_error cap (d\<lparr>d_locked := False, d_faults := faults\<rparr>) = (Inr q, d1)"
      "replay serde ex q d1 s = (r, q', d', s')"
    from queue_open_on_disk(2) [OF assms(1) disk es(2) 2(1)]
    have q: "wq_entries q = filter (\<lambda>e. \<not> qe_done e) es" "on_disk serde d1 (wq_entries q)" by auto
    then show ?thesis
      using replay_loop_resumable [OF 2(2) [unfolded replay_def] refl q(2)] es(2)
      by (simp add: run_entries_pending)
  qed
qed

lemma crash_steps_resumable:
  assumes "serde_roundtrip serde" "(crash_step serde ex)\<^sup>*\<^sup>* (d, s) (d', s')" "resumable serde ex d s t"
  shows "resumable serde ex d' s' t"
  using assms(2,3)
  by (induction rule: rtranclp_induct2) (auto intro: crash_step_resumable [OF assms(1)])

lemma crash_steps_finish:
  assumes "serde_roundtrip serde" "on_disk serde d es" "run_entries ex es s = Some t"
    and "(crash_step serde ex)\<^sup>*\<^sup>* (d, s) (d', s')"
  shows "\<exists>q d1 d2. queue_open serde dir None cap (d'\<lparr>d_locked := False, d_faults := []\<rparr>) = (Inr q, d1)
    \<and> replay serde ex q d1 s' = (Inr (), q\<lparr>wq_entries := []\<rparr>, d2, t)"
  using assms(2,3)
  by (intro open_replay_finishes [OF assms(1)] crash_steps_resumable [OF assms(1,4)])
    (auto simp: resumable_def)

end

section \<open>Executors that simulate each other\<close>

text \<open>\<open>ax\<close> does on the abstraction \<open>abs s\<close> what \<open>ex\<close> does on \<open>s\<close>. Then so do whole replays and
  interrupted processes.\<close>

locale replay_simulation =
  fixes ex :: "'s WriteExecutor" and ax :: "'t WriteExecutor" and abs :: "'s \<Rightarrow> 't"
  assumes applied_sim: "is_applied ax e (abs s) = map_prod id abs (is_applied ex e s)"
    and refresh_sim: "refresh_after_failed_execute ax e (abs s) = map_prod id (map_prod id abs) (refresh_after_failed_execute ex e s)"
    and execute_sim: "execute ax e (abs s) = map_prod id abs (execute ex e s)"
begin

lemma run_entries_sim: "run_entries ax es (abs s) = map_option abs (run_entries ex es s)"
proof (induction es arbitrary: s)
  case (Cons e es)
  then show ?case
    by (cases "is_applied ex e s"; cases "execute ex (bump_attempts e) (snd (is_applied ex e s))")
      (auto simp: applied_sim execute_sim split: sum.splits bool.splits)
qed simp

lemma replay_loop_sim:
  "replay_loop serde ax es q d (abs s) = map_prod id (map_prod id (map_prod id abs)) (replay_loop serde ex es q d s)"
proof (induction es arbitrary: q d s)
  case (Cons e es)
  obtain ra sa where a: "is_applied ex e s = (ra, sa)" by fastforce
  obtain rx sx where x: "execute ex (bump_attempts e) sa = (rx, sx)" by fastforce
  obtain rr er sr where r: "refresh_after_failed_execute ex (bump_attempts e) sx = (rr, er, sr)" by (metis prod_cases3)
  show ?case
    by (auto simp: a x r applied_sim execute_sim refresh_sim Cons.IH split: prod.splits sum.splits bool.splits)
qed simp

lemma crash_step_sim: "crash_step serde ex (d, s) (d', s') \<Longrightarrow> crash_step serde ax (d, abs s) (d', abs s')"
  by (erule crash_stepE)
    (auto simp: replay_def replay_loop_sim intro: crash_step.open_failed crash_step.replayed [unfolded replay_def])

end

section \<open>A codec for one entry\<close>

text \<open>An instance of the codec for the witnesses: it prints one entry, by its attempt count.\<close>

definition sample_serde :: "QueueEntry \<Rightarrow> Serde" where
  "sample_serde e0 =
     \<lparr>to_string = (\<lambda>e. if e = e0\<lparr>qe_attempts := qe_attempts e\<rparr>
                       then Inr (''{'' @ show_nat (unat (qe_attempts e)) @ ''}'') else Inl ''unsupported''),
      from_str = (\<lambda>line. case (strip_prefix ''{'' line) of
                     None \<Rightarrow> Inl (False, ''expected value'')
                   | Some r \<Rightarrow> (case strip_suffix ''}'' r of
                       None \<Rightarrow> Inl (True, ''EOF'')
                     | Some digits \<Rightarrow> (case parse_digits 0 digits of
                         None \<Rightarrow> Inl (False, ''invalid number'')
                       | Some n \<Rightarrow> Inr (e0\<lparr>qe_attempts := word_of_nat n\<rparr>))))\<rparr>"

lemma trim_str_not_Nil:
  assumes "valid_utf8 s" "c \<in> set s" "of_char c < (128 :: nat)" "\<not> is_whitespace (of_char c)"
  shows "trim_str s \<noteq> []"
proof -
  have c: "of_char c \<in> set (chars s)" using chars_ascii_member [OF assms(1-3)] .
  then have "of_char c \<in> set (dropWhile is_whitespace (chars s))"
    using assms(4) by (metis takeWhile_dropWhile_id Un_iff set_append set_takeWhileD)
  then have "trim_end is_whitespace (dropWhile is_whitespace (chars s)) \<noteq> []"
    using assms(4) by (auto simp: trim_end_def)
  moreover have "utf8_encode u \<noteq> []" for u by (simp add: utf8_encode_def)
  ultimately show ?thesis
    by (cases "trim_end is_whitespace (dropWhile is_whitespace (chars s))") (auto simp: trim_str_def)
qed

lemma sample_line:
  fixes n :: nat
  defines "line \<equiv> ''{'' @ show_nat n @ ''}''"
  shows "newline \<notin> set line" "valid_utf8 line" "trim_str line \<noteq> []" "\<not> ends_with [CHR 0x0D] line"
proof -
  have ascii: "of_char c < (128 :: nat) \<and> c \<noteq> newline \<and> c \<noteq> CHR 0x0D" if "c \<in> set line" for c
    using that show_nat_digits [of c n] by (auto simp: line_def newline_def is_ascii_digit_def)
  then show "newline \<notin> set line" "valid_utf8 line" by (auto intro: valid_utf8_ascii)
  then show "trim_str line \<noteq> []"
    by (intro trim_str_not_Nil [of _ "CHR ''{''"]) (auto simp: line_def is_whitespace_def)
  show "\<not> ends_with [CHR 0x0D] line" by (auto simp: ends_with_iff line_def)
qed

lemma sample_serde_roundtrip: "serde_roundtrip (sample_serde e0)"
proof -
  have "from_str (sample_serde e0) line = Inr e" if "to_string (sample_serde e0) e = Inr line" for e line
  proof -
    have e: "e = e0\<lparr>qe_attempts := qe_attempts e\<rparr>" and line: "line = ''{'' @ show_nat (unat (qe_attempts e)) @ ''}''"
      using that by (auto simp: sample_serde_def split: if_splits)
    have "unat (qe_attempts e) < 2 ^ 64" using unsigned_less [of "qe_attempts e", where 'a = nat] by simp
    then have "parse_digits 0 (show_nat (unat (qe_attempts e))) = Some (unat (qe_attempts e))"
      by (rule parse_digits_show_nat)
    then show ?thesis using e by (simp add: sample_serde_def line strip_prefix_def)
  qed
  moreover have "\<exists>n. line = ''{'' @ show_nat n @ ''}''" if "to_string (sample_serde e0) e = Inr line" for e line
    using that by (auto simp: sample_serde_def split: if_splits)
  moreover have "is_ok (to_string (sample_serde e0) (bump_attempts e))" if ok: "is_ok (to_string (sample_serde e0) e)" for e
  proof -
    have "e = e0\<lparr>qe_attempts := qe_attempts e\<rparr>" using ok by (auto simp: sample_serde_def split: if_splits)
    then have "bump_attempts e = e0\<lparr>qe_attempts := qe_attempts (bump_attempts e)\<rparr>"
      by (metis (no_types, lifting) QueueEntry.cases QueueEntry.select_convs(4) QueueEntry.update_convs(4) bump_attempts_def)
    then show ?thesis by (simp add: sample_serde_def)
  qed
  ultimately show ?thesis unfolding serde_roundtrip_def using sample_line by metis
qed

definition sample_entry :: QueueEntry where
  "sample_entry =
     \<lparr>qe_idempotency_key = ''w1'', qe_version = VersionStamp_at 0,
      qe_operation = QueueOperation.KvPut ''b'' ''k'' [1], qe_attempts = 0, qe_done = False\<rparr>"

lemma digit_char_0: "digit_char 0 = CHR ''0''"
  by (simp add: digit_char_def char_of_def bit_Suc bit_0)

lemma sample_serialized: "serialize_entries (sample_serde sample_entry) [sample_entry] = Inr (''{0}'' @ [newline])"
  by (simp add: serialize_entries_def sample_serde_def sample_entry_def show_nat.simps digit_char_0)

section \<open>Properties\<close>

text \<open>C18: The queue file survives a restart: a process that opens a file another one saved, with
  the lock free and no failing save, gets exactly the saved entries that are not finished, holds
  the lock, and the file again holds the queue.\<close>

theorem reopen_restores_the_queue:
  assumes "serde_roundtrip serde" "on_disk serde d es" "\<not> d_locked d" "d_faults d = []"
  shows "\<exists>d'. queue_open serde dir None cap d =
      (Inr \<lparr>wq_capacity = cap, wq_entries = filter (\<lambda>e. \<not> qe_done e) es\<rparr>, d')
    \<and> d_locked d' \<and> on_disk serde d' (filter (\<lambda>e. \<not> qe_done e) es)
    \<and> queue_open serde dir None cap d' = (Inl (QueueLocked (dir @ ''/writeback.lock'')), d')"
proof -
  let ?kept = "filter (\<lambda>e. \<not> qe_done e) es"
  obtain content where c: "serialize_entries serde es = Inr content" "d_file d = Some content"
    using assms(2) by (auto simp: on_disk_def)
  obtain k where k: "serialize_entries serde ?kept = Inr k"
    using serialize_printable [of ?kept serde] on_disk_printable [OF assms(2)] by auto
  have kept: "?kept = es" if "length ?kept = length es"
    using that by (metis filter_True length_filter_less less_irrefl)
  have "\<exists>d'. queue_open serde dir None cap d = (Inr \<lparr>wq_capacity = cap, wq_entries = ?kept\<rparr>, d') \<and> d_locked d'
      \<and> on_disk serde d' ?kept"
    using read_entries_serialized [OF assms(1) c(1)] c k assms(3,4) kept
    by (cases "length ?kept = length es")
      (auto simp: queue_open_def compact_completed_entries_def Let_def persist_no_faults on_disk_def)
  then show ?thesis by (auto simp: queue_open_def)
qed

theorem reopen_restores_the_queue_witness:
  "\<exists>d'. queue_open (sample_serde sample_entry) ''q'' None 4
      \<lparr>d_file = Some (''{0}'' @ [newline]), d_locked = False, d_faults = []\<rparr> =
    (Inr \<lparr>wq_capacity = 4, wq_entries = [sample_entry]\<rparr>, d')"
proof -
  have "on_disk (sample_serde sample_entry)
      \<lparr>d_file = Some (''{0}'' @ [newline]), d_locked = False, d_faults = []\<rparr> [sample_entry]"
    by (simp add: on_disk_def sample_serialized)
  from reopen_restores_the_queue [OF sample_serde_roundtrip this, of "''q''" 4] show ?thesis
    by (auto simp: sample_entry_def)
qed

text \<open>C19: A file whose last record was cut short, with no newline after it, opens with the complete
  records before it; a record that is complete on its line but damaged is never skipped: the
  file is refused with the parser's error, whatever complete records follow.\<close>

theorem torn_record_dropped_damaged_refused:
  assumes "serde_roundtrip serde" "serialize_entries serde es = Inr content"
    and "newline \<notin> set line" "valid_utf8 line" "trim_str line \<noteq> []" "\<not> ends_with [CHR 0x0D] line"
    and "from_str serde line = Inl (eof, msg)" "serialize_entries serde es' = Inr rest"
  shows "read_entries serde (content @ line) = (if eof then Inr es else Inl (Json_Error msg))
    \<and> read_entries serde (content @ line @ newline # rest) = Inl (Json_Error msg)"
proof -
  have "line \<noteq> []" using assms(5) by (auto simp: trim_str_def chars_def trim_end_def)
  moreover have "valid_utf8 rest" using serialized_prefix(1) [OF assms(1,8), of "[]"] by simp
  moreover have "ends_with [newline] rest \<or> rest = []"
    using assms(8)
  proof (induction es' arbitrary: rest)
    case (Cons e es')
    then obtain l r where "serialize_entries serde es' = Inr r" "rest = l @ newline # r"
      by (auto simp: serialize_Cons)
    then show ?case using Cons.IH [of r] by (auto simp: ends_with_iff)
  qed simp
  ultimately show ?thesis
    using read_entries_tail [OF assms(1,2,3) _ assms(4,5)] assms(7)
      read_entries_damaged [OF assms(1-4,6,5,7)] by auto
qed

theorem torn_record_dropped_damaged_refused_witness:
  "read_entries (sample_serde sample_entry) (''{0}'' @ [newline] @ ''{1'') = Inr [sample_entry]
    \<and> read_entries (sample_serde sample_entry) (''{0}'' @ [newline] @ ''{1'' @ [newline] @ ''{0}'' @ [newline]) =
        Inl (Json_Error ''EOF'')"
proof -
  have ascii: "of_char c < (128 :: nat)" if "c \<in> set ''{1''" for c using that by auto
  have valid: "valid_utf8 ''{1''" by (rule valid_utf8_ascii [OF ascii])
  have "trim_str ''{1'' \<noteq> []" by (rule trim_str_not_Nil [OF valid, of "CHR ''{''"]) (simp_all add: is_whitespace_def)
  moreover have "\<not> ends_with [CHR 0x0D] ''{1''" "newline \<notin> set ''{1''" by (simp_all add: ends_with_def newline_def)
  moreover have "from_str (sample_serde sample_entry) ''{1'' = Inl (True, ''EOF'')"
    by (simp add: sample_serde_def strip_prefix_def strip_suffix_def)
  ultimately show ?thesis
    using torn_record_dropped_damaged_refused [OF sample_serde_roundtrip sample_serialized _ valid _ _ _ sample_serialized,
      of True "''EOF''"] by simp
qed

end
