(* ===== verification/Memory_Time.thy ===== *)
theory Memory_Time
  imports Writeback_Durability Memory_Storage
begin

text \<open>
  The in-memory backend and the passing of time. Every method that stamps a record reads
  \<open>SystemTime::now()\<close> anew, so \<open>timed_storage\<close> gives each call of a process its own clock readings:
  its state is the number of calls so far and the backend's state. \<open>timeless\<close> forgets the stamps.
  No method decides anything by a stamp: the methods commute with \<open>timeless\<close>, so a replay under
  one clock does the same as a replay under another, up to the stamps.
\<close>

section \<open>Clocks\<close>

text \<open>\<open>now n i\<close> is the \<open>i\<close>-th reading of the clock within the \<open>n\<close>-th call.\<close>

definition timed ::
  "(nat \<Rightarrow> clock) \<Rightarrow> (clock \<Rightarrow> MemoryStorageState \<Rightarrow> 'a mem_outcome)
    \<Rightarrow> nat \<times> MemoryStorageState \<Rightarrow> (nat \<times> MemoryStorageState, 'a) outcome" where
  "timed now m = (\<lambda>(n, s). case m (now n) s of (r, s') \<Rightarrow> (r, (Suc n, s')))"

definition timed_storage ::
  "Json \<Rightarrow> (EventFsError \<Rightarrow> string) \<Rightarrow> (nat \<Rightarrow> clock) \<Rightarrow> (nat \<times> MemoryStorageState) ReplayStorage" where
  "timed_storage json display now =
     (let store = memory_storage json display in
        \<lparr>kv_put_idempotent = (\<lambda>b k bs key. timed now (\<lambda>c. kv_put_idempotent (store c) b k bs key)),
         kv_put_applied = (\<lambda>b k key. timed now (\<lambda>c. kv_put_applied (store c) b k key)),
         kv_delete_if_revision = (\<lambda>b k rv. timed now (\<lambda>c. kv_delete_if_revision (store c) b k rv)),
         kv_delete_if_revision_applied = (\<lambda>b k rv. timed now (\<lambda>c. kv_delete_if_revision_applied (store c) b k rv)),
         publish_json_lines = (\<lambda>st sj bs key. timed now (\<lambda>c. publish_json_lines (store c) st sj bs key)),
         publish_json_lines_applied = (\<lambda>st sj bs key. timed now (\<lambda>c. publish_json_lines_applied (store c) st sj bs key)),
         publish_json_lines_applied_prefix =
           (\<lambda>st sj bs key. timed now (\<lambda>c. publish_json_lines_applied_prefix (store c) st sj bs key)),
         object_put_idempotent = (\<lambda>b obj bs key. timed now (\<lambda>c. object_put_idempotent (store c) b obj bs key)),
         object_put_applied = (\<lambda>b obj key. timed now (\<lambda>c. object_put_applied (store c) b obj key)),
         object_delete_if_sequence = (\<lambda>b obj sq nuid. timed now (\<lambda>c. object_delete_if_sequence (store c) b obj sq nuid)),
         object_delete_if_sequence_applied =
           (\<lambda>b obj sq nuid. timed now (\<lambda>c. object_delete_if_sequence_applied (store c) b obj sq nuid))\<rparr>)"

section \<open>Forgetting the stamps\<close>

definition map_values :: "('v \<Rightarrow> 'w) \<Rightarrow> ('k, 'v) rmap \<Rightarrow> ('k, 'w) rmap" where
  "map_values f m = map (\<lambda>(k, v). (k, f v)) m"

lemma get_map_values [simp]: "map_get (map_values f m) k = map_option f (map_get m k)"
  by (simp add: map_get_def map_values_def map_of_map)

lemma insert_map_values [simp]: "map_insert k (f v) (map_values f m) = map_values f (map_insert k v m)"
  by (induction m) (auto simp: map_values_def)

lemma remove_map_values [simp]: "map_remove k (map_values f m) = map_values f (map_remove k m)"
  by (induction m) (auto simp: map_values_def map_remove_def)

abbreviation unstamped :: "KeyRevision \<Rightarrow> KeyRevision" where
  "unstamped entry \<equiv> entry\<lparr>kr_created := 0\<rparr>"

abbreviation unstamped_message :: "StreamMessageView \<Rightarrow> StreamMessageView" where
  "unstamped_message message \<equiv> message\<lparr>sm_published := 0\<rparr>"

abbreviation unstamped_object :: "ObjectVersion \<Rightarrow> ObjectVersion" where
  "unstamped_object version \<equiv> version\<lparr>ov_modified := 0\<rparr>"

definition timeless :: "MemoryStorageState \<Rightarrow> MemoryStorageState" where
  "timeless st =
     st\<lparr>kv := map_values unstamped (kv st), kv_hist := map_values (map unstamped) (kv_hist st),
        streams := map_values (map unstamped_message) (streams st), objects := map_values unstamped_object (objects st)\<rparr>"

lemma timeless_simps [simp]:
  "kv_buckets (timeless st) = kv_buckets st" "kv (timeless st) = map_values unstamped (kv st)"
  "kv_hist (timeless st) = map_values (map unstamped) (kv_hist st)" "kv_applied (timeless st) = kv_applied st"
  "streams (timeless st) = map_values (map unstamped_message) (streams st)" "stream_applied (timeless st) = stream_applied st"
  "object_buckets (timeless st) = object_buckets st" "objects (timeless st) = map_values unstamped_object (objects st)"
  "object_generations (timeless st) = object_generations st" "object_applied (timeless st) = object_applied st"
  by (simp_all add: timeless_def)

lemma timeless_updates [simp]:
  "(timeless st)\<lparr>kv_applied := a\<rparr> = timeless (st\<lparr>kv_applied := a\<rparr>)"
  "(timeless st)\<lparr>object_applied := o'\<rparr> = timeless (st\<lparr>object_applied := o'\<rparr>)"
  "(timeless st)\<lparr>kv := map_values unstamped m\<rparr> = timeless (st\<lparr>kv := m\<rparr>)"
  "(timeless st)\<lparr>objects := map_values unstamped_object n\<rparr> = timeless (st\<lparr>objects := n\<rparr>)"
  "(timeless st)\<lparr>streams := map_values (map unstamped_message) k, stream_applied := l\<rparr> =
    timeless (st\<lparr>streams := k, stream_applied := l\<rparr>)"
  by (simp_all add: timeless_def)

abbreviation no_clock :: clock where
  "no_clock \<equiv> \<lambda>_. 0"

lemma put_kv_timeless: "put_kv no_clock b k bs (timeless st) = map_prod id timeless (put_kv now b k bs st)"
proof -
  have "next_revision (map_option (map unstamped) h) = next_revision h" for h
    by (cases h) (auto simp: next_revision_def last_map)
  moreover have "(case map_option (map unstamped) h of Some h \<Rightarrow> h | None \<Rightarrow> []) =
      map unstamped (case h of Some h \<Rightarrow> h | None \<Rightarrow> [])" for h
    by (cases h) auto
  ultimately show ?thesis
    using insert_map_values [of "(b, k)" unstamped "\<lparr>kr_revision = next_revision (map_get (kv_hist st) (b, k)), kr_created = now 0,
        kr_bytes = bs\<rparr>" "kv st"]
      insert_map_values [of "(b, k)" "map unstamped" "(case map_get (kv_hist st) (b, k) of Some h \<Rightarrow> h | None \<Rightarrow> []) @
        [\<lparr>kr_revision = next_revision (map_get (kv_hist st) (b, k)), kr_created = now 0, kr_bytes = bs\<rparr>]" "kv_hist st"]
    by (simp add: put_kv_def Let_def timeless_def)
qed

lemma put_object_timeless: "put_object no_clock b obj bs (timeless st) = map_prod id timeless (put_object now b obj bs st)"
  using insert_map_values [of "(b, obj)" unstamped_object "\<lparr>ov_modified = now 0,
    ov_sequence = fst (put_object now b obj bs st), ov_nuid = ''memory-object-'' @ show_u64 (fst (put_object now b obj bs st)),
    ov_bytes = bs\<rparr>" "objects st"]
  by (simp add: put_object_def Let_def timeless_def)

lemma push_messages_timeless:
  "push_messages no_clock j stream subject ls (map unstamped_message messages) =
    map_prod (map unstamped_message) id (push_messages now i stream subject ls messages)"
proof (induction ls arbitrary: i j messages)
  case (Cons line ls)
  define sq where "sq = (if messages = [] then 1 else saturating_add_one (sm_sequence (last messages)))"
  have sq': "(if map unstamped_message messages = [] then 1
      else saturating_add_one (sm_sequence (last (map unstamped_message messages)))) = sq"
    by (simp add: sq_def last_map)
  let ?m = "\<lparr>sm_stream = stream, sm_sequence = sq, sm_published = now i, sm_subject = subject, sm_payload = as_bytes line\<rparr>"
  have "push_messages no_clock (Suc j) stream subject ls (map unstamped_message messages @ [unstamped_message ?m]) =
      map_prod (map unstamped_message) id (push_messages now (Suc i) stream subject ls (messages @ [?m]))"
    using Cons [of "Suc j" "messages @ [?m]" "Suc i"] by (simp add: id_def)
  then show ?case
    unfolding push_messages.simps sq' sq_def [symmetric] Let_def by (auto simp: id_def split: prod.splits)
qed simp

section \<open>The methods and the executor\<close>

lemma kv_put_timeless:
  "mem_kv_put_idempotent no_clock b k bs key (timeless st) = map_prod id timeless (mem_kv_put_idempotent now b k bs key st)"
  by (auto simp: mem_kv_put_idempotent_def Let_def put_kv_timeless [where now = now] split: option.splits prod.splits)

lemma kv_delete_timeless:
  "mem_kv_delete_if_revision b k rv (timeless st) = map_prod id timeless (mem_kv_delete_if_revision b k rv st)"
  by (auto simp: mem_kv_delete_if_revision_def split: option.splits)

lemma object_put_timeless:
  "mem_object_put_idempotent no_clock b obj bs key (timeless st) =
    map_prod id timeless (mem_object_put_idempotent now b obj bs key st)"
  by (auto simp: mem_object_put_idempotent_def Let_def put_object_timeless [where now = now])

lemma object_delete_timeless:
  "mem_object_delete_if_sequence b obj sq nuid (timeless st) =
    map_prod id timeless (mem_object_delete_if_sequence b obj sq nuid st)"
  by (auto simp: mem_object_delete_if_sequence_def object_mismatch_def split: option.splits)

lemma publish_timeless:
  "mem_publish_json_lines json display no_clock stream subject bs key (timeless st) =
    map_prod id timeless (mem_publish_json_lines json display now stream subject bs key st)"
proof -
  have "(case map_option (map unstamped_message) m of Some m \<Rightarrow> m | None \<Rightarrow> []) =
      map unstamped_message (case m of Some m \<Rightarrow> m | None \<Rightarrow> [])" for m
    by (cases m) auto
  moreover have "push_messages no_clock 0 stream subject ls [] =
      map_prod (map unstamped_message) id (push_messages now 0 stream subject ls [])" for ls
    using push_messages_timeless [of 0 stream subject ls "[]" now 0] by simp
  ultimately show ?thesis
    by (auto simp: mem_publish_json_lines_def Let_def push_messages_timeless [where i = 0 and now = now]
      split: option.splits prod.splits sum.splits)
qed

lemma questions_timeless:
  "mem_kv_put_applied b k key (timeless st) = map_prod id timeless (mem_kv_put_applied b k key st)"
  "mem_kv_delete_if_revision_applied b k rv (timeless st) = map_prod id timeless (mem_kv_delete_if_revision_applied b k rv st)"
  "mem_object_put_applied b obj key (timeless st) = map_prod id timeless (mem_object_put_applied b obj key st)"
  "mem_object_delete_if_sequence_applied b obj sq nuid (timeless st) =
    map_prod id timeless (mem_object_delete_if_sequence_applied b obj sq nuid st)"
  "mem_publish_json_lines_applied json display stream subject bs key (timeless st) =
    map_prod id timeless (mem_publish_json_lines_applied json display stream subject bs key st)"
  "mem_publish_json_lines_applied_prefix json display stream subject bs key (timeless st) =
    map_prod id timeless (mem_publish_json_lines_applied_prefix json display stream subject bs key st)"
  by (auto simp: mem_kv_put_applied_def mem_kv_delete_if_revision_applied_def mem_kv_get_def mem_object_put_applied_def
    mem_object_delete_if_sequence_applied_def mem_publish_json_lines_applied_def mem_publish_json_lines_applied_prefix_def
    object_mismatch_def split: option.splits)

text \<open>A call of the timed backend and the same call without a clock.\<close>

definition untime :: "nat \<times> MemoryStorageState \<Rightarrow> MemoryStorageState" where
  "untime ns = timeless (snd ns)"

lemma timed_sim:
  assumes "\<And>c s. m no_clock (timeless s) = map_prod id timeless (m c s)"
  shows "m no_clock (untime ns) = map_prod id untime (timed now m ns)"
  using assms [of "snd ns" "now (fst ns)"] by (auto simp: timed_def untime_def split: prod.splits)

lemma obind_sim:
  assumes "m' = map_prod id g m" "\<And>x s. f' x (g s) = map_prod id g (f x s)"
  shows "obind m' f' = map_prod id g (obind m f)"
  using assms by (cases m; cases "fst m") (auto simp: obind_def)

lemmas stores = memory_storage_def timed_storage_def Let_def ReplayStorage.simps

text \<open>Each method of the backend without a clock, on a state without stamps, against the timed method.\<close>

lemma calls_sim:
  fixes json display now ns
  defines "M \<equiv> memory_storage json display no_clock" and "T \<equiv> timed_storage json display now"
  shows "kv_put_idempotent M b k bs key (untime ns) = map_prod id untime (kv_put_idempotent T b k bs key ns)"
    and "kv_put_applied M b k key (untime ns) = map_prod id untime (kv_put_applied T b k key ns)"
    and "kv_delete_if_revision M b k rv (untime ns) = map_prod id untime (kv_delete_if_revision T b k rv ns)"
    and "kv_delete_if_revision_applied M b k rv (untime ns) = map_prod id untime (kv_delete_if_revision_applied T b k rv ns)"
    and "publish_json_lines M stream subject bs key (untime ns) = map_prod id untime (publish_json_lines T stream subject bs key ns)"
    and "publish_json_lines_applied M stream subject bs key (untime ns) =
      map_prod id untime (publish_json_lines_applied T stream subject bs key ns)"
    and "publish_json_lines_applied_prefix M stream subject bs key (untime ns) =
      map_prod id untime (publish_json_lines_applied_prefix T stream subject bs key ns)"
    and "object_put_idempotent M b obj bs key (untime ns) = map_prod id untime (object_put_idempotent T b obj bs key ns)"
    and "object_put_applied M b obj key (untime ns) = map_prod id untime (object_put_applied T b obj key ns)"
    and "object_delete_if_sequence M b obj sq nuid (untime ns) = map_prod id untime (object_delete_if_sequence T b obj sq nuid ns)"
    and "object_delete_if_sequence_applied M b obj sq nuid (untime ns) =
      map_prod id untime (object_delete_if_sequence_applied T b obj sq nuid ns)"
  unfolding M_def T_def stores
  by (rule timed_sim, rule kv_put_timeless questions_timeless kv_delete_timeless
    publish_timeless object_put_timeless object_delete_timeless)+

interpretation timed: replay_simulation "StoreReplayExecutor (timed_storage json display now)"
    "StoreReplayExecutor (memory_storage json display no_clock)" untime
  for json :: Json and display :: "EventFsError \<Rightarrow> string" and now :: "nat \<Rightarrow> clock"
proof unfold_locales
  note sim = calls_sim [where now = now]
  fix e and s :: "nat \<times> MemoryStorageState"
  show "is_applied (StoreReplayExecutor (memory_storage json display no_clock)) e (untime s) =
      map_prod id untime (is_applied (StoreReplayExecutor (timed_storage json display now)) e s)"
    by (cases "qe_operation e") (simp_all add: StoreReplayExecutor_def store_is_applied_def sim obind_sim)
  show "execute (StoreReplayExecutor (memory_storage json display no_clock)) e (untime s) =
      map_prod id untime (execute (StoreReplayExecutor (timed_storage json display now)) e s)"
    by (cases "qe_operation e") (simp_all add: StoreReplayExecutor_def store_execute_def ignore_value_def sim obind_sim)
  show "refresh_after_failed_execute (StoreReplayExecutor (memory_storage json display no_clock)) e (untime s) =
      map_prod id (map_prod id untime)
        (refresh_after_failed_execute (StoreReplayExecutor (timed_storage json display now)) e s)"
    by (cases "qe_operation e")
      (auto simp: StoreReplayExecutor_def store_refresh_def sim split: prod.splits sum.splits)
qed

end
