(* ===== verification/Replay_Memory.thy ===== *)
theory Replay_Memory
  imports Memory_Time Writeback_Steps
begin

text \<open>
  The in-memory backend meets the contract of a write executor, so a replay against it that is
  interrupted any number of times ends in the state an uninterrupted one reaches, up to the
  times the records are stamped with: every process has its own clock.
\<close>

section \<open>The backend as an executor\<close>

abbreviation mem_executor ::
  "Json \<Rightarrow> (EventFsError \<Rightarrow> string) \<Rightarrow> clock \<Rightarrow> MemoryStorageState WriteExecutor" where
  "mem_executor json display now \<equiv> StoreReplayExecutor (memory_storage json display now)"

lemmas mem_executor_defs = StoreReplayExecutor_def memory_storage_def store_is_applied_def store_execute_def
  ignore_value_def mem_kv_put_applied_def mem_kv_delete_if_revision_applied_def mem_kv_get_def
  mem_object_put_applied_def mem_object_delete_if_sequence_applied_def mem_publish_json_lines_applied_def

lemma mem_kv_put_idempotent_applies:
  "\<exists>r s'. mem_kv_put_idempotent now bucket key bs k s = (Inr r, s')
    \<and> map_get (kv_applied s') (bucket, key, k) \<noteq> None"
  by (auto simp: mem_kv_put_idempotent_def Let_def put_kv_def om.get_ins split: option.splits)

lemma mem_kv_delete_applies:
  "\<exists>s'. mem_kv_delete_if_revision bucket key rv s = (Inr (), s') \<and> kv_applied s' = kv_applied s
    \<and> (case map_get (kv s') (bucket, key) of None \<Rightarrow> True | Some entry \<Rightarrow> kr_revision entry \<noteq> rv)"
  by (auto simp: mem_kv_delete_if_revision_def om.get_del split: option.splits)

lemma mem_object_put_idempotent_applies:
  "\<exists>s'. mem_object_put_idempotent now bucket obj bs k s = (Inr (), s') \<and> (bucket, obj, k) \<in> set (object_applied s')"
  by (auto simp: mem_object_put_idempotent_def Let_def)

lemma mem_object_delete_applies:
  "\<exists>s'. mem_object_delete_if_sequence bucket obj sq nuid s = (Inr (), s') \<and> object_applied s' = object_applied s
    \<and> (case map_get (objects s') (bucket, obj) of None \<Rightarrow> True | Some entry \<Rightarrow> object_mismatch entry sq nuid)"
  by (auto simp: mem_object_delete_if_sequence_def om.get_del split: option.splits)

lemma mem_publish_applies:
  assumes "mem_publish_json_lines json display now stream subject bs k s = (Inr r, s')"
  shows "mem_publish_json_lines_applied json display stream subject bs k s' = (Inr True, s')"
  using assms by (auto simp: mem_publish_json_lines_def mem_publish_json_lines_applied_def Let_def
    rbind_def om.get_ins split: sum.splits option.splits prod.splits)

lemma mem_execute_applies:
  assumes "execute (mem_executor json display now) e s = (Inr (), s')"
  shows "is_applied (mem_executor json display now) e s' = (Inr True, s')"
proof (cases "qe_operation e")
  case (KvPut bucket key bs)
  then show ?thesis using assms mem_kv_put_idempotent_applies [of now bucket key bs "qe_idempotency_key e" s]
    by (auto simp: mem_executor_defs)
next
  case (KvRenameComplete fb fk rv tb tk bs)
  obtain r s1 where p: "mem_kv_put_idempotent now tb tk bs (qe_idempotency_key e) s = (Inr r, s1)"
    "map_get (kv_applied s1) (tb, tk, qe_idempotency_key e) \<noteq> None"
    using mem_kv_put_idempotent_applies [of now tb tk bs "qe_idempotency_key e" s] by blast
  then show ?thesis using assms KvRenameComplete mem_kv_delete_applies [of fb fk rv s1]
    by (auto simp: mem_executor_defs)
next
  case (ObjectPut bucket obj bs)
  then show ?thesis using assms mem_object_put_idempotent_applies [of now bucket obj bs "qe_idempotency_key e" s]
    by (auto simp: mem_executor_defs)
next
  case (ObjectRenameComplete fb fo sq nuid tb tobj bs)
  obtain s1 where p: "mem_object_put_idempotent now tb tobj bs (qe_idempotency_key e) s = (Inr (), s1)"
    "(tb, tobj, qe_idempotency_key e) \<in> set (object_applied s1)"
    using mem_object_put_idempotent_applies [of now tb tobj bs "qe_idempotency_key e" s] by blast
  then show ?thesis using assms ObjectRenameComplete mem_object_delete_applies [of fb fo sq nuid s1]
    by (auto simp: mem_executor_defs)
next
  case (PublishJsonLines stream subject bs n)
  obtain r where "mem_publish_json_lines json display now stream subject bs (qe_idempotency_key e) s = (Inr r, s')"
    using assms PublishJsonLines
    by (auto simp: StoreReplayExecutor_def memory_storage_def store_execute_def ignore_value_def obind_Inr_iff)
  from mem_publish_applies [OF this] PublishJsonLines show ?thesis
    by (simp add: StoreReplayExecutor_def memory_storage_def store_is_applied_def)
next
  case (MaterializedPut bucket key bs)
  then show ?thesis using assms mem_kv_put_idempotent_applies [of now bucket key bs "qe_idempotency_key e" s]
    by (auto simp: mem_executor_defs)
qed

interpretation mem: replay_executor "mem_executor json display now"
  for json :: Json and display :: "EventFsError \<Rightarrow> string" and now :: clock
proof unfold_locales
  fix e s r s'
  assume "is_applied (mem_executor json display now) e s = (r, s')"
  then show "s' = s" by (auto simp: mem_executor_defs split: QueueOperation.splits if_splits)
next
  fix e s
  show "is_applied (mem_executor json display now) (bump_attempts e) s = is_applied (mem_executor json display now) e s"
    by (cases "qe_operation e") (simp_all add: StoreReplayExecutor_def store_is_applied_def)
  show "execute (mem_executor json display now) (bump_attempts e) s = execute (mem_executor json display now) e s"
    by (cases "qe_operation e") (simp_all add: StoreReplayExecutor_def store_execute_def)
qed (rule mem_execute_applies)

section \<open>Properties\<close>

text \<open>One process over the in-memory backend that opens the queue, replays it and stops, at whatever
  save fails. The clock \<open>now\<close> is its own; \<open>n\<close> and \<open>m\<close> count its calls of the backend.\<close>

definition process_step ::
  "Serde \<Rightarrow> Json \<Rightarrow> (EventFsError \<Rightarrow> string) \<Rightarrow> Disk \<times> MemoryStorageState \<Rightarrow> Disk \<times> MemoryStorageState \<Rightarrow> bool" where
  "process_step serde json display x y \<longleftrightarrow>
     (\<exists>now n m. crash_step serde (StoreReplayExecutor (timed_storage json display now))
        (fst x, n, snd x) (fst y, m, snd y))"

lemma process_steps_sim:
  assumes "(process_step serde json display)\<^sup>*\<^sup>* (d, s) (d', s')"
  shows "(crash_step serde (mem_executor json display no_clock))\<^sup>*\<^sup>* (d, timeless s) (d', timeless s')"
  using assms
proof (induction rule: rtranclp_induct2)
  case (step d1 s1 d2 s2)
  then obtain now n m where "crash_step serde (StoreReplayExecutor (timed_storage json display now)) (d1, n, s1) (d2, m, s2)"
    by (auto simp: process_step_def)
  from timed.crash_step_sim [OF this] have "crash_step serde (mem_executor json display no_clock) (d1, timeless s1) (d2, timeless s2)"
    by (simp add: untime_def)
  with step.IH show ?case by (rule rtranclp.rtrancl_into_rtrancl)
qed simp

text \<open>C3: Replay against the in-memory backend is safe to interrupt. Let the queue file hold entries
  whose uninterrupted execution, under some clock, takes the backend from one state to another.
  Let any number of processes, each with its own clock and each call reading it anew, open the
  queue, replay it against this backend and stop at a failing save (before or after its rename, so also
  between executing an entry and dropping it). Then opening the queue once more and replaying
  without a failing save, under whatever clock, succeeds, empties the queue and reaches that state
  up to the times its records are stamped with: the same buckets, revisions, histories, stream
  messages, objects and applied keys, so no write is lost and none takes effect twice.\<close>

theorem interrupted_replay_is_exactly_once:
  assumes "serde_roundtrip serde" "on_disk serde d es"
    and "run_entries (StoreReplayExecutor (timed_storage json display now0)) es (n0, s) = Some (m0, t)"
    and "(process_step serde json display)\<^sup>*\<^sup>* (d, s) (d', s')"
  shows "\<exists>q d1 d2 m t'. queue_open serde dir None cap (d'\<lparr>d_locked := False, d_faults := []\<rparr>) = (Inr q, d1)
    \<and> replay_with_store serde (timed_storage json display now) q d1 (n, s') = (Inr (), q\<lparr>wq_entries := []\<rparr>, d2, (m, t'))
    \<and> timeless t' = timeless t"
proof -
  have "run_entries (mem_executor json display no_clock) es (timeless s) = Some (timeless t)"
    using timed.run_entries_sim [of json display es "(n0, s)" now0] assms(3) by (simp add: untime_def)
  from mem.crash_steps_finish [OF assms(1,2) this process_steps_sim [OF assms(4)]]
  obtain q d1 d2 where q: "queue_open serde dir None cap (d'\<lparr>d_locked := False, d_faults := []\<rparr>) = (Inr q, d1)"
    "replay serde (mem_executor json display no_clock) q d1 (timeless s') = (Inr (), q\<lparr>wq_entries := []\<rparr>, d2, timeless t)"
    by blast
  obtain r q' d3 m t' where x: "replay serde (StoreReplayExecutor (timed_storage json display now)) q d1 (n, s') = (r, q', d3, m, t')"
    by (metis prod_cases5)
  then show ?thesis
    using q timed.replay_loop_sim [of serde json display "wq_entries q" q d1 "(n, s')" now]
    by (auto simp: replay_def replay_with_store_def untime_def)
qed

text \<open>The witness interrupts the replay after the write took effect: the save that drops the
  entry fails. The interrupted process, the one after it and the reference run have three
  different clocks.\<close>

abbreviation sample_timed :: "int \<Rightarrow> (nat \<times> MemoryStorageState) ReplayStorage" where
  "sample_timed t \<equiv> timed_storage undefined undefined (\<lambda>n i. t)"

definition sample_written :: "int \<Rightarrow> MemoryStorageState" where
  "sample_written t = snd (mem_kv_put_idempotent (\<lambda>_. t) ''b'' ''k'' [1] ''w1'' MemoryStorage_new)"

lemma sample_calls:
  "is_applied (StoreReplayExecutor (sample_timed t)) sample_entry (n, MemoryStorage_new) = (Inr False, (Suc n, MemoryStorage_new))"
  "execute (StoreReplayExecutor (sample_timed t)) (bump_attempts sample_entry) (n, MemoryStorage_new) =
    (Inr (), (Suc n, sample_written t))"
  by (simp_all add: sample_entry_def mem_executor_defs MemoryStorage_new_def bump_attempts_def timed_storage_def timed_def
    mem_kv_put_idempotent_def put_kv_def Let_def sample_written_def)

lemma sample_run:
  "run_entries (StoreReplayExecutor (sample_timed t)) [sample_entry] (n, MemoryStorage_new) = Some (n + 2, sample_written t)"
proof -
  have "\<not> qe_done sample_entry" by (simp add: sample_entry_def)
  then show ?thesis by (simp add: sample_calls)
qed

lemma sample_bumped: "serialize_entries (sample_serde sample_entry) [bump_attempts sample_entry] = Inr (''{1}'' @ [newline])"
proof -
  have "digit_char (Suc 0) = CHR ''1''" by (simp add: digit_char_def char_of_def bit_Suc bit_0)
  moreover have "saturating_add_one (0 :: u32) = 1" by (simp add: saturating_add_one_def)
  ultimately show ?thesis
    by (simp add: serialize_entries_def sample_serde_def sample_entry_def bump_attempts_def show_nat.simps)
qed

lemma sample_crash:
  "crash_step (sample_serde sample_entry) (StoreReplayExecutor (sample_timed t))
      (\<lparr>d_file = Some (''{0}'' @ [newline]), d_locked = False, d_faults = []\<rparr>, 0, MemoryStorage_new)
      (\<lparr>d_file = Some (''{1}'' @ [newline]), d_locked = True, d_faults = []\<rparr>, 2, sample_written t)"
proof (rule crash_step.replayed)
  let ?d = "\<lparr>d_file = Some (''{0}'' @ [newline]), d_locked = True,
    d_faults = [None, Some (RenameTmp, \<lparr>io_kind = KindOther, io_text = ''io''\<rparr>)]\<rparr>"
  let ?q = "\<lparr>wq_capacity = 4, wq_entries = [sample_entry]\<rparr>"
  show "queue_open (sample_serde sample_entry) ''q'' None 4
      (\<lparr>d_file = Some (''{0}'' @ [newline]), d_locked = False, d_faults = []\<rparr>
        \<lparr>d_locked := False, d_faults := [None, Some (RenameTmp, \<lparr>io_kind = KindOther, io_text = ''io''\<rparr>)]\<rparr>) = (Inr ?q, ?d)"
    using read_entries_serialized [OF sample_serde_roundtrip sample_serialized]
    by (simp add: queue_open_def compact_completed_entries_def sample_entry_def)
  have "\<not> qe_done sample_entry" by (simp add: sample_entry_def)
  then show "replay (sample_serde sample_entry) (StoreReplayExecutor (sample_timed t)) ?q ?d (0, MemoryStorage_new) =
      (Inl (Io \<lparr>io_kind = KindOther, io_text = ''io''\<rparr>), \<lparr>wq_capacity = 4, wq_entries = [bump_attempts sample_entry]\<rparr>,
       \<lparr>d_file = Some (''{1}'' @ [newline]), d_locked = True, d_faults = []\<rparr>, 2, sample_written t)"
    by (simp add: sample_calls replay_def replace_entries_def persist_entries_def sample_bumped [simplified] renamed_def)
qed

theorem interrupted_replay_is_exactly_once_witness:
  "\<exists>q d1 d2 m t'. queue_open (sample_serde sample_entry) ''q'' None 4
      \<lparr>d_file = Some (''{1}'' @ [newline]), d_locked = False, d_faults = []\<rparr> = (Inr q, d1)
    \<and> replay_with_store (sample_serde sample_entry) (sample_timed 9) q d1 (0, sample_written 5) =
      (Inr (), q\<lparr>wq_entries := []\<rparr>, d2, (m, t'))
    \<and> timeless t' = timeless (sample_written 0)"
proof -
  have d: "on_disk (sample_serde sample_entry)
      \<lparr>d_file = Some (''{0}'' @ [newline]), d_locked = False, d_faults = []\<rparr> [sample_entry]"
    by (simp add: on_disk_def sample_serialized)
  have "(process_step (sample_serde sample_entry) undefined undefined)\<^sup>*\<^sup>*
      (\<lparr>d_file = Some (''{0}'' @ [newline]), d_locked = False, d_faults = []\<rparr>, MemoryStorage_new)
      (\<lparr>d_file = Some (''{1}'' @ [newline]), d_locked = True, d_faults = []\<rparr>, sample_written 5)"
    using sample_crash [of 5] by (intro r_into_rtranclp) (auto simp: process_step_def)
  from interrupted_replay_is_exactly_once [OF sample_serde_roundtrip d sample_run this, of "''q''" 4 "\<lambda>n i. 9" 0]
  show ?thesis by simp
qed

text \<open>C12: Replay works from the front and never drops an entry it has not processed. Whatever
  fails, what stays in the queue is a suffix of what was there (its first entry with
  updated bookkeeping, the same key), every entry before it was found applied or executed; when replay
  succeeds the queue is empty, the entries were all processed in order and the gate is open.\<close>

theorem replay_drops_only_processed_entries:
  "\<forall>r wr' d' s'. writeback_replay serde store wr d s = (r, wr', d', s') \<longrightarrow>
    (\<exists>pre suf. wq_entries (wr_queue wr) = pre @ suf \<and> kept_suffix suf (wq_entries (wr_queue wr'))
      \<and> run_entries (StoreReplayExecutor store) pre s \<noteq> None
      \<and> (is_ok r \<longrightarrow> wq_entries (wr_queue wr') = [] \<and> accepts_writes (wr_gate wr')
           \<and> run_entries (StoreReplayExecutor store) (wq_entries (wr_queue wr)) s = Some s'))"
proof (intro allI impI)
  fix r wr' d' s'
  assume w: "writeback_replay serde store wr d s = (r, wr', d', s')"
  from w obtain r1 out where
    r: "replay serde (StoreReplayExecutor store) (wr_queue wr) d s = (r1, wr_queue wr', d', s')"
    "sync_gate (wr\<lparr>wr_queue := wr_queue wr'\<rparr>) = (out, wr')" "r = map_ok (\<lambda>_. out) r1"
    by (rule replay_result)
  have "r1 = Inr ()" if "is_ok r" using that r(3) by (cases r1) auto
  with replay_keeps [OF r(1) store_refresh_keeps] sync_gate_result [OF r(2)] show
    "\<exists>pre suf. wq_entries (wr_queue wr) = pre @ suf \<and> kept_suffix suf (wq_entries (wr_queue wr'))
      \<and> run_entries (StoreReplayExecutor store) pre s \<noteq> None
      \<and> (is_ok r \<longrightarrow> wq_entries (wr_queue wr') = [] \<and> accepts_writes (wr_gate wr')
           \<and> run_entries (StoreReplayExecutor store) (wq_entries (wr_queue wr)) s = Some s')"
    by (fastforce simp: kept_suffix_def has_pending_def pending_len_def)
qed

theorem replay_drops_only_processed_entries_witness:
  "\<exists>r wr' d' s' pre suf. writeback_replay (sample_serde sample_entry) (memory_storage undefined undefined (\<lambda>_. 0))
      (from_queue \<lparr>wq_capacity = 4, wq_entries = [sample_entry]\<rparr>)
      \<lparr>d_file = Some (''{0}'' @ [newline]), d_locked = True, d_faults = []\<rparr> MemoryStorage_new = (r, wr', d', s')
    \<and> [sample_entry] = pre @ suf \<and> kept_suffix suf (wq_entries (wr_queue wr'))"
proof -
  let ?wr = "from_queue \<lparr>wq_capacity = 4, wq_entries = [sample_entry]\<rparr>"
  let ?d = "\<lparr>d_file = Some (''{0}'' @ [newline]), d_locked = True, d_faults = []\<rparr>"
  have q: "wq_entries (wr_queue ?wr) = [sample_entry]"
    by (simp add: from_queue_def sync_gate_def sync_with_queue_def sync_pending_def split: prod.splits if_splits)
  obtain r wr' d' s' where w: "writeback_replay (sample_serde sample_entry)
      (memory_storage undefined undefined (\<lambda>_. 0)) ?wr ?d MemoryStorage_new = (r, wr', d', s')"
    by (metis prod_cases4)
  from replay_drops_only_processed_entries [rule_format, OF w] w show ?thesis unfolding q by blast
qed

end
