(* ===== verification/Runtime_State.thy ===== *)
theory Runtime_State
  imports Queued_Overlay Cache Path_Cache Replay_Memory
begin

text \<open>
  \<open>eventfs-fuse/src/fs/runtime.rs\<close>, first part: the state behind a mount, its error log and write
  gate, watch events and invalidation, and what it reads from the backend.

  A runtime method takes \<open>&mut self\<close> and the path cache; both are in \<open>Runtime\<close>, together with the disk
  of the write-back queue and the number of times the clock was read. A method returning
  \<open>Result<T, i32>\<close> is a function from the state to an errno or a value and the new state; \<open>rt_bind\<close>
  is \<open>?\<close>. \<open>Env\<close> holds what the state never changes: the backend's methods, the codecs and texts of
  serde_json and \<open>Display\<close>, the hasher and the clock.
\<close>

section \<open>The backend trait\<close>

record 's MountStorage = "'s ReplayStorage" +
  ms_list_kv_buckets :: "'s \<Rightarrow> ('s, string list) outcome"
  ms_ensure_kv_bucket :: "string \<Rightarrow> 's \<Rightarrow> ('s, unit) outcome"
  ms_list_kv_prefix :: "string \<Rightarrow> string \<Rightarrow> 's \<Rightarrow> ('s, DirectoryEntry list) outcome"
  ms_kv_get :: "string \<Rightarrow> string \<Rightarrow> 's \<Rightarrow> ('s, KeyRevision option) outcome"
  ms_kv_put :: "string \<Rightarrow> string \<Rightarrow> bytes \<Rightarrow> 's \<Rightarrow> ('s, u64) outcome"
  ms_kv_delete :: "string \<Rightarrow> string \<Rightarrow> 's \<Rightarrow> ('s, unit) outcome"
  ms_kv_history :: "string \<Rightarrow> string \<Rightarrow> 's \<Rightarrow> ('s, KeyRevision list) outcome"
  ms_list_kv_history_prefix :: "string \<Rightarrow> string \<Rightarrow> 's \<Rightarrow> ('s, DirectoryEntry list) outcome"
  ms_kv_revision :: "string \<Rightarrow> string \<Rightarrow> u64 \<Rightarrow> 's \<Rightarrow> ('s, KeyRevision option) outcome"
  ms_list_streams :: "'s \<Rightarrow> ('s, string list) outcome"
  ms_ensure_stream :: "string \<Rightarrow> 's \<Rightarrow> ('s, unit) outcome"
  ms_list_stream_messages :: "string \<Rightarrow> 's \<Rightarrow> ('s, DirectoryEntry list) outcome"
  ms_list_stream_subjects :: "string \<Rightarrow> 's \<Rightarrow> ('s, DirectoryEntry list) outcome"
  ms_list_agent_names :: "'s \<Rightarrow> ('s, string list) outcome"
  ms_stream_message :: "string \<Rightarrow> u64 \<Rightarrow> 's \<Rightarrow> ('s, StreamMessageView) outcome"
  ms_list_object_buckets :: "'s \<Rightarrow> ('s, string list) outcome"
  ms_ensure_object_bucket :: "string \<Rightarrow> 's \<Rightarrow> ('s, unit) outcome"
  ms_list_object_prefix :: "string \<Rightarrow> string \<Rightarrow> 's \<Rightarrow> ('s, DirectoryEntry list) outcome"
  ms_object_get :: "string \<Rightarrow> string \<Rightarrow> 's \<Rightarrow> ('s, ObjectVersion option) outcome"
  ms_object_metadata :: "string \<Rightarrow> string \<Rightarrow> 's \<Rightarrow> ('s, ObjectMetadata option) outcome"
  ms_object_put :: "string \<Rightarrow> string \<Rightarrow> bytes \<Rightarrow> 's \<Rightarrow> ('s, unit) outcome"
  ms_object_delete :: "string \<Rightarrow> string \<Rightarrow> 's \<Rightarrow> ('s, unit) outcome"
  ms_watch_events :: "'s \<Rightarrow> ('s, WatchEvent list) outcome"

text \<open>The in-memory backend keeps the defaults of \<open>object_metadata\<close> and \<open>watch_events\<close>.\<close>

definition memory_mount_storage ::
  "Json \<Rightarrow> (EventFsError \<Rightarrow> string) \<Rightarrow> clock \<Rightarrow> MemoryStorageState MountStorage" where
  "memory_mount_storage json display now =
     ReplayStorage.extend (memory_storage json display now)
       (MountStorage.fields mem_list_kv_buckets mem_ensure_kv_bucket mem_list_kv_prefix mem_kv_get
         (mem_kv_put now) mem_kv_delete mem_kv_history mem_list_kv_history_prefix mem_kv_revision
         mem_list_streams mem_ensure_stream mem_list_stream_messages mem_list_stream_subjects
         mem_list_agent_names mem_stream_message mem_list_object_buckets mem_ensure_object_bucket
         mem_list_object_prefix mem_object_get
         (\<lambda>bucket obj s. obind (mem_object_get bucket obj s) (\<lambda>entry s. (Inr (map_option object_metadata_of entry), s)))
         (mem_object_put now) mem_object_delete (\<lambda>s. (Inr [], s)))"

section \<open>State and environment\<close>

datatype FileType =
    NamedPipe | CharDevice | BlockDevice | DirectoryType | RegularFile | Symlink | Socket

datatype JsonValue =
    JString string | JBool bool | JNumber nat | JArray "JsonValue list" | JObject "(string \<times> JsonValue) list"

record 's Env =
  e_store :: "'s MountStorage"
  e_serde :: Serde
  e_json :: Json
  e_display :: "EventFsError \<Rightarrow> string"
  e_transport_display :: "TransportError \<Rightarrow> string"
  e_debug :: "JetStreamPath \<Rightarrow> string"
  e_json_text :: "JsonValue \<Rightarrow> string"
  e_queue_value :: "QueueSnapshot \<Rightarrow> JsonValue"
  e_message_bytes :: "StreamMessageView \<Rightarrow> TransportError + bytes"
  e_idempotency_key :: "string \<Rightarrow> bytes \<Rightarrow> string \<Rightarrow> string"
  e_now :: "nat \<Rightarrow> SystemTime"

record 's Runtime =
  rt_backend :: 's
  rt_stale_paths :: "MountPath set"
  rt_handles :: "(u64, Handle) rmap"
  rt_next_fh :: u64
  rt_next_commit_id :: u64
  rt_mount_instance :: nat
  rt_mounted_at :: SystemTime
  rt_cache :: LocalCache
  rt_replay :: WritebackReplay
  rt_mount_name :: string
  rt_recent_errors :: "string list"
  rt_paths :: "FileType PathCache"
  rt_disk :: Disk
  rt_ticks :: nat

definition MountRuntimeState_new ::
  "'s \<Rightarrow> WritebackQueue \<Rightarrow> Disk \<Rightarrow> string \<Rightarrow> nat \<Rightarrow> SystemTime \<Rightarrow> 's Runtime" where
  "MountRuntimeState_new backend queue disk mount_name instance_seed mounted_at =
     \<lparr>rt_backend = backend, rt_stale_paths = {}, rt_handles = [], rt_next_fh = 2, rt_next_commit_id = 1,
      rt_mount_instance = instance_seed, rt_mounted_at = mounted_at, rt_cache = LocalCache_new,
      rt_replay = from_queue queue, rt_mount_name = mount_name, rt_recent_errors = [],
      rt_paths = PathCache_new DirectoryType, rt_disk = disk, rt_ticks = 0\<rparr>"

type_synonym ('s, 'a) rt = "'s Runtime \<Rightarrow> (Errno + 'a) \<times> 's Runtime"

definition rt_return :: "'a \<Rightarrow> ('s, 'a) rt" where
  "rt_return x st = (Inr x, st)"

definition rt_fail :: "Errno \<Rightarrow> ('s, 'a) rt" where
  "rt_fail err st = (Inl err, st)"

definition rt_bind :: "('s, 'a) rt \<Rightarrow> ('a \<Rightarrow> ('s, 'b) rt) \<Rightarrow> ('s, 'b) rt" where
  "rt_bind m f st = (case m st of (Inl err, st) \<Rightarrow> (Inl err, st) | (Inr x, st) \<Rightarrow> f x st)"

text \<open>\<open>rt_try m\<close> hands the result of \<open>m\<close> to a \<open>match\<close>; \<open>rt_of\<close> is a value that needs no state.\<close>

definition rt_try :: "('s, 'a) rt \<Rightarrow> ('s, Errno + 'a) rt" where
  "rt_try m st = (case m st of (r, st) \<Rightarrow> (Inr r, st))"

definition rt_of :: "Errno + 'a \<Rightarrow> ('s, 'a) rt" where
  "rt_of r st = (r, st)"

definition rt_gets :: "('s Runtime \<Rightarrow> 'a) \<Rightarrow> ('s, 'a) rt" where
  "rt_gets f st = (Inr (f st), st)"

definition rt_modify :: "('s Runtime \<Rightarrow> 's Runtime) \<Rightarrow> ('s, unit) rt" where
  "rt_modify f st = (Inr (), f st)"

text \<open>\<open>self.backend\<close>'s method, with the transport's result as a value.\<close>

definition rt_call :: "('s \<Rightarrow> ('s, 'a) outcome) \<Rightarrow> ('s, TransportError + 'a) rt" where
  "rt_call f st = (case f (rt_backend st) of (r, b) \<Rightarrow> (Inr r, st\<lparr>rt_backend := b\<rparr>))"

section \<open>Errors and the gate\<close>

definition record_error :: "string \<Rightarrow> 's Runtime \<Rightarrow> 's Runtime" where
  "record_error message st =
     (let errors = rt_recent_errors st @ [message] in
        st\<lparr>rt_recent_errors := if length errors > 32 then tl errors else errors\<rparr>)"

definition io_error :: "'s Env \<Rightarrow> TransportError \<Rightarrow> 's Runtime \<Rightarrow> Errno \<times> 's Runtime" where
  "io_error env err st =
     (if err = NotFound then (ENOENT, st) else (EIO, record_error (e_transport_display env err) st))"

text \<open>\<open>self.backend.f(..).map_err(|err| self.io_error(err))\<close>.\<close>

definition rt_io :: "'s Env \<Rightarrow> ('s \<Rightarrow> ('s, 'a) outcome) \<Rightarrow> ('s, 'a) rt" where
  "rt_io env f = rt_bind (rt_call f) (\<lambda>r st.
     case r of Inl err \<Rightarrow> (case io_error env err st of (e, st) \<Rightarrow> (Inl e, st)) | Inr x \<Rightarrow> (Inr x, st))"

definition clear_stale_path :: "MountPath \<Rightarrow> 's Runtime \<Rightarrow> 's Runtime" where
  "clear_stale_path path st = st\<lparr>rt_stale_paths := rt_stale_paths st - {path}\<rparr>"

definition sync_writeback_gate :: "string \<Rightarrow> 's Runtime \<Rightarrow> 's Runtime" where
  "sync_writeback_gate reason st =
     (case sync_gate (rt_replay st) of
        (outcome, wr) \<Rightarrow>
          (let st = st\<lparr>rt_replay := wr\<rparr> in
             if ro_gate_transition outcome = Blocked then record_error reason st else st))"

definition write_gate :: "'s Runtime \<Rightarrow> WriteGateState" where
  "write_gate st = gate_state (wr_gate (rt_replay st))"

definition record_blocked_writeback_gate :: "string \<Rightarrow> 's Runtime \<Rightarrow> 's Runtime" where
  "record_blocked_writeback_gate reason st =
     (if \<not> gs_accepting_writes (write_gate st) then record_error reason st else st)"

definition ensure_writes_allowed :: "('s, unit) rt" where
  "ensure_writes_allowed st =
     (if \<not> gs_accepting_writes (write_gate st) then (Inl EROFS, st) else (Inr (), st))"

definition writes_blocked :: "'s Runtime \<Rightarrow> bool" where
  "writes_blocked st \<longleftrightarrow> \<not> gs_accepting_writes (write_gate st)"

section \<open>Invalidation\<close>

definition mark_path_entry_stale :: "MountPath \<Rightarrow> 's Runtime \<Rightarrow> 's Runtime" where
  "mark_path_entry_stale path st =
     (if \<not> is_root path \<and> pc_entry (rt_paths st) path \<noteq> None
      then st\<lparr>rt_stale_paths := insert path (rt_stale_paths st)\<rparr> else st)"

definition mark_paths_stale :: "(MountPath \<Rightarrow> bool) \<Rightarrow> 's Runtime \<Rightarrow> 's Runtime" where
  "mark_paths_stale P st =
     st\<lparr>rt_stale_paths := rt_stale_paths st \<union>
          set (filter (\<lambda>p. \<not> is_root p \<and> P p) (map fst (pc_snapshot (rt_paths st))))\<rparr>"

definition mark_path_subtree_stale :: "MountPath \<Rightarrow> 's Runtime \<Rightarrow> 's Runtime" where
  "mark_path_subtree_stale path = mark_paths_stale (\<lambda>candidate. is_self_or_descendant_of candidate path)"

definition apply_path_action :: "'s Runtime \<Rightarrow> InvalidationAction \<Rightarrow> 's Runtime" where
  "apply_path_action st action =
     (case ia_scope action of
        ExactEntry \<Rightarrow> mark_path_entry_stale (ia_path action) st
      | Subtree \<Rightarrow> mark_path_subtree_stale (ia_path action) st
      | All \<Rightarrow> mark_paths_stale (\<lambda>_. True) st)"

definition apply_path_invalidation_plan :: "InvalidationPlan \<Rightarrow> 's Runtime \<Rightarrow> 's Runtime" where
  "apply_path_invalidation_plan plan st = foldl apply_path_action st (actions plan)"

definition apply_invalidation_plan :: "InvalidationPlan \<Rightarrow> 's Runtime \<Rightarrow> 's Runtime" where
  "apply_invalidation_plan plan st =
     (let st = apply_path_invalidation_plan plan st in
        st\<lparr>rt_cache := apply_invalidation plan (rt_cache st)\<rparr>)"

definition apply_watch_event :: "'s Runtime \<Rightarrow> WatchEvent \<Rightarrow> 's Runtime" where
  "apply_watch_event st event =
     (let st = apply_path_invalidation_plan (for_watch_event event) st in
        st\<lparr>rt_cache := cache_apply event (rt_cache st)\<rparr>)"

definition apply_pending_watch_events :: "'s Env \<Rightarrow> ('s, unit) rt" where
  "apply_pending_watch_events env = rt_bind (rt_call (ms_watch_events (e_store env))) (\<lambda>r.
     rt_modify (\<lambda>st. case r of
       Inr events \<Rightarrow> foldl apply_watch_event st events
     | Inl err \<Rightarrow>
         apply_watch_event (record_error (''watch event drain failed: '' @ e_transport_display env err) st) Gap))"

definition invalidate_after_local_mutation :: "'s Env \<Rightarrow> MountPath \<Rightarrow> 's Runtime \<Rightarrow> 's Runtime" where
  "invalidate_after_local_mutation env path st =
     (case for_local_mutation path of
        Inr plan \<Rightarrow> apply_invalidation_plan plan st
      | Inl err \<Rightarrow>
          apply_invalidation_plan (subtree path)
            (record_error (''local invalidation planning failed for '' @ path @ '': '' @ e_display env err) st))"

definition invalidate_after_local_write :: "'s Env \<Rightarrow> MountPath \<Rightarrow> 's Runtime \<Rightarrow> 's Runtime" where
  "invalidate_after_local_write env path st = invalidate_after_local_mutation env path st"

definition invalidate_after_local_unlink :: "'s Env \<Rightarrow> MountPath \<Rightarrow> 's Runtime \<Rightarrow> 's Runtime" where
  "invalidate_after_local_unlink env path st =
     (let st = invalidate_after_local_mutation env path st in
        st\<lparr>rt_paths := pc_remove path (rt_paths st)\<rparr>)"

definition replay_queue :: "'s Env \<Rightarrow> 's Runtime \<Rightarrow> 's Runtime" where
  "replay_queue env st =
     (case writeback_replay (e_serde env) (ReplayStorage.truncate (e_store env)) (rt_replay st) (rt_disk st)
             (rt_backend st) of
        (r, wr, disk, backend) \<Rightarrow>
          (let st = st\<lparr>rt_replay := wr, rt_disk := disk, rt_backend := backend\<rparr>;
               st = (case r of
                       Inl err \<Rightarrow> record_error (''queue replay failed: '' @ e_transport_display env err) st
                     | Inr _ \<Rightarrow> st);
               st = record_blocked_writeback_gate
                      ''writeback queue has pending entries after replay; mount is read-only'' st in
             apply_invalidation_plan gap_plan st))"

section \<open>Reading the backend\<close>

definition parse_path :: "MountPath \<Rightarrow> ('s, JetStreamPath) rt" where
  "parse_path path = rt_of (map_err errno (parse path))"

definition classify_kv_dynamic_path :: "'s Env \<Rightarrow> string \<Rightarrow> string \<Rightarrow> ('s, DynamicPathKind) rt" where
  "classify_kv_dynamic_path env bucket key =
     rt_bind (rt_io env (ms_kv_get (e_store env) bucket key)) (\<lambda>entry.
       if entry \<noteq> None then rt_return DpFile
       else rt_bind (rt_io env (ms_list_kv_prefix (e_store env) bucket key)) (\<lambda>entries.
              rt_return (if entries = [] then DpMissing else DpDirectory)))"

definition rt_object_metadata :: "'s Env \<Rightarrow> string \<Rightarrow> string \<Rightarrow> ('s, ObjectMetadata option) rt" where
  "rt_object_metadata env bucket obj = rt_io env (ms_object_metadata (e_store env) bucket obj)"

definition classify_object_dynamic_path :: "'s Env \<Rightarrow> string \<Rightarrow> string \<Rightarrow> ('s, DynamicPathKind) rt" where
  "classify_object_dynamic_path env bucket obj =
     rt_bind (rt_object_metadata env bucket obj) (\<lambda>entry.
       if entry \<noteq> None then rt_return DpFile
       else rt_bind (rt_io env (ms_list_object_prefix (e_store env) bucket obj)) (\<lambda>entries.
              rt_return (if entries = [] then DpMissing else DpDirectory)))"

datatype MountProjectionKind = ProjDirectory | ProjFile

definition kv_prefix_projection_kind :: "'s Env \<Rightarrow> string \<Rightarrow> string \<Rightarrow> ('s, MountProjectionKind) rt" where
  "kv_prefix_projection_kind env bucket key =
     rt_bind (classify_kv_dynamic_path env bucket key) (\<lambda>kind.
       rt_return (if kind = DpDirectory then ProjDirectory else ProjFile))"

text \<open>\<open>require\<close> is the common body of \<open>require_kv_bucket\<close>, \<open>require_stream\<close> and
  \<open>require_object_bucket\<close>.\<close>

definition require :: "'s Env \<Rightarrow> ('s \<Rightarrow> ('s, string list) outcome) \<Rightarrow> string \<Rightarrow> ('s, unit) rt" where
  "require env list_names name =
     rt_bind (rt_io env list_names) (\<lambda>names.
       if list_ex (\<lambda>candidate. candidate = name) names then rt_return () else rt_fail ENOENT)"

definition require_kv_bucket :: "'s Env \<Rightarrow> string \<Rightarrow> ('s, unit) rt" where
  "require_kv_bucket env = require env (ms_list_kv_buckets (e_store env))"

definition require_stream :: "'s Env \<Rightarrow> string \<Rightarrow> ('s, unit) rt" where
  "require_stream env = require env (ms_list_streams (e_store env))"

definition require_object_bucket :: "'s Env \<Rightarrow> string \<Rightarrow> ('s, unit) rt" where
  "require_object_bucket env = require env (ms_list_object_buckets (e_store env))"

definition rt_list_stream_messages :: "'s Env \<Rightarrow> string \<Rightarrow> bool \<Rightarrow> ('s, DirectoryEntry list) rt" where
  "rt_list_stream_messages env stream allow_missing_empty =
     rt_bind (rt_call (ms_list_stream_messages (e_store env) stream)) (\<lambda>r st.
       case r of
         Inr entries \<Rightarrow> (Inr entries, st)
       | Inl err \<Rightarrow>
           (if err = NotFound \<and> allow_missing_empty then (Inr [], st)
            else (case io_error env err st of (e, st) \<Rightarrow> (Inl e, st))))"

text \<open>The loop of \<open>collect_stream_subject_snapshot\<close> over the message sequences.\<close>

fun collect_messages ::
  "'s Env \<Rightarrow> string \<Rightarrow> string \<Rightarrow> u64 list \<Rightarrow> bytes \<Rightarrow> SystemTime option
    \<Rightarrow> ('s, bytes \<times> SystemTime option) rt" where
  "collect_messages env stream subject [] bs newest st = (Inr (bs, newest), st)"
| "collect_messages env stream subject (sequence # sequences) bs newest st =
     (case rt_io env (ms_stream_message (e_store env) stream sequence) st of
        (Inl e, st) \<Rightarrow> (Inl e, st)
      | (Inr message, st) \<Rightarrow>
          (if sm_subject message = subject
           then collect_messages env stream subject sequences (append_json_line bs (sm_payload message))
                  (Some (max_system_time newest (sm_published message))) st
           else collect_messages env stream subject sequences bs newest st))"

definition collect_stream_subject_snapshot ::
  "'s Env \<Rightarrow> string \<Rightarrow> string \<Rightarrow> DirectoryEntry list \<Rightarrow> ('s, FileSnapshot) rt" where
  "collect_stream_subject_snapshot env stream subject entries =
     rt_bind (collect_messages env stream subject (List.map_filter message_sequence entries) [] None)
       (\<lambda>(bs, newest). rt_gets (\<lambda>st. \<lparr>fs_bytes = bs,
          fs_version = VersionStamp_at (case newest of Some t \<Rightarrow> t | None \<Rightarrow> rt_mounted_at st)\<rparr>))"

definition read_stream_subject_snapshot :: "'s Env \<Rightarrow> string \<Rightarrow> string \<Rightarrow> ('s, FileSnapshot) rt" where
  "read_stream_subject_snapshot env stream subject =
     rt_bind (rt_list_stream_messages env stream False)
       (collect_stream_subject_snapshot env stream subject)"

definition read_stream_subject_snapshot_allow_missing ::
  "'s Env \<Rightarrow> string \<Rightarrow> string \<Rightarrow> ('s, FileSnapshot) rt" where
  "read_stream_subject_snapshot_allow_missing env stream subject =
     rt_bind (rt_list_stream_messages env stream True)
       (collect_stream_subject_snapshot env stream subject)"

definition read_materialized :: "'s Env \<Rightarrow> MaterializedTarget \<Rightarrow> ('s, FileSnapshot) rt" where
  "read_materialized env target =
     (case target of
        MaterializedTarget.Kv bucket key \<Rightarrow>
          rt_bind (rt_io env (ms_kv_get (e_store env) bucket key)) (\<lambda>entry.
            rt_of (ok_or ENOENT (map_option
              (\<lambda>entry. \<lparr>fs_bytes = kr_bytes entry, fs_version = VersionStamp_at (kr_created entry)\<rparr>) entry)))
      | MaterializedTarget.Stream stream subject \<Rightarrow>
          read_stream_subject_snapshot_allow_missing env stream subject)"

definition mount_version :: "'s Runtime \<Rightarrow> VersionStamp" where
  "mount_version st = VersionStamp_at (rt_mounted_at st)"

text \<open>\<open>[u8]::join\<close> of the error lines.\<close>

fun join_lines :: "string list \<Rightarrow> string" where
  "join_lines [] = []"
| "join_lines [l] = l"
| "join_lines (l # ls) = l @ [newline] @ join_lines ls"

definition metadata_bytes :: "'s Env \<Rightarrow> MetadataFile \<Rightarrow> 's Runtime \<Rightarrow> bytes" where
  "metadata_bytes env file st =
     (case file of
        MetadataFile.Status \<Rightarrow>
          as_bytes (e_json_text env (JObject
            [(''mount_name'', JString (rt_mount_name st)),
             (''state'', JString (if writes_blocked st then ''read_only'' else ''mounted'')),
             (''writes_blocked'', JBool (writes_blocked st)),
             (''queue_pending'', JNumber (qs_pending (queue_state (wr_queue (rt_replay st)))))]))
      | MetadataFile.Cache \<Rightarrow>
          as_bytes (e_json_text env (JObject
            [(''path_entries'', JNumber (length (pc_snapshot (rt_paths st)))),
             (''entries'', JNumber (length (cache_snapshot (rt_cache st)))),
             (''generation'', JNumber (unat (generation (rt_cache st))))]))
      | MetadataFile.Queue \<Rightarrow>
          as_bytes (e_json_text env (e_queue_value env (queue_snapshot (wr_queue (rt_replay st)))))
      | MetadataFile.Capabilities \<Rightarrow>
          as_bytes (e_json_text env (JObject
            [(''roots'', JArray (map JString ROOT_DIRECTORIES)),
             (''kv_history'', JBool True), (''stream_messages_read_only'', JBool True),
             (''jsonl_publish'', JBool True), (''object_store'', JBool True),
             (''writeback_queue'', JBool True)]))
      | MetadataFile.Errors \<Rightarrow>
          as_bytes (join_lines (map (\<lambda>err. e_json_text env (JObject [(''error'', JString err)]))
            (rt_recent_errors st))))"

definition kv_history_directory_entries ::
  "'s Env \<Rightarrow> string \<Rightarrow> string \<Rightarrow> 's \<Rightarrow> ('s, DirectoryEntry list) outcome" where
  "kv_history_directory_entries env bucket key s =
     obind (ms_kv_history (e_store env) bucket key s) (\<lambda>revisions s.
       let entries = map (\<lambda>entry. \<lparr>de_name = ''@'' @ show_u64 (kr_revision entry), de_kind = EntryKind.File\<rparr>) revisions in
         obind (ms_list_kv_history_prefix (e_store env) bucket key s) (\<lambda>children s.
           (Inr (foldl (\<lambda>entries child.
              if \<not> list_ex (\<lambda>entry. de_name entry = de_name child) entries then entries @ [child] else entries)
              entries children), s)))"

definition or_missing :: "'s Env \<Rightarrow> 'a \<Rightarrow> TransportError + 'a \<Rightarrow> ('s, 'a) rt" where
  "or_missing env missing r st =
     (case r of
        Inr x \<Rightarrow> (Inr x, st)
      | Inl err \<Rightarrow>
          (if err = NotFound then (Inr missing, st)
           else (case io_error env err st of (e, st) \<Rightarrow> (Inl e, st))))"

definition list_agents_root :: "'s Env \<Rightarrow> ('s, DirectoryEntry list) rt" where
  "list_agents_root env =
     rt_bind (rt_bind (rt_call (ms_list_kv_prefix (e_store env) AGENTS_BUCKET [])) (or_missing env [])) (\<lambda>entries.
     rt_bind (rt_bind (rt_call (ms_list_agent_names (e_store env))) (or_missing env [])) (\<lambda>names.
       rt_return (names_as_dirs (fold set_insert (map de_name entries @ names) []))))"

definition stream_subject_exists :: "'s Env \<Rightarrow> string \<Rightarrow> string \<Rightarrow> ('s, bool) rt" where
  "stream_subject_exists env stream subject =
     (let subject_file = stream_subject_file_name_from_str subject in
        rt_bind (rt_io env (ms_list_stream_subjects (e_store env) stream)) (\<lambda>entries.
          rt_return (list_ex (\<lambda>entry. de_name entry = subject_file) entries)))"

definition durable_jsonl_applied_prefix :: "'s Env \<Rightarrow> QueuedJsonlEntry \<Rightarrow> ('s, nat) rt" where
  "durable_jsonl_applied_prefix env entry =
     rt_bind (rt_call (publish_json_lines_applied_prefix (e_store env) (qj_stream entry) (qj_subject entry)
               (qj_bytes entry) (qj_idempotency_key entry))) (\<lambda>r st.
       case r of
         Inr applied \<Rightarrow> (Inr applied, st)
       | Inl err \<Rightarrow>
           (Inr 0, record_error (''jsonl durable progress unavailable for '' @ qj_stream entry @ '':''
              @ qj_subject entry @ '': '' @ e_transport_display env err) st))"

definition jsonl_target_for_path :: "JetStreamPath \<Rightarrow> (string \<times> string) option" where
  "jsonl_target_for_path parsed =
     (case parsed of
        JetStreamPath.StreamSubject stream subject \<Rightarrow> Some (stream, subject)
      | _ \<Rightarrow>
          (case from_path parsed of
             Some (MaterializedTarget.Stream stream subject) \<Rightarrow> Some (stream, subject)
           | _ \<Rightarrow> None))"

definition exact_dynamic_file_exists :: "'s Env \<Rightarrow> JetStreamPath \<Rightarrow> ('s, bool) rt" where
  "exact_dynamic_file_exists env parsed =
     (case parsed of
        JetStreamPath.KvKey bucket key \<Rightarrow>
          rt_bind (rt_io env (ms_kv_get (e_store env) bucket key)) (\<lambda>entry. rt_return (entry \<noteq> None))
      | JetStreamPath.Object bucket obj \<Rightarrow>
          rt_bind (rt_object_metadata env bucket obj) (\<lambda>entry. rt_return (entry \<noteq> None))
      | JetStreamPath.AgentRecord _ _ _ \<Rightarrow>
          (case from_path parsed of
             Some (MaterializedTarget.Kv bucket key) \<Rightarrow>
               rt_bind (rt_io env (ms_kv_get (e_store env) bucket key)) (\<lambda>entry. rt_return (entry \<noteq> None))
           | _ \<Rightarrow> rt_return False)
      | JetStreamPath.SemanticRecord _ _ \<Rightarrow>
          (case from_path parsed of
             Some (MaterializedTarget.Kv bucket key) \<Rightarrow>
               rt_bind (rt_io env (ms_kv_get (e_store env) bucket key)) (\<lambda>entry. rt_return (entry \<noteq> None))
           | _ \<Rightarrow> rt_return False)
      | _ \<Rightarrow> rt_return False)"

end
