(* ===== verification/Projection.thy ===== *)
theory Projection
  imports Runtime_State
begin

text \<open>
  \<open>eventfs-fuse/src/fs/mount_projection.rs\<close>: what the mount shows, from the queued overlay, the
  caches and the backend, in this order.

  Applying the queued deletes to a directory asks, for a child, whether that child shows anything,
  which applies the deletes to the child's directory. The source's set of visited paths is empty
  again after each call, so it is passed down. The recursion is on fuel; \<open>overlay_fuel\<close>, one more
  than the depth of the deepest deleted path, is always enough.
\<close>

record MountProjectionAttr =
  pa_kind :: MountProjectionKind
  pa_size :: u64
  pa_version :: VersionStamp

record MountProjectionEntry =
  pe_name :: string
  pe_kind :: MountProjectionKind

datatype MountProjectionWriteMode = WmWholeValue | WmJsonLines

datatype MountProjectionMutation = CreateFile bytes

fun into_default_payload :: "MountProjectionMutation \<Rightarrow> bytes" where
  "into_default_payload (CreateFile default_payload) = default_payload"

definition project_entry :: "DirectoryEntry \<Rightarrow> MountProjectionEntry" where
  "project_entry entry =
     \<lparr>pe_name = de_name entry,
      pe_kind = (case de_kind entry of EntryKind.Directory \<Rightarrow> ProjDirectory | EntryKind.File \<Rightarrow> ProjFile)\<rparr>"

definition projection_kind_from_file_type :: "FileType \<Rightarrow> MountProjectionKind" where
  "projection_kind_from_file_type kind = (case kind of DirectoryType \<Rightarrow> ProjDirectory | _ \<Rightarrow> ProjFile)"

definition cached_projection_kind :: "FileType PathCache \<Rightarrow> MountPath \<Rightarrow> MountProjectionKind option" where
  "cached_projection_kind paths path =
     map_option (\<lambda>(_, kind). projection_kind_from_file_type kind) (pc_entry paths path)"

definition create_default_payload :: "JetStreamAction \<Rightarrow> bytes" where
  "create_default_payload action =
     (case action of
        JetStreamAction.MaterializedPut (MaterializedTarget.Kv _ _) \<Rightarrow> as_bytes ''null''
      | _ \<Rightarrow> [])"

definition projection_allows_missing_materialized_kv_bucket :: "JetStreamPath \<Rightarrow> string \<Rightarrow> bool" where
  "projection_allows_missing_materialized_kv_bucket parsed bucket =
     (case parsed of
        JetStreamPath.TasksRoot \<Rightarrow> bucket = TASKS_BUCKET
      | JetStreamPath.TaskNamespace _ \<Rightarrow> bucket = TASKS_BUCKET
      | JetStreamPath.AgentsRoot \<Rightarrow> bucket = AGENTS_BUCKET
      | JetStreamPath.AgentDirectory _ _ \<Rightarrow> bucket = AGENTS_BUCKET
      | JetStreamPath.SemanticArea _ \<Rightarrow> bucket = SEMANTIC_BUCKET
      | _ \<Rightarrow> False)"

definition deterministic_directory_entries :: "JetStreamPath \<Rightarrow> DirectoryEntry list" where
  "deterministic_directory_entries parsed =
     (case parsed of
        JetStreamPath.KvBucket _ \<Rightarrow> [\<lparr>de_name = ''.history'', de_kind = EntryKind.Directory\<rparr>]
      | _ \<Rightarrow> [])"

section \<open>The overlay of the queue\<close>

definition queued_overlay :: "'s Runtime \<Rightarrow> QueuedOverlayProjection" where
  "queued_overlay st = QueuedOverlayProjection_new (pending_overlays (wr_queue (rt_replay st)))"

definition plan_rt :: "'s Env \<Rightarrow> FileIntent \<Rightarrow> JetStreamPath \<Rightarrow> ('s, JetStreamAction) rt" where
  "plan_rt env intent parsed = rt_of (map_err errno (plan_operation (e_debug env) intent parsed))"

definition proj_list_kv_prefix ::
  "'s Env \<Rightarrow> string \<Rightarrow> string \<Rightarrow> JetStreamPath \<Rightarrow> ('s, DirectoryEntry list) rt" where
  "proj_list_kv_prefix env bucket prfx parsed =
     rt_bind (rt_call (ms_list_kv_prefix (e_store env) bucket prfx)) (\<lambda>r st.
       case r of
         Inr entries \<Rightarrow> (Inr entries, st)
       | Inl err \<Rightarrow>
           (if err = NotFound \<and> projection_allows_missing_materialized_kv_bucket parsed bucket
            then (Inr [], st)
            else (case io_error env err st of (e, st) \<Rightarrow> (Inl e, st))))"

definition static_entry :: "StaticDirectoryEntry \<Rightarrow> DirectoryEntry" where
  "static_entry entry =
     \<lparr>de_name = sde_name entry,
      de_kind = (case sde_kind entry of
                   StaticEntryKind.Directory \<Rightarrow> EntryKind.Directory
                 | StaticEntryKind.File \<Rightarrow> EntryKind.File)\<rparr>"

definition rt_map :: "('a \<Rightarrow> 'b) \<Rightarrow> ('s, 'a) rt \<Rightarrow> ('s, 'b) rt" where
  "rt_map f m = rt_bind m (\<lambda>x. rt_return (f x))"

definition durable_directory_entries :: "'s Env \<Rightarrow> JetStreamPath \<Rightarrow> ('s, DirectoryEntry list) rt" where
  "durable_directory_entries env parsed =
     rt_bind (plan_rt env FileIntent.ReadDir parsed) (\<lambda>action.
       case action of
         JetStreamAction.StaticDirectory entries \<Rightarrow> rt_return (map static_entry entries)
       | JetStreamAction.ListKvBuckets \<Rightarrow> rt_map names_as_dirs (rt_io env (ms_list_kv_buckets (e_store env)))
       | JetStreamAction.ListKvPrefix bucket prfx \<Rightarrow> proj_list_kv_prefix env bucket prfx parsed
       | JetStreamAction.KvHistory bucket key \<Rightarrow> rt_io env (kv_history_directory_entries env bucket key)
       | JetStreamAction.ListKvHistoryPrefix bucket prfx \<Rightarrow>
           rt_io env (ms_list_kv_history_prefix (e_store env) bucket prfx)
       | JetStreamAction.ListStreams \<Rightarrow> rt_map names_as_dirs (rt_io env (ms_list_streams (e_store env)))
       | JetStreamAction.ListEventLogs \<Rightarrow>
           rt_map names_as_event_files (rt_io env (ms_list_streams (e_store env)))
       | JetStreamAction.ListAgents \<Rightarrow> list_agents_root env
       | JetStreamAction.ListStreamMessages stream \<Rightarrow> rt_list_stream_messages env stream False
       | JetStreamAction.ListStreamSubjects stream \<Rightarrow>
           rt_io env (ms_list_stream_subjects (e_store env) stream)
       | JetStreamAction.ListObjectBuckets \<Rightarrow>
           rt_map names_as_dirs (rt_io env (ms_list_object_buckets (e_store env)))
       | JetStreamAction.ListObjectPrefix bucket prfx \<Rightarrow>
           rt_io env (ms_list_object_prefix (e_store env) bucket prfx)
       | JetStreamAction.NoopDirectory \<Rightarrow> rt_return []
       | _ \<Rightarrow> rt_fail ENOTDIR)"

section \<open>Queued deletes in a directory\<close>

text \<open>\<open>overlay_rec\<close> is \<open>apply_queued_overlay_to_directory\<close>.\<close>

type_synonym 's overlay_rec =
  "MountPath \<Rightarrow> MountPath set \<Rightarrow> DirectoryEntry list \<Rightarrow> 's Runtime \<Rightarrow> DirectoryEntry list \<times> 's Runtime"

definition known_visible_entries ::
  "'s Env \<Rightarrow> 's overlay_rec \<Rightarrow> MountPath \<Rightarrow> MountPath set \<Rightarrow> 's Runtime \<Rightarrow> bool \<times> 's Runtime" where
  "known_visible_entries env overlay path visited st =
     (if path \<in> visited then (False, st)
      else (case rt_bind (parse_path path) (durable_directory_entries env) st of
              (r, st) \<Rightarrow>
                (case overlay path (insert path visited) (case r of Inr entries \<Rightarrow> entries | Inl _ \<Rightarrow> []) st of
                   (entries, st) \<Rightarrow> (entries \<noteq> [], st))))"

definition visible_entries ::
  "'s Env \<Rightarrow> 's overlay_rec \<Rightarrow> MountPath \<Rightarrow> MountPath set \<Rightarrow> 's Runtime \<Rightarrow> bool \<times> 's Runtime" where
  "visible_entries env overlay path visited st =
     (if path \<in> visited then (True, st)
      else (case rt_bind (parse_path path) (durable_directory_entries env) st of
              (Inl _, st) \<Rightarrow> (True, st)
            | (Inr entries, st) \<Rightarrow>
                (case overlay path (insert path visited) entries st of
                   (entries, st) \<Rightarrow> (entries \<noteq> [], st))))"

definition queued_exact_file_delete_reveals_directory ::
  "'s Env \<Rightarrow> 's overlay_rec \<Rightarrow> MountPath \<Rightarrow> MountPath set \<Rightarrow> 's Runtime \<Rightarrow> bool \<times> 's Runtime" where
  "queued_exact_file_delete_reveals_directory env overlay path visited st =
     (if delete_can_elide_directory_child path then known_visible_entries env overlay path visited st
      else (False, st))"

definition queued_directory_child_has_exact_dynamic_file ::
  "'s Env \<Rightarrow> MountPath \<Rightarrow> 's Runtime \<Rightarrow> bool \<times> 's Runtime" where
  "queued_directory_child_has_exact_dynamic_file env path st =
     (case rt_bind (parse_path path) (exact_dynamic_file_exists env) st of
        (Inr b, st) \<Rightarrow> (b, st)
      | (Inl _, st) \<Rightarrow> (False, st))"

definition apply_deleted_path ::
  "'s Env \<Rightarrow> 's overlay_rec \<Rightarrow> MountPath \<Rightarrow> MountPath set
    \<Rightarrow> DirectoryEntry list \<times> 's Runtime \<Rightarrow> MountPath \<Rightarrow> DirectoryEntry list \<times> 's Runtime" where
  "apply_deleted_path env overlay path visited = (\<lambda>(entries, st) deleted_path.
     case queued_directory_child path deleted_path of
       None \<Rightarrow> (entries, st)
     | Some child \<Rightarrow>
         (case join_child path (de_name child) of
            Inl _ \<Rightarrow> (entries, st)
          | Inr child_mount \<Rightarrow>
              (case de_kind child of
                 EntryKind.File \<Rightarrow>
                   (case queued_exact_file_delete_reveals_directory env overlay child_mount visited st of
                      (True, st) \<Rightarrow>
                        (insert_directory_entry_sorted entries
                           \<lparr>de_name = de_name child, de_kind = EntryKind.Directory\<rparr>, st)
                    | (False, st) \<Rightarrow> (filter (\<lambda>entry. de_name entry \<noteq> de_name child) entries, st))
               | EntryKind.Directory \<Rightarrow>
                   (if delete_can_elide_directory_child child_mount
                       \<and> \<not> directory_entries_contain_exact_file entries (de_name child)
                    then (case queued_directory_child_has_exact_dynamic_file env child_mount st of
                            (True, st) \<Rightarrow> (entries, st)
                          | (False, st) \<Rightarrow>
                              (case visible_entries env overlay child_mount visited st of
                                 (True, st) \<Rightarrow> (entries, st)
                               | (False, st) \<Rightarrow>
                                   (filter (\<lambda>entry. de_name entry \<noteq> de_name child) entries, st)))
                    else (entries, st)))))"

definition apply_change ::
  "'s Env \<Rightarrow> 's overlay_rec \<Rightarrow> MountPath \<Rightarrow> MountPath set
    \<Rightarrow> DirectoryEntry list \<times> 's Runtime \<Rightarrow> QueuedOverlayChange \<Rightarrow> DirectoryEntry list \<times> 's Runtime" where
  "apply_change env overlay path visited es change =
     (case foldl (apply_deleted_path env overlay path visited) es (qo_deleted_paths change) of
        (entries, st) \<Rightarrow> (foldl (insert_queued_child path) entries (qo_visible_paths change), st))"

primrec apply_queued_overlay_to_directory :: "nat \<Rightarrow> 's Env \<Rightarrow> 's overlay_rec" where
  "apply_queued_overlay_to_directory 0 env = (\<lambda>path visited entries st. (entries, st))"
| "apply_queued_overlay_to_directory (Suc n) env = (\<lambda>path visited entries st.
     foldl (apply_change env (apply_queued_overlay_to_directory n env) path visited) (entries, st)
       (overlay_changes (queued_overlay st)))"

definition deleted_paths_of :: "'s Runtime \<Rightarrow> MountPath list" where
  "deleted_paths_of st = concat (map qo_deleted_paths (overlay_changes (queued_overlay st)))"

definition overlay_fuel :: "'s Runtime \<Rightarrow> nat" where
  "overlay_fuel st = Suc (foldr max (map (\<lambda>p. length (MountPath_components p)) (deleted_paths_of st)) 0)"

definition the_overlay :: "'s Env \<Rightarrow> 's Runtime \<Rightarrow> 's overlay_rec" where
  "the_overlay env st = apply_queued_overlay_to_directory (overlay_fuel st) env"

definition apply_queued_deletes_to_directory ::
  "'s Env \<Rightarrow> MountPath \<Rightarrow> DirectoryEntry list \<Rightarrow> ('s, DirectoryEntry list) rt" where
  "apply_queued_deletes_to_directory env path entries st =
     (case the_overlay env st path {} entries st of (entries, st) \<Rightarrow> (Inr entries, st))"

definition queued_exact_delete_reveals_synthetic_directory ::
  "'s Env \<Rightarrow> MountPath \<Rightarrow> JetStreamPath \<Rightarrow> ('s, bool) rt" where
  "queued_exact_delete_reveals_synthetic_directory env path parsed st =
     (case known_visible_entries env (the_overlay env st) path {} st of
        (b, st) \<Rightarrow> (Inr (exact_delete_reveals_synthetic_directory parsed b), st))"

definition queued_deleted_descendant_empties_synthetic_directory ::
  "'s Env \<Rightarrow> MountPath \<Rightarrow> JetStreamPath \<Rightarrow> ('s, bool) rt" where
  "queued_deleted_descendant_empties_synthetic_directory env path parsed =
     rt_bind (rt_gets queued_overlay) (\<lambda>overlay.
       if \<not> has_deleted_descendant overlay path then rt_return False
       else rt_bind (exact_dynamic_file_exists env parsed) (\<lambda>exact st.
              case visible_entries env (the_overlay env st) path {} st of
                (has_visible, st) \<Rightarrow>
                  (Inr (deleted_descendant_empties_synthetic_directory parsed exact has_visible), st)))"

definition merge_queued_directory_entries ::
  "'s Env \<Rightarrow> JetStreamPath \<Rightarrow> MountPath \<Rightarrow> Errno + DirectoryEntry list \<Rightarrow> ('s, DirectoryEntry list) rt" where
  "merge_queued_directory_entries env parsed path entries =
     rt_bind (rt_gets (\<lambda>st. directory_entries (queued_overlay st) path)) (\<lambda>queued.
       let local_entries = deterministic_directory_entries parsed in
       case entries of
         Inr entries \<Rightarrow>
           apply_queued_deletes_to_directory env path
             (foldl insert_directory_entry (foldl insert_directory_entry_sorted entries local_entries) queued)
       | Inl err \<Rightarrow>
           (if directory_listing_unavailable err \<and> queued \<noteq> []
            then apply_queued_deletes_to_directory env path
                   (foldl insert_directory_entry_sorted local_entries queued)
            else rt_fail err))"

section \<open>Reading a file\<close>

text \<open>The loop over the queued JSON-lines entries of a path.\<close>

fun append_unapplied ::
  "'s Env \<Rightarrow> MountPath \<Rightarrow> QueuedJsonlEntry list \<Rightarrow> FileSnapshot \<Rightarrow> VersionStamp option
    \<Rightarrow> ('s, FileSnapshot \<times> VersionStamp option) rt" where
  "append_unapplied env path [] snapshot pending_version st = (Inr (snapshot, pending_version), st)"
| "append_unapplied env path (entry # entries) snapshot pending_version st =
     (case durable_jsonl_applied_prefix env entry st of
        (Inl e, st) \<Rightarrow> (Inl e, st)
      | (Inr durable, st) \<Rightarrow>
          (case unapplied_jsonl_bytes (e_json env) path (qj_bytes entry) (max durable (qj_applied_lines entry)) of
             Inl e \<Rightarrow> (Inl e, st)
           | Inr unapplied \<Rightarrow>
               append_unapplied env path entries (snapshot\<lparr>fs_bytes := fs_bytes snapshot @ unapplied\<rparr>)
                 (Some (max_version_stamp pending_version (qj_version entry))) st))"

definition jsonl_base :: "'s Env \<Rightarrow> MountPath \<Rightarrow> JetStreamPath \<Rightarrow> ('s, FileSnapshot) rt" where
  "jsonl_base env path parsed =
     rt_bind (rt_gets (\<lambda>st. (cache_get (rt_cache st) path,
                            \<lparr>fs_bytes = [], fs_version = mount_version st\<rparr>))) (\<lambda>(cached, blank).
       case cached of
         Some entry \<Rightarrow> rt_return \<lparr>fs_bytes = ce_bytes entry, fs_version = ce_version entry\<rparr>
       | None \<Rightarrow>
           (case jsonl_target_for_path parsed of
              None \<Rightarrow> rt_return blank
            | Some (stream, subject) \<Rightarrow>
                rt_bind (rt_try (read_stream_subject_snapshot_allow_missing env stream subject)) (\<lambda>r.
                  case r of
                    Inr snapshot \<Rightarrow> rt_return snapshot
                  | Inl err \<Rightarrow> (if directory_listing_unavailable err then rt_return blank else rt_fail err))))"

definition queued_jsonl_snapshot ::
  "'s Env \<Rightarrow> MountPath \<Rightarrow> JetStreamPath \<Rightarrow> ('s, FileSnapshot option) rt" where
  "queued_jsonl_snapshot env path parsed =
     rt_bind (rt_gets (\<lambda>st. jsonl_entries (queued_overlay st) path)) (\<lambda>pending.
       if pending = [] then rt_return None
       else rt_bind (jsonl_base env path parsed) (\<lambda>snapshot.
            rt_bind (append_unapplied env path pending snapshot None) (\<lambda>(snapshot, pending_version).
              rt_return (Some (case pending_version of
                 Some version \<Rightarrow>
                   snapshot\<lparr>fs_version := max_version_stamp (Some (fs_version snapshot)) version\<rparr>
               | None \<Rightarrow> snapshot)))))"

definition cache_put :: "MountPath \<Rightarrow> CacheOrigin \<Rightarrow> VersionStamp \<Rightarrow> bytes \<Rightarrow> ('s, unit) rt" where
  "cache_put path origin version bs =
     rt_modify (\<lambda>st. st\<lparr>rt_cache := cache_insert
       \<lparr>ce_path = path, ce_origin = origin, ce_version = version, ce_bytes = bs, ce_valid = True\<rparr> (rt_cache st)\<rparr>)"

definition caching :: "MountPath \<Rightarrow> CacheOrigin \<Rightarrow> FileSnapshot \<Rightarrow> ('s, FileSnapshot) rt" where
  "caching path origin snapshot =
     rt_bind (cache_put path origin (fs_version snapshot) (fs_bytes snapshot)) (\<lambda>_. rt_return snapshot)"

definition kv_snapshot :: "KeyRevision \<Rightarrow> FileSnapshot" where
  "kv_snapshot entry = \<lparr>fs_bytes = kr_bytes entry, fs_version = VersionStamp_at (kr_created entry)\<rparr>"

text \<open>The part of \<open>read_snapshot\<close> that asks the backend.\<close>

definition read_durable :: "'s Env \<Rightarrow> MountPath \<Rightarrow> JetStreamPath \<Rightarrow> ('s, FileSnapshot) rt" where
  "read_durable env path parsed =
     rt_bind (plan_rt env FileIntent.Read parsed) (\<lambda>action.
       case action of
         JetStreamAction.KvGet bucket key \<Rightarrow>
           rt_bind (rt_bind (rt_io env (ms_kv_get (e_store env) bucket key)) (\<lambda>e. rt_of (ok_or ENOENT e))) (\<lambda>entry.
             caching path (CacheOrigin.KvRevision bucket key (kr_revision entry)) (kv_snapshot entry))
       | JetStreamAction.KvRevision bucket key revision \<Rightarrow>
           rt_bind (rt_bind (rt_io env (ms_kv_revision (e_store env) bucket key revision)) (\<lambda>e. rt_of (ok_or ENOENT e))) (\<lambda>entry.
             caching path (CacheOrigin.KvRevision bucket key revision) (kv_snapshot entry))
       | JetStreamAction.StreamMessage stream sequence \<Rightarrow>
           rt_bind (rt_io env (ms_stream_message (e_store env) stream sequence)) (\<lambda>message.
           rt_bind (rt_io env (\<lambda>s. (e_message_bytes env message, s))) (\<lambda>bs.
             caching path (CacheOrigin.StreamSequence stream sequence)
               \<lparr>fs_bytes = bs, fs_version = VersionStamp_at (sm_published message)\<rparr>))
       | JetStreamAction.ObjectGet bucket obj \<Rightarrow>
           rt_bind (rt_bind (rt_io env (ms_object_get (e_store env) bucket obj)) (\<lambda>e. rt_of (ok_or ENOENT e))) (\<lambda>entry.
             caching path (CacheOrigin.ObjectVersion bucket obj)
               \<lparr>fs_bytes = ov_bytes entry, fs_version = VersionStamp_at (ov_modified entry)\<rparr>)
       | JetStreamAction.MetadataRead file \<Rightarrow>
           rt_gets (\<lambda>st. \<lparr>fs_bytes = metadata_bytes env file st, fs_version = mount_version st\<rparr>)
       | JetStreamAction.MaterializedGet target \<Rightarrow>
           rt_bind (read_materialized env target) (caching path (CacheOrigin.MaterializedView path))
       | JetStreamAction.PublishJsonLines _ _ \<Rightarrow>
           (case jsonl_target_for_path parsed of
              Some (stream, subject) \<Rightarrow> read_stream_subject_snapshot env stream subject
            | None \<Rightarrow> rt_gets (\<lambda>st. \<lparr>fs_bytes = [], fs_version = mount_version st\<rparr>))
       | _ \<Rightarrow> rt_fail EISDIR)"

definition read_snapshot :: "'s Env \<Rightarrow> MountPath \<Rightarrow> JetStreamPath \<Rightarrow> ('s, FileSnapshot) rt" where
  "read_snapshot env path parsed =
     rt_bind (rt_gets queued_overlay) (\<lambda>overlay.
       if latest_delete_covers overlay path then rt_fail ENOENT
       else (case whole_value_snapshot overlay path of
         Some snapshot \<Rightarrow> rt_return snapshot
       | None \<Rightarrow>
           rt_bind (queued_jsonl_snapshot env path parsed) (\<lambda>queued.
             case queued of
               Some snapshot \<Rightarrow> rt_return snapshot
             | None \<Rightarrow>
                 rt_bind (rt_gets (\<lambda>st. cache_get (rt_cache st) path)) (\<lambda>cached.
                   case cached of
                     Some entry \<Rightarrow> rt_return \<lparr>fs_bytes = ce_bytes entry, fs_version = ce_version entry\<rparr>
                   | None \<Rightarrow>
                       rt_bind (case parsed of
                           JetStreamPath.StreamSubject stream subject \<Rightarrow>
                             rt_bind (require_stream env stream) (\<lambda>_.
                             rt_bind (stream_subject_exists env stream subject) (\<lambda>ex.
                               if \<not> ex then rt_fail ENOENT else rt_return ()))
                         | _ \<Rightarrow> rt_return ())
                         (\<lambda>_. read_durable env path parsed)))))"

definition snapshot_metadata :: "FileSnapshot \<Rightarrow> FileMetadata" where
  "snapshot_metadata snapshot =
     \<lparr>fm_size = word_of_nat (length (fs_bytes snapshot)), fm_version = fs_version snapshot\<rparr>"

definition attr_metadata :: "'s Env \<Rightarrow> MountPath \<Rightarrow> JetStreamPath \<Rightarrow> ('s, FileMetadata) rt" where
  "attr_metadata env path parsed =
     rt_bind (rt_gets queued_overlay) (\<lambda>overlay.
       if latest_delete_covers overlay path then rt_fail ENOENT
       else (case whole_value_snapshot overlay path of
         Some snapshot \<Rightarrow> rt_return (snapshot_metadata snapshot)
       | None \<Rightarrow>
           rt_bind (queued_jsonl_snapshot env path parsed) (\<lambda>queued.
             case queued of
               Some snapshot \<Rightarrow> rt_return (snapshot_metadata snapshot)
             | None \<Rightarrow>
                 rt_bind (rt_gets (\<lambda>st. cache_get (rt_cache st) path)) (\<lambda>cached.
                   case cached of
                     Some entry \<Rightarrow>
                       rt_return (snapshot_metadata \<lparr>fs_bytes = ce_bytes entry, fs_version = ce_version entry\<rparr>)
                   | None \<Rightarrow>
                       (case parsed of
                          JetStreamPath.Object bucket obj \<Rightarrow>
                            rt_bind (rt_object_metadata env bucket obj) (\<lambda>m.
                              rt_of (ok_or ENOENT (map_option
                                (\<lambda>m. \<lparr>fm_size = om_size m, fm_version = VersionStamp_at (om_modified m)\<rparr>) m)))
                        | _ \<Rightarrow> rt_map snapshot_metadata (read_snapshot env path parsed))))))"

section \<open>The kind of a path\<close>

text \<open>The last match of \<open>kind_for_parsed\<close>.\<close>

definition durable_kind :: "'s Env \<Rightarrow> JetStreamPath \<Rightarrow> ('s, MountProjectionKind) rt" where
  "durable_kind env parsed =
     (case parsed of
        JetStreamPath.Root \<Rightarrow> rt_return ProjDirectory
      | JetStreamPath.KvRoot \<Rightarrow> rt_return ProjDirectory
      | JetStreamPath.StreamsRoot \<Rightarrow> rt_return ProjDirectory
      | JetStreamPath.ObjectsRoot \<Rightarrow> rt_return ProjDirectory
      | JetStreamPath.EventsRoot \<Rightarrow> rt_return ProjDirectory
      | JetStreamPath.TasksRoot \<Rightarrow> rt_return ProjDirectory
      | JetStreamPath.AgentsRoot \<Rightarrow> rt_return ProjDirectory
      | JetStreamPath.SemanticRoot \<Rightarrow> rt_return ProjDirectory
      | JetStreamPath.MetadataRoot \<Rightarrow> rt_return ProjDirectory
      | JetStreamPath.KvBucket bucket \<Rightarrow> rt_bind (require_kv_bucket env bucket) (\<lambda>_. rt_return ProjDirectory)
      | JetStreamPath.KvHistoryRoot bucket \<Rightarrow>
          rt_bind (require_kv_bucket env bucket) (\<lambda>_. rt_return ProjDirectory)
      | JetStreamPath.KvHistoryKey bucket key \<Rightarrow>
          rt_bind (rt_io env (ms_kv_history (e_store env) bucket key)) (\<lambda>revisions.
            if revisions \<noteq> [] then rt_return ProjDirectory
            else rt_bind (rt_io env (ms_list_kv_history_prefix (e_store env) bucket key)) (\<lambda>entries.
                   if entries = [] then rt_fail ENOENT else rt_return ProjDirectory))
      | JetStreamPath.StreamRoot stream \<Rightarrow> rt_bind (require_stream env stream) (\<lambda>_. rt_return ProjDirectory)
      | JetStreamPath.StreamMessages stream \<Rightarrow>
          rt_bind (require_stream env stream) (\<lambda>_. rt_return ProjDirectory)
      | JetStreamPath.StreamSubjects stream \<Rightarrow>
          rt_bind (require_stream env stream) (\<lambda>_. rt_return ProjDirectory)
      | JetStreamPath.StreamSubject stream subject \<Rightarrow>
          rt_bind (require_stream env stream) (\<lambda>_.
          rt_bind (stream_subject_exists env stream subject) (\<lambda>ex.
            if ex then rt_return ProjFile else rt_fail ENOENT))
      | JetStreamPath.ObjectBucket bucket \<Rightarrow>
          rt_bind (require_object_bucket env bucket) (\<lambda>_. rt_return ProjDirectory)
      | JetStreamPath.TaskNamespace _ \<Rightarrow> rt_return ProjDirectory
      | JetStreamPath.AgentRoot _ \<Rightarrow> rt_return ProjDirectory
      | JetStreamPath.AgentDirectory _ _ \<Rightarrow> rt_return ProjDirectory
      | JetStreamPath.SemanticArea _ \<Rightarrow> rt_return ProjDirectory
      | JetStreamPath.KvKey bucket key \<Rightarrow> kv_prefix_projection_kind env bucket key
      | JetStreamPath.AgentRecord _ _ _ \<Rightarrow>
          (case from_path parsed of
             Some (MaterializedTarget.Kv bucket key) \<Rightarrow> kv_prefix_projection_kind env bucket key
           | _ \<Rightarrow> rt_return ProjFile)
      | JetStreamPath.SemanticRecord _ _ \<Rightarrow>
          (case from_path parsed of
             Some (MaterializedTarget.Kv bucket key) \<Rightarrow> kv_prefix_projection_kind env bucket key
           | _ \<Rightarrow> rt_return ProjFile)
      | JetStreamPath.Object bucket obj \<Rightarrow>
          rt_bind (classify_object_dynamic_path env bucket obj) (\<lambda>kind.
            rt_return (if kind = DpDirectory then ProjDirectory else ProjFile))
      | _ \<Rightarrow> rt_return ProjFile)"

definition settle :: "MountPath \<Rightarrow> Errno + 'a \<Rightarrow> ('s, 'a) rt" where
  "settle path r st = (r, clear_stale_path path st)"

definition kind_for_parsed :: "'s Env \<Rightarrow> MountPath \<Rightarrow> JetStreamPath \<Rightarrow> ('s, MountProjectionKind) rt" where
  "kind_for_parsed env path parsed =
     rt_bind (rt_gets queued_overlay) (\<lambda>overlay.
       if latest_delete_covers overlay path then
         rt_bind (queued_exact_delete_reveals_synthetic_directory env path parsed) (\<lambda>revealed.
           settle path (if revealed then Inr ProjDirectory else Inl ENOENT))
       else if whole_value_snapshot overlay path \<noteq> None then settle path (Inr ProjFile)
       else if has_jsonl_entry overlay path then settle path (Inr ProjFile)
       else if directory_entries overlay path \<noteq> [] then settle path (Inr ProjDirectory)
       else rt_bind (queued_deleted_descendant_empties_synthetic_directory env path parsed) (\<lambda>emptied.
         if emptied then settle path (Inl ENOENT)
         else rt_bind (rt_gets (\<lambda>st. (path \<in> rt_stale_paths st, cached_projection_kind (rt_paths st) path,
                                     cache_get (rt_cache st) path))) (\<lambda>(stale, known, cached).
           case (if stale then None else known) of
             Some kind \<Rightarrow> rt_return kind
           | None \<Rightarrow> if cached \<noteq> None then settle path (Inr ProjFile) else durable_kind env parsed)))"

section \<open>The projection's operations\<close>

definition proj_attr :: "'s Env \<Rightarrow> MountPath \<Rightarrow> ('s, MountProjectionAttr) rt" where
  "proj_attr env path =
     rt_bind (apply_pending_watch_events env) (\<lambda>_.
     rt_bind (parse_path path) (\<lambda>parsed.
     rt_bind (kind_for_parsed env path parsed) (\<lambda>kind.
     rt_bind (if kind = ProjDirectory then rt_return None
              else rt_map Some (attr_metadata env path parsed)) (\<lambda>metadata.
       rt_gets (\<lambda>st.
         \<lparr>pa_kind = kind, pa_size = (case metadata of Some m \<Rightarrow> fm_size m | None \<Rightarrow> 0),
          pa_version = (case metadata of
             Some m \<Rightarrow> fm_version m
           | None \<Rightarrow> (case overlay_version (queued_overlay st) path of
                        Some v \<Rightarrow> v | None \<Rightarrow> mount_version st))\<rparr>)))))"

definition proj_read_bytes :: "'s Env \<Rightarrow> MountPath \<Rightarrow> ('s, bytes) rt" where
  "proj_read_bytes env path =
     rt_bind (apply_pending_watch_events env) (\<lambda>_.
     rt_bind (parse_path path) (\<lambda>parsed.
       rt_map fs_bytes (read_snapshot env path parsed)))"

definition proj_directory_entries :: "'s Env \<Rightarrow> MountPath \<Rightarrow> ('s, MountProjectionEntry list) rt" where
  "proj_directory_entries env path =
     rt_bind (apply_pending_watch_events env) (\<lambda>_.
     rt_bind (parse_path path) (\<lambda>parsed.
     rt_bind (rt_try (durable_directory_entries env parsed)) (\<lambda>entries.
       rt_map (map project_entry) (merge_queued_directory_entries env parsed path entries))))"

definition proj_write_mode :: "'s Env \<Rightarrow> MountPath \<Rightarrow> ('s, MountProjectionWriteMode) rt" where
  "proj_write_mode env path =
     rt_bind (parse_path path) (\<lambda>parsed.
     rt_bind (plan_rt env FileIntent.Write parsed) (\<lambda>action.
       rt_return (case action of
          JetStreamAction.PublishJsonLines _ _ \<Rightarrow> WmJsonLines
        | JetStreamAction.MaterializedPut (MaterializedTarget.Stream _ _) \<Rightarrow> WmJsonLines
        | _ \<Rightarrow> WmWholeValue)))"

definition queued_create_target_kind ::
  "'s Env \<Rightarrow> MountPath \<Rightarrow> JetStreamPath \<Rightarrow> ('s, DynamicPathKind option) rt" where
  "queued_create_target_kind env path parsed =
     rt_bind (rt_gets queued_overlay) (\<lambda>overlay.
       if latest_delete_covers overlay path then
         rt_bind (queued_exact_delete_reveals_synthetic_directory env path parsed) (\<lambda>revealed.
           rt_return (Some (if revealed then DpDirectory else DpMissing)))
       else if whole_value_snapshot overlay path \<noteq> None \<or> has_jsonl_entry overlay path
       then rt_return (Some DpFile)
       else if directory_entries overlay path \<noteq> [] then rt_return (Some DpDirectory)
       else rt_bind (queued_deleted_descendant_empties_synthetic_directory env path parsed) (\<lambda>emptied.
              rt_return (if emptied then Some DpMissing else None)))"

definition materialized_kv_create_target_kind ::
  "'s Env \<Rightarrow> string \<Rightarrow> string \<Rightarrow> ('s, DynamicPathKind) rt" where
  "materialized_kv_create_target_kind env bucket key =
     rt_bind (rt_try (classify_kv_dynamic_path env bucket key)) (\<lambda>r.
       rt_of (if r = Inl ENOENT then Inr DpMissing else r))"

definition create_target_kind ::
  "'s Env \<Rightarrow> MountPath \<Rightarrow> JetStreamPath \<Rightarrow> JetStreamAction \<Rightarrow> ('s, DynamicPathKind) rt" where
  "create_target_kind env path parsed action =
     rt_bind (queued_create_target_kind env path parsed) (\<lambda>queued.
       case queued of
         Some kind \<Rightarrow> rt_return kind
       | None \<Rightarrow>
           (case action of
              JetStreamAction.KvPut bucket key \<Rightarrow> classify_kv_dynamic_path env bucket key
            | JetStreamAction.ObjectPut bucket obj \<Rightarrow> classify_object_dynamic_path env bucket obj
            | JetStreamAction.MaterializedPut (MaterializedTarget.Kv bucket key) \<Rightarrow>
                materialized_kv_create_target_kind env bucket key
            | _ \<Rightarrow> rt_return DpMissing))"

definition create_target :: "'s Env \<Rightarrow> MountPath \<Rightarrow> ('s, MountProjectionMutation) rt" where
  "create_target env path =
     rt_bind (apply_pending_watch_events env) (\<lambda>_.
     rt_bind (parse_path path) (\<lambda>parsed.
     rt_bind (plan_rt env FileIntent.Create parsed) (\<lambda>action.
       if action_publishes_jsonl action then rt_fail ENOTSUP
       else rt_bind (create_target_kind env path parsed action) (\<lambda>kind.
              case kind of
                DpMissing \<Rightarrow> rt_return (CreateFile (create_default_payload action))
              | DpFile \<Rightarrow> rt_fail EEXIST
              | DpDirectory \<Rightarrow> rt_fail EISDIR))))"

end
