(* ===== verification/Runtime_Ops.thy ===== *)
theory Runtime_Ops
  imports Projection
begin

unbundle bit_operations_syntax

text \<open>
  \<open>eventfs-fuse/src/fs/runtime.rs\<close>, second part: file handles, committing a write or queueing it,
  and unlink, mkdir, rename and mknod. Sizes are \<open>usize\<close>; where the source checks or saturates
  an addition the bound of 64 bits is written out.
\<close>

section \<open>Handles\<close>

definition next_commit_seed :: "'s Runtime \<Rightarrow> string \<times> 's Runtime" where
  "next_commit_seed st =
     (rt_mount_name st @ '':'' @ show_nat (rt_mount_instance st) @ '':'' @ show_u64 (rt_next_commit_id st),
      st\<lparr>rt_next_commit_id := saturating_add_one (rt_next_commit_id st)\<rparr>)"

definition rt_seed :: "('s, string) rt" where
  "rt_seed st = (case next_commit_seed st of (seed, st) \<Rightarrow> (Inr seed, st))"

definition rt_now :: "'s Env \<Rightarrow> ('s, SystemTime) rt" where
  "rt_now env st = (Inr (e_now env (rt_ticks st)), st\<lparr>rt_ticks := Suc (rt_ticks st)\<rparr>)"

definition staged_create :: "'s Env \<Rightarrow> bytes \<Rightarrow> ('s, StagedCreate) rt" where
  "staged_create env default_payload = rt_bind (rt_now env) (\<lambda>now.
     rt_return \<lparr>sc_default_payload = default_payload, sc_version = VersionStamp_at now\<rparr>)"

definition write_mode_for_path :: "'s Env \<Rightarrow> MountPath \<Rightarrow> ('s, HandleMode) rt" where
  "write_mode_for_path env path =
     rt_map (\<lambda>mode. case mode of WmWholeValue \<Rightarrow> WholeValueMode | WmJsonLines \<Rightarrow> JsonLinesMode)
       (proj_write_mode env path)"

definition initial_handle_state ::
  "'s Env \<Rightarrow> MountPath \<Rightarrow> bool \<Rightarrow> HandleMode \<Rightarrow> bool \<Rightarrow> bool \<Rightarrow> ('s, bytes \<times> nat \<times> StagedCreate option) rt" where
  "initial_handle_state env path writable mode trunc create =
     (if \<not> writable then rt_return ([], 0, None)
      else if create then
        rt_bind (create_target env path) (\<lambda>target.
        rt_bind (staged_create env (into_default_payload target)) (\<lambda>staged.
          rt_return ([], 0, Some staged)))
      else if trunc then rt_return ([], 0, None)
      else if mode = JsonLinesMode then
        rt_bind (rt_try (proj_read_bytes env path)) (\<lambda>r.
          case r of
            Inr bs \<Rightarrow> rt_return ([], length bs, None)
          | Inl err \<Rightarrow> if err = ENOENT then rt_return ([], 0, None) else rt_fail err)
      else rt_map (\<lambda>bs. (bs, 0, None)) (proj_read_bytes env path))"

definition build_handle ::
  "'s Env \<Rightarrow> MountPath \<Rightarrow> bool \<Rightarrow> bool \<Rightarrow> bool \<Rightarrow> ('s, Handle) rt" where
  "build_handle env path writable trunc create =
     rt_bind (if writable then ensure_writes_allowed else rt_return ()) (\<lambda>_.
     rt_bind (if writable then write_mode_for_path env path else rt_return WholeValueMode) (\<lambda>mode.
       if trunc \<and> mode = JsonLinesMode then rt_fail EROFS
       else
         rt_bind (initial_handle_state env path writable mode trunc create) (\<lambda>(buffer, base_offset, staged).
         rt_bind rt_seed (\<lambda>commit_seed.
           rt_return \<lparr>h_path = path, h_buffer = buffer, h_dirty = writable \<and> (trunc \<or> create),
             h_committed = False, h_writable = writable, h_commit_seed = commit_seed, h_mode = mode,
             h_base_offset = base_offset, h_staged_create = staged\<rparr>))))"

definition open_handle :: "'s Env \<Rightarrow> MountPath \<Rightarrow> bool \<Rightarrow> bool \<Rightarrow> bool \<Rightarrow> ('s, u64) rt" where
  "open_handle env path writable trunc create st =
     (let fh = rt_next_fh st in
        rt_bind (build_handle env path writable trunc create) (\<lambda>handle.
        rt_bind (rt_modify (\<lambda>st. st\<lparr>rt_handles := map_insert fh handle (rt_handles st)\<rparr>)) (\<lambda>_.
          rt_return fh)) (st\<lparr>rt_next_fh := fh + 1\<rparr>))"

definition set_handle :: "u64 \<Rightarrow> Handle \<Rightarrow> 's Runtime \<Rightarrow> 's Runtime" where
  "set_handle fh handle st = st\<lparr>rt_handles := map_insert fh handle (rt_handles st)\<rparr>"

text \<open>\<open>resize(n, 0)\<close> on a shorter buffer, and \<open>copy_from_slice\<close> into \<open>start..end\<close>.\<close>

definition zero_extend :: "nat \<Rightarrow> bytes \<Rightarrow> bytes" where
  "zero_extend n buffer = (if length buffer < n then buffer @ replicate (n - length buffer) 0 else buffer)"

definition splice :: "nat \<Rightarrow> bytes \<Rightarrow> bytes \<Rightarrow> bytes" where
  "splice start data buffer = take start buffer @ data @ drop (start + length data) buffer"

text \<open>What a write to a handle that was looked up does to it; \<open>Inl\<close> with the handle as it is then.\<close>

definition handle_write :: "nat \<Rightarrow> bytes \<Rightarrow> Handle \<Rightarrow> (Errno + unit) \<times> Handle" where
  "handle_write absolute_start data handle =
     (if \<not> h_writable handle then (Inl EBADF, handle)
      else (case (if h_mode handle = WholeValueMode then Some absolute_start
                  else if h_base_offset handle \<le> absolute_start then Some (absolute_start - h_base_offset handle)
                  else None) of
              None \<Rightarrow> (Inl EINVAL, handle)
            | Some start \<Rightarrow>
                (let handle = handle\<lparr>h_buffer := zero_extend start (h_buffer handle)\<rparr>;
                     stop = start + length data in
                   if 2 ^ 64 \<le> stop then (Inl EINVAL, handle)
                   else (Inr (), handle\<lparr>h_buffer := splice start data (zero_extend stop (h_buffer handle)),
                                        h_dirty := True, h_committed := False\<rparr>))))"

text \<open>The commit seed is renewed when the handle was committed; the new seed is stored before the
  handle's own checks.\<close>

definition with_fresh_seed :: "u64 \<Rightarrow> (Handle \<Rightarrow> (Errno + 'a) \<times> Handle) \<Rightarrow> ('s, 'a) rt" where
  "with_fresh_seed fh change st =
     (case map_get (rt_handles st) fh of
        None \<Rightarrow> (Inl EBADF, st)
      | Some handle \<Rightarrow>
          (case (if h_committed handle then map_prod Some id (next_commit_seed st) else (None, st)) of
             (new_commit_seed, st) \<Rightarrow>
               (if \<not> gs_accepting_writes (write_gate st) then (Inl EROFS, st)
                else
                  (let handle = (case new_commit_seed of
                                   Some seed \<Rightarrow> handle\<lparr>h_commit_seed := seed\<rparr> | None \<Rightarrow> handle) in
                     case change handle of (r, handle) \<Rightarrow> (r, set_handle fh handle st)))))"

definition write_to_handle_buffer :: "u64 \<Rightarrow> int \<Rightarrow> bytes \<Rightarrow> ('s, nat) rt" where
  "write_to_handle_buffer fh offset data =
     (if offset < 0 then rt_fail EINVAL
      else rt_bind (with_fresh_seed fh (handle_write (nat offset) data)) (\<lambda>_. rt_return (length data)))"

definition handle_truncate :: "Handle \<Rightarrow> (Errno + unit) \<times> Handle" where
  "handle_truncate handle =
     (if \<not> h_writable handle then (Inl EBADF, handle)
      else (Inr (), handle\<lparr>h_buffer := [], h_base_offset := 0, h_dirty := (h_mode handle = WholeValueMode),
                           h_committed := False\<rparr>))"

definition stage_truncate :: "u64 \<Rightarrow> ('s, unit) rt" where
  "stage_truncate fh st =
     (case map_get (rt_handles st) fh of
        None \<Rightarrow> (Inl EBADF, st)
      | Some handle \<Rightarrow>
          (if h_mode handle = JsonLinesMode then (Inl EROFS, st)
           else with_fresh_seed fh handle_truncate st))"

definition reject_append_only_truncate :: "'s Env \<Rightarrow> MountPath \<Rightarrow> ('s, unit) rt" where
  "reject_append_only_truncate env path =
     rt_bind (write_mode_for_path env path) (\<lambda>mode.
       if mode = JsonLinesMode then rt_fail EROFS else rt_return ())"

text \<open>\<open>truncate\<close>, then \<open>resize\<close>: exactly \<open>n\<close> bytes.\<close>

definition fit :: "nat \<Rightarrow> bytes \<Rightarrow> bytes" where
  "fit n bs = zero_extend n (if length bs > n then take n bs else bs)"

definition read_bytes_for_handle :: "'s Env \<Rightarrow> u64 \<Rightarrow> MountPath \<Rightarrow> ('s, bytes) rt" where
  "read_bytes_for_handle env fh path st =
     (case (case map_get (rt_handles st) fh of
              Some handle \<Rightarrow> if h_path handle = path \<and> h_dirty handle then Some handle else None
            | None \<Rightarrow> None) of
        None \<Rightarrow> proj_read_bytes env path st
      | Some handle \<Rightarrow>
          (case h_mode handle of
             WholeValueMode \<Rightarrow> (Inr (h_buffer handle), st)
           | JsonLinesMode \<Rightarrow>
               rt_bind (rt_try (proj_read_bytes env path)) (\<lambda>r.
                 case r of
                   Inr bs \<Rightarrow> rt_return (fit (h_base_offset handle) bs @ h_buffer handle)
                 | Inl err \<Rightarrow>
                     if err = ENOENT then rt_return (fit (h_base_offset handle) [] @ h_buffer handle)
                     else rt_fail err) st))"

section \<open>Committing a write\<close>

definition validate_payload :: "'s Env \<Rightarrow> JetStreamAction \<Rightarrow> MountPath \<Rightarrow> bytes \<Rightarrow> ('s, unit) rt" where
  "validate_payload env action path bs =
     (case action of
        JetStreamAction.PublishJsonLines _ _ \<Rightarrow> rt_of (map_err errno (validate_json_lines (e_json env) path bs))
      | JetStreamAction.MaterializedPut (MaterializedTarget.Stream _ _) \<Rightarrow>
          rt_of (map_err errno (validate_json_lines (e_json env) path bs))
      | JetStreamAction.MaterializedPut (MaterializedTarget.Kv _ _) \<Rightarrow>
          rt_of (map_err errno (validate_json_document (e_json env) path bs))
      | _ \<Rightarrow> rt_return ())"

definition execute_write_action ::
  "'s Env \<Rightarrow> JetStreamAction \<Rightarrow> bytes \<Rightarrow> string \<Rightarrow> 's \<Rightarrow> ('s, unit) outcome" where
  "execute_write_action env action bs idempotency_key s =
     (case action of
        JetStreamAction.KvPut bucket key \<Rightarrow>
          ignore_value (kv_put_idempotent (e_store env) bucket key bs idempotency_key s)
      | JetStreamAction.ObjectPut bucket obj \<Rightarrow>
          object_put_idempotent (e_store env) bucket obj bs idempotency_key s
      | JetStreamAction.PublishJsonLines stream subject \<Rightarrow>
          ignore_value (publish_json_lines (e_store env) stream subject bs idempotency_key s)
      | JetStreamAction.MaterializedPut (MaterializedTarget.Kv bucket key) \<Rightarrow>
          obind (map_err (\<lambda>err. Invalid (e_display env err)) (validate_json_document (e_json env) key bs), s) (\<lambda>_ s.
            ignore_value (kv_put_idempotent (e_store env) bucket key bs idempotency_key s))
      | JetStreamAction.MaterializedPut (MaterializedTarget.Stream stream subject) \<Rightarrow>
          ignore_value (publish_json_lines (e_store env) stream subject bs idempotency_key s)
      | _ \<Rightarrow> (Inl (Invalid ''not a write''), s))"

definition kv_cache_entry :: "MountPath \<Rightarrow> CacheOrigin \<Rightarrow> KeyRevision \<Rightarrow> CacheEntry" where
  "kv_cache_entry path origin entry =
     \<lparr>ce_path = path, ce_origin = origin, ce_version = VersionStamp_at (kr_created entry),
      ce_bytes = kr_bytes entry, ce_valid = True\<rparr>"

definition object_cache_entry :: "MountPath \<Rightarrow> string \<Rightarrow> string \<Rightarrow> ObjectMetadata \<Rightarrow> bytes \<Rightarrow> CacheEntry" where
  "object_cache_entry path bucket obj metadata bs =
     \<lparr>ce_path = path, ce_origin = CacheOrigin.ObjectVersion bucket obj,
      ce_version = VersionStamp_at (om_modified metadata), ce_bytes = bs, ce_valid = True\<rparr>"

definition cache_entry_after_write ::
  "'s Env \<Rightarrow> MountPath \<Rightarrow> JetStreamAction \<Rightarrow> bytes \<Rightarrow> 's \<Rightarrow> ('s, CacheEntry option) outcome" where
  "cache_entry_after_write env path action bs s =
     (case action of
        JetStreamAction.KvPut bucket key \<Rightarrow>
          obind (ms_kv_get (e_store env) bucket key s) (\<lambda>entry s.
            (Inr (map_option (\<lambda>e. kv_cache_entry path (CacheOrigin.KvRevision bucket key (kr_revision e)) e) entry), s))
      | JetStreamAction.ObjectPut bucket obj \<Rightarrow>
          obind (ms_object_metadata (e_store env) bucket obj s) (\<lambda>metadata s.
            (Inr (map_option (\<lambda>m. object_cache_entry path bucket obj m bs) metadata), s))
      | JetStreamAction.MaterializedPut (MaterializedTarget.Kv bucket key) \<Rightarrow>
          obind (ms_kv_get (e_store env) bucket key s) (\<lambda>entry s.
            (Inr (map_option (kv_cache_entry path (CacheOrigin.MaterializedView path)) entry), s))
      | _ \<Rightarrow> (Inr None, s))"

definition refresh_cache_after_write ::
  "'s Env \<Rightarrow> MountPath \<Rightarrow> JetStreamAction \<Rightarrow> bytes \<Rightarrow> 's Runtime \<Rightarrow> 's Runtime" where
  "refresh_cache_after_write env path action bs st =
     (let st = invalidate_after_local_write env path st in
        case cache_entry_after_write env path action bs (rt_backend st) of
          (r, b) \<Rightarrow>
            (let st = st\<lparr>rt_backend := b\<rparr> in
               case r of
                 Inr (Some entry) \<Rightarrow> st\<lparr>rt_cache := cache_insert entry (rt_cache st)\<rparr>
               | Inr None \<Rightarrow> st
               | Inl err \<Rightarrow> record_error (''cache refresh after write failed for '' @ path @ '': ''
                   @ e_transport_display env err) st))"

text \<open>An unavailable snapshot counts as empty; any other failure is logged.\<close>

definition snapshot_or_log ::
  "'s Env \<Rightarrow> string \<Rightarrow> string \<Rightarrow> string \<Rightarrow> (Errno \<Rightarrow> string) \<Rightarrow> 's Runtime \<Rightarrow> bytes option \<times> 's Runtime" where
  "snapshot_or_log env what stream subject errno_text st =
     (case read_stream_subject_snapshot_allow_missing env stream subject st of
        (Inr snapshot, st) \<Rightarrow> (Some (fs_bytes snapshot), st)
      | (Inl err, st) \<Rightarrow>
          (if directory_listing_unavailable err \<or> err = ENOENT then (Some [], st)
           else (None, record_error (what @ '' unavailable for '' @ stream @ '':'' @ subject
                   @ '': errno '' @ errno_text err) st)))"

definition errno_text :: "Errno \<Rightarrow> string" where
  "errno_text err = (case err of
     ENOENT \<Rightarrow> ''2'' | EIO \<Rightarrow> ''5'' | EBADF \<Rightarrow> ''9'' | EEXIST \<Rightarrow> ''17'' | EXDEV \<Rightarrow> ''18'' | ENOTDIR \<Rightarrow> ''20''
   | EISDIR \<Rightarrow> ''21'' | EINVAL \<Rightarrow> ''22'' | EROFS \<Rightarrow> ''30'' | ENOTSUP \<Rightarrow> ''95'')"

definition jsonl_base_snapshot ::
  "'s Env \<Rightarrow> JetStreamPath \<Rightarrow> JetStreamAction \<Rightarrow> 's Runtime \<Rightarrow> bytes option \<times> 's Runtime" where
  "jsonl_base_snapshot env parsed action st =
     (if \<not> action_publishes_jsonl action then (None, st)
      else (case jsonl_target_for_path parsed of
              None \<Rightarrow> (None, st)
            | Some (stream, subject) \<Rightarrow>
                snapshot_or_log env ''jsonl base snapshot'' stream subject errno_text st))"

definition applied_jsonl_lines_for_queue ::
  "'s Env \<Rightarrow> string \<Rightarrow> string \<Rightarrow> bytes \<Rightarrow> bytes option \<Rightarrow> 's Runtime \<Rightarrow> nat \<times> 's Runtime" where
  "applied_jsonl_lines_for_queue env stream subject bs base st =
     (case base of
        None \<Rightarrow> (0, st)
      | Some base \<Rightarrow>
          (case snapshot_or_log env ''jsonl progress snapshot'' stream subject errno_text st of
             (None, st) \<Rightarrow> (0, st)
           | (Some current, st) \<Rightarrow>
               (case jsonl_applied_prefix_count (e_json env) subject base current bs of
                  Inr n \<Rightarrow> (n, st) | Inl _ \<Rightarrow> (0, st))))"

definition runtime_enqueue ::
  "'s Env \<Rightarrow> FailedWrite \<Rightarrow> 's Runtime \<Rightarrow> (TransportError + ReplayQueueOutcome) \<times> 's Runtime" where
  "runtime_enqueue env failed st =
     (case writeback_enqueue (e_serde env) failed (rt_replay st) (rt_disk st) of
        (r, wr, disk) \<Rightarrow> (r, st\<lparr>rt_replay := wr, rt_disk := disk\<rparr>))"

text \<open>The operation to queue; \<open>None\<close> for an action that is no write.\<close>

definition failed_operation ::
  "'s Env \<Rightarrow> JetStreamAction \<Rightarrow> bytes \<Rightarrow> bytes option \<Rightarrow> 's Runtime
    \<Rightarrow> FailedWriteOperation option \<times> 's Runtime" where
  "failed_operation env action bs base st =
     (case action of
        JetStreamAction.KvPut bucket key \<Rightarrow> (Some (FailedWriteOperation.KvPut bucket key bs), st)
      | JetStreamAction.ObjectPut bucket obj \<Rightarrow> (Some (FailedWriteOperation.ObjectPut bucket obj bs), st)
      | JetStreamAction.PublishJsonLines stream subject \<Rightarrow>
          (case applied_jsonl_lines_for_queue env stream subject bs base st of
             (n, st) \<Rightarrow> (Some (FailedWriteOperation.PublishJsonLines stream subject bs n), st))
      | JetStreamAction.MaterializedPut (MaterializedTarget.Kv bucket key) \<Rightarrow>
          (Some (FailedWriteOperation.MaterializedPut bucket key bs), st)
      | JetStreamAction.MaterializedPut (MaterializedTarget.Stream stream subject) \<Rightarrow>
          (case applied_jsonl_lines_for_queue env stream subject bs base st of
             (n, st) \<Rightarrow> (Some (FailedWriteOperation.PublishJsonLines stream subject bs n), st))
      | _ \<Rightarrow> (None, st))"

definition enqueue_action ::
  "'s Env \<Rightarrow> MountPath \<Rightarrow> JetStreamAction \<Rightarrow> bytes \<Rightarrow> string \<Rightarrow> bytes option \<Rightarrow> 's Runtime
    \<Rightarrow> (TransportError + unit) \<times> 's Runtime" where
  "enqueue_action env path action bs idempotency_key base st =
     (case failed_operation env action bs base st of
        (None, st) \<Rightarrow> (Inr (), st)
      | (Some operation, st) \<Rightarrow>
          (let now = e_now env (rt_ticks st); st = st\<lparr>rt_ticks := Suc (rt_ticks st)\<rparr> in
             case runtime_enqueue env
                    \<lparr>fw_idempotency_key = idempotency_key, fw_version = VersionStamp_at now,
                     fw_diagnostic_path = path, fw_operation = operation\<rparr> st of
               (r, st) \<Rightarrow> (map_ok (\<lambda>_. ()) r, st)))"

text \<open>The two ways a commit goes on after the backend's answer.\<close>

definition finish_commit ::
  "'s Env \<Rightarrow> MountPath \<Rightarrow> JetStreamAction \<Rightarrow> bytes \<Rightarrow> string \<Rightarrow> bytes option \<Rightarrow> TransportError + unit
    \<Rightarrow> ('s, unit) rt" where
  "finish_commit env path action bs key base result st =
     (case result of
        Inr _ \<Rightarrow> (Inr (), refresh_cache_after_write env path action bs st)
      | Inl err \<Rightarrow>
          (case enqueue_action env path action bs key base
                  (record_error (''commit queued for '' @ path @ '': '' @ e_transport_display env err) st) of
             (Inl err, st) \<Rightarrow> (case io_error env err st of (e, st) \<Rightarrow> (Inl e, st))
           | (Inr _, st) \<Rightarrow>
               (Inr (), sync_writeback_gate
                  ''writeback queue has pending entries after a queued write; mount is read-only''
                  (invalidate_after_local_write env path st))))"

definition commit_mount_path_with_seed :: "'s Env \<Rightarrow> MountPath \<Rightarrow> bytes \<Rightarrow> string \<Rightarrow> ('s, unit) rt" where
  "commit_mount_path_with_seed env path bs commit_seed =
     rt_bind ensure_writes_allowed (\<lambda>_.
     rt_bind (parse_path path) (\<lambda>parsed.
     rt_bind (plan_rt env FileIntent.Write parsed) (\<lambda>action.
     rt_bind (validate_payload env action path bs) (\<lambda>_ st.
       let key = e_idempotency_key env path bs commit_seed in
       case jsonl_base_snapshot env parsed action st of
         (base, st) \<Rightarrow>
           rt_bind (rt_call (execute_write_action env action bs key))
             (finish_commit env path action bs key base) st))))"

definition after_commit :: "HandleMode \<Rightarrow> bytes \<Rightarrow> Handle \<Rightarrow> Handle" where
  "after_commit mode bs handle =
     (if mode = JsonLinesMode
      then handle\<lparr>h_base_offset := min (h_base_offset handle + length bs) (2 ^ 64 - 1), h_buffer := [],
                  h_dirty := False, h_committed := True\<rparr>
      else handle\<lparr>h_buffer := bs, h_dirty := False, h_committed := True\<rparr>)"

definition commit_handle :: "'s Env \<Rightarrow> u64 \<Rightarrow> ('s, unit) rt" where
  "commit_handle env fh st =
     (case map_get (rt_handles st) fh of
        None \<Rightarrow> (Inr (), st)
      | Some handle \<Rightarrow>
          (if \<not> h_writable handle \<or> \<not> h_dirty handle \<or> h_committed handle then (Inr (), st)
           else
             (let bs = handle_commit_bytes handle in
                rt_bind (commit_mount_path_with_seed env (h_path handle) bs (h_commit_seed handle)) (\<lambda>_.
                  rt_modify (\<lambda>st. case map_get (rt_handles st) fh of
                    Some h \<Rightarrow> set_handle fh (after_commit (h_mode handle) bs h) st
                  | None \<Rightarrow> st)) st)))"

definition flush_handle :: "u64 \<Rightarrow> ('s, unit) rt" where
  "flush_handle fh st = (if map_get (rt_handles st) fh \<noteq> None then (Inr (), st) else (Inl EBADF, st))"

definition release_handle :: "'s Env \<Rightarrow> u64 \<Rightarrow> ('s, unit) rt" where
  "release_handle env fh st =
     (case commit_handle env fh st of
        (result, st) \<Rightarrow> (result, st\<lparr>rt_handles := map_remove fh (rt_handles st)\<rparr>))"

section \<open>Unlink, mkdir, rename, mknod\<close>

definition execute_unlink :: "'s Env \<Rightarrow> MountPath \<Rightarrow> ('s, unit) rt" where
  "execute_unlink env path =
     rt_bind ensure_writes_allowed (\<lambda>_.
     rt_bind (parse_path path) (\<lambda>parsed.
     rt_bind (plan_rt env FileIntent.Unlink parsed) (\<lambda>action.
     rt_bind (case action of
         JetStreamAction.KvDelete bucket key \<Rightarrow> rt_io env (ms_kv_delete (e_store env) bucket key)
       | JetStreamAction.ObjectDelete bucket obj \<Rightarrow> rt_io env (ms_object_delete (e_store env) bucket obj)
       | JetStreamAction.MaterializedDelete (MaterializedTarget.Kv bucket key) \<Rightarrow>
           rt_io env (ms_kv_delete (e_store env) bucket key)
       | JetStreamAction.MaterializedDelete (MaterializedTarget.Stream _ _) \<Rightarrow> rt_fail EROFS
       | _ \<Rightarrow> rt_fail ENOTSUP) (\<lambda>_.
       rt_modify (invalidate_after_local_unlink env path)))))"

definition require_directory :: "DynamicPathKind \<Rightarrow> ('s, unit) rt" where
  "require_directory kind =
     (case kind of DpFile \<Rightarrow> rt_fail EEXIST | DpMissing \<Rightarrow> rt_fail ENOENT | DpDirectory \<Rightarrow> rt_return ())"

definition ensure_kv_synthetic_directory :: "'s Env \<Rightarrow> string \<Rightarrow> string \<Rightarrow> ('s, unit) rt" where
  "ensure_kv_synthetic_directory env bucket prfx =
     rt_bind (classify_kv_dynamic_path env bucket prfx) require_directory"

definition ensure_object_synthetic_directory :: "'s Env \<Rightarrow> string \<Rightarrow> string \<Rightarrow> ('s, unit) rt" where
  "ensure_object_synthetic_directory env bucket prfx =
     rt_bind (classify_object_dynamic_path env bucket prfx) require_directory"

definition execute_mkdir :: "'s Env \<Rightarrow> MountPath \<Rightarrow> ('s, unit) rt" where
  "execute_mkdir env path =
     rt_bind ensure_writes_allowed (\<lambda>_.
     rt_bind (parse_path path) (\<lambda>parsed.
     rt_bind (plan_rt env FileIntent.Mkdir parsed) (\<lambda>action.
       case action of
         JetStreamAction.EnsureKvBucket bucket \<Rightarrow> rt_io env (ms_ensure_kv_bucket (e_store env) bucket)
       | JetStreamAction.EnsureKvDirectory bucket prfx \<Rightarrow> ensure_kv_synthetic_directory env bucket prfx
       | JetStreamAction.EnsureStream stream \<Rightarrow> rt_io env (ms_ensure_stream (e_store env) stream)
       | JetStreamAction.EnsureObjectBucket bucket \<Rightarrow> rt_io env (ms_ensure_object_bucket (e_store env) bucket)
       | JetStreamAction.EnsureObjectDirectory bucket prfx \<Rightarrow> ensure_object_synthetic_directory env bucket prfx
       | JetStreamAction.NoopDirectory \<Rightarrow> rt_return ()
       | _ \<Rightarrow> rt_fail ENOTSUP)))"

definition kv_rename_source :: "'s Env \<Rightarrow> string \<Rightarrow> string \<Rightarrow> ('s, KeyRevision) rt" where
  "kv_rename_source env bucket key =
     rt_bind (classify_kv_dynamic_path env bucket key) (\<lambda>kind.
       case kind of
         DpMissing \<Rightarrow> rt_fail ENOENT
       | DpDirectory \<Rightarrow> rt_fail EISDIR
       | DpFile \<Rightarrow> rt_bind (rt_io env (ms_kv_get (e_store env) bucket key)) (\<lambda>e. rt_of (ok_or ENOENT e)))"

definition object_rename_source :: "'s Env \<Rightarrow> string \<Rightarrow> string \<Rightarrow> ('s, ObjectVersion) rt" where
  "object_rename_source env bucket obj =
     rt_bind (classify_object_dynamic_path env bucket obj) (\<lambda>kind.
       case kind of
         DpMissing \<Rightarrow> rt_fail ENOENT
       | DpDirectory \<Rightarrow> rt_fail EISDIR
       | DpFile \<Rightarrow> rt_bind (rt_io env (ms_object_get (e_store env) bucket obj)) (\<lambda>e. rt_of (ok_or ENOENT e)))"

definition ensure_kv_rename_destination :: "'s Env \<Rightarrow> string \<Rightarrow> string \<Rightarrow> ('s, unit) rt" where
  "ensure_kv_rename_destination env bucket key =
     rt_bind (classify_kv_dynamic_path env bucket key) (\<lambda>kind.
       if kind = DpDirectory then rt_fail EISDIR else rt_return ())"

definition ensure_object_rename_destination :: "'s Env \<Rightarrow> string \<Rightarrow> string \<Rightarrow> ('s, unit) rt" where
  "ensure_object_rename_destination env bucket obj =
     rt_bind (classify_object_dynamic_path env bucket obj) (\<lambda>kind.
       if kind = DpDirectory then rt_fail EISDIR else rt_return ())"

definition enqueue_rt :: "'s Env \<Rightarrow> FailedWrite \<Rightarrow> ('s, unit) rt" where
  "enqueue_rt env failed st =
     (case runtime_enqueue env failed st of
        (Inr _, st) \<Rightarrow> (Inr (), st)
      | (Inl err, st) \<Rightarrow> (case io_error env err st of (e, st) \<Rightarrow> (Inl e, st)))"

definition queue_kv_rename_completion :: "'s Env \<Rightarrow> KvRenameCompletion \<Rightarrow> ('s, unit) rt" where
  "queue_kv_rename_completion env completion =
     rt_bind (rt_now env) (\<lambda>now.
       enqueue_rt env
         \<lparr>fw_idempotency_key = e_idempotency_key env (kc_to_path completion)
            (rename_completion_key_material (kc_from_path completion) (kc_expected_from_revision completion)
               (kc_bytes completion)) (kc_seed completion),
          fw_version = VersionStamp_at now, fw_diagnostic_path = kc_to_path completion,
          fw_operation = FailedWriteOperation.KvRenameComplete (kc_from_bucket completion) (kc_from_key completion)
            \<lparr>ks_revision = kc_expected_from_revision completion\<rparr> (kc_to_bucket completion) (kc_to_key completion)
            (kc_bytes completion)\<rparr>)"

definition queue_object_rename_completion :: "'s Env \<Rightarrow> ObjectRenameCompletion \<Rightarrow> ('s, unit) rt" where
  "queue_object_rename_completion env completion =
     rt_bind (rt_now env) (\<lambda>now.
       enqueue_rt env
         \<lparr>fw_idempotency_key = e_idempotency_key env (oc_to_path completion)
            (rename_completion_key_material (oc_from_path completion) (oc_expected_from_sequence completion)
               (oc_bytes completion)) (oc_seed completion),
          fw_version = VersionStamp_at now, fw_diagnostic_path = oc_to_path completion,
          fw_operation = FailedWriteOperation.ObjectRenameComplete (oc_from_bucket completion)
            (oc_from_object completion)
            \<lparr>os_sequence = oc_expected_from_sequence completion, os_nuid = oc_expected_from_nuid completion\<rparr>
            (oc_to_bucket completion) (oc_to_object completion) (oc_bytes completion)\<rparr>)"

definition execute_rename :: "'s Env \<Rightarrow> MountPath \<Rightarrow> MountPath \<Rightarrow> 32 word \<Rightarrow> ('s, unit) rt" where
  "execute_rename env source_path target_path flags =
     rt_bind ensure_writes_allowed (\<lambda>_.
     if flags \<noteq> 0 then rt_fail EINVAL
     else if source_path = target_path then rt_return ()
     else
       rt_bind (parse_path source_path) (\<lambda>from.
       rt_bind (parse_path target_path) (\<lambda>to.
       rt_bind (plan_rt env (FileIntent.Rename to) from) (\<lambda>action.
       rt_bind (case action of
           JetStreamAction.Rename (RenamePlan.Kv from_bucket from_key to_bucket to_key) \<Rightarrow>
             rt_bind (kv_rename_source env from_bucket from_key) (\<lambda>entry.
             rt_bind (ensure_kv_rename_destination env to_bucket to_key) (\<lambda>_.
             rt_bind rt_seed (\<lambda>seed.
               queue_kv_rename_completion env
                 \<lparr>kc_from_path = source_path, kc_to_path = target_path, kc_from_bucket = from_bucket,
                  kc_from_key = from_key, kc_expected_from_revision = kr_revision entry,
                  kc_to_bucket = to_bucket, kc_to_key = to_key, kc_bytes = kr_bytes entry, kc_seed = seed\<rparr>)))
         | JetStreamAction.Rename (RenamePlan.Object from_bucket from_object to_bucket to_object) \<Rightarrow>
             rt_bind (object_rename_source env from_bucket from_object) (\<lambda>obj.
             rt_bind (ensure_object_rename_destination env to_bucket to_object) (\<lambda>_.
             rt_bind rt_seed (\<lambda>seed.
               queue_object_rename_completion env
                 \<lparr>oc_from_path = source_path, oc_to_path = target_path, oc_from_bucket = from_bucket,
                  oc_from_object = from_object, oc_expected_from_sequence = ov_sequence obj,
                  oc_expected_from_nuid = ov_nuid obj, oc_to_bucket = to_bucket, oc_to_object = to_object,
                  oc_bytes = ov_bytes obj, oc_seed = seed\<rparr>)))
         | _ \<Rightarrow> rt_fail ENOTSUP) (\<lambda>_.
         rt_modify (\<lambda>st.
           invalidate_after_local_write env target_path
             (invalidate_after_local_unlink env source_path (replay_queue env st))))))))"

definition S_IFMT :: "32 word" where "S_IFMT = 61440"
definition S_IFREG :: "32 word" where "S_IFREG = 32768"

definition execute_mknod :: "'s Env \<Rightarrow> MountPath \<Rightarrow> 32 word \<Rightarrow> ('s, u64) rt" where
  "execute_mknod env path mode =
     rt_bind ensure_writes_allowed (\<lambda>_.
     if mode AND S_IFMT \<noteq> S_IFREG then rt_fail ENOTSUP
     else
       rt_bind (rt_map into_default_payload (create_target env path)) (\<lambda>payload.
       rt_bind rt_seed (\<lambda>commit_seed.
       rt_bind (commit_mount_path_with_seed env path payload commit_seed) (\<lambda>_.
         rt_return (word_of_nat (length payload))))))"

end
