(* ===== verification/Fuse_Fs.thy ===== *)
theory Fuse_Fs
  imports Runtime_Ops
begin

unbundle bit_operations_syntax

text \<open>
  \<open>eventfs-fuse/src/attr.rs\<close>, the facade \<open>MountRuntime\<close> of \<open>fs/runtime.rs\<close> and the callbacks of
  \<open>impl Filesystem for JetStreamFuse\<close> in \<open>fs.rs\<close>.

  A callback takes the state of the mount and answers a \<open>Reply\<close>, one constructor per method of
  fuser's reply objects. The owner of all files, read once from the process, is an argument. Names
  arrive as the result of \<open>to_string_lossy\<close>. \<open>ReplyDirectory::add\<close> is fuser's: it answers whether the
  kernel's buffer is full and then has not taken the entry; when that is, is the argument \<open>full\<close> of
  \<open>fuse_readdir\<close>.
\<close>

section \<open>Attributes\<close>

record StableOwner =
  so_uid :: "32 word"
  so_gid :: "32 word"

record StableTimestamps =
  ts_atime :: SystemTime
  ts_mtime :: SystemTime
  ts_ctime :: SystemTime
  ts_crtime :: SystemTime

definition from_version :: "VersionStamp \<Rightarrow> StableTimestamps" where
  "from_version version =
     \<lparr>ts_atime = vs_modified version, ts_mtime = vs_modified version, ts_ctime = vs_modified version,
      ts_crtime = vs_created version\<rparr>"

record FileAttr =
  fa_ino :: u64
  fa_size :: u64
  fa_blocks :: u64
  fa_atime :: SystemTime
  fa_mtime :: SystemTime
  fa_ctime :: SystemTime
  fa_crtime :: SystemTime
  fa_kind :: FileType
  fa_perm :: "16 word"
  fa_nlink :: "32 word"
  fa_uid :: "32 word"
  fa_gid :: "32 word"
  fa_rdev :: "32 word"
  fa_flags :: "32 word"
  fa_blksize :: "32 word"

text \<open>\<open>u64::div_ceil\<close>.\<close>

definition div_ceil :: "u64 \<Rightarrow> u64 \<Rightarrow> u64" where
  "div_ceil a b = a div b + (if a mod b > 0 then 1 else 0)"

definition build_attr ::
  "u64 \<Rightarrow> FileType \<Rightarrow> 16 word \<Rightarrow> StableOwner \<Rightarrow> StableTimestamps \<Rightarrow> u64 \<Rightarrow> FileAttr" where
  "build_attr ino kind perm owner timestamps sz =
     \<lparr>fa_ino = ino, fa_size = sz, fa_blocks = div_ceil sz 512,
      fa_atime = ts_atime timestamps, fa_mtime = ts_mtime timestamps, fa_ctime = ts_ctime timestamps,
      fa_crtime = ts_crtime timestamps, fa_kind = kind, fa_perm = perm,
      fa_nlink = (if kind = DirectoryType then 2 else 1), fa_uid = so_uid owner, fa_gid = so_gid owner,
      fa_rdev = 0, fa_flags = 0, fa_blksize = 512\<rparr>"

section \<open>The runtime facade\<close>

datatype RuntimeEntryKind = RkDirectory | RkFile

definition runtime_kind :: "MountProjectionKind \<Rightarrow> RuntimeEntryKind" where
  "runtime_kind kind = (case kind of ProjDirectory \<Rightarrow> RkDirectory | ProjFile \<Rightarrow> RkFile)"

record RuntimeAttr =
  ra_kind :: RuntimeEntryKind
  ra_size :: u64
  ra_version :: VersionStamp

record RuntimeDirectoryEntry =
  rd_name :: string
  rd_kind :: RuntimeEntryKind

record RuntimeMutation =
  rm_path :: MountPath

definition mr_stat :: "'s Env \<Rightarrow> MountPath \<Rightarrow> ('s, RuntimeAttr) rt" where
  "mr_stat env path =
     rt_map (\<lambda>attr. \<lparr>ra_kind = runtime_kind (pa_kind attr), ra_size = pa_size attr, ra_version = pa_version attr\<rparr>)
       (proj_attr env path)"

definition mr_read_handle :: "'s Env \<Rightarrow> u64 \<Rightarrow> MountPath \<Rightarrow> ('s, bytes) rt" where
  "mr_read_handle env handle path =
     rt_bind (parse_path path) (\<lambda>_. read_bytes_for_handle env handle path)"

definition mr_list :: "'s Env \<Rightarrow> MountPath \<Rightarrow> ('s, RuntimeDirectoryEntry list) rt" where
  "mr_list env path =
     rt_map (map (\<lambda>entry. \<lparr>rd_name = pe_name entry, rd_kind = runtime_kind (pe_kind entry)\<rparr>))
       (proj_directory_entries env path)"

definition mr_open :: "'s Env \<Rightarrow> MountPath \<Rightarrow> RuntimeOpenOptions \<Rightarrow> ('s, u64) rt" where
  "mr_open env path options =
     open_handle env path (oo_writable options) (oo_truncate options) (oo_create options)"

definition created_handle_attr :: "'s Env \<Rightarrow> u64 \<Rightarrow> MountPath \<Rightarrow> ('s, RuntimeAttr) rt" where
  "created_handle_attr env fh path st =
     (case map_get (rt_handles st) fh of
        None \<Rightarrow> (Inl EBADF, st)
      | Some handle \<Rightarrow>
          (if h_path handle \<noteq> path then (Inl EINVAL, st)
           else (case (if h_mode handle = WholeValueMode then h_staged_create handle else None) of
                   Some staged \<Rightarrow>
                     (Inr \<lparr>ra_kind = RkFile, ra_size = word_of_nat (length (h_buffer handle)),
                           ra_version = sc_version staged\<rparr>, st)
                 | None \<Rightarrow> mr_stat env path st)))"

definition mr_truncate_path :: "'s Env \<Rightarrow> MountPath \<Rightarrow> ('s, unit) rt" where
  "mr_truncate_path env path =
     rt_bind (reject_append_only_truncate env path) (\<lambda>_.
     rt_bind rt_seed (\<lambda>commit_seed. commit_mount_path_with_seed env path [] commit_seed))"

definition writable_handle :: "'s Env \<Rightarrow> u64 \<Rightarrow> MountPath \<Rightarrow> ('s, u64) rt" where
  "writable_handle env raw_handle path st =
     (if map_get (rt_handles st) raw_handle = None
      then rt_bind (build_handle env path True False False) (\<lambda>handle.
             rt_bind (rt_modify (set_handle raw_handle handle)) (\<lambda>_. rt_return raw_handle)) st
      else (Inr raw_handle, st))"

definition discard :: "u64 \<Rightarrow> 's Runtime \<Rightarrow> 's Runtime" where
  "discard handle st = st\<lparr>rt_handles := map_remove handle (rt_handles st)\<rparr>"

definition mr_mkdir :: "'s Env \<Rightarrow> MountPath \<Rightarrow> ('s, RuntimeMutation) rt" where
  "mr_mkdir env path = rt_map (\<lambda>_. \<lparr>rm_path = path\<rparr>) (execute_mkdir env path)"

definition mr_mknod :: "'s Env \<Rightarrow> MountPath \<Rightarrow> 32 word \<Rightarrow> ('s, RuntimeMutation) rt" where
  "mr_mknod env path mode = rt_map (\<lambda>_. \<lparr>rm_path = path\<rparr>) (execute_mknod env path mode)"

definition mr_unlink :: "'s Env \<Rightarrow> MountPath \<Rightarrow> ('s, RuntimeMutation) rt" where
  "mr_unlink env path = rt_map (\<lambda>_. \<lparr>rm_path = path\<rparr>) (execute_unlink env path)"

definition mr_rename :: "'s Env \<Rightarrow> MountPath \<Rightarrow> MountPath \<Rightarrow> 32 word \<Rightarrow> ('s, RuntimeMutation) rt" where
  "mr_rename env source_path target_path flags =
     rt_map (\<lambda>_. \<lparr>rm_path = target_path\<rparr>) (execute_rename env source_path target_path flags)"

section \<open>Inodes and attributes of paths\<close>

definition JetStreamFuse_new ::
  "'s Env \<Rightarrow> 's \<Rightarrow> WritebackQueue \<Rightarrow> Disk \<Rightarrow> string \<Rightarrow> nat \<Rightarrow> SystemTime \<Rightarrow> 's Runtime" where
  "JetStreamFuse_new env backend queue disk mount_name instance_seed mounted_at =
     replay_queue env (MountRuntimeState_new backend queue disk mount_name instance_seed mounted_at)"

definition file_type_from_runtime :: "RuntimeEntryKind \<Rightarrow> FileType" where
  "file_type_from_runtime kind = (case kind of RkDirectory \<Rightarrow> DirectoryType | RkFile \<Rightarrow> RegularFile)"

definition path_for_ino :: "u64 \<Rightarrow> ('s, MountPath) rt" where
  "path_for_ino ino st = (ok_or ENOENT (pc_path (rt_paths st) ino), st)"

text \<open>\<open>let Some(path) = self.paths.child_path(..) else\<close> of the callbacks.\<close>

definition child_for :: "u64 \<Rightarrow> string \<Rightarrow> ('s, MountPath) rt" where
  "child_for parent name st = (ok_or ENOENT (child_path (rt_paths st) parent name), st)"

definition allocate_for_path :: "MountPath \<Rightarrow> FileType \<Rightarrow> ('s, u64) rt" where
  "allocate_for_path path kind st =
     (let st = clear_stale_path path st in
        case ensure path kind (rt_paths st) of (ino, paths) \<Rightarrow> (Inr ino, st\<lparr>rt_paths := paths\<rparr>))"

definition parent_ino_for_path :: "MountPath \<Rightarrow> ('s, u64) rt" where
  "parent_ino_for_path path =
     (if is_root path then rt_return ROOT_INO else allocate_for_path (MountPath_parent path) DirectoryType)"

text \<open>The loop of \<open>directory_reply_entries\<close>.\<close>

fun reply_children ::
  "'s Env \<Rightarrow> MountPath \<Rightarrow> RuntimeDirectoryEntry list \<Rightarrow> ('s, (u64 \<times> FileType \<times> string) list) rt" where
  "reply_children env path [] st = (Inr [], st)"
| "reply_children env path (entry # entries) st =
     (case join_child path (rd_name entry) of
        Inl err \<Rightarrow>
          (Inl (errno err),
           record_error (''invalid directory child '' @ rd_name entry @ '': '' @ e_display env err) st)
      | Inr child \<Rightarrow>
          (let kind = file_type_from_runtime (rd_kind entry) in
             rt_bind (allocate_for_path child kind) (\<lambda>ino.
               rt_map (\<lambda>rest. (ino, kind, rd_name entry) # rest) (reply_children env path entries)) st))"

definition directory_reply_entries :: "'s Env \<Rightarrow> MountPath \<Rightarrow> u64 \<Rightarrow> ('s, (u64 \<times> FileType \<times> string) list) rt" where
  "directory_reply_entries env path ino =
     rt_bind (mr_list env path) (\<lambda>entries.
     rt_bind (parent_ino_for_path path) (\<lambda>parent.
       rt_map (\<lambda>children. (ino, DirectoryType, ''.'') # (parent, DirectoryType, ''..'') # children)
         (reply_children env path entries)))"

definition default_perm :: "FileType \<Rightarrow> 16 word" where
  "default_perm kind = (if kind = DirectoryType then 493 else 420)"

definition file_attr_from_runtime ::
  "StableOwner \<Rightarrow> MountPath \<Rightarrow> RuntimeAttr \<Rightarrow> 16 word option \<Rightarrow> ('s, FileAttr) rt" where
  "file_attr_from_runtime owner path attr perm =
     (let kind = file_type_from_runtime (ra_kind attr) in
        rt_map (\<lambda>ino. build_attr ino kind (case perm of Some p \<Rightarrow> p | None \<Rightarrow> default_perm kind) owner
                        (from_version (ra_version attr)) (ra_size attr))
          (allocate_for_path path kind))"

definition attr_for_path :: "'s Env \<Rightarrow> StableOwner \<Rightarrow> MountPath \<Rightarrow> ('s, FileAttr) rt" where
  "attr_for_path env owner path =
     rt_bind (mr_stat env path) (\<lambda>attr. file_attr_from_runtime owner path attr None)"

definition placeholder_regular_file_attr :: "StableOwner \<Rightarrow> MountPath \<Rightarrow> 16 word \<Rightarrow> u64 \<Rightarrow> ('s, FileAttr) rt" where
  "placeholder_regular_file_attr owner path perm sz =
     rt_bind (allocate_for_path path RegularFile) (\<lambda>ino.
       rt_gets (\<lambda>st. build_attr ino RegularFile perm owner (from_version (mount_version st)) sz))"

definition regular_file_reply_attr ::
  "'s Env \<Rightarrow> StableOwner \<Rightarrow> MountPath \<Rightarrow> 16 word \<Rightarrow> u64 \<Rightarrow> ('s, FileAttr) rt" where
  "regular_file_reply_attr env owner path perm fallback_size =
     rt_bind (rt_try (mr_stat env path)) (\<lambda>r.
       case r of
         Inr attr \<Rightarrow> file_attr_from_runtime owner path attr (Some perm)
       | Inl err \<Rightarrow>
           if err = ENOENT then placeholder_regular_file_attr owner path perm fallback_size else rt_fail err)"

definition create_reply_attr :: "'s Env \<Rightarrow> StableOwner \<Rightarrow> MountPath \<Rightarrow> u64 \<Rightarrow> 16 word \<Rightarrow> ('s, FileAttr) rt" where
  "create_reply_attr env owner path fh perm =
     rt_bind (created_handle_attr env fh path) (\<lambda>attr. file_attr_from_runtime owner path attr (Some perm))"

definition truncate_handle_reply_attr :: "'s Env \<Rightarrow> StableOwner \<Rightarrow> MountPath \<Rightarrow> u64 \<Rightarrow> ('s, FileAttr) rt" where
  "truncate_handle_reply_attr env owner path fh =
     rt_bind (created_handle_attr env fh path) (\<lambda>attr.
     rt_bind (stage_truncate fh) (\<lambda>_.
       let kind = file_type_from_runtime (ra_kind attr) in
         rt_map (\<lambda>ino. build_attr ino kind (default_perm kind) owner (from_version (ra_version attr)) 0)
           (allocate_for_path path kind)))"

section \<open>Callbacks\<close>

definition TTL :: nat where "TTL = 1"

datatype Reply =
    ReplyError Errno
  | ReplyOk
  | ReplyEntry nat FileAttr u64
  | ReplyAttr nat FileAttr
  | ReplyOpened u64 "32 word"
  | ReplyCreated nat FileAttr u64 u64 "32 word"
  | ReplyDirectory "(u64 \<times> int \<times> FileType \<times> string) list"
  | ReplyData bytes
  | ReplyWritten "32 word"
  | ReplyStatfs u64 u64 u64 u64 u64 "32 word" "32 word" "32 word"

definition respond :: "('a \<Rightarrow> Reply) \<Rightarrow> ('s, 'a) rt \<Rightarrow> 's Runtime \<Rightarrow> Reply \<times> 's Runtime" where
  "respond reply m st = (case m st of (Inl err, st) \<Rightarrow> (ReplyError err, st) | (Inr x, st) \<Rightarrow> (reply x, st))"

definition fuse_open_reply_flags :: "32 word \<Rightarrow> 32 word" where
  "fuse_open_reply_flags request_flags = 0"

definition fuse_lookup :: "'s Env \<Rightarrow> StableOwner \<Rightarrow> u64 \<Rightarrow> string \<Rightarrow> 's Runtime \<Rightarrow> Reply \<times> 's Runtime" where
  "fuse_lookup env owner parent name =
     respond (\<lambda>attr. ReplyEntry TTL attr 0) (rt_bind (child_for parent name) (attr_for_path env owner))"

definition fuse_getattr :: "'s Env \<Rightarrow> StableOwner \<Rightarrow> u64 \<Rightarrow> 's Runtime \<Rightarrow> Reply \<times> 's Runtime" where
  "fuse_getattr env owner ino =
     respond (ReplyAttr TTL) (rt_bind (path_for_ino ino) (attr_for_path env owner))"

definition fuse_opendir :: "32 word \<Rightarrow> 's Runtime \<Rightarrow> Reply \<times> 's Runtime" where
  "fuse_opendir flags st = (ReplyOpened 0 (fuse_open_reply_flags flags), st)"

text \<open>The loop of \<open>readdir\<close> over the enumerated entries from the start offset on.\<close>

fun add_entries ::
  "((u64 \<times> int \<times> FileType \<times> string) list \<Rightarrow> u64 \<times> int \<times> FileType \<times> string \<Rightarrow> bool)
    \<Rightarrow> (u64 \<times> int \<times> FileType \<times> string) list \<Rightarrow> (nat \<times> u64 \<times> FileType \<times> string) list
    \<Rightarrow> (u64 \<times> int \<times> FileType \<times> string) list" where
  "add_entries full added [] = added"
| "add_entries full added ((index, ino, kind, name) # rest) =
     (let entry = (ino, int index + 1, kind, name) in
        if full added entry then added else add_entries full (added @ [entry]) rest)"

definition fuse_readdir ::
  "'s Env \<Rightarrow> ((u64 \<times> int \<times> FileType \<times> string) list \<Rightarrow> u64 \<times> int \<times> FileType \<times> string \<Rightarrow> bool)
    \<Rightarrow> u64 \<Rightarrow> int \<Rightarrow> 's Runtime \<Rightarrow> Reply \<times> 's Runtime" where
  "fuse_readdir env full ino offset =
     respond (\<lambda>entries. ReplyDirectory (add_entries full [] (drop (nat (max offset 0)) (List.enumerate 0 entries))))
       (rt_bind (path_for_ino ino) (\<lambda>path. directory_reply_entries env path ino))"

definition fuse_releasedir :: "'s Runtime \<Rightarrow> Reply \<times> 's Runtime" where
  "fuse_releasedir st = (ReplyOk, st)"

definition fuse_open :: "'s Env \<Rightarrow> u64 \<Rightarrow> 32 word \<Rightarrow> 's Runtime \<Rightarrow> Reply \<times> 's Runtime" where
  "fuse_open env ino flags =
     respond (\<lambda>handle. ReplyOpened handle (fuse_open_reply_flags flags))
       (rt_bind (path_for_ino ino) (\<lambda>path. mr_open env path (runtime_open_options_from_flags flags False)))"

text \<open>\<open>start.saturating_add(size).min(bytes.len())\<close> and the slice of \<open>read\<close>.\<close>

definition read_slice :: "nat \<Rightarrow> nat \<Rightarrow> bytes \<Rightarrow> bytes" where
  "read_slice start sz bs =
     (let stop = min (min (start + sz) (2 ^ 64 - 1)) (length bs) in
        if length bs \<le> start then [] else take (stop - start) (drop start bs))"

definition fuse_read :: "'s Env \<Rightarrow> u64 \<Rightarrow> u64 \<Rightarrow> int \<Rightarrow> 32 word \<Rightarrow> 's Runtime \<Rightarrow> Reply \<times> 's Runtime" where
  "fuse_read env ino fh offset sz =
     respond (\<lambda>bs. ReplyData (read_slice (nat offset) (unat sz) bs))
       (if offset < 0 then rt_fail EINVAL
        else rt_bind (path_for_ino ino) (mr_read_handle env fh))"

definition fuse_write :: "'s Env \<Rightarrow> u64 \<Rightarrow> u64 \<Rightarrow> int \<Rightarrow> bytes \<Rightarrow> 's Runtime \<Rightarrow> Reply \<times> 's Runtime" where
  "fuse_write env ino fh offset data =
     respond (\<lambda>written. ReplyWritten (word_of_nat written))
       (if offset < 0 then rt_fail EINVAL
        else rt_bind (path_for_ino ino) (\<lambda>path.
             rt_bind (writable_handle env fh path) (\<lambda>handle. write_to_handle_buffer handle offset data)))"

definition perm_of_mode :: "32 word \<Rightarrow> 16 word" where
  "perm_of_mode mode = ucast (mode AND 4095)"

definition fuse_mknod ::
  "'s Env \<Rightarrow> StableOwner \<Rightarrow> u64 \<Rightarrow> string \<Rightarrow> 32 word \<Rightarrow> 's Runtime \<Rightarrow> Reply \<times> 's Runtime" where
  "fuse_mknod env owner parent name mode =
     respond (\<lambda>attr. ReplyEntry TTL attr 0)
       (rt_bind (child_for parent name) (\<lambda>path.
        rt_bind (mr_mknod env path mode) (\<lambda>_. regular_file_reply_attr env owner path (perm_of_mode mode) 0)))"

definition fuse_mkdir ::
  "'s Env \<Rightarrow> StableOwner \<Rightarrow> u64 \<Rightarrow> string \<Rightarrow> 32 word \<Rightarrow> 's Runtime \<Rightarrow> Reply \<times> 's Runtime" where
  "fuse_mkdir env owner parent name mode =
     respond (\<lambda>attr. ReplyEntry TTL attr 0)
       (rt_bind (child_for parent name) (\<lambda>path.
        rt_bind (mr_mkdir env path) (\<lambda>_.
        rt_bind (allocate_for_path path DirectoryType) (\<lambda>ino.
          rt_gets (\<lambda>st. build_attr ino DirectoryType (perm_of_mode mode) owner (from_version (mount_version st)) 0)))))"

definition fuse_create ::
  "'s Env \<Rightarrow> StableOwner \<Rightarrow> u64 \<Rightarrow> string \<Rightarrow> 32 word \<Rightarrow> 32 word \<Rightarrow> 's Runtime \<Rightarrow> Reply \<times> 's Runtime" where
  "fuse_create env owner parent name mode flags =
     respond (\<lambda>(attr, fh). ReplyCreated TTL attr 0 fh (fuse_open_reply_flags flags))
       (rt_bind (child_for parent name) (\<lambda>path.
        rt_bind (mr_open env path (runtime_open_options_from_flags flags True)) (\<lambda>fh st.
          case create_reply_attr env owner path fh (perm_of_mode mode) st of
            (Inr attr, st) \<Rightarrow> (Inr (attr, fh), st)
          | (Inl err, st) \<Rightarrow> (Inl err, discard fh st))))"

definition fuse_unlink :: "'s Env \<Rightarrow> u64 \<Rightarrow> string \<Rightarrow> 's Runtime \<Rightarrow> Reply \<times> 's Runtime" where
  "fuse_unlink env parent name =
     respond (\<lambda>_. ReplyOk) (rt_bind (child_for parent name) (mr_unlink env))"

definition fuse_rmdir :: "'s Runtime \<Rightarrow> Reply \<times> 's Runtime" where
  "fuse_rmdir st = (ReplyError ENOTSUP, st)"

definition fuse_rename ::
  "'s Env \<Rightarrow> u64 \<Rightarrow> string \<Rightarrow> u64 \<Rightarrow> string \<Rightarrow> 32 word \<Rightarrow> 's Runtime \<Rightarrow> Reply \<times> 's Runtime" where
  "fuse_rename env parent name newparent newname flags =
     respond (\<lambda>_. ReplyOk)
       (rt_bind (child_for parent name) (\<lambda>path.
        rt_bind (child_for newparent newname) (\<lambda>new_path. mr_rename env path new_path flags)))"

record SetattrMetadataFields =
  sf_mode :: bool
  sf_uid :: bool
  sf_gid :: bool
  sf_atime :: bool
  sf_mtime :: bool
  sf_ctime :: bool
  sf_crtime :: bool
  sf_chgtime :: bool
  sf_bkuptime :: bool
  sf_flags :: bool

definition requested :: "SetattrMetadataFields \<Rightarrow> bool" where
  "requested metadata_fields \<longleftrightarrow>
     sf_mode metadata_fields \<or> sf_uid metadata_fields \<or> sf_gid metadata_fields \<or> sf_atime metadata_fields \<or> sf_mtime metadata_fields \<or> sf_ctime metadata_fields
     \<or> sf_crtime metadata_fields \<or> sf_chgtime metadata_fields \<or> sf_bkuptime metadata_fields \<or> sf_flags metadata_fields"

text \<open>The optional arguments of \<open>setattr\<close> other than \<open>size\<close> and \<open>fh\<close> are only asked whether they are
  there.\<close>

definition fuse_setattr ::
  "'s Env \<Rightarrow> StableOwner \<Rightarrow> u64 \<Rightarrow> SetattrMetadataFields \<Rightarrow> u64 option \<Rightarrow> u64 option \<Rightarrow> 's Runtime
    \<Rightarrow> Reply \<times> 's Runtime" where
  "fuse_setattr env owner ino metadata_fields sz fh =
     respond (ReplyAttr TTL)
       (rt_bind (path_for_ino ino) (\<lambda>path.
          if requested metadata_fields then rt_fail ENOTSUP
          else (case sz of
                  None \<Rightarrow> attr_for_path env owner path
                | Some requested_size \<Rightarrow>
                    (if requested_size \<noteq> 0 then rt_fail ENOTSUP
                     else (case fh of
                             Some fh \<Rightarrow> truncate_handle_reply_attr env owner path fh
                           | None \<Rightarrow>
                               rt_bind (mr_truncate_path env path) (\<lambda>_. attr_for_path env owner path))))))"

definition fuse_flush :: "u64 \<Rightarrow> 's Runtime \<Rightarrow> Reply \<times> 's Runtime" where
  "fuse_flush fh = respond (\<lambda>_. ReplyOk) (flush_handle fh)"

definition fuse_fsync :: "'s Env \<Rightarrow> u64 \<Rightarrow> 's Runtime \<Rightarrow> Reply \<times> 's Runtime" where
  "fuse_fsync env fh = respond (\<lambda>_. ReplyOk) (commit_handle env fh)"

definition fuse_release :: "'s Env \<Rightarrow> u64 \<Rightarrow> 's Runtime \<Rightarrow> Reply \<times> 's Runtime" where
  "fuse_release env fh = respond (\<lambda>_. ReplyOk) (release_handle env fh)"

definition fuse_statfs :: "'s Runtime \<Rightarrow> Reply \<times> 's Runtime" where
  "fuse_statfs st = (ReplyStatfs 0 0 0 1000000 1000000 512 255 512, st)"

end
