(* ===== verification/Runtime_Frames.thy ===== *)
theory Runtime_Frames
  imports Runtime_Ops
begin

text \<open>
  Which parts of the runtime's state its operations leave alone. \<open>preserves P m\<close> says that \<open>m\<close> keeps
  \<open>P\<close>. The contract \<open>read_frame\<close> lists what the reading operations do to the state (they call the
  backend, log errors, forget stale marks and fill the cache) and proves once that they all keep \<open>P\<close>;
  \<open>open_frame\<close> adds what preparing a handle does, \<open>write_frame\<close> what the writing operations do.
\<close>

definition preserves :: "('s Runtime \<Rightarrow> bool) \<Rightarrow> ('s Runtime \<Rightarrow> 'b \<times> 's Runtime) \<Rightarrow> bool" where
  "preserves P m \<longleftrightarrow> (\<forall>st. P st \<longrightarrow> P (snd (m st)))"

named_theorems pres \<open>rules for preserves\<close>

lemma preservesI: "(\<And>st. P st \<Longrightarrow> P (snd (m st))) \<Longrightarrow> preserves P m"
  by (simp add: preserves_def)

lemma preservesD: "preserves P m \<Longrightarrow> m st = (r, st') \<Longrightarrow> P st \<Longrightarrow> P st'"
  by (metis preserves_def snd_conv)

lemma preserves_basic [pres]:
  "preserves P (rt_return x)" "preserves P (rt_fail e)" "preserves P (rt_of r)" "preserves P (rt_gets f)"
  by (simp_all add: preserves_def rt_return_def rt_fail_def rt_of_def rt_gets_def)

lemma preserves_bind [pres]:
  "preserves P m \<Longrightarrow> (\<And>x. preserves P (f x)) \<Longrightarrow> preserves P (rt_bind m f)"
  by (auto simp: preserves_def rt_bind_def split: prod.splits sum.splits)

lemma preserves_try [pres]: "preserves P m \<Longrightarrow> preserves P (rt_try m)"
  by (auto simp: preserves_def rt_try_def split: prod.splits)

lemma preserves_map [pres]: "preserves P m \<Longrightarrow> preserves P (rt_map f m)"
  unfolding rt_map_def by (intro pres)

lemma preserves_modify [pres]: "(\<And>st. P st \<Longrightarrow> P (f st)) \<Longrightarrow> preserves P (rt_modify f)"
  by (simp add: preserves_def rt_modify_def)

lemma preserves_if [pres]:
  "(c \<Longrightarrow> preserves P m) \<Longrightarrow> (\<not> c \<Longrightarrow> preserves P n) \<Longrightarrow> preserves P (if c then m else n)"
  by simp

lemma preserves_ensure_writes [pres]: "preserves P ensure_writes_allowed"
  by (simp add: preserves_def ensure_writes_allowed_def)

lemma preserves_parse [pres]: "preserves P (parse_path path)" "preserves P (plan_rt env i p)"
  unfolding parse_path_def plan_rt_def by (intro pres)+

lemma foldl_snd:
  assumes "\<And>x y. P (snd x) \<Longrightarrow> P (snd (f x y))" "P (snd x)"
  shows "P (snd (foldl f x ys))"
  using assms(2)
proof (induction ys arbitrary: x)
  case (Cons y ys)
  show ?case using Cons.IH [OF assms(1) [OF Cons.prems, of y]] by simp
qed simp

section \<open>Reading operations\<close>

locale read_frame =
  fixes P :: "'s Runtime \<Rightarrow> bool"
  assumes backend: "P st \<Longrightarrow> P (st\<lparr>rt_backend := b\<rparr>)"
    and error: "P st \<Longrightarrow> P (record_error m st)"
    and stale: "P st \<Longrightarrow> P (st\<lparr>rt_stale_paths := x\<rparr>)"
    and insert_cache: "P st \<Longrightarrow> P (st\<lparr>rt_cache := cache_insert e (rt_cache st)\<rparr>)"
    and event: "P st \<Longrightarrow> P (st\<lparr>rt_cache := cache_apply ev (rt_cache st)\<rparr>)"
    and invalidation: "P st \<Longrightarrow> P (st\<lparr>rt_cache := apply_invalidation plan (rt_cache st)\<rparr>)"
begin

lemma io_error_keeps: "io_error env err st = (e, st') \<Longrightarrow> P st \<Longrightarrow> P st'"
  by (auto simp: io_error_def error split: if_splits)

lemma call [pres]: "preserves P (rt_call f)"
  by (auto simp: preserves_def rt_call_def backend split: prod.splits)

lemma io [pres]: "preserves P (rt_io env f)"
  unfolding rt_io_def
  by (intro pres) (auto simp: preserves_def split: prod.splits sum.splits dest: io_error_keeps)

lemma missing [pres]: "preserves P (or_missing env x r)"
  by (auto simp: or_missing_def preserves_def split: prod.splits sum.splits dest: io_error_keeps)

lemma kv_list [pres]: "preserves P (proj_list_kv_prefix env b p parsed)"
  unfolding proj_list_kv_prefix_def
  by (intro pres) (auto simp: preserves_def split: prod.splits sum.splits dest: io_error_keeps)

lemma stream_list [pres]: "preserves P (rt_list_stream_messages env s a)"
  unfolding rt_list_stream_messages_def
  by (intro pres) (auto simp: preserves_def split: prod.splits sum.splits dest: io_error_keeps)

lemma classify [pres]:
  "preserves P (rt_object_metadata env b obj)"
  "preserves P (classify_kv_dynamic_path env b k)"
  "preserves P (classify_object_dynamic_path env b obj)"
  "preserves P (kv_prefix_projection_kind env b k)"
  unfolding rt_object_metadata_def classify_kv_dynamic_path_def classify_object_dynamic_path_def
    kv_prefix_projection_kind_def by (intro pres)+

lemma requires [pres]:
  "preserves P (require_kv_bucket env b)" "preserves P (require_stream env b)"
  "preserves P (require_object_bucket env b)" "preserves P (stream_subject_exists env b k)"
  unfolding require_kv_bucket_def require_stream_def require_object_bucket_def require_def
    stream_subject_exists_def Let_def by (intro pres)+

lemma agents [pres]: "preserves P (list_agents_root env)"
  unfolding list_agents_root_def by (intro pres)

lemma collect [pres]: "preserves P (collect_messages env stream subject sequences bs newest)"
proof (rule preservesI)
  fix st
  assume "P st"
  then show "P (snd (collect_messages env stream subject sequences bs newest st))"
  proof (induction sequences arbitrary: bs newest st)
    case (Cons sq sequences)
    obtain r st1 where r: "rt_io env (ms_stream_message (e_store env) stream sq) st = (r, st1)" by fastforce
    have "P st1" using preservesD [OF io r Cons.prems] .
    then show ?case using Cons.IH r by (cases r) auto
  qed simp
qed

lemma snapshots [pres]:
  "preserves P (collect_stream_subject_snapshot env stream subject entries)"
  "preserves P (read_stream_subject_snapshot env stream subject)"
  "preserves P (read_stream_subject_snapshot_allow_missing env stream subject)"
proof -
  show c: "preserves P (collect_stream_subject_snapshot env stream subject entries)" for entries
    unfolding collect_stream_subject_snapshot_def by (intro pres) (auto intro!: pres split: prod.splits)
  show "preserves P (read_stream_subject_snapshot env stream subject)"
    "preserves P (read_stream_subject_snapshot_allow_missing env stream subject)"
    unfolding read_stream_subject_snapshot_def read_stream_subject_snapshot_allow_missing_def
    by (intro pres c)+
qed

lemma materialized [pres]: "preserves P (read_materialized env target)"
  by (cases target) (auto simp: read_materialized_def intro!: pres)

lemma jsonl_prefix [pres]: "preserves P (durable_jsonl_applied_prefix env entry)"
  unfolding durable_jsonl_applied_prefix_def
  by (intro pres) (auto simp: preserves_def error split: sum.splits)

lemma dynamic_file [pres]: "preserves P (exact_dynamic_file_exists env parsed)"
  unfolding exact_dynamic_file_exists_def
  by (cases parsed) (auto intro!: pres split: option.splits MaterializedTarget.splits)

lemma directory [pres]: "preserves P (durable_directory_entries env parsed)"
  unfolding durable_directory_entries_def
  by (intro pres) (auto intro!: pres split: JetStreamAction.splits)

lemma path_plan: "P st \<Longrightarrow> P (apply_path_invalidation_plan plan st)"
proof -
  assume "P st"
  have one: "P (apply_path_action st a)" if "P st" for st a
    using that stale by (auto simp: apply_path_action_def mark_path_entry_stale_def mark_path_subtree_stale_def
      mark_paths_stale_def split: InvalidationScope.splits)
  have "P (foldl apply_path_action st as)" if "P st" for st as
    using that by (induction as arbitrary: st) (auto intro: one)
  then show "P (apply_path_invalidation_plan plan st)"
    using \<open>P st\<close> by (simp add: apply_path_invalidation_plan_def)
qed

lemma watch_event: "P st \<Longrightarrow> P (apply_watch_event st ev)"
  using event [OF path_plan] by (simp add: apply_watch_event_def Let_def)

lemma plan_keeps: "P st \<Longrightarrow> P (apply_invalidation_plan plan st)"
  using invalidation [OF path_plan] by (simp add: apply_invalidation_plan_def Let_def)

lemma mutation_keeps: "P st \<Longrightarrow> P (invalidate_after_local_mutation env path st)"
  using plan_keeps error by (auto simp: invalidate_after_local_mutation_def split: sum.splits)

lemma local_write: "P st \<Longrightarrow> P (invalidate_after_local_write env path st)"
  by (simp add: invalidate_after_local_write_def mutation_keeps)

lemma watch_events [pres]: "preserves P (apply_pending_watch_events env)"
proof -
  have "P (foldl apply_watch_event st evs)" if "P st" for st evs
    using that by (induction evs arbitrary: st) (auto intro: watch_event)
  then show ?thesis unfolding apply_pending_watch_events_def
    by (intro pres) (auto intro: watch_event error split: sum.splits)
qed

text \<open>The queued deletes in a directory.\<close>

lemma parse_directory: "preserves P (rt_bind (parse_path path) (durable_directory_entries env))"
  by (intro pres)

lemma parse_dynamic: "preserves P (rt_bind (parse_path path) (exact_dynamic_file_exists env))"
  by (intro pres)

lemma overlay_questions:
  assumes "\<And>p v es. preserves P (overlay p v es)"
  shows "preserves P (known_visible_entries env overlay path visited)"
    "preserves P (visible_entries env overlay path visited)"
    "preserves P (queued_exact_file_delete_reveals_directory env overlay path visited)"
    "preserves P (queued_directory_child_has_exact_dynamic_file env path)"
proof -
  note D = preservesD [OF parse_directory] preservesD [OF assms] preservesD [OF parse_dynamic]
  show k: "preserves P (known_visible_entries env overlay path visited)"
    by (auto simp: preserves_def known_visible_entries_def split: prod.splits dest: D)
  show "preserves P (visible_entries env overlay path visited)"
    by (auto simp: preserves_def visible_entries_def split: prod.splits sum.splits dest: D)
  show "preserves P (queued_exact_file_delete_reveals_directory env overlay path visited)"
    using k by (auto simp: preserves_def queued_exact_file_delete_reveals_directory_def)
  show "preserves P (queued_directory_child_has_exact_dynamic_file env path)"
    by (auto simp: preserves_def queued_directory_child_has_exact_dynamic_file_def split: prod.splits sum.splits
      dest: D)
qed

lemma deleted_path:
  assumes "\<And>p v es. preserves P (overlay p v es)" "P (snd es)"
  shows "P (snd (apply_deleted_path env overlay path visited es deleted))"
proof -
  obtain entries st where es: "es = (entries, st)" by (cases es)
  note D = overlay_questions [OF assms(1), THEN preservesD]
  show ?thesis using assms(2)
    by (auto simp: es apply_deleted_path_def split: option.splits sum.splits prod.splits bool.splits
      EntryKind.splits dest: D)
qed

lemma overlay [pres]: "preserves P (apply_queued_overlay_to_directory n env path visited entries)"
proof (induction n arbitrary: path visited entries)
  case (Suc n)
  have change: "P (snd (apply_change env (apply_queued_overlay_to_directory n env) path visited es c))"
    if "P (snd es)" for es c
    using foldl_snd [of P "apply_deleted_path env (apply_queued_overlay_to_directory n env) path visited",
        OF deleted_path [OF Suc] that, of "qo_deleted_paths c"]
    by (auto simp: apply_change_def split: prod.splits)
  have "P (snd (foldl (apply_change env (apply_queued_overlay_to_directory n env) path visited) es cs))"
    if "P (snd es)" for es cs
    using foldl_snd [of P, OF change that] .
  then show ?case by (simp add: preserves_def)
qed (simp add: preserves_def)

lemma the_overlay_keeps: "preserves P (the_overlay env st0 path visited entries)"
  unfolding the_overlay_def by (rule overlay)

lemma projection_parts [pres]:
  "preserves P (apply_queued_deletes_to_directory env path entries)"
  "preserves P (queued_exact_delete_reveals_synthetic_directory env path parsed)"
  "preserves P (queued_deleted_descendant_empties_synthetic_directory env path parsed)"
  "preserves P (merge_queued_directory_entries env parsed path r)"
proof -
  note D = preservesD [OF the_overlay_keeps] overlay_questions [OF the_overlay_keeps, THEN preservesD]
  show d: "preserves P (apply_queued_deletes_to_directory env path entries)" for entries
    by (auto simp: preserves_def apply_queued_deletes_to_directory_def split: prod.splits dest: D)
  show "preserves P (queued_exact_delete_reveals_synthetic_directory env path parsed)"
    by (auto simp: preserves_def queued_exact_delete_reveals_synthetic_directory_def split: prod.splits dest: D)
  have "preserves P (\<lambda>st. case visible_entries env (the_overlay env st) path {} st of
      (v, st) \<Rightarrow> (Inr (deleted_descendant_empties_synthetic_directory parsed x v), st))" for x
    by (auto simp: preserves_def split: prod.splits dest: D)
  then show "preserves P (queued_deleted_descendant_empties_synthetic_directory env path parsed)"
    unfolding queued_deleted_descendant_empties_synthetic_directory_def by (intro pres)
  show "preserves P (merge_queued_directory_entries env parsed path r)"
    unfolding merge_queued_directory_entries_def Let_def
    by (intro pres) (auto intro!: pres d split: sum.splits)
qed

lemma unapplied [pres]: "preserves P (append_unapplied env path entries snapshot version)"
proof (rule preservesI)
  fix st
  assume "P st"
  then show "P (snd (append_unapplied env path entries snapshot version st))"
  proof (induction entries arbitrary: snapshot version st)
    case (Cons e entries)
    obtain r st1 where r: "durable_jsonl_applied_prefix env e st = (r, st1)" by fastforce
    have "P st1" using preservesD [OF jsonl_prefix r Cons.prems] .
    then show ?case using Cons.IH r by (cases r) (auto split: sum.splits)
  qed simp
qed

lemma jsonl_snapshot [pres]: "preserves P (queued_jsonl_snapshot env path parsed)"
proof -
  have "preserves P (jsonl_base env path parsed)"
    unfolding jsonl_base_def
    by (intro pres) (auto intro!: pres split: prod.splits option.splits sum.splits)
  then show ?thesis
    unfolding queued_jsonl_snapshot_def by (intro pres) (auto intro!: pres split: prod.splits)
qed

lemma durable_read [pres]: "preserves P (read_durable env path parsed)"
proof -
  have c: "preserves P (caching path' origin snapshot)" for path' origin snapshot
    unfolding caching_def cache_put_def by (intro pres insert_cache)
  show ?thesis
    unfolding read_durable_def
    by (intro pres) (auto intro!: pres c split: JetStreamAction.splits option.splits prod.splits)
qed

lemma reads [pres]: "preserves P (read_snapshot env path parsed)"
proof -
  have s: "preserves P (case parsed of
      JetStreamPath.StreamSubject stream subject \<Rightarrow>
        rt_bind (require_stream env stream) (\<lambda>_. rt_bind (stream_subject_exists env stream subject) (\<lambda>ex.
          if \<not> ex then rt_fail ENOENT else rt_return ()))
    | _ \<Rightarrow> rt_return ())" by (cases parsed) (auto intro!: pres)
  show ?thesis
    unfolding read_snapshot_def by (intro pres) (auto intro!: pres s split: option.splits)
qed

lemma metadata [pres]: "preserves P (attr_metadata env path parsed)"
  unfolding attr_metadata_def
  by (intro pres) (auto intro!: pres split: option.splits JetStreamPath.splits)

lemma kinds [pres]: "preserves P (kind_for_parsed env path parsed)"
proof -
  have d: "preserves P (durable_kind env parsed)"
    unfolding durable_kind_def
    by (cases parsed) (auto intro!: pres split: option.splits MaterializedTarget.splits)
  have s: "preserves P (settle path r)" for r :: "Errno + MountProjectionKind"
    by (simp add: preserves_def settle_def clear_stale_path_def stale)
  show ?thesis
    unfolding kind_for_parsed_def
    by (intro pres s) (auto intro!: pres s d split: prod.splits option.splits)
qed

lemma projection [pres]:
  "preserves P (proj_attr env path)" "preserves P (proj_read_bytes env path)"
  "preserves P (proj_directory_entries env path)" "preserves P (proj_write_mode env path)"
  "preserves P (create_target env path)"
proof -
  show "preserves P (proj_attr env path)" "preserves P (proj_read_bytes env path)"
    "preserves P (proj_directory_entries env path)" "preserves P (proj_write_mode env path)"
    unfolding proj_attr_def proj_read_bytes_def proj_directory_entries_def proj_write_mode_def
    by (intro pres)+
  have q: "preserves P (queued_create_target_kind env path parsed)" for parsed
    unfolding queued_create_target_kind_def by (intro pres)
  have m: "preserves P (materialized_kv_create_target_kind env b k)" for b k
    unfolding materialized_kv_create_target_kind_def by (intro pres)
  have "preserves P (create_target_kind env path parsed action)" for parsed action
    unfolding create_target_kind_def
    by (intro pres q) (auto intro!: pres m split: option.splits JetStreamAction.splits MaterializedTarget.splits)
  then show "preserves P (create_target env path)"
    unfolding create_target_def by (intro pres) (auto intro!: pres split: DynamicPathKind.splits)
qed

lemma snapshot_keeps: "snapshot_or_log env what stream subject f st = (r, st') \<Longrightarrow> P st \<Longrightarrow> P st'"
  using preservesD [OF snapshots(3) [of env stream subject]]
  by (auto simp: snapshot_or_log_def error split: prod.splits sum.splits if_splits)

lemma operation_keeps: "failed_operation env action bs base st = (r, st') \<Longrightarrow> P st \<Longrightarrow> P st'"
  by (auto simp: failed_operation_def applied_jsonl_lines_for_queue_def
    split: JetStreamAction.splits MaterializedTarget.splits option.splits prod.splits sum.splits dest: snapshot_keeps)

lemma base_keeps: "jsonl_base_snapshot env parsed action st = (base, st') \<Longrightarrow> P st \<Longrightarrow> P st'"
  by (auto simp: jsonl_base_snapshot_def split: if_splits option.splits prod.splits dest: snapshot_keeps)

end

section \<open>Writing operations\<close>

locale open_frame = read_frame P for P :: "'s Runtime \<Rightarrow> bool" +
  assumes seed: "P st \<Longrightarrow> P (st\<lparr>rt_next_commit_id := i\<rparr>)"
    and ticks: "P st \<Longrightarrow> P (st\<lparr>rt_ticks := n\<rparr>)"
begin

lemma seeds: "next_commit_seed st = (x, st') \<Longrightarrow> P st \<Longrightarrow> P st'"
  by (auto simp: next_commit_seed_def intro: seed)

lemma rt_small [pres]: "preserves P rt_seed" "preserves P (rt_now env)" "preserves P (staged_create env bs)"
proof -
  show "preserves P rt_seed"
    by (auto simp: preserves_def rt_seed_def split: prod.splits dest: seeds)
  show n: "preserves P (rt_now env)" by (auto simp: preserves_def rt_now_def intro: ticks)
  show "preserves P (staged_create env bs)" unfolding staged_create_def by (intro pres n)
qed

lemma handles [pres]:
  "preserves P (write_mode_for_path env path)"
  "preserves P (initial_handle_state env path w m t c)"
  "preserves P (build_handle env path w t c)"
proof -
  show w: "preserves P (write_mode_for_path env path)" unfolding write_mode_for_path_def by (intro pres)
  show i: "preserves P (initial_handle_state env path w m t c)" for m
    unfolding initial_handle_state_def by (intro pres) (auto intro!: pres split: sum.splits)
  show "preserves P (build_handle env path w t c)"
    unfolding build_handle_def by (intro pres w i) (auto intro!: pres split: prod.splits)
qed

end

locale write_frame = open_frame P for P :: "'s Runtime \<Rightarrow> bool" +
  assumes unlink_path: "P st \<Longrightarrow> P (st\<lparr>rt_paths := pc_remove path (rt_paths st)\<rparr>)"
    and put_handle: "P st \<Longrightarrow> P (st\<lparr>rt_handles := map_insert fh h (rt_handles st)\<rparr>)"
    and close: "P st \<Longrightarrow> P (st\<lparr>rt_handles := map_remove fh (rt_handles st)\<rparr>)"
    and next_fh: "P st \<Longrightarrow> P (st\<lparr>rt_next_fh := fh\<rparr>)"
    and enqueues: "P st \<Longrightarrow> writeback_enqueue serde failed (rt_replay st) (rt_disk st) = (r, wr, d) \<Longrightarrow>
      P (st\<lparr>rt_replay := wr, rt_disk := d\<rparr>)"
    and syncs: "P st \<Longrightarrow> sync_gate (rt_replay st) = (out, wr) \<Longrightarrow> P (st\<lparr>rt_replay := wr\<rparr>)"
    and replays: "P st \<Longrightarrow> writeback_replay serde store (rt_replay st) (rt_disk st) (rt_backend st) = (q, wr, d, b) \<Longrightarrow>
      P (st\<lparr>rt_replay := wr, rt_disk := d, rt_backend := b\<rparr>)"
begin

lemma combined:
  "P st \<Longrightarrow> P (st\<lparr>rt_backend := b, rt_cache := cache_insert e (rt_cache st)\<rparr>)"
  "P st \<Longrightarrow> P (st\<lparr>rt_next_commit_id := i, rt_handles := map_insert fh h (rt_handles st)\<rparr>)"
  using insert_cache [OF backend, of st e b] put_handle [OF seed, of st fh h i] by simp_all

lemma local_unlink: "P st \<Longrightarrow> P (invalidate_after_local_unlink env path st)"
  by (simp add: invalidate_after_local_unlink_def Let_def mutation_keeps unlink_path)

lemma sync_keeps: "P st \<Longrightarrow> P (sync_writeback_gate reason st)"
  using syncs error by (auto simp: sync_writeback_gate_def Let_def split: prod.splits)

lemma replay_keeps_state: "P st \<Longrightarrow> P (replay_queue env st)"
  using replays [of st "e_serde env" "ReplayStorage.truncate (e_store env)"] error plan_keeps
  by (auto simp: replay_queue_def record_blocked_writeback_gate_def Let_def split: prod.splits sum.splits)

lemma opens [pres]: "preserves P (open_handle env path w t c)"
proof -
  have "preserves P (rt_bind (build_handle env path w t c) (\<lambda>handle.
      rt_bind (rt_modify (\<lambda>st. st\<lparr>rt_handles := map_insert fh handle (rt_handles st)\<rparr>)) (\<lambda>_. rt_return fh)))" for fh
    by (intro pres put_handle)
  then show ?thesis by (simp add: preserves_def open_handle_def Let_def next_fh)
qed

lemma fresh_seed [pres]: "preserves P (with_fresh_seed fh change)"
  by (rule preservesI)
    (auto simp: with_fresh_seed_def set_handle_def Let_def next_commit_seed_def
      split: option.splits prod.splits intro: seed put_handle combined)

lemma buffers [pres]:
  "preserves P (write_to_handle_buffer fh offset data)"
  "preserves P (stage_truncate fh)"
  "preserves P (reject_append_only_truncate env path)"
  "preserves P (read_bytes_for_handle env fh path)"
proof -
  show "preserves P (write_to_handle_buffer fh offset data)"
    unfolding write_to_handle_buffer_def by (intro pres)
  show "preserves P (stage_truncate fh)"
    using fresh_seed [of fh handle_truncate] by (auto simp: preserves_def stage_truncate_def split: option.splits)
  show "preserves P (reject_append_only_truncate env path)"
    unfolding reject_append_only_truncate_def by (intro pres)
  have "preserves P (rt_bind (rt_try (proj_read_bytes env path)) (\<lambda>r. case r of
      Inr bs \<Rightarrow> rt_return (fit (h_base_offset handle) bs @ h_buffer handle)
    | Inl err \<Rightarrow> if err = ENOENT then rt_return (fit (h_base_offset handle) [] @ h_buffer handle) else rt_fail err))"
    for handle :: Handle
    by (intro pres) (auto intro!: pres split: sum.splits)
  then show "preserves P (read_bytes_for_handle env fh path)"
    using projection(2) [of env path]
    by (auto simp: preserves_def read_bytes_for_handle_def split: option.splits HandleMode.splits)
qed

lemma refresh_keeps_state: "P st \<Longrightarrow> P (refresh_cache_after_write env path action bs st)"
  using local_write backend error combined(1)
  by (auto simp: refresh_cache_after_write_def Let_def split: prod.splits sum.splits option.splits)

lemma runtime_enqueue_keeps: "runtime_enqueue env failed st = (r, st') \<Longrightarrow> P st \<Longrightarrow> P st'"
  by (auto simp: runtime_enqueue_def split: prod.splits intro: enqueues)

lemma action_keeps: "enqueue_action env path action bs k base st = (r, st') \<Longrightarrow> P st \<Longrightarrow> P st'"
  by (auto simp: enqueue_action_def Let_def split: prod.splits option.splits
    dest: operation_keeps runtime_enqueue_keeps [OF _ ticks])

lemma commits [pres]: "preserves P (commit_mount_path_with_seed env path bs commit_seed)"
proof -
  have f: "preserves P (finish_commit env path action bs k base r)" for action k base r
    by (rule preservesI)
      (auto simp: finish_commit_def refresh_keeps_state split: sum.splits prod.splits
        intro: sync_keeps local_write dest: action_keeps [OF _ error] io_error_keeps)
  have v: "preserves P (validate_payload env action path bs)" for action
    unfolding validate_payload_def
    by (auto intro!: pres split: JetStreamAction.splits MaterializedTarget.splits)
  have c: "preserves P (rt_bind (rt_call g) (finish_commit env path action bs k base))" for g action k base
    by (intro pres f)
  have "preserves P (\<lambda>st. let key = e_idempotency_key env path bs commit_seed in
      case jsonl_base_snapshot env parsed action st of (base, st) \<Rightarrow>
        rt_bind (rt_call (execute_write_action env action bs key)) (finish_commit env path action bs key base) st)"
    for parsed action
    by (rule preservesI) (auto simp: Let_def split: prod.splits dest: base_keeps intro: c [unfolded preserves_def, rule_format])
  then show ?thesis unfolding commit_mount_path_with_seed_def by (intro pres v)
qed

lemma handle_commits [pres]: "preserves P (commit_handle env fh)" "preserves P (release_handle env fh)"
proof -
  have "preserves P (rt_bind (commit_mount_path_with_seed env p bs s) (\<lambda>_. rt_modify (\<lambda>st.
      case map_get (rt_handles st) fh of Some h \<Rightarrow> set_handle fh (after_commit m bs h) st | None \<Rightarrow> st)))" for p bs s m
    by (intro pres) (auto simp: set_handle_def put_handle split: option.splits)
  then show c: "preserves P (commit_handle env fh)"
    by (auto simp: preserves_def commit_handle_def Let_def split: option.splits)
  show "preserves P (release_handle env fh)"
    by (auto simp: preserves_def release_handle_def split: prod.splits intro: close dest: preservesD [OF c])
qed

lemma flushes [pres]: "preserves P (flush_handle fh)"
  by (simp add: preserves_def flush_handle_def)

lemma directories [pres]: "preserves P (execute_unlink env path)" "preserves P (execute_mkdir env path)"
proof -
  show "preserves P (execute_unlink env path)"
    unfolding execute_unlink_def
    by (intro pres local_unlink) (auto intro!: pres split: JetStreamAction.splits MaterializedTarget.splits)
  have k: "preserves P (require_directory kind)" for kind
    by (cases kind) (auto simp: require_directory_def intro!: pres)
  show "preserves P (execute_mkdir env path)"
    unfolding execute_mkdir_def ensure_kv_synthetic_directory_def ensure_object_synthetic_directory_def
    by (intro pres) (auto intro!: pres k split: JetStreamAction.splits)
qed

lemma enqueue_keeps [pres]: "preserves P (enqueue_rt env failed)"
  by (auto simp: preserves_def enqueue_rt_def split: prod.splits sum.splits
    dest: runtime_enqueue_keeps io_error_keeps)

lemma renames [pres]: "preserves P (execute_rename env a b flags)"
proof -
  have "preserves P (kv_rename_source env x y)" "preserves P (object_rename_source env x y)"
    "preserves P (ensure_kv_rename_destination env x y)" "preserves P (ensure_object_rename_destination env x y)"
    for x y
    unfolding kv_rename_source_def object_rename_source_def ensure_kv_rename_destination_def
      ensure_object_rename_destination_def
    by (intro pres; auto intro!: pres split: DynamicPathKind.splits)+
  moreover have "preserves P (queue_kv_rename_completion env kc)" "preserves P (queue_object_rename_completion env oc)"
    for kc oc
    unfolding queue_kv_rename_completion_def queue_object_rename_completion_def by (intro pres)+
  ultimately show ?thesis
    unfolding execute_rename_def
    by (intro pres local_write local_unlink replay_keeps_state)
      (auto intro!: pres split: JetStreamAction.splits RenamePlan.splits)
qed

lemma nodes [pres]: "preserves P (execute_mknod env path mode)"
  unfolding execute_mknod_def by (intro pres)

end

end
