(* ===== verification/Runtime_Props.thy ===== *)
theory Runtime_Props
  imports Runtime_Frames
begin

text \<open>
  The invariant of the runtime's state, which every operation keeps, what a read-only mount
  refuses, and what reads leave alone.
\<close>

section \<open>The invariant\<close>

definition runtime_inv :: "'s Runtime \<Rightarrow> bool" where
  "runtime_inv st \<longleftrightarrow>
     length (rt_recent_errors st) \<le> 32 \<and> wr_inv (rt_replay st) \<and> queue_inv (wr_queue (rt_replay st))
     \<and> cache_inv (rt_cache st) \<and> ordered (rt_handles st)"

lemma record_error_log: "length (rt_recent_errors st) \<le> 32 \<Longrightarrow> length (rt_recent_errors (record_error m st)) \<le> 32"
  by (simp add: record_error_def Let_def)

lemma record_error_frame [simp]:
  "rt_backend (record_error m st) = rt_backend st" "rt_stale_paths (record_error m st) = rt_stale_paths st"
  "rt_handles (record_error m st) = rt_handles st" "rt_next_fh (record_error m st) = rt_next_fh st"
  "rt_next_commit_id (record_error m st) = rt_next_commit_id st"
  "rt_cache (record_error m st) = rt_cache st" "rt_replay (record_error m st) = rt_replay st"
  "rt_paths (record_error m st) = rt_paths st" "rt_disk (record_error m st) = rt_disk st"
  "rt_ticks (record_error m st) = rt_ticks st" "rt_mounted_at (record_error m st) = rt_mounted_at st"
  by (simp_all add: record_error_def Let_def)

interpretation inv: write_frame runtime_inv
proof (unfold_locales, goal_cases)
  case (2 st m)
  then show ?case using record_error_log by (auto simp: runtime_inv_def)
next
  case (13 st serde failed r wr d)
  then show ?case using enqueue_inv [OF 13(2)] by (simp add: runtime_inv_def)
next
  case (14 st out wr)
  then show ?case using sync_gate_result [OF 14(2)] sync_gate_inv [OF 14(2)] by (auto simp: runtime_inv_def wr_inv_def)
next
  case (15 st serde store q wr d b)
  then show ?case using replay_inv [OF 15(2)] by (simp add: runtime_inv_def)
qed (simp_all add: runtime_inv_def cache_inv_insert cache_inv_apply cache_inv_invalidation om.ok_ins om.ok_del)

lemma runtime_new_inv:
  assumes "queue_inv q" "\<forall>e\<in>set (wq_entries q). \<not> qe_done e"
  shows "runtime_inv (MountRuntimeState_new b q d name seed t)"
proof -
  obtain out wr where g: "sync_gate \<lparr>wr_queue = q, wr_gate = WritebackGate_new\<rparr> = (out, wr)" by fastforce
  then have "from_queue q = wr" by (simp add: from_queue_def)
  then show ?thesis
    using sync_gate_inv [OF g] sync_gate_result [OF g] assms
    by (simp add: runtime_inv_def MountRuntimeState_new_def cache_inv_new)
qed

section \<open>Frames\<close>

text \<open>What a read leaves alone: the queue with its gate and file, the handles, the inode table and
  the counters.\<close>

definition durable_part :: "'s Runtime \<Rightarrow> WritebackReplay \<times> Disk \<times> (u64, Handle) rmap \<times> FileType PathCache \<times> u64 \<times> u64 \<times> nat \<times> SystemTime" where
  "durable_part st = (rt_replay st, rt_disk st, rt_handles st, rt_paths st, rt_next_fh st, rt_next_commit_id st,
     rt_ticks st, rt_mounted_at st)"

interpretation reads: read_frame "\<lambda>st. durable_part st = c"
  for c :: "WritebackReplay \<times> Disk \<times> (u64, Handle) rmap \<times> FileType PathCache \<times> u64 \<times> u64 \<times> nat \<times> SystemTime"
  by unfold_locales (auto simp: durable_part_def)

lemma reads_keep:
  "(\<And>c. preserves (\<lambda>st. durable_part st = c) m) \<Longrightarrow> m st = (r, st') \<Longrightarrow> durable_part st' = durable_part st"
  using preservesD by fastforce

lemma local_write_frame: "durable_part (invalidate_after_local_write env path st) = durable_part st"
  using reads.local_write by fastforce

section \<open>Properties\<close>

text \<open>A concrete environment over the in-memory backend, for the examples: JSON accepts everything, the
  keys of a commit are its seeds, and the clock stands still.\<close>

definition sample_json :: Json where
  "sample_json = \<lparr>json_parse = (\<lambda>_. Inr ()), utf8_text = (\<lambda>_. [])\<rparr>"

definition sample_env :: "MemoryStorageState Env" where
  "sample_env =
     \<lparr>e_store = memory_mount_storage sample_json (\<lambda>_. []) (\<lambda>_. 0), e_serde = line_serde, e_json = sample_json,
      e_display = (\<lambda>_. []), e_transport_display = (\<lambda>_. []), e_debug = (\<lambda>_. []), e_json_text = (\<lambda>_. []),
      e_queue_value = (\<lambda>_. JBool True), e_message_bytes = (\<lambda>_. Inr []),
      e_idempotency_key = (\<lambda>_ _ seed. seed), e_now = (\<lambda>_. 0)\<rparr>"

definition sample_runtime :: "QueueEntry list \<Rightarrow> MemoryStorageState Runtime" where
  "sample_runtime queued =
     MountRuntimeState_new MemoryStorage_new \<lparr>wq_capacity = 1, wq_entries = queued\<rparr>
       (blank_disk\<lparr>d_locked := True\<rparr>) ''m'' 0 0"

lemma sample_gate: "\<not> qe_done e \<Longrightarrow> writes_blocked (sample_runtime [e])" "\<not> writes_blocked (sample_runtime [])"
  by (simp_all add: writes_blocked_def write_gate_def gate_state_def sample_runtime_def MountRuntimeState_new_def
    from_queue_def sync_gate_def sync_with_queue_def sync_pending_def has_pending_def pending_len_def
    WritebackGate_new_def)

text \<open>The gate in front of the operations of the runtime: while the mount does not accept writes,
  committing, unlinking, making a directory, renaming, making a node, preparing a handle for
  writing and writing to a handle all fail with EROFS and touch at most a counter.\<close>

lemma blocked_ensure: "writes_blocked st \<Longrightarrow> ensure_writes_allowed st = (Inl EROFS, st)"
  by (simp add: ensure_writes_allowed_def writes_blocked_def)

lemma blocked_operations:
  assumes "writes_blocked st"
  shows "commit_mount_path_with_seed env path bs seed st = (Inl EROFS, st)"
    and "execute_unlink env path st = (Inl EROFS, st)"
    and "execute_mkdir env path st = (Inl EROFS, st)"
    and "execute_rename env path path' flags st = (Inl EROFS, st)"
    and "execute_mknod env path mode st = (Inl EROFS, st)"
    and "build_handle env path True trunc create st = (Inl EROFS, st)"
    and "open_handle env path True trunc create st = (Inl EROFS, st\<lparr>rt_next_fh := rt_next_fh st + 1\<rparr>)"
proof -
  have "writes_blocked (st\<lparr>rt_next_fh := rt_next_fh st + 1\<rparr>)"
    using assms by (simp add: writes_blocked_def write_gate_def)
  then show "open_handle env path True trunc create st = (Inl EROFS, st\<lparr>rt_next_fh := rt_next_fh st + 1\<rparr>)"
    by (simp add: open_handle_def build_handle_def rt_bind_def Let_def blocked_ensure)
qed (simp_all add: assms commit_mount_path_with_seed_def execute_unlink_def execute_mkdir_def execute_rename_def
  execute_mknod_def build_handle_def rt_bind_def blocked_ensure)

lemma blocked_change:
  assumes "writes_blocked st" "map_get (rt_handles st) fh = Some h"
  shows "\<exists>i. with_fresh_seed fh change st = (Inl EROFS, st\<lparr>rt_next_commit_id := i\<rparr>)"
  using assms
  by (intro exI [of _ "if h_committed h then saturating_add_one (rt_next_commit_id st) else rt_next_commit_id st"])
    (simp add: with_fresh_seed_def next_commit_seed_def writes_blocked_def write_gate_def)

lemma blocked_unlink_example:
  "execute_unlink sample_env ''/kv/b/k'' (sample_runtime [sample_entry]) = (Inl EROFS, sample_runtime [sample_entry])"
  using blocked_operations(2) [OF sample_gate(1) [of sample_entry]] by (simp add: sample_entry_def)

text \<open>Looking at the mount never changes what is durable or open: reading attributes, a directory
  or a file leaves the write-back queue, its gate and its file, the handles, the inode table and
  all counters exactly as they were, whatever the backend answers.\<close>

lemma reads_change_nothing_durable:
  "durable_part (snd (proj_attr env path st)) = durable_part st
    \<and> durable_part (snd (proj_directory_entries env path st)) = durable_part st
    \<and> durable_part (snd (proj_read_bytes env path st)) = durable_part st
    \<and> durable_part (snd (proj_write_mode env path st)) = durable_part st
    \<and> durable_part (snd (create_target env path st)) = durable_part st"
  using reads.projection unfolding preserves_def by metis

end
