(* ===== verification/Commit_Props.thy ===== *)
theory Commit_Props
  imports Runtime_Props
begin

text \<open>
  What a successful commit of a write guarantees: it reached the backend or it is in the durable
  queue. And what writing to a handle does to its buffer.
\<close>

lemma rt_bind_Inr: "rt_bind m f st = (Inr y, st') \<longleftrightarrow> (\<exists>x st1. m st = (Inr x, st1) \<and> f x st1 = (Inr y, st'))"
  by (auto simp: rt_bind_def split: prod.splits sum.splits)

section \<open>Write plans\<close>

definition is_write_action :: "JetStreamAction \<Rightarrow> bool" where
  "is_write_action action =
     (case action of
        JetStreamAction.KvPut _ _ \<Rightarrow> True
      | JetStreamAction.ObjectPut _ _ \<Rightarrow> True
      | JetStreamAction.PublishJsonLines _ _ \<Rightarrow> True
      | JetStreamAction.MaterializedPut _ \<Rightarrow> True
      | _ \<Rightarrow> False)"

lemma write_plan_is_write: "plan_operation dbg FileIntent.Write parsed = Inr action \<Longrightarrow> is_write_action action"
  by (cases parsed) (auto simp: plan_defs is_write_action_def split: if_splits option.splits MaterializedTarget.splits)

text \<open>The queued form of a write: \<open>n\<close> lines of a publish are known to be applied.\<close>

definition queued_form :: "JetStreamAction \<Rightarrow> bytes \<Rightarrow> nat \<Rightarrow> QueueOperation option" where
  "queued_form action bs n =
     (case action of
        JetStreamAction.KvPut bucket key \<Rightarrow> Some (QueueOperation.KvPut bucket key bs)
      | JetStreamAction.ObjectPut bucket obj \<Rightarrow> Some (QueueOperation.ObjectPut bucket obj bs)
      | JetStreamAction.PublishJsonLines stream subject \<Rightarrow> Some (QueueOperation.PublishJsonLines stream subject bs n)
      | JetStreamAction.MaterializedPut (MaterializedTarget.Kv bucket key) \<Rightarrow>
          Some (QueueOperation.MaterializedPut bucket key bs)
      | JetStreamAction.MaterializedPut (MaterializedTarget.Stream stream subject) \<Rightarrow>
          Some (QueueOperation.PublishJsonLines stream subject bs n)
      | _ \<Rightarrow> None)"

lemma failed_operation_form:
  assumes "failed_operation env action bs base st = (r, st')" "is_write_action action"
  shows "\<exists>failed n. r = Some failed \<and> queued_form action bs n = Some (durable_operation_from_failed_write failed)"
  using assms
  by (auto simp: failed_operation_def is_write_action_def queued_form_def
    split: JetStreamAction.splits MaterializedTarget.splits prod.splits)

lemma validate_payload_pure: "\<exists>r. \<forall>st. validate_payload env action path bs st = (r, st)"
  by (cases action; (cases "(case action of JetStreamAction.MaterializedPut t \<Rightarrow> t | _ \<Rightarrow> undefined)")?)
    (auto simp: validate_payload_def rt_of_def rt_return_def)

section \<open>Queueing a write\<close>

lemma enqueue_into_empty:
  assumes "writeback_enqueue serde failed wr d = (Inr out, wr', d')" "wq_entries (wr_queue wr) = []"
  shows "wq_entries (wr_queue wr') = [durable_entry_from_failed_write failed]
    \<and> on_disk serde d' [durable_entry_from_failed_write failed] \<and> \<not> accepts_writes (wr_gate wr')"
proof -
  let ?e = "durable_entry_from_failed_write failed"
  obtain r1 q1 d1 where e: "enqueue serde ?e (wr_queue wr) d = (r1, q1, d1)" by (metis prod_cases3)
  obtain out1 wr1 where g: "sync_gate (wr\<lparr>wr_queue := q1\<rparr>) = (out1, wr1)" by fastforce
  have r: "r1 = Inr ()" "wr' = wr1" "d' = d1"
    using assms(1) e g by (auto simp: writeback_enqueue_def enqueue_failed_write_def split: sum.splits)
  have "replace_entries serde [?e] (wr_queue wr) d = (Inr (), q1, d1)"
    using enqueue_one [OF e] assms(2) r(1) by (auto split: if_splits)
  then have "wq_entries q1 = [?e]" "on_disk serde d1 [?e]"
    by (auto elim: replace_entries_cases)
  then show ?thesis using r sync_gate_result [OF g] by (auto simp: has_pending_def pending_len_def)
qed

lemma enqueue_action_result:
  assumes "enqueue_action env path action bs key base st = (Inr (), st')" "is_write_action action"
    and "wq_entries (wr_queue (rt_replay st)) = []"
  shows "\<exists>e n. wq_entries (wr_queue (rt_replay st')) = [e] \<and> on_disk (e_serde env) (rt_disk st') [e]
    \<and> qe_idempotency_key e = key \<and> Some (qe_operation e) = queued_form action bs n \<and> \<not> qe_done e
    \<and> \<not> accepts_writes (wr_gate (rt_replay st'))"
proof -
  obtain r st1 where f: "failed_operation env action bs base st = (r, st1)" by fastforce
  have "durable_part st1 = durable_part st" using reads.operation_keeps [OF f] by blast
  then have st1: "rt_replay st1 = rt_replay st" "rt_disk st1 = rt_disk st" by (simp_all add: durable_part_def)
  obtain op1 n where op1: "r = Some op1" "queued_form action bs n = Some (durable_operation_from_failed_write op1)"
    using failed_operation_form [OF f assms(2)] by blast
  define failed where "failed = \<lparr>fw_idempotency_key = key, fw_version = VersionStamp_at (e_now env (rt_ticks st1)),
    fw_diagnostic_path = path, fw_operation = op1\<rparr>"
  obtain r2 wr2 d2 where w: "writeback_enqueue (e_serde env) failed (rt_replay st) (rt_disk st) = (r2, wr2, d2)"
    by (metis prod_cases3)
  have "\<exists>out. r2 = Inr out" "st' = st1\<lparr>rt_ticks := Suc (rt_ticks st1), rt_replay := wr2, rt_disk := d2\<rparr>"
    using assms(1) f op1(1) w st1
    by (auto simp: enqueue_action_def runtime_enqueue_def Let_def failed_def)
  then show ?thesis
    using enqueue_into_empty [of "e_serde env" failed "rt_replay st" "rt_disk st"] w assms(3) op1(2)
    by (auto simp: failed_def durable_entry_from_failed_write_def) (metis)
qed

lemma sync_gate_closed:
  assumes "wr_inv (rt_replay st)"
  shows "rt_replay (sync_writeback_gate reason st) = rt_replay st \<and> rt_disk (sync_writeback_gate reason st) = rt_disk st"
proof -
  obtain out wr where g: "sync_gate (rt_replay st) = (out, wr)" by fastforce
  have "wr = rt_replay st"
    using g assms has_pending_iff [of "wr_queue (rt_replay st)"]
    by (cases "rt_replay st") (auto simp: sync_gate_def sync_with_queue_def sync_pending_def wr_inv_def accepts_writes_def
      split: if_splits)
  then show ?thesis using g by (auto simp: sync_writeback_gate_def Let_def)
qed

text \<open>The part of a commit after its checks, for each answer of the backend.\<close>

lemma refresh_cache_frame: "durable_part (refresh_cache_after_write env path action bs st) = durable_part st"
  using local_write_frame [of env path st]
  by (auto simp: refresh_cache_after_write_def durable_part_def Let_def split: prod.splits sum.splits option.splits)

lemma finish_commit_queued:
  assumes "finish_commit env path action bs key base (Inl err) st = (Inr (), st')" "is_write_action action"
    and "wq_entries (wr_queue (rt_replay st)) = []"
  shows "\<exists>e n. wq_entries (wr_queue (rt_replay st')) = [e] \<and> on_disk (e_serde env) (rt_disk st') [e]
    \<and> qe_idempotency_key e = key \<and> Some (qe_operation e) = queued_form action bs n \<and> \<not> qe_done e
    \<and> writes_blocked st'"
proof -
  let ?st = "record_error (''commit queued for '' @ path @ '': '' @ e_transport_display env err) st"
  obtain r2 st2 where e: "enqueue_action env path action bs key base ?st = (r2, st2)" by fastforce
  have ok: "r2 = Inr ()" and st': "st' = sync_writeback_gate
      ''writeback queue has pending entries after a queued write; mount is read-only'' (invalidate_after_local_write env path st2)"
    using assms(1) e by (auto simp: finish_commit_def split: sum.splits prod.splits)
  obtain e n where en: "wq_entries (wr_queue (rt_replay st2)) = [e]" "on_disk (e_serde env) (rt_disk st2) [e]"
    "qe_idempotency_key e = key" "Some (qe_operation e) = queued_form action bs n" "\<not> qe_done e"
    "\<not> accepts_writes (wr_gate (rt_replay st2))"
    using enqueue_action_result [OF e [unfolded ok] assms(2)] assms(3) by auto
  have w: "rt_replay (invalidate_after_local_write env path st2) = rt_replay st2"
      "rt_disk (invalidate_after_local_write env path st2) = rt_disk st2"
    using local_write_frame [of env path st2] by (auto simp: durable_part_def)
  have "wr_inv (rt_replay st2)" using en by (simp add: wr_inv_def)
  then have "rt_replay st' = rt_replay st2" "rt_disk st' = rt_disk st2"
    using sync_gate_closed [of "invalidate_after_local_write env path st2"] w st' by auto
  then show ?thesis using en
    by (auto simp: writes_blocked_def write_gate_def gate_state_def accepts_writes_def)
qed

section \<open>Properties\<close>

text \<open>C4: A write the mount acknowledges is not lost. When committing bytes to a path succeeds on a
  mount whose gate and queue agree, the path stands for a write, and there are two cases for the
  answer of the backend in the state the mount left it in (\<open>st1\<close> is the mount after it read the
  base of a line publish, and the mount itself for every other write). Either the backend
  accepted the write: the mount goes on with the backend state this call produced, refreshes
  its cache, and the queue and the disk are unchanged. Or the backend refused it: the durable
  queue holds exactly this write, with its bytes and its idempotency key, and the mount is
  read-only.\<close>

theorem acknowledged_write_is_stored_or_queued:
  assumes "commit_mount_path_with_seed env path bs seed st = (Inr (), st')" "wr_inv (rt_replay st)"
  defines "key \<equiv> e_idempotency_key env path bs seed"
  shows "\<exists>parsed action base st1 b'. parse path = Inr parsed
    \<and> plan_operation (e_debug env) FileIntent.Write parsed = Inr action
    \<and> jsonl_base_snapshot env parsed action st = (base, st1)
    \<and> (action_publishes_jsonl action \<or> st1 = st)
    \<and> (execute_write_action env action bs key (rt_backend st1) = (Inr (), b')
         \<and> st' = refresh_cache_after_write env path action bs (st1\<lparr>rt_backend := b'\<rparr>)
         \<and> rt_replay st' = rt_replay st \<and> rt_disk st' = rt_disk st
       \<or> (\<exists>err. execute_write_action env action bs key (rt_backend st1) = (Inl err, b'))
         \<and> (\<exists>e n. wq_entries (wr_queue (rt_replay st')) = [e] \<and> on_disk (e_serde env) (rt_disk st') [e]
            \<and> qe_idempotency_key e = key \<and> Some (qe_operation e) = queued_form action bs n \<and> \<not> qe_done e
            \<and> writes_blocked st'))"
proof -
  have open_gate: "accepts_writes (wr_gate (rt_replay st))"
    using assms(1) by (auto simp: commit_mount_path_with_seed_def rt_bind_def ensure_writes_allowed_def write_gate_def
      gate_state_def accepts_writes_def split: if_splits)
  then have empty: "wq_entries (wr_queue (rt_replay st)) = []" using assms(2) by (simp add: wr_inv_def)
  from assms(1) obtain parsed action where p: "parse path = Inr parsed"
    and a: "plan_operation (e_debug env) FileIntent.Write parsed = Inr action"
    and c: "(case jsonl_base_snapshot env parsed action st of (base, st) \<Rightarrow>
        rt_bind (rt_call (execute_write_action env action bs key)) (finish_commit env path action bs key base) st) = (Inr (), st')"
    using validate_payload_pure [of env _ path bs]
    by (auto simp: commit_mount_path_with_seed_def rt_bind_Inr ensure_writes_allowed_def parse_path_def plan_rt_def
      rt_of_def key_def Let_def split: if_splits) (metis prod.inject)
  obtain base st1 where b: "jsonl_base_snapshot env parsed action st = (base, st1)" by fastforce
  then have direct: "action_publishes_jsonl action \<or> st1 = st" by (auto simp: jsonl_base_snapshot_def split: if_splits)
  have "durable_part st1 = durable_part st" using reads.base_keeps [OF b] by blast
  then have st1: "rt_replay st1 = rt_replay st" "rt_disk st1 = rt_disk st" by (simp_all add: durable_part_def)
  obtain r bk where x: "execute_write_action env action bs key (rt_backend st1) = (r, bk)" by fastforce
  let ?st = "st1\<lparr>rt_backend := bk\<rparr>"
  have f: "finish_commit env path action bs key base r ?st = (Inr (), st')"
    using c b x by (simp add: rt_bind_Inr rt_call_def)
  show ?thesis
  proof (cases r)
    case (Inr u)
    then have "st' = refresh_cache_after_write env path action bs ?st" using f by (simp add: finish_commit_def)
    then show ?thesis using p a b direct x Inr st1 refresh_cache_frame [of env path action bs ?st]
      by (auto simp: durable_part_def)
  next
    case (Inl err)
    then show ?thesis using finish_commit_queued [OF f [unfolded Inl] write_plan_is_write [OF a]] p a b direct x st1 empty
      by auto
  qed
qed

section \<open>The in-memory backend\<close>

lemma memory_mount_simps [simp]:
  "kv_put_idempotent (memory_mount_storage json display now) = mem_kv_put_idempotent now"
  "ms_kv_get (memory_mount_storage json display now) = mem_kv_get"
  "ms_watch_events (memory_mount_storage json display now) = (\<lambda>s. (Inr [], s))"
  by (simp_all add: memory_mount_storage_def ReplayStorage.defs MountStorage.defs memory_storage_def)

lemma commit_memory_kv:
  assumes "e_store env = memory_mount_storage json display now" "parse path = Inr (JetStreamPath.KvKey b k)"
    and "\<not> writes_blocked st"
  shows "\<exists>r s1. mem_kv_put_idempotent now b k bs (e_idempotency_key env path bs seed) (rt_backend st) = (Inr r, s1)
    \<and> commit_mount_path_with_seed env path bs seed st =
        (Inr (), refresh_cache_after_write env path (JetStreamAction.KvPut b k) bs (st\<lparr>rt_backend := s1\<rparr>))"
proof -
  obtain r s1 where put: "mem_kv_put_idempotent now b k bs (e_idempotency_key env path bs seed) (rt_backend st) = (Inr r, s1)"
    using mem_kv_put_idempotent_applies by blast
  have plan: "plan_operation (e_debug env) FileIntent.Write (JetStreamPath.KvKey b k) = Inr (JetStreamAction.KvPut b k)"
    by (simp add: plan_defs)
  show ?thesis
    using put assms plan
    by (intro exI [of _ r] exI [of _ s1])
      (simp add: commit_mount_path_with_seed_def rt_bind_def ensure_writes_allowed_def writes_blocked_def
        parse_path_def rt_of_def plan_rt_def validate_payload_def rt_return_def jsonl_base_snapshot_def
        action_publishes_jsonl_def rt_call_def execute_write_action_def ignore_value_def finish_commit_def)
qed

lemma mem_put_get:
  assumes "mem_kv_put_idempotent now b k bs key s = (Inr r, s1)" "map_get (kv_applied s) (b, k, key) = None"
  shows "\<exists>entry. mem_kv_get b k s1 = (Inr (Some entry), s1) \<and> kr_bytes entry = bs"
  using assms by (auto simp: mem_kv_put_idempotent_def put_kv_def Let_def mem_kv_get_def om.get_ins)

lemma read_from_cache:
  assumes "wq_entries (wr_queue (rt_replay st)) = []" "cache_get (rt_cache st) path = Some entry"
  shows "read_snapshot env path parsed st = (Inr \<lparr>fs_bytes = ce_bytes entry, fs_version = ce_version entry\<rparr>, st)"
proof -
  have "queued_overlay st = \<lparr>qo_facts = []\<rparr>"
    using assms(1) by (simp add: queued_overlay_def QueuedOverlayProjection_new_def pending_overlays_def)
  then show ?thesis using assms(2)
    by (simp add: read_snapshot_def rt_bind_def rt_gets_def latest_delete_covers_def whole_value_snapshot_def
      queued_jsonl_snapshot_def jsonl_entries_def map_filter_simps rt_return_def)
qed

lemma local_write_backend: "rt_backend (invalidate_after_local_write env path st) = rt_backend st"
proof -
  have "rt_backend (apply_path_action st a) = rt_backend st" for st :: "'a Runtime" and a
    by (auto simp: apply_path_action_def mark_path_entry_stale_def mark_path_subtree_stale_def mark_paths_stale_def
      split: InvalidationScope.splits)
  then have "rt_backend (foldl apply_path_action st as) = rt_backend st" for st :: "'a Runtime" and as
    by (induction as arbitrary: st) auto
  then show ?thesis
    by (simp add: invalidate_after_local_write_def invalidate_after_local_mutation_def apply_invalidation_plan_def
      apply_path_invalidation_plan_def Let_def split: sum.splits)
qed

lemma read_cached_bytes:
  assumes "e_store env = memory_mount_storage json display now" "parse path = Inr parsed"
    and "wq_entries (wr_queue (rt_replay st)) = []" "cache_get (rt_cache st) path = Some entry"
  shows "proj_read_bytes env path st = (Inr (ce_bytes entry), st)"
proof -
  have "st\<lparr>rt_backend := rt_backend st\<rparr> = st" by simp
  then show ?thesis
    using assms(1,2) read_from_cache [OF assms(3,4), of env parsed]
    by (simp add: proj_read_bytes_def apply_pending_watch_events_def rt_bind_def rt_call_def rt_modify_def
      parse_path_def rt_of_def rt_map_def rt_return_def)
qed

text \<open>The state after a commit to the in-memory backend.\<close>

lemma commit_memory_kv_state:
  assumes "e_store env = memory_mount_storage json display now" "parse path = Inr (JetStreamPath.KvKey b k)"
    and "\<not> writes_blocked st" "wr_inv (rt_replay st)"
    and "map_get (kv_applied (rt_backend st)) (b, k, e_idempotency_key env path bs seed) = None"
  shows "\<exists>st' entry cached. commit_mount_path_with_seed env path bs seed st = (Inr (), st')
    \<and> mem_kv_get b k (rt_backend st') = (Inr (Some entry), rt_backend st') \<and> kr_bytes entry = bs
    \<and> cache_get (rt_cache st') path = Some cached \<and> ce_bytes cached = bs
    \<and> wq_entries (wr_queue (rt_replay st')) = [] \<and> rt_handles st' = rt_handles st"
proof -
  obtain r s1 where put: "mem_kv_put_idempotent now b k bs (e_idempotency_key env path bs seed) (rt_backend st) = (Inr r, s1)"
    and commit: "commit_mount_path_with_seed env path bs seed st =
        (Inr (), refresh_cache_after_write env path (JetStreamAction.KvPut b k) bs (st\<lparr>rt_backend := s1\<rparr>))"
    using commit_memory_kv [OF assms(1-3)] by blast
  obtain entry where get: "mem_kv_get b k s1 = (Inr (Some entry), s1)" "kr_bytes entry = bs"
    using mem_put_get [OF put assms(5)] by blast
  let ?st = "st\<lparr>rt_backend := s1\<rparr>"
  let ?inval = "invalidate_after_local_write env path ?st"
  let ?entry = "kv_cache_entry path (CacheOrigin.KvRevision b k (kr_revision entry)) entry"
  have backend: "rt_backend ?inval = s1" by (simp add: local_write_backend)
  have finished: "refresh_cache_after_write env path (JetStreamAction.KvPut b k) bs ?st =
      ?inval\<lparr>rt_backend := s1, rt_cache := cache_insert ?entry (rt_cache ?inval)\<rparr>"
    using get(1) assms(1) by (simp add: refresh_cache_after_write_def Let_def cache_entry_after_write_def backend)
  have frame: "rt_replay ?inval = rt_replay st" "rt_handles ?inval = rt_handles st"
    using local_write_frame [of env path ?st] by (simp_all add: durable_part_def)
  have "wq_entries (wr_queue (rt_replay st)) = []"
    using assms(3,4) by (simp add: wr_inv_def writes_blocked_def write_gate_def gate_state_def accepts_writes_def)
  moreover have "cache_get (cache_insert ?entry (rt_cache ?inval)) path = Some ?entry" "ce_bytes ?entry = bs"
    using get(2) by (simp_all add: get_insert kv_cache_entry_def)
  ultimately show ?thesis using commit finished get frame
    by (intro exI [of _ "?inval\<lparr>rt_backend := s1, rt_cache := cache_insert ?entry (rt_cache ?inval)\<rparr>"]
        exI [of _ entry] exI [of _ ?entry]) simp
qed

text \<open>Bytes committed to a KV path are read back. On a mount over the in-memory backend that
  accepts writes, committing bytes under a key not used before succeeds, the backend then
  holds the bytes, and reading the path answers exactly them.\<close>

lemma committed_bytes_are_read_back:
  assumes "e_store env = memory_mount_storage json display now" "parse path = Inr (JetStreamPath.KvKey b k)"
    and "\<not> writes_blocked st" "wr_inv (rt_replay st)"
    and "map_get (kv_applied (rt_backend st)) (b, k, e_idempotency_key env path bs seed) = None"
  shows "\<exists>st' entry. commit_mount_path_with_seed env path bs seed st = (Inr (), st')
    \<and> mem_kv_get b k (rt_backend st') = (Inr (Some entry), rt_backend st') \<and> kr_bytes entry = bs
    \<and> proj_read_bytes env path st' = (Inr bs, st')"
  using commit_memory_kv_state [OF assms] read_cached_bytes [OF assms(1,2)] by metis

lemma sample_commit:
  "e_store sample_env = memory_mount_storage sample_json (\<lambda>_. []) (\<lambda>_. 0)" "wr_inv (rt_replay (sample_runtime []))"
  "kv_applied (rt_backend (sample_runtime [])) = []"
  by (simp_all add: sample_env_def sample_runtime_def MountRuntimeState_new_def MemoryStorage_new_def from_queue_def
    sync_gate_def sync_with_queue_def sync_pending_def has_pending_def pending_len_def WritebackGate_new_def wr_inv_def
    accepts_writes_def)

lemma sample_path: "parse ''/kv/b/k'' = Inr (JetStreamPath.KvKey ''b'' ''k'')"
  by code_simp

theorem acknowledged_write_is_stored_or_queued_witness:
  "\<exists>st' b'. commit_mount_path_with_seed sample_env ''/kv/b/k'' [1] ''s'' (sample_runtime []) = (Inr (), st')
    \<and> execute_write_action sample_env (JetStreamAction.KvPut ''b'' ''k'') [1] (e_idempotency_key sample_env ''/kv/b/k'' [1] ''s'')
        (rt_backend (sample_runtime [])) = (Inr (), b')
    \<and> st' = refresh_cache_after_write sample_env ''/kv/b/k'' (JetStreamAction.KvPut ''b'' ''k'') [1]
        ((sample_runtime [])\<lparr>rt_backend := b'\<rparr>)"
proof -
  obtain r s1 st' where put: "mem_kv_put_idempotent (\<lambda>_. 0) ''b'' ''k'' [1] (e_idempotency_key sample_env ''/kv/b/k'' [1] ''s'')
      (rt_backend (sample_runtime [])) = (Inr r, s1)"
    and c: "commit_mount_path_with_seed sample_env ''/kv/b/k'' [1] ''s'' (sample_runtime []) = (Inr (), st')"
    using commit_memory_kv [OF sample_commit(1) sample_path sample_gate(2)] by blast
  have ok: "execute_write_action sample_env (JetStreamAction.KvPut ''b'' ''k'') [1]
      (e_idempotency_key sample_env ''/kv/b/k'' [1] ''s'') (rt_backend (sample_runtime [])) = (Inr (), s1)"
    using put by (simp add: execute_write_action_def sample_commit(1) ignore_value_def)
  have plan: "plan_operation dbg FileIntent.Write (JetStreamPath.KvKey ''b'' ''k'') = Inr (JetStreamAction.KvPut ''b'' ''k'')" for dbg
    by (simp add: plan_defs)
  show ?thesis using c ok acknowledged_write_is_stored_or_queued [OF c sample_commit(2)]
    by (auto simp: sample_path plan action_publishes_jsonl_def)
qed

lemma committed_bytes_are_read_back_example:
  "\<exists>st'. commit_mount_path_with_seed sample_env ''/kv/b/k'' [1, 2] ''s'' (sample_runtime []) = (Inr (), st')
    \<and> proj_read_bytes sample_env ''/kv/b/k'' st' = (Inr [1, 2], st')"
  using committed_bytes_are_read_back [OF sample_commit(1) sample_path sample_gate(2) sample_commit(2), of "[1, 2]" "''s''"]
  by (auto simp: sample_commit(3))

end
