(* ===== verification/Overlay_Fuel.thy ===== *)
theory Overlay_Fuel
  imports Commit_Props
begin

text \<open>
  The recursion over a directory and its children in \<open>mount_projection.rs\<close> ends: it only goes down
  to children on the way to a queued delete, so \<open>overlay_fuel\<close> is enough, and with it the model
  satisfies the recursion equation of the source.
\<close>

section \<open>Queued deletes are mount paths\<close>

lemma storage_fact_visible_paths_wf: "p \<in> set (storage_fact_visible_paths f) \<Longrightarrow> wf_mount p"
  by (cases "visible_paths f") (auto simp: storage_fact_visible_paths_def list_all_iff dest!: visible_paths_wf)

lemma deleted_paths_wf: "p \<in> set (deleted_paths_of st) \<Longrightarrow> wf_mount p"
proof -
  have "p \<in> set (po_deleted_paths (queue_entry_pending_overlay e)) \<Longrightarrow> wf_mount p" for e
    by (cases "qe_operation e")
      (auto simp: queue_entry_pending_overlay_def kv_visible_mount_paths_def object_visible_mount_paths_def
        dest: storage_fact_visible_paths_wf)
  then show "p \<in> set (deleted_paths_of st) \<Longrightarrow> wf_mount p"
    by (auto simp: deleted_paths_of_def queued_overlay_def overlay_changes_def QueuedOverlayProjection_new_def
      pending_overlays_def)
qed

abbreviation depth :: "MountPath \<Rightarrow> nat" where
  "depth m \<equiv> length (MountPath_components m)"

lemma depth_below_fuel: "p \<in> set (deleted_paths_of st) \<Longrightarrow> depth p < overlay_fuel st"
proof -
  have "x \<in> set xs \<Longrightarrow> x \<le> foldr max xs 0" for x :: nat and xs
    by (induction xs) (auto simp: le_max_iff_disj)
  then show "p \<in> set (deleted_paths_of st) \<Longrightarrow> depth p < overlay_fuel st"
    by (simp add: overlay_fuel_def less_Suc_eq_le)
qed

lemma child_towards_delete:
  assumes "wf_mount path" "wf_mount deleted" "queued_directory_child path deleted = Some child"
    and "join_child path (de_name child) = Inr child_mount"
  shows "wf_mount child_mount \<and> depth child_mount = Suc (depth path) \<and> Suc (depth path) \<le> depth deleted"
proof -
  obtain cs where cs: "clean cs" "path = mount_of cs" "MountPath_components path = cs"
    using assms(1) by (rule wf_mountE)
  obtain rest where rest: "MountPath_components deleted = cs @ de_name child # rest"
    using queued_directory_child_iff [OF assms(1,2), of "de_name child" "de_kind child"] assms(3) cs(3) by auto
  then have clean: "clean (cs @ [de_name child])" using assms(2) by (auto simp: wf_mount_def)
  then have "child_mount = mount_of (cs @ [de_name child])"
    using join_child_mount_of [of cs "de_name child"] assms(4) cs by simp
  then show ?thesis using clean rest cs by simp
qed

section \<open>Changing the recursive call\<close>

interpretation queue_kept: read_frame "\<lambda>st. rt_replay st = wr" for wr
  by unfold_locales simp_all

lemma foldl_cong_inv:
  assumes "\<And>x y. P x \<Longrightarrow> y \<in> set ys \<Longrightarrow> f x y = g x y \<and> P (f x y)" "P x"
  shows "foldl f x ys = foldl g x ys \<and> P (foldl f x ys)"
  using assms
proof (induction ys arbitrary: x)
  case (Cons y ys)
  have fg: "f x y = g x y" "P (f x y)" using Cons.prems(1) [OF Cons.prems(2), of y] by auto
  have "foldl f (f x y) ys = foldl g (f x y) ys \<and> P (foldl f (f x y) ys)"
    by (rule Cons.IH [OF Cons.prems(1)]) (simp_all add: fg(2))
  then show ?case using fg(1) by auto
qed simp

lemma questions_cong:
  assumes "\<And>v es st. rt_replay st = wr \<Longrightarrow> f path v es st = g path v es st" "rt_replay st = wr"
  shows "known_visible_entries env f path visited st = known_visible_entries env g path visited st"
    and "visible_entries env f path visited st = visible_entries env g path visited st"
    and "queued_exact_file_delete_reveals_directory env f path visited st =
      queued_exact_file_delete_reveals_directory env g path visited st"
proof -
  obtain r st1 where d: "rt_bind (parse_path path) (durable_directory_entries env) st = (r, st1)" by fastforce
  then have "rt_replay st1 = wr" using preservesD [OF queue_kept.parse_directory d assms(2)] by simp
  then show "known_visible_entries env f path visited st = known_visible_entries env g path visited st"
    "visible_entries env f path visited st = visible_entries env g path visited st"
    using d assms(1) by (simp_all add: known_visible_entries_def visible_entries_def split: sum.splits)
  then show "queued_exact_file_delete_reveals_directory env f path visited st =
      queued_exact_file_delete_reveals_directory env g path visited st"
    by (simp add: queued_exact_file_delete_reveals_directory_def)
qed

lemma apply_deleted_path_cong:
  assumes "\<And>child m v es st. queued_directory_child path deleted = Some child \<Longrightarrow> join_child path (de_name child) = Inr m
      \<Longrightarrow> rt_replay st = wr \<Longrightarrow> f m v es st = g m v es st"
    and "rt_replay (snd es) = wr"
  shows "apply_deleted_path env f path visited es deleted = apply_deleted_path env g path visited es deleted"
proof -
  obtain entries st where es: "es = (entries, st)" by (cases es)
  show ?thesis
  proof (cases "queued_directory_child path deleted")
    case (Some child)
    show ?thesis
    proof (cases "join_child path (de_name child)")
      case (Inr m)
      note cong = questions_cong [of wr f m g, OF assms(1) [OF Some Inr]]
      obtain b st1 where b: "queued_directory_child_has_exact_dynamic_file env m st = (b, st1)" by fastforce
      have "preserves (\<lambda>st. rt_replay st = wr) (queued_directory_child_has_exact_dynamic_file env m)"
        by (rule queue_kept.overlay_questions(4) [where overlay = "\<lambda>_ _ es st. (es, st)"]) (simp add: preserves_def)
      then have "rt_replay st1 = wr" by (rule preservesD [where m = "queued_directory_child_has_exact_dynamic_file env m"])
        (use b assms(2) es in auto)
      then have "visible_entries env f m visited st1 = visible_entries env g m visited st1"
        "queued_exact_file_delete_reveals_directory env f m visited st =
          queued_exact_file_delete_reveals_directory env g m visited st"
        using cong(2,3) assms(2) es by auto
      then show ?thesis using Some Inr b by (cases b) (auto simp: es apply_deleted_path_def split: EntryKind.split)
    qed (simp add: es apply_deleted_path_def Some)
  qed (simp add: es apply_deleted_path_def)
qed

section \<open>Enough fuel\<close>

lemma fuel_irrelevant:
  fixes st :: "'s Runtime"
  assumes "wf_mount path" "rt_replay st = wr"
    and "\<And>(st :: 's Runtime) p. rt_replay st = wr \<Longrightarrow> p \<in> set (deleted_paths_of st) \<Longrightarrow> depth p \<le> d"
    and "d - depth path < n" "d - depth path < m"
  shows "apply_queued_overlay_to_directory n env path visited entries st =
    apply_queued_overlay_to_directory m env path visited entries st"
  using assms(1,2,4,5)
proof (induction n arbitrary: m path visited entries st)
  case (Suc n)
  then obtain m' where m: "m = Suc m'" by (cases m) auto
  let ?f = "apply_queued_overlay_to_directory n env" and ?g = "apply_queued_overlay_to_directory m' env"
  let ?P = "\<lambda>es :: DirectoryEntry list \<times> 's Runtime. rt_replay (snd es) = wr"
  have keep: "rt_replay (snd (apply_deleted_path env ?f path visited es p)) = wr" if "?P es" for es p
    using queue_kept.deleted_path [OF queue_kept.overlay that] .
  have deletes: "foldl (apply_deleted_path env ?f path visited) es ps = foldl (apply_deleted_path env ?g path visited) es ps
      \<and> ?P (foldl (apply_deleted_path env ?f path visited) es ps)"
    if "?P es" "set ps \<subseteq> set (deleted_paths_of st)" for es ps
  proof (rule foldl_cong_inv [of ?P, OF _ that(1)], rule conjI)
    fix es p
    assume es: "?P es" and p: "p \<in> set ps"
    then have p: "wf_mount p" "depth p \<le> d" using that(2) deleted_paths_wf assms(3) [OF Suc.prems(2)] by auto
    show "apply_deleted_path env ?f path visited es p = apply_deleted_path env ?g path visited es p"
    proof (rule apply_deleted_path_cong [OF _ es])
      fix child c v e and s :: "'s Runtime"
      assume c: "queued_directory_child path p = Some child" "join_child path (de_name child) = Inr c"
        and s: "rt_replay s = wr"
      have "wf_mount c" "depth c = Suc (depth path)" "Suc (depth path) \<le> d"
        using child_towards_delete [OF Suc.prems(1) p(1) c] p(2) by auto
      then show "?f c v e s = ?g c v e s" using Suc.IH [OF _ s] Suc.prems(3,4) m by simp
    qed
    show "?P (apply_deleted_path env ?f path visited es p)" by (rule keep [OF es])
  qed
  have change: "apply_change env ?f path visited es c = apply_change env ?g path visited es c
      \<and> ?P (apply_change env ?f path visited es c)"
    if "?P es" "c \<in> set (overlay_changes (queued_overlay st))" for es c
  proof -
    have ps: "set (qo_deleted_paths c) \<subseteq> set (deleted_paths_of st)" using that(2) by (auto simp: deleted_paths_of_def)
    show ?thesis using deletes [OF that(1) ps] by (auto simp: apply_change_def split: prod.splits)
  qed
  have "foldl (apply_change env ?f path visited) (entries, st) (overlay_changes (queued_overlay st)) =
      foldl (apply_change env ?g path visited) (entries, st) (overlay_changes (queued_overlay st))"
    by (rule foldl_cong_inv [of ?P, THEN conjunct1], erule (1) change) (simp add: Suc.prems(2))
  then show ?case using m by simp
qed simp

lemma same_queue_same_deletes: "rt_replay st = rt_replay st' \<Longrightarrow> deleted_paths_of st = deleted_paths_of st'"
  by (simp add: deleted_paths_of_def queued_overlay_def)

text \<open>C20: Applying the queued deletes to a directory always ends, whatever the backend answers. On a
  mount path any amount of fuel from \<open>overlay_fuel\<close> on gives the same entries and state, and
  with it the model satisfies the recursion equation of the source, in which the directory of a
  child is processed by the same function.\<close>

theorem overlay_recursion_terminates:
  fixes st :: "'s Runtime"
  assumes "wf_mount path"
  shows "(overlay_fuel st \<le> n \<longrightarrow>
      apply_queued_overlay_to_directory n env path visited entries st = the_overlay env st path visited entries st)
    \<and> the_overlay env st path visited entries st =
        foldl (apply_change env (the_overlay env st) path visited) (entries, st) (overlay_changes (queued_overlay st))"
proof -
  have deep: "depth p \<le> overlay_fuel st - 1" if "rt_replay s = rt_replay st" "p \<in> set (deleted_paths_of s)"
    for s :: "'s Runtime" and p
    using depth_below_fuel [of p st] same_queue_same_deletes [OF that(1)] that(2) by simp
  have pos: "0 < overlay_fuel st" by (simp add: overlay_fuel_def)
  have same: "apply_queued_overlay_to_directory n env path visited entries st = the_overlay env st path visited entries st"
    if "overlay_fuel st \<le> n" for n
    unfolding the_overlay_def by (rule fuel_irrelevant [OF assms refl deep]) (use that pos in auto)
  have "the_overlay env st path visited entries st =
      foldl (apply_change env (the_overlay env st) path visited) (entries, st) (overlay_changes (queued_overlay st))"
    using same [of "Suc (overlay_fuel st)"] by (simp add: the_overlay_def)
  then show ?thesis using same by blast
qed

theorem overlay_recursion_terminates_witness:
  "apply_queued_overlay_to_directory 7 sample_env ''/kv/b'' {} [] (sample_runtime []) =
     the_overlay sample_env (sample_runtime []) ''/kv/b'' {} [] (sample_runtime [])"
proof -
  have "wf_mount ''/kv/b''" by code_simp
  moreover have "overlay_fuel (sample_runtime []) \<le> 7"
    by (simp add: overlay_fuel_def deleted_paths_of_def queued_overlay_def sample_runtime_def MountRuntimeState_new_def
      from_queue_def sync_gate_def sync_with_queue_def sync_pending_def has_pending_def pending_len_def
      pending_overlays_def overlay_changes_def QueuedOverlayProjection_new_def WritebackGate_new_def)
  ultimately show ?thesis using overlay_recursion_terminates [of "''/kv/b''" "sample_runtime []" 7] by blast
qed

end
