(* ===== verification/Handle_Props.thy ===== *)
theory Handle_Props
  imports Overlay_Fuel
begin

text \<open>
  Open files: what a write does to the buffer of a handle, that an append-only handle never
  rewrites what is in the log, and what closing a handle commits.
\<close>

section \<open>Buffers\<close>

lemma splice_nth:
  assumes "start + length data \<le> length buffer" "i < length buffer"
  shows "splice start data buffer ! i = (if start \<le> i \<and> i < start + length data then data ! (i - start) else buffer ! i)"
  using assms by (auto simp: splice_def nth_append)

lemma zero_extend_nth: "i < length (zero_extend n bs) \<Longrightarrow> zero_extend n bs ! i = (if i < length bs then bs ! i else 0)"
  by (auto simp: zero_extend_def nth_append split: if_splits)

lemma zero_extend_length [simp]: "length (zero_extend n bs) = max n (length bs)"
  by (simp add: zero_extend_def)

definition written :: "nat \<Rightarrow> bytes \<Rightarrow> bytes \<Rightarrow> bytes" where
  "written start data buffer = splice start data (zero_extend (start + length data) (zero_extend start buffer))"

lemma written_length: "length (written start data buffer) = max (length buffer) (start + length data)"
  by (simp add: written_def splice_def)

lemma written_nth:
  assumes "i < length (written start data buffer)"
  shows "written start data buffer ! i =
    (if start \<le> i \<and> i < start + length data then data ! (i - start) else if i < length buffer then buffer ! i else 0)"
proof -
  let ?ext = "zero_extend (start + length data) (zero_extend start buffer)"
  have "i < length ?ext" using assms by (simp add: written_length)
  then show ?thesis
    using splice_nth [of start data ?ext i] by (auto simp: written_def zero_extend_nth)
qed

lemma handle_write_ok:
  assumes "h_writable h" "h_mode h = WholeValueMode" "start + length data < 2 ^ 64"
  shows "handle_write start data h =
    (Inr (), h\<lparr>h_buffer := written start data (h_buffer h), h_dirty := True, h_committed := False\<rparr>)"
  using assms by (simp add: handle_write_def Let_def written_def)

lemma with_fresh_seed_open:
  assumes "map_get (rt_handles st) fh = Some h" "\<not> writes_blocked st"
  shows "\<exists>seed i. with_fresh_seed fh change st =
    (case change (h\<lparr>h_commit_seed := seed\<rparr>) of (r, h') \<Rightarrow> (r, set_handle fh h' (st\<lparr>rt_next_commit_id := i\<rparr>)))"
proof (cases "h_committed h")
  case True
  obtain seed st1 where s: "next_commit_seed st = (seed, st1)" by fastforce
  then have "st1 = st\<lparr>rt_next_commit_id := saturating_add_one (rt_next_commit_id st)\<rparr>"
    by (simp add: next_commit_seed_def)
  then show ?thesis using s True assms
    by (intro exI [of _ seed] exI [of _ "saturating_add_one (rt_next_commit_id st)"])
      (simp add: with_fresh_seed_def writes_blocked_def write_gate_def)
next
  case False
  then show ?thesis using assms
    by (intro exI [of _ "h_commit_seed h"] exI [of _ "rt_next_commit_id st"])
      (simp add: with_fresh_seed_def writes_blocked_def)
qed

lemma set_handle_get [simp]:
  "map_get (rt_handles (set_handle fh h st)) fh' = (if fh' = fh then Some h else map_get (rt_handles st) fh')"
  by (simp add: set_handle_def om.get_ins)

text \<open>C21: Writing to a file opened for whole values is \<open>pwrite\<close>. The write reports all its bytes, and
  the handle then reads as the old content with the data at the offset, a gap filled with
  zeros, no byte before or after touched, and no other handle changed.\<close>

theorem write_to_handle_is_pwrite:
  assumes "map_get (rt_handles st) fh = Some h" "h_writable h" "h_mode h = WholeValueMode" "\<not> writes_blocked st"
    and "0 \<le> offset" "nat offset + length data < 2 ^ 64"
  shows "\<exists>st' buf. write_to_handle_buffer fh offset data st = (Inr (length data), st')
    \<and> read_bytes_for_handle env fh (h_path h) st' = (Inr buf, st')
    \<and> length buf = max (length (h_buffer h)) (nat offset + length data)
    \<and> (\<forall>i < length buf. buf ! i =
         (if nat offset \<le> i \<and> i < nat offset + length data then data ! (i - nat offset)
          else if i < length (h_buffer h) then h_buffer h ! i else 0))
    \<and> (\<forall>fh'. fh' \<noteq> fh \<longrightarrow> map_get (rt_handles st') fh' = map_get (rt_handles st) fh')"
proof -
  let ?buf = "written (nat offset) data (h_buffer h)"
  obtain seed i where w: "with_fresh_seed fh (handle_write (nat offset) data) st =
      (case handle_write (nat offset) data (h\<lparr>h_commit_seed := seed\<rparr>) of
        (r, h') \<Rightarrow> (r, set_handle fh h' (st\<lparr>rt_next_commit_id := i\<rparr>)))"
    using with_fresh_seed_open [OF assms(1,4)] by blast
  let ?h = "h\<lparr>h_commit_seed := seed, h_buffer := ?buf, h_dirty := True, h_committed := False\<rparr>"
  let ?st = "set_handle fh ?h (st\<lparr>rt_next_commit_id := i\<rparr>)"
  have "write_to_handle_buffer fh offset data st = (Inr (length data), ?st)"
    using w handle_write_ok [of "h\<lparr>h_commit_seed := seed\<rparr>" "nat offset" data] assms
    by (simp add: write_to_handle_buffer_def rt_bind_def rt_return_def)
  moreover have "read_bytes_for_handle env fh (h_path h) ?st = (Inr ?buf, ?st)"
    using assms(3) by (simp add: read_bytes_for_handle_def)
  ultimately show ?thesis using written_length written_nth
    by (intro exI [of _ ?st] exI [of _ ?buf]) simp
qed

text \<open>C22: A handle on a JSON-lines file only appends. Truncating it fails with EROFS and changes
  nothing; a write below the end the file had when it was opened fails with EINVAL and leaves
  the buffer as it was; a write at or after that end leaves the first bytes of what the handle
  reads as they are durably stored.\<close>

theorem append_only_handle_never_rewrites:
  assumes "map_get (rt_handles st) fh = Some h" "h_writable h" "h_mode h = JsonLinesMode" "\<not> writes_blocked st"
    and "0 \<le> offset"
  shows "stage_truncate fh st = (Inl EROFS, st)
    \<and> (nat offset < h_base_offset h \<longrightarrow>
        (\<exists>st' h'. write_to_handle_buffer fh offset data st = (Inl EINVAL, st')
          \<and> map_get (rt_handles st') fh = Some h' \<and> h_buffer h' = h_buffer h \<and> h_base_offset h' = h_base_offset h
          \<and> h_dirty h' = h_dirty h))
    \<and> (h_base_offset h \<le> nat offset \<and> nat offset + length data < 2 ^ 64 \<longrightarrow>
        (\<exists>st' h'. write_to_handle_buffer fh offset data st = (Inr (length data), st')
          \<and> map_get (rt_handles st') fh = Some h' \<and> h_base_offset h' = h_base_offset h
          \<and> (\<forall>bs st''. proj_read_bytes env (h_path h) st' = (Inr bs, st'') \<longrightarrow>
               (\<exists>tail. read_bytes_for_handle env fh (h_path h) st' = (Inr (fit (h_base_offset h) bs @ tail), st''))
               \<and> (h_base_offset h \<le> length bs \<longrightarrow> fit (h_base_offset h) bs = take (h_base_offset h) bs))))"
proof -
  obtain seed i where w: "with_fresh_seed fh (handle_write (nat offset) data) st =
      (case handle_write (nat offset) data (h\<lparr>h_commit_seed := seed\<rparr>) of
        (r, h') \<Rightarrow> (r, set_handle fh h' (st\<lparr>rt_next_commit_id := i\<rparr>)))"
    using with_fresh_seed_open [OF assms(1,4)] by blast
  have below: "\<exists>st' h'. write_to_handle_buffer fh offset data st = (Inl EINVAL, st')
      \<and> map_get (rt_handles st') fh = Some h' \<and> h_buffer h' = h_buffer h \<and> h_base_offset h' = h_base_offset h
      \<and> h_dirty h' = h_dirty h" if "nat offset < h_base_offset h"
    using that w assms by (simp add: write_to_handle_buffer_def rt_bind_def handle_write_def)
  let ?buf = "written (nat offset - h_base_offset h) data (h_buffer h)"
  let ?h = "h\<lparr>h_commit_seed := seed, h_buffer := ?buf, h_dirty := True, h_committed := False\<rparr>"
  let ?st = "set_handle fh ?h (st\<lparr>rt_next_commit_id := i\<rparr>)"
  have above: "write_to_handle_buffer fh offset data st = (Inr (length data), ?st)"
    if "h_base_offset h \<le> nat offset" "nat offset + length data < 2 ^ 64"
    using that w assms by (simp add: write_to_handle_buffer_def rt_bind_def rt_return_def handle_write_def Let_def written_def)
  have "read_bytes_for_handle env fh (h_path h) ?st = (Inr (fit (h_base_offset h) bs @ ?buf), st'')"
    if "proj_read_bytes env (h_path h) ?st = (Inr bs, st'')" for bs st''
    using that assms(3) by (simp add: read_bytes_for_handle_def rt_bind_def rt_try_def rt_return_def)
  moreover have "fit n bs = take n bs" if "n \<le> length bs" for n and bs :: bytes
    using that by (simp add: fit_def zero_extend_def)
  ultimately have "\<forall>bs st''. proj_read_bytes env (h_path h) ?st = (Inr bs, st'') \<longrightarrow>
      (\<exists>tail. read_bytes_for_handle env fh (h_path h) ?st = (Inr (fit (h_base_offset h) bs @ tail), st''))
      \<and> (h_base_offset h \<le> length bs \<longrightarrow> fit (h_base_offset h) bs = take (h_base_offset h) bs)" by blast
  moreover have "map_get (rt_handles ?st) fh = Some ?h" "h_base_offset ?h = h_base_offset h" by simp_all
  moreover have "stage_truncate fh st = (Inl EROFS, st)" using assms by (simp add: stage_truncate_def)
  ultimately show ?thesis using below above by blast
qed

section \<open>Closing\<close>

text \<open>A handle is committed once per write: after a commit that succeeded, committing again does
  nothing, and flushing a handle never commits anything.\<close>

lemma commit_handle_once:
  "(commit_handle env fh st = (Inr (), st') \<longrightarrow> commit_handle env fh st' = (Inr (), st'))
    \<and> snd (flush_handle fh st) = st"
proof -
  have "commit_handle env fh st' = (Inr (), st')" if c: "commit_handle env fh st = (Inr (), st')"
  proof (cases "st' = st")
    case False
    then obtain h where h: "map_get (rt_handles st) fh = Some h" "h_writable h \<and> h_dirty h \<and> \<not> h_committed h"
      using c by (cases "map_get (rt_handles st) fh") (auto simp: commit_handle_def split: if_split_asm)
    then obtain st1 where "st' = (case map_get (rt_handles st1) fh of
        Some h1 \<Rightarrow> set_handle fh (after_commit (h_mode h) (handle_commit_bytes h) h1) st1 | None \<Rightarrow> st1)"
      using c by (auto simp: commit_handle_def Let_def rt_bind_Inr rt_modify_def)
    then show ?thesis by (cases "map_get (rt_handles st1) fh") (simp_all add: commit_handle_def after_commit_def)
  qed (use c in simp)
  then show ?thesis by (auto simp: flush_handle_def)
qed

lemma commit_handle_memory:
  assumes "e_store env = memory_mount_storage json display now"
    and "map_get (rt_handles st) fh = Some h" "h_writable h" "h_dirty h" "\<not> h_committed h"
    and "parse (h_path h) = Inr (JetStreamPath.KvKey b k)" "\<not> writes_blocked st" "wr_inv (rt_replay st)"
    and "map_get (kv_applied (rt_backend st))
      (b, k, e_idempotency_key env (h_path h) (handle_commit_bytes h) (h_commit_seed h)) = None"
  shows "\<exists>st' cached. commit_handle env fh st = (Inr (), st') \<and> wq_entries (wr_queue (rt_replay st')) = []
    \<and> cache_get (rt_cache st') (h_path h) = Some cached \<and> ce_bytes cached = handle_commit_bytes h
    \<and> (\<exists>entry. mem_kv_get b k (rt_backend st') = (Inr (Some entry), rt_backend st') \<and> kr_bytes entry = handle_commit_bytes h)"
proof -
  let ?bs = "handle_commit_bytes h"
  obtain st1 cached entry where c: "commit_mount_path_with_seed env (h_path h) ?bs (h_commit_seed h) st = (Inr (), st1)"
    and held: "mem_kv_get b k (rt_backend st1) = (Inr (Some entry), rt_backend st1)" "kr_bytes entry = ?bs"
    and cached: "cache_get (rt_cache st1) (h_path h) = Some cached" "ce_bytes cached = ?bs"
    and empty: "wq_entries (wr_queue (rt_replay st1)) = []" and handles: "rt_handles st1 = rt_handles st"
    using commit_memory_kv_state [OF assms(1,6,7,8,9)] by blast
  have "commit_handle env fh st = (Inr (), set_handle fh (after_commit (h_mode h) ?bs h) st1)"
    using assms(2-5) c handles by (simp add: commit_handle_def Let_def rt_bind_def rt_modify_def)
  then show ?thesis using cached empty held by (simp add: set_handle_def)
qed

text \<open>C8: What was written is stored by closing. On a mount over the in-memory backend that accepts
  writes, releasing a handle with unsaved bytes for the file of a KV key, whose commit was not
  applied before, succeeds. The backend then holds exactly the bytes the handle held (the
  default payload when a new file was left empty) as the value of the key, the handle is gone,
  the queue stays empty, and reading the path answers these bytes.\<close>

theorem closing_stores_the_buffer:
  assumes "e_store env = memory_mount_storage json display now"
    and "map_get (rt_handles st) fh = Some h" "h_writable h" "h_dirty h" "\<not> h_committed h"
    and "parse (h_path h) = Inr (JetStreamPath.KvKey b k)" "\<not> writes_blocked st" "wr_inv (rt_replay st)"
    and "map_get (kv_applied (rt_backend st))
      (b, k, e_idempotency_key env (h_path h) (handle_commit_bytes h) (h_commit_seed h)) = None"
  shows "\<exists>st' entry. release_handle env fh st = (Inr (), st') \<and> map_get (rt_handles st') fh = None
    \<and> mem_kv_get b k (rt_backend st') = (Inr (Some entry), rt_backend st') \<and> kr_bytes entry = handle_commit_bytes h
    \<and> wq_entries (wr_queue (rt_replay st')) = []
    \<and> proj_read_bytes env (h_path h) st' = (Inr (handle_commit_bytes h), st')"
proof -
  obtain st1 cached entry where c: "commit_handle env fh st = (Inr (), st1)" "wq_entries (wr_queue (rt_replay st1)) = []"
    "cache_get (rt_cache st1) (h_path h) = Some cached" "ce_bytes cached = handle_commit_bytes h"
    and held: "mem_kv_get b k (rt_backend st1) = (Inr (Some entry), rt_backend st1)" "kr_bytes entry = handle_commit_bytes h"
    using commit_handle_memory [OF assms] by blast
  let ?st = "st1\<lparr>rt_handles := map_remove fh (rt_handles st1)\<rparr>"
  have "release_handle env fh st = (Inr (), ?st)" using c(1) by (simp add: release_handle_def)
  moreover have "proj_read_bytes env (h_path h) ?st = (Inr (handle_commit_bytes h), ?st)"
    using read_cached_bytes [OF assms(1,6), of ?st cached] c by simp
  ultimately show ?thesis using held c(2) by (intro exI [of _ ?st] exI [of _ entry]) (simp add: om.get_del)
qed

section \<open>Examples\<close>

definition sample_handle :: "HandleMode \<Rightarrow> nat \<Rightarrow> Handle" where
  "sample_handle mode base =
     \<lparr>h_path = ''/kv/b/k'', h_buffer = [1, 2], h_dirty = True, h_committed = False, h_writable = True,
      h_commit_seed = ''s'', h_mode = mode, h_base_offset = base, h_staged_create = None\<rparr>"

abbreviation opened :: "HandleMode \<Rightarrow> nat \<Rightarrow> MemoryStorageState Runtime" where
  "opened mode base \<equiv> set_handle 2 (sample_handle mode base) (sample_runtime [])"

lemma opened_facts:
  "\<not> writes_blocked (opened mode base)" "wr_inv (rt_replay (opened mode base))"
  "kv_applied (rt_backend (opened mode base)) = []"
  using sample_gate(2) sample_commit(2,3) by (simp_all add: set_handle_def writes_blocked_def write_gate_def)

theorem write_to_handle_is_pwrite_witness:
  "\<exists>st' buf. write_to_handle_buffer 2 3 [9] (opened WholeValueMode 0) = (Inr 1, st') \<and> length buf = 4 \<and> buf ! 2 = 0
    \<and> read_bytes_for_handle sample_env 2 ''/kv/b/k'' st' = (Inr buf, st')"
  using write_to_handle_is_pwrite [of "opened WholeValueMode 0" 2 "sample_handle WholeValueMode 0" 3 "[9]" sample_env] opened_facts(1)
  by (auto simp: sample_handle_def)

theorem append_only_handle_never_rewrites_witness:
  "\<exists>st'. write_to_handle_buffer 2 4 [9] (opened JsonLinesMode 5) = (Inl EINVAL, st')"
  using append_only_handle_never_rewrites [of "opened JsonLinesMode 5" 2 "sample_handle JsonLinesMode 5" 4 "[9]"] opened_facts(1)
  by (auto simp: sample_handle_def)

theorem closing_stores_the_buffer_witness:
  "\<exists>st' entry. release_handle sample_env 2 (opened WholeValueMode 0) = (Inr (), st')
    \<and> mem_kv_get ''b'' ''k'' (rt_backend st') = (Inr (Some entry), rt_backend st') \<and> kr_bytes entry = [1, 2]
    \<and> proj_read_bytes sample_env ''/kv/b/k'' st' = (Inr [1, 2], st')"
  using closing_stores_the_buffer [OF sample_commit(1), of "opened WholeValueMode 0" 2 "sample_handle WholeValueMode 0" "''b''" "''k''"]
    opened_facts sample_path by (auto simp: sample_handle_def handle_commit_bytes_def)

end
