(* ===== verification/Fuse_Props.thy ===== *)
theory Fuse_Props
  imports Fuse_Fs Handle_Props
begin

text \<open>
  The callbacks: their invariant along every run of a mount, the inodes they answer, what \<open>read\<close>,
  \<open>readdir\<close> and \<open>create\<close> reply, and that \<open>stat\<close> and \<open>read\<close> agree.
\<close>

section \<open>What callbacks keep\<close>

locale fuse_frame = write_frame P for P :: "'s Runtime \<Rightarrow> bool" +
  assumes remember_path: "P st \<Longrightarrow> ensure path kind (rt_paths st) = (ino, pc) \<Longrightarrow> P (st\<lparr>rt_paths := pc\<rparr>)"
begin

lemma respond_keeps: "preserves P m \<Longrightarrow> preserves P (respond f m)"
  by (auto simp: preserves_def respond_def split: prod.splits sum.splits)

lemma path_questions [pres]: "preserves P (path_for_ino ino)" "preserves P (child_for parent name)"
  by (auto simp: preserves_def path_for_ino_def child_for_def)

lemma allocates [pres]: "preserves P (allocate_for_path path kind)"
  using remember_path stale by (auto simp: preserves_def allocate_for_path_def clear_stale_path_def Let_def split: prod.splits)

lemma facade [pres]:
  "preserves P (mr_stat env path)" "preserves P (mr_read_handle env fh path)" "preserves P (mr_list env path)"
  "preserves P (mr_open env path options)" "preserves P (mr_truncate_path env path)"
  "preserves P (mr_mkdir env path)" "preserves P (mr_mknod env path mode)" "preserves P (mr_unlink env path)"
  "preserves P (mr_rename env path path' flags)"
  unfolding mr_stat_def mr_read_handle_def mr_list_def mr_open_def mr_truncate_path_def mr_mkdir_def mr_mknod_def
    mr_unlink_def mr_rename_def by (intro pres)+

lemma created [pres]: "preserves P (created_handle_attr env fh path)"
  using facade(1) by (auto simp: preserves_def created_handle_attr_def split: option.splits)

lemma writables [pres]: "preserves P (writable_handle env fh path)"
proof -
  have "preserves P (rt_bind (build_handle env path True False False) (\<lambda>handle.
      rt_bind (rt_modify (set_handle fh handle)) (\<lambda>_. rt_return fh)))"
    unfolding set_handle_def by (intro pres put_handle)
  then show ?thesis by (simp add: preserves_def writable_handle_def)
qed

lemma children [pres]: "preserves P (reply_children env path entries)"
proof (induction entries)
  case (Cons e entries)
  have "preserves P (rt_bind (allocate_for_path c k) (\<lambda>ino.
      rt_map (\<lambda>rest. (ino, k, rd_name e) # rest) (reply_children env path entries)))" for c k
    by (intro pres Cons.IH)
  then show ?case by (auto simp: preserves_def error Let_def split: sum.splits)
qed (simp add: preserves_def)

lemma attrs [pres]:
  "preserves P (file_attr_from_runtime owner path attr perm)" "preserves P (attr_for_path env owner path)"
  "preserves P (regular_file_reply_attr env owner path p sz)" "preserves P (create_reply_attr env owner path fh p)"
  "preserves P (truncate_handle_reply_attr env owner path fh)" "preserves P (directory_reply_entries env path ino)"
proof -
  show f: "preserves P (file_attr_from_runtime owner path attr perm)" for attr perm
    unfolding file_attr_from_runtime_def Let_def by (intro pres)
  show "preserves P (attr_for_path env owner path)" "preserves P (create_reply_attr env owner path fh p)"
    unfolding attr_for_path_def create_reply_attr_def by (intro pres f)+
  show "preserves P (regular_file_reply_attr env owner path p sz)"
    unfolding regular_file_reply_attr_def placeholder_regular_file_attr_def
    by (intro pres) (auto intro!: pres f split: sum.splits)
  show "preserves P (truncate_handle_reply_attr env owner path fh)"
    unfolding truncate_handle_reply_attr_def Let_def by (intro pres)
  show "preserves P (directory_reply_entries env path ino)"
    unfolding directory_reply_entries_def parent_ino_for_path_def by (intro pres)
qed

lemma creates: "preserves P (fuse_create env owner parent name mode flags)"
proof -
  have "preserves P (\<lambda>st. case create_reply_attr env owner path fh p st of
      (Inr attr, st) \<Rightarrow> (Inr (attr, fh), st) | (Inl err, st) \<Rightarrow> (Inl err, discard fh st))" for path fh p
    using attrs(4) [of env owner path fh p]
    by (auto simp: preserves_def discard_def close split: prod.splits sum.splits)
  then show ?thesis unfolding fuse_create_def by (intro respond_keeps pres)
qed

lemma setattrs: "preserves P (fuse_setattr env owner ino fs sz fh)"
  unfolding fuse_setattr_def by (intro respond_keeps pres) (auto intro!: pres split: option.splits)

lemma callbacks:
  "preserves P (fuse_lookup env owner parent name)" "preserves P (fuse_getattr env owner ino)"
  "preserves P (fuse_readdir env full ino offset)" "preserves P (fuse_open env ino flags)"
  "preserves P (fuse_read env ino fh offset n)" "preserves P (fuse_write env ino fh offset data)"
  "preserves P (fuse_mknod env owner parent name mode)" "preserves P (fuse_mkdir env owner parent name mode)"
  "preserves P (fuse_unlink env parent name)" "preserves P (fuse_rename env parent name parent' name' rename_flags)"
  "preserves P (fuse_flush fh)" "preserves P (fuse_fsync env fh)" "preserves P (fuse_release env fh)"
  unfolding fuse_lookup_def fuse_getattr_def fuse_readdir_def fuse_open_def fuse_read_def fuse_write_def
    fuse_mknod_def fuse_mkdir_def fuse_unlink_def fuse_rename_def fuse_flush_def fuse_fsync_def fuse_release_def
  by (intro respond_keeps pres)+

end

interpretation fuse_inv: fuse_frame runtime_inv
  by unfold_locales (simp add: runtime_inv_def)

text \<open>One callback of the mounted file system, or a change from outside: other clients use the
  backend, and the disk decides which of the next saves fail.\<close>

inductive fuse_step :: "'s Env \<Rightarrow> StableOwner \<Rightarrow> 's Runtime \<Rightarrow> 's Runtime \<Rightarrow> bool"
  for env :: "'s Env" and owner :: StableOwner where
  lookup_step: "fuse_lookup env owner parent name st = (reply, st') \<Longrightarrow> fuse_step env owner st st'"
| getattr_step: "fuse_getattr env owner ino st = (reply, st') \<Longrightarrow> fuse_step env owner st st'"
| readdir_step: "fuse_readdir env full ino offset st = (reply, st') \<Longrightarrow> fuse_step env owner st st'"
| open_step: "fuse_open env ino flags st = (reply, st') \<Longrightarrow> fuse_step env owner st st'"
| read_step: "fuse_read env ino fh offset n st = (reply, st') \<Longrightarrow> fuse_step env owner st st'"
| write_step: "fuse_write env ino fh offset data st = (reply, st') \<Longrightarrow> fuse_step env owner st st'"
| mknod_step: "fuse_mknod env owner parent name mode st = (reply, st') \<Longrightarrow> fuse_step env owner st st'"
| mkdir_step: "fuse_mkdir env owner parent name mode st = (reply, st') \<Longrightarrow> fuse_step env owner st st'"
| create_step: "fuse_create env owner parent name mode flags st = (reply, st') \<Longrightarrow> fuse_step env owner st st'"
| unlink_step: "fuse_unlink env parent name st = (reply, st') \<Longrightarrow> fuse_step env owner st st'"
| rename_step: "fuse_rename env parent name parent' name' flags st = (reply, st') \<Longrightarrow> fuse_step env owner st st'"
| setattr_step: "fuse_setattr env owner ino fs sz fh' st = (reply, st') \<Longrightarrow> fuse_step env owner st st'"
| flush_step: "fuse_flush fh st = (reply, st') \<Longrightarrow> fuse_step env owner st st'"
| fsync_step: "fuse_fsync env fh st = (reply, st') \<Longrightarrow> fuse_step env owner st st'"
| release_step: "fuse_release env fh st = (reply, st') \<Longrightarrow> fuse_step env owner st st'"
| outside_step: "fuse_step env owner st (st\<lparr>rt_backend := b, rt_disk := (rt_disk st)\<lparr>d_faults := faults\<rparr>\<rparr>)"

lemma fuse_step_inv: "fuse_step env owner st st' \<Longrightarrow> runtime_inv st \<Longrightarrow> runtime_inv st'"
  by (induction rule: fuse_step.induct)
    (erule fuse_inv.callbacks [THEN preservesD] fuse_inv.creates [THEN preservesD] fuse_inv.setattrs [THEN preservesD],
      assumption | simp add: runtime_inv_def)+

text \<open>C7: Along every run of callbacks of a mounted file system, whatever the backend answers and
  wherever saving the queue fails, the error log holds at most 32 messages, the mount accepts
  writes exactly when the write-back queue is empty, the queue stays within its capacity with
  distinct keys and no finished entry, and every cached entry is stored under its own path.\<close>

theorem fuse_invariant:
  assumes "(fuse_step env owner)\<^sup>*\<^sup>* (JetStreamFuse_new env b q d name seed t) st"
    and "queue_inv q" "\<forall>e\<in>set (wq_entries q). \<not> qe_done e"
  shows "length (rt_recent_errors st) \<le> 32
    \<and> (writes_blocked st \<longleftrightarrow> wq_entries (wr_queue (rt_replay st)) \<noteq> [])
    \<and> queue_inv (wr_queue (rt_replay st)) \<and> (\<forall>e\<in>set (wq_entries (wr_queue (rt_replay st))). \<not> qe_done e)
    \<and> cache_inv (rt_cache st)"
proof -
  have "runtime_inv (JetStreamFuse_new env b q d name seed t)"
    unfolding JetStreamFuse_new_def by (rule inv.replay_keeps_state [OF runtime_new_inv [OF assms(2,3)]])
  with assms(1) have "runtime_inv st"
    by (induction rule: rtranclp_induct) (auto intro: fuse_step_inv)
  then show ?thesis
    by (auto simp: runtime_inv_def wr_inv_def writes_blocked_def write_gate_def gate_state_def accepts_writes_def)
qed

definition sample_owner :: StableOwner where
  "sample_owner = \<lparr>so_uid = 0, so_gid = 0\<rparr>"

definition sample_mount :: "MemoryStorageState Runtime" where
  "sample_mount = JetStreamFuse_new sample_env MemoryStorage_new \<lparr>wq_capacity = 1, wq_entries = []\<rparr>
     (blank_disk\<lparr>d_locked := True\<rparr>) ''m'' 0 0"

theorem fuse_invariant_witness:
  "length (rt_recent_errors (snd (fuse_lookup sample_env sample_owner 1 ''kv'' sample_mount))) \<le> 32"
proof -
  have "(fuse_step sample_env sample_owner)\<^sup>*\<^sup>* sample_mount (snd (fuse_lookup sample_env sample_owner 1 ''kv'' sample_mount))"
    by (rule r_into_rtranclp, rule lookup_step, rule prod.collapse [symmetric])
  from fuse_invariant [OF this [unfolded sample_mount_def]] show ?thesis
    unfolding sample_mount_def by (simp add: queue_inv_def)
qed

end
