(* ===== verification/Fuse_Replies.thy ===== *)
theory Fuse_Replies
  imports Fuse_Props
begin

text \<open>
  What the callbacks answer: inodes that resolve to the path they were asked for, exactly the bytes
  of the requested range, directory pages that lose no entry, and handles.
\<close>

lemma respond_cases:
  assumes "respond f m st = (reply, st')"
  obtains (error) err where "m st = (Inl err, st')" "reply = ReplyError err"
    | (ok) x where "m st = (Inr x, st')" "reply = f x"
  using assms by (auto simp: respond_def split: prod.splits sum.splits)

lemma rt_map_Inr: "rt_map f m st = (Inr y, st') \<longleftrightarrow> (\<exists>x. m st = (Inr x, st') \<and> y = f x)"
  by (auto simp: rt_map_def rt_bind_Inr rt_return_def)

lemma ok_or_Inr [simp]: "ok_or e r = Inr x \<longleftrightarrow> r = Some x"
  by (cases r) (auto simp: ok_or_def)

section \<open>Inodes\<close>

lemma ensure_resolves:
  assumes "ensure p k c = (i, c')" "pc_inv c"
  shows "pc_entry c' p = Some (i, k)" "pc_path c' i = Some p" "\<And>j k0. pc_entry c p = Some (j, k0) \<Longrightarrow> i = j"
    and "\<And>j q. pc_path c j = Some q \<Longrightarrow> pc_path c' j = Some q"
  using assms pc_invD(3) [OF assms(2)] next_ino_fresh [OF assms(2)]
  by (auto simp: ensure_def pc_entry_def pc_path_def remember_def Let_def om.get_ins split: option.splits)

lemma stat_keeps_durable: "mr_stat env path st = (r, st') \<Longrightarrow> durable_part st' = durable_part st"
proof (rule reads_keep)
  show "preserves (\<lambda>st. durable_part st = c) (mr_stat env path)" for c
    unfolding mr_stat_def by (intro pres reads.projection)
qed

lemma list_keeps_durable: "mr_list env path st = (r, st') \<Longrightarrow> durable_part st' = durable_part st"
proof (rule reads_keep)
  show "preserves (\<lambda>st. durable_part st = c) (mr_list env path)" for c
    unfolding mr_list_def by (intro pres reads.projection)
qed

lemma allocate_Inr:
  "allocate_for_path path kind st = (Inr ino, st') \<longleftrightarrow>
    (\<exists>pc. ensure path kind (rt_paths st) = (ino, pc) \<and> st' = clear_stale_path path st\<lparr>rt_paths := pc\<rparr>)"
  by (auto simp: allocate_for_path_def clear_stale_path_def Let_def split: prod.splits)

text \<open>C26: The inode of a lookup is the inode of the path. A successful lookup of a name in a known
  directory answers an inode that both tables then hold for exactly that child, with the kind
  of the reply; a child that had an inode keeps it, no other inode changes its path, and
  \<open>getattr\<close> on the answered inode asks for that child.\<close>

theorem lookup_inode_resolves:
  assumes "fuse_lookup env owner parent name st = (ReplyEntry ttl attr gen, st')" "pc_inv (rt_paths st)"
  shows "\<exists>p c. pc_path (rt_paths st) parent = Some p \<and> join_child p name = Inr c
    \<and> pc_path (rt_paths st') (fa_ino attr) = Some c \<and> pc_entry (rt_paths st') c = Some (fa_ino attr, fa_kind attr)
    \<and> (\<forall>i k. pc_entry (rt_paths st) c = Some (i, k) \<longrightarrow> fa_ino attr = i)
    \<and> (\<forall>i q. pc_path (rt_paths st) i = Some q \<longrightarrow> pc_path (rt_paths st') i = Some q)
    \<and> fuse_getattr env owner (fa_ino attr) st' = respond (ReplyAttr TTL) (attr_for_path env owner c) st'"
proof -
  from assms(1) obtain c where c: "child_path (rt_paths st) parent name = Some c"
    and a: "attr_for_path env owner c st = (Inr attr, st')"
    by (auto simp: fuse_lookup_def rt_bind_Inr child_for_def elim!: respond_cases)
  obtain p where p: "pc_path (rt_paths st) parent = Some p" "join_child p name = Inr c"
    using c by (cases "pc_path (rt_paths st) parent"; cases "join_child (the (pc_path (rt_paths st) parent)) name")
      (auto simp: child_path_def ok_of_def)
  obtain ra st1 where s: "mr_stat env c st = (Inr ra, st1)"
    and f: "file_attr_from_runtime owner c ra None st1 = (Inr attr, st')"
    using a by (auto simp: attr_for_path_def rt_bind_Inr)
  have same: "rt_paths st1 = rt_paths st" using stat_keeps_durable [OF s] by (simp add: durable_part_def)
  obtain pc where e: "ensure c (file_type_from_runtime (ra_kind ra)) (rt_paths st) = (fa_ino attr, pc)"
    and st': "rt_paths st' = pc" and k: "fa_kind attr = file_type_from_runtime (ra_kind ra)"
    using f same by (auto simp: file_attr_from_runtime_def Let_def rt_map_Inr allocate_Inr build_attr_def)
  note r = ensure_resolves [OF e assms(2)]
  have "fuse_getattr env owner (fa_ino attr) st' = respond (ReplyAttr TTL) (attr_for_path env owner c) st'"
    using r(2) st' by (simp add: fuse_getattr_def respond_def path_for_ino_def rt_bind_def ok_or_def)
  then show ?thesis using p r unfolding st' k by (intro exI [of _ p] exI [of _ c]) auto
qed

section \<open>Reading\<close>

lemma read_slice_eq:
  assumes "start < 2 ^ 63" "n < 2 ^ 32"
  shows "read_slice start n bs = take n (drop start bs)"
proof -
  have "start + n \<le> 2 ^ 64 - 1" using assms by simp
  then have "min (start + n) (2 ^ 64 - 1) = start + n" by (rule min_absorb1)
  then show ?thesis by (simp add: read_slice_def Let_def min_def)
qed

text \<open>C27: A read answers exactly the requested range: for every offset the kernel can send, the
  bytes of the file from the offset on, at most the requested number and fewer only at the
  end of the file, with no overflow in the bound. A negative offset is EINVAL, an unknown
  inode ENOENT, and neither changes anything.\<close>

theorem read_answers_the_range:
  assumes "offset < 2 ^ 63"
  shows "(offset < 0 \<longrightarrow> fuse_read env ino fh offset n st = (ReplyError EINVAL, st))
    \<and> (0 \<le> offset \<and> pc_path (rt_paths st) ino = None \<longrightarrow> fuse_read env ino fh offset n st = (ReplyError ENOENT, st))
    \<and> (\<forall>path bs st'. 0 \<le> offset \<and> pc_path (rt_paths st) ino = Some path \<and> mr_read_handle env fh path st = (Inr bs, st') \<longrightarrow>
        fuse_read env ino fh offset n st = (ReplyData (take (unat n) (drop (nat offset) bs)), st'))"
proof -
  have "unat n < 2 ^ 32" using unsigned_less [of n] by simp
  moreover have "nat offset < 2 ^ 63" using assms by simp
  ultimately have "read_slice (nat offset) (unat n) bs = take (unat n) (drop (nat offset) bs)" for bs
    using read_slice_eq by blast
  then show ?thesis
    by (auto simp: fuse_read_def respond_def rt_fail_def rt_bind_def path_for_ino_def ok_or_def)
qed

section \<open>Directories\<close>

definition numbered :: "(nat \<times> u64 \<times> FileType \<times> string) list \<Rightarrow> (u64 \<times> int \<times> FileType \<times> string) list" where
  "numbered = map (\<lambda>(i, ino, kind, name). (ino, int i + 1, kind, name))"

lemma add_entries_page:
  "\<exists>n. add_entries full added xs = added @ take n (numbered xs)
    \<and> (n < length xs \<longrightarrow> full (add_entries full added xs) (numbered xs ! n))"
proof (induction full added xs rule: add_entries.induct)
  case (2 full added i ino kind name rest)
  let ?e = "(ino, int i + 1, kind, name)"
  show ?case
  proof (cases "full added ?e")
    case True
    then show ?thesis by (intro exI [of _ 0]) (simp add: numbered_def)
  next
    case False
    then obtain n where "add_entries full (added @ [?e]) rest = (added @ [?e]) @ take n (numbered rest)"
      "n < length rest \<longrightarrow> full (add_entries full (added @ [?e]) rest) (numbered rest ! n)"
      using 2 [of ?e] by auto
    then show ?thesis using False by (intro exI [of _ "Suc n"]) (simp add: numbered_def)
  qed
qed simp

lemma children_names:
  "reply_children env path entries st = (Inr rs, st') \<Longrightarrow>
    map snd rs = map (\<lambda>e. (file_type_from_runtime (rd_kind e), rd_name e)) entries"
  by (induction entries arbitrary: st rs) (auto simp: Let_def rt_bind_Inr rt_map_Inr split: sum.splits)

lemma allocate_room:
  assumes "allocate_for_path c k st = (Inr i, st1)" "pc_inv (rt_paths st)" "0 < next_ino (rt_paths st)"
    and "unat (next_ino (rt_paths st)) + Suc n < 2 ^ 64"
  shows "pc_inv (rt_paths st1) \<and> 0 < next_ino (rt_paths st1) \<and> unat (next_ino (rt_paths st1)) + n < 2 ^ 64"
proof -
  have en: "ensure c k (rt_paths st) = (i, rt_paths st1)" using assms(1) by (auto simp: allocate_Inr)
  have max: "next_ino (rt_paths st) \<noteq> - 1"
  proof
    assume "next_ino (rt_paths st) = - 1"
    then have "unat (next_ino (rt_paths st)) = 2 ^ 64 - 1" by (simp add: unsigned_minus_1_eq_mask mask_eq_exp_minus_1)
    then show False using assms(4) by simp
  qed
  have inv: "pc_inv (rt_paths st1)" using pc_inv_ensure [OF assms(2) max assms(3)] en by (metis snd_conv)
  have step: "next_ino (rt_paths st1) = next_ino (rt_paths st) \<or> next_ino (rt_paths st1) = next_ino (rt_paths st) + 1"
    using next_ino_ensure [of c k "rt_paths st"] en by (simp split: if_splits)
  have "unat (next_ino (rt_paths st) + 1) = Suc (unat (next_ino (rt_paths st)))"
    using assms(4) by (simp add: unat_word_ariths(1))
  then show ?thesis using inv step assms(3,4) less_next_ino [OF max] by (auto simp: word_gt_0)
qed

lemma children_resolve:
  assumes "reply_children env path entries st = (Inr rs, st')" "pc_inv (rt_paths st)" "0 < next_ino (rt_paths st)"
    and "unat (next_ino (rt_paths st)) + length entries < 2 ^ 64"
  shows "(\<forall>(i, k, name)\<in>set rs. \<exists>c. join_child path name = Inr c \<and> pc_path (rt_paths st') i = Some c)
    \<and> (\<forall>j q. pc_path (rt_paths st) j = Some q \<longrightarrow> pc_path (rt_paths st') j = Some q)"
  using assms
proof (induction entries arbitrary: st rs)
  case (Cons e entries)
  then obtain c i st1 rest where c: "join_child path (rd_name e) = Inr c"
    and a: "allocate_for_path c (file_type_from_runtime (rd_kind e)) st = (Inr i, st1)"
    and r: "reply_children env path entries st1 = (Inr rest, st')"
    and rs: "rs = (i, file_type_from_runtime (rd_kind e), rd_name e) # rest"
    by (auto simp: Let_def rt_bind_Inr rt_map_Inr split: sum.splits)
  have en: "ensure c (file_type_from_runtime (rd_kind e)) (rt_paths st) = (i, rt_paths st1)"
    using a by (auto simp: allocate_Inr)
  have "pc_inv (rt_paths st1) \<and> 0 < next_ino (rt_paths st1) \<and> unat (next_ino (rt_paths st1)) + length entries < 2 ^ 64"
    using allocate_room [OF a Cons.prems(2,3)] Cons.prems(4) by simp
  then show ?case using Cons.IH [OF r] c rs ensure_resolves [OF en Cons.prems(2)] by auto
qed simp

text \<open>C25: A directory is read page by page without loss. The full listing is \<open>.\<close>, \<open>..\<close> and the listed
  names in order; a page is the run of it that starts at the requested offset, each entry with the
  offset of its successor, and it stops early only when the kernel's buffer is full. While inode
  numbers last, every child's inode resolves to the child's path and no inode changes its path.\<close>

theorem readdir_pages:
  assumes "fuse_readdir env full ino offset st = (ReplyDirectory page, st')"
  shows "\<exists>path listed parent children n st1. pc_path (rt_paths st) ino = Some path
    \<and> mr_list env path st = (Inr listed, st1)
    \<and> map snd children = map (\<lambda>e. (file_type_from_runtime (rd_kind e), rd_name e)) listed
    \<and> (let entries = (ino, DirectoryType, ''.'') # (parent, DirectoryType, ''..'') # children;
           rest = drop (nat (max offset 0)) (numbered (List.enumerate 0 entries)) in
         page = take n rest \<and> (n < length rest \<longrightarrow> full page (rest ! n)))
    \<and> (pc_inv (rt_paths st) \<and> 0 < next_ino (rt_paths st) \<and> unat (next_ino (rt_paths st)) + Suc (length listed) < 2 ^ 64 \<longrightarrow>
         (\<forall>(i, k, name)\<in>set children. \<exists>c. join_child path name = Inr c \<and> pc_path (rt_paths st') i = Some c)
         \<and> (\<forall>j q. pc_path (rt_paths st) j = Some q \<longrightarrow> pc_path (rt_paths st') j = Some q))"
proof -
  from assms obtain path entries where path: "pc_path (rt_paths st) ino = Some path"
    and d: "directory_reply_entries env path ino st = (Inr entries, st')"
    and page: "page = add_entries full [] (drop (nat (max offset 0)) (List.enumerate 0 entries))"
    by (auto simp: fuse_readdir_def rt_bind_Inr path_for_ino_def elim!: respond_cases)
  from d obtain listed st1 parent st2 children where l: "mr_list env path st = (Inr listed, st1)"
    and p: "parent_ino_for_path path st1 = (Inr parent, st2)"
    and c: "reply_children env path listed st2 = (Inr children, st')"
    and e: "entries = (ino, DirectoryType, ''.'') # (parent, DirectoryType, ''..'') # children"
    by (auto simp: directory_reply_entries_def rt_bind_Inr rt_map_Inr)
  have keep: "rt_paths st1 = rt_paths st"
    using list_keeps_durable [OF l] by (simp add: durable_part_def)
  have "(\<forall>(i, k, name)\<in>set children. \<exists>c. join_child path name = Inr c \<and> pc_path (rt_paths st') i = Some c)
      \<and> (\<forall>j q. pc_path (rt_paths st) j = Some q \<longrightarrow> pc_path (rt_paths st') j = Some q)"
    if room: "pc_inv (rt_paths st)" "0 < next_ino (rt_paths st)" "unat (next_ino (rt_paths st)) + Suc (length listed) < 2 ^ 64"
  proof -
    have "pc_inv (rt_paths st2) \<and> 0 < next_ino (rt_paths st2) \<and> unat (next_ino (rt_paths st2)) + length listed < 2 ^ 64
        \<and> (\<forall>j q. pc_path (rt_paths st) j = Some q \<longrightarrow> pc_path (rt_paths st2) j = Some q)"
    proof (cases "is_root path")
      case False
      then have a: "allocate_for_path (MountPath_parent path) DirectoryType st1 = (Inr parent, st2)"
        using p by (simp add: parent_ino_for_path_def)
      then have "ensure (MountPath_parent path) DirectoryType (rt_paths st) = (parent, rt_paths st2)"
        using keep by (auto simp: allocate_Inr clear_stale_path_def)
      then show ?thesis using allocate_room [OF a] room keep ensure_resolves(4) [OF _ room(1)] by auto
    qed (use p keep room in \<open>auto simp: parent_ino_for_path_def rt_return_def\<close>)
    then show ?thesis using children_resolve [OF c] by auto
  qed
  moreover obtain n where "page = take n (drop (nat (max offset 0)) (numbered (List.enumerate 0 entries)))"
    "n < length (drop (nat (max offset 0)) (numbered (List.enumerate 0 entries))) \<longrightarrow>
      full page (drop (nat (max offset 0)) (numbered (List.enumerate 0 entries)) ! n)"
    using add_entries_page [of full "[]" "drop (nat (max offset 0)) (List.enumerate 0 entries)"] page
    by (auto simp: numbered_def drop_map)
  ultimately show ?thesis unfolding Let_def e [symmetric] using path l children_names [OF c] e by blast
qed

section \<open>Creating files\<close>

interpretation handles_kept: open_frame "\<lambda>st. rt_handles st = hs" for hs
  by unfold_locales simp_all

lemma build_handle_result:
  assumes "build_handle env path w t c st = (r, st')"
  shows "rt_handles st' = rt_handles st" and "r = Inr h \<Longrightarrow> h_path h = path \<and> h_writable h = w"
proof -
  show "rt_handles st' = rt_handles st" using preservesD [OF handles_kept.handles(3) assms] by simp
  show "r = Inr h \<Longrightarrow> h_path h = path \<and> h_writable h = w"
    using assms by (auto simp: build_handle_def rt_bind_Inr rt_return_def rt_fail_def split: if_splits prod.splits)
qed

lemma open_handle_result:
  assumes "open_handle env path w t c st = (r, st')"
  shows "(\<exists>e. r = Inl e \<and> rt_handles st' = rt_handles st)
    \<or> (\<exists>h. r = Inr (rt_next_fh st) \<and> rt_handles st' = map_insert (rt_next_fh st) h (rt_handles st)
          \<and> h_path h = path \<and> h_writable h = w)"
proof -
  let ?st = "st\<lparr>rt_next_fh := rt_next_fh st + 1\<rparr>"
  obtain rb st1 where b: "build_handle env path w t c ?st = (rb, st1)" by fastforce
  show ?thesis
    using assms b build_handle_result [OF b]
    by (cases rb) (auto simp: open_handle_def Let_def rt_bind_def rt_modify_def rt_return_def)
qed

lemma create_attr_keeps: "create_reply_attr env owner path fh perm st = (r, st') \<Longrightarrow> rt_handles st' = rt_handles st"
proof -
  assume c: "create_reply_attr env owner path fh perm st = (r, st')"
  have created: "rt_handles st1 = rt_handles st" if "created_handle_attr env fh path st = (r1, st1)" for r1 st1
    using that stat_keeps_durable [of env path st]
    by (auto simp: created_handle_attr_def durable_part_def split: option.splits if_splits)
  have alloc: "rt_handles (snd (file_attr_from_runtime owner path attr p st1)) = rt_handles st1" for attr p and st1 :: "'a Runtime"
    by (simp add: file_attr_from_runtime_def Let_def rt_map_def rt_bind_def rt_return_def allocate_for_path_def
      clear_stale_path_def split: prod.splits)
  show "rt_handles st' = rt_handles st"
    using c created alloc by (auto simp: create_reply_attr_def rt_bind_def split: prod.splits sum.splits) (metis snd_conv)
qed

text \<open>C24: Creating a file opens one handle or none. When the create is answered, its handle is the next
  free one, open for writing on exactly the child asked for; when it fails, at any point, no handle
  stays open. No other handle is touched.\<close>

theorem create_opens_one_handle_or_none:
  assumes "fuse_create env owner parent name mode flags st = (reply, st')"
    and "map_get (rt_handles st) (rt_next_fh st) = None"
  shows "(\<exists>e. reply = ReplyError e \<and> map_get (rt_handles st') = map_get (rt_handles st))
    \<or> (\<exists>attr path h. reply = ReplyCreated TTL attr 0 (rt_next_fh st) 0
        \<and> child_path (rt_paths st) parent name = Some path
        \<and> map_get (rt_handles st') = (map_get (rt_handles st))(rt_next_fh st \<mapsto> h)
        \<and> h_path h = path \<and> h_writable h)"
proof (cases "child_path (rt_paths st) parent name")
  case None
  then show ?thesis using assms(1)
    by (auto simp: fuse_create_def respond_def child_for_def rt_bind_def ok_or_def)
next
  case (Some path)
  let ?options = "runtime_open_options_from_flags flags True"
  obtain r st1 where o: "mr_open env path ?options st = (r, st1)" by fastforce
  note result = open_handle_result [OF o [unfolded mr_open_def]]
  have child: "child_for parent name st = (Inr path, st)" using Some by (simp add: child_for_def ok_or_def)
  show ?thesis
  proof (cases r)
    case (Inl e)
    then show ?thesis using assms(1) child o result by (auto simp: fuse_create_def respond_def rt_bind_def)
  next
    case (Inr fh)
    then obtain h where h: "fh = rt_next_fh st" "rt_handles st1 = map_insert fh h (rt_handles st)" "h_path h = path" "h_writable h"
      using result by (auto simp: runtime_open_options_from_flags_def Let_def)
    obtain ra st2 where a: "create_reply_attr env owner path fh (perm_of_mode mode) st1 = (ra, st2)" by fastforce
    have hs: "map_get (rt_handles st2) = (map_get (rt_handles st))(fh \<mapsto> h)"
      using create_attr_keeps [OF a] h(2) by (simp add: om.get_ins)
    have undo: "(map_get (rt_handles st))(fh := None) = map_get (rt_handles st)" using assms(2) h(1) by auto
    show ?thesis
    proof (cases ra)
      case (Inl e)
      then have "reply = ReplyError e" "st' = discard fh st2"
        using assms(1) child o Inr a by (simp_all add: fuse_create_def respond_def rt_bind_def)
      then show ?thesis using hs undo by (simp add: discard_def om.get_del)
    next
      case (Inr attr)
      then have "reply = ReplyCreated TTL attr 0 fh 0" "st' = st2"
        using assms(1) child o \<open>r = Inr fh\<close> a
        by (simp_all add: fuse_create_def respond_def rt_bind_def fuse_open_reply_flags_def)
      then show ?thesis using hs h Some by blast
    qed
  qed
qed

section \<open>Stat and read\<close>

lemma queued_jsonl_None:
  assumes "queued_jsonl_snapshot env path parsed st = (Inr None, st')"
  shows "st' = st"
  using assms by (auto simp: queued_jsonl_snapshot_def rt_bind_Inr rt_gets_def rt_return_def split: if_splits prod.splits)

text \<open>Only an object without queued or cached content is treated differently.\<close>

lemma attr_metadata_cases:
  "attr_metadata env path parsed st = rt_map snapshot_metadata (read_snapshot env path parsed) st
    \<or> (\<exists>b obj. parsed = JetStreamPath.Object b obj
        \<and> attr_metadata env path parsed st = rt_bind (rt_object_metadata env b obj) (\<lambda>m.
            rt_of (ok_or ENOENT (map_option (\<lambda>m. \<lparr>fm_size = om_size m, fm_version = VersionStamp_at (om_modified m)\<rparr>) m))) st
        \<and> read_snapshot env path parsed st = read_durable env path parsed st)"
proof -
  note defs = attr_metadata_def read_snapshot_def rt_map_def rt_bind_def rt_gets_def rt_return_def rt_fail_def
  show ?thesis
  proof (cases "latest_delete_covers (queued_overlay st) path \<or> whole_value_snapshot (queued_overlay st) path \<noteq> None")
    case True
    then show ?thesis by (auto simp: defs)
  next
    case False
    obtain r st1 where q: "queued_jsonl_snapshot env path parsed st = (r, st1)" by fastforce
    show ?thesis
    proof (cases "r = Inr None \<and> cache_get (rt_cache st1) path = None")
      case True
      then have "st1 = st" using queued_jsonl_None q by blast
      show ?thesis
      proof (cases "\<exists>b obj. parsed = JetStreamPath.Object b obj")
        case o: True
        then show ?thesis using True False q \<open>st1 = st\<close> by (auto simp: defs)
      next
        case o: False
        then have "attr_metadata env path parsed st = rt_map snapshot_metadata (read_snapshot env path parsed) st1"
          using True False q by (cases parsed) (simp_all add: attr_metadata_def rt_bind_def rt_gets_def)
        then show ?thesis using \<open>st1 = st\<close> by simp
      qed
    next
      case n: False
      then show ?thesis using False q
        by (cases r) (auto simp: defs split: option.splits)
    qed
  qed
qed

lemma memory_object_read:
  assumes "e_store env = memory_mount_storage json display now"
  shows "fst (rt_bind (rt_object_metadata env b obj) (\<lambda>m.
      rt_of (ok_or ENOENT (map_option (\<lambda>m. \<lparr>fm_size = om_size m, fm_version = VersionStamp_at (om_modified m)\<rparr>) m))) st) =
    fst (rt_map snapshot_metadata (read_durable env path (JetStreamPath.Object b obj)) st)"
proof -
  have plan: "plan_operation (e_debug env) FileIntent.Read (JetStreamPath.Object b obj) = Inr (JetStreamAction.ObjectGet b obj)"
    by (simp add: plan_defs)
  have ops: "ms_object_get (e_store env) = mem_object_get"
    "ms_object_metadata (e_store env) = (\<lambda>b obj s. obind (mem_object_get b obj s) (\<lambda>e s. (Inr (map_option object_metadata_of e), s)))"
    using assms by (simp_all add: memory_mount_storage_def ReplayStorage.defs MountStorage.defs memory_storage_def)
  show ?thesis
    by (cases "map_get (objects (rt_backend st)) (b, obj)")
      (simp_all add: read_durable_def plan_rt_def plan rt_of_def rt_bind_def rt_map_def rt_io_def rt_call_def ops
        mem_object_get_def obind_def rt_object_metadata_def ok_or_def caching_def cache_put_def rt_modify_def rt_return_def
        snapshot_metadata_def object_metadata_of_def)
qed

text \<open>C23: The size and time a file's attributes report are those of its content. For every path that is no
  object, \<open>attr_metadata\<close> is the length and version of what \<open>read_snapshot\<close> answers in the same state, with
  the same errors and the same effects; for an object on the in-memory backend, which answers the
  metadata without reading the content, the values agree too.\<close>

theorem stat_agrees_with_read:
  "((\<forall>b obj. parsed \<noteq> JetStreamPath.Object b obj) \<longrightarrow>
      attr_metadata env path parsed st = rt_map snapshot_metadata (read_snapshot env path parsed) st)
    \<and> (e_store env = memory_mount_storage json display now \<longrightarrow>
      fst (attr_metadata env path parsed st) = fst (rt_map snapshot_metadata (read_snapshot env path parsed) st))"
  using attr_metadata_cases [of env path parsed st] memory_object_read [of env json display now _ _ st path]
  by (auto simp: rt_map_def rt_bind_def)

section \<open>Examples\<close>

lemma sample_paths: "rt_paths (sample_runtime queued) = PathCache_new DirectoryType"
  by (simp add: sample_runtime_def MountRuntimeState_new_def)

lemma sample_lookup:
  "\<exists>attr st'. fuse_lookup sample_env sample_owner 1 ''kv'' (sample_runtime []) = (ReplyEntry 1 attr 0, st')"
proof -
  have "(case fst (fuse_lookup sample_env sample_owner 1 ''kv'' (sample_runtime [])) of ReplyEntry t a g \<Rightarrow> t = 1 \<and> g = 0 | _ \<Rightarrow> False)"
    by code_simp
  then show ?thesis
    by (cases "fuse_lookup sample_env sample_owner 1 ''kv'' (sample_runtime [])") (auto split: Reply.splits)
qed

theorem lookup_inode_resolves_witness:
  "\<exists>attr st'. fuse_lookup sample_env sample_owner 1 ''kv'' (sample_runtime []) = (ReplyEntry 1 attr 0, st')
    \<and> (\<exists>c. pc_path (rt_paths st') (fa_ino attr) = Some c)"
proof -
  obtain attr st' where l: "fuse_lookup sample_env sample_owner 1 ''kv'' (sample_runtime []) = (ReplyEntry 1 attr 0, st')"
    using sample_lookup by blast
  have "pc_inv (rt_paths (sample_runtime []))" by (simp add: sample_paths pc_inv_new)
  from lookup_inode_resolves [OF l this] l show ?thesis by blast
qed

theorem read_answers_the_range_witness:
  "fuse_read sample_env 1 2 (- 1) 4 (sample_runtime []) = (ReplyError EINVAL, sample_runtime [])
    \<and> fuse_read sample_env 9 2 0 4 (sample_runtime []) = (ReplyError ENOENT, sample_runtime [])"
  using read_answers_the_range [of "- 1" sample_env 1 2 4 "sample_runtime []"]
    read_answers_the_range [of 0 sample_env 9 2 4 "sample_runtime []"]
  by (simp add: sample_paths PathCache_new_def remember_def pc_path_def map_get_def ROOT_INO_def)

theorem readdir_pages_witness:
  "\<exists>page st' path. fuse_readdir sample_env (\<lambda>_ _. False) 1 0 (sample_runtime []) = (ReplyDirectory page, st')
    \<and> pc_path (rt_paths (sample_runtime [])) 1 = Some path"
proof -
  have "(case fst (fuse_readdir sample_env (\<lambda>_ _. False) 1 0 (sample_runtime [])) of ReplyDirectory p \<Rightarrow> True | _ \<Rightarrow> False)"
    by code_simp
  then obtain page st' where d: "fuse_readdir sample_env (\<lambda>_ _. False) 1 0 (sample_runtime []) = (ReplyDirectory page, st')"
    by (cases "fuse_readdir sample_env (\<lambda>_ _. False) 1 0 (sample_runtime [])") (auto split: Reply.splits)
  show ?thesis using d readdir_pages [OF d] by blast
qed

definition bucket_runtime :: "MemoryStorageState Runtime" where
  "bucket_runtime = (sample_runtime [])\<lparr>rt_backend := snd (mem_ensure_kv_bucket ''b'' MemoryStorage_new),
     rt_paths := snd (ensure ''/kv/b'' DirectoryType (PathCache_new DirectoryType))\<rparr>"

theorem create_opens_one_handle_or_none_witness:
  "\<exists>attr st' h. fuse_create sample_env sample_owner 2 ''k'' 420 1 bucket_runtime = (ReplyCreated TTL attr 0 2 0, st')
    \<and> map_get (rt_handles st') 2 = Some h \<and> h_writable h"
proof -
  have "(case fst (fuse_create sample_env sample_owner 2 ''k'' 420 1 bucket_runtime) of ReplyError _ \<Rightarrow> False | _ \<Rightarrow> True)"
    by code_simp
  then obtain reply st' where c: "fuse_create sample_env sample_owner 2 ''k'' 420 1 bucket_runtime = (reply, st')"
    "\<And>e. reply \<noteq> ReplyError e"
    by (cases "fuse_create sample_env sample_owner 2 ''k'' 420 1 bucket_runtime") (auto split: Reply.splits)
  have "map_get (rt_handles bucket_runtime) (rt_next_fh bucket_runtime) = None" "rt_next_fh bucket_runtime = 2"
    by (simp_all add: bucket_runtime_def sample_runtime_def MountRuntimeState_new_def)
  with c show ?thesis using create_opens_one_handle_or_none [OF c(1)] by auto
qed

theorem stat_agrees_with_read_witness:
  "attr_metadata sample_env ''/kv/b/k'' (JetStreamPath.KvKey ''b'' ''k'') (sample_runtime []) =
    rt_map snapshot_metadata (read_snapshot sample_env ''/kv/b/k'' (JetStreamPath.KvKey ''b'' ''k'')) (sample_runtime [])"
  using stat_agrees_with_read [of "JetStreamPath.KvKey ''b'' ''k''"] by blast

end
