(* ===== verification/Nats_Client.thy ===== *)
theory Nats_Client
  imports Storage
begin

text \<open>
  The interface of the \<open>nats\<close> crate as \<open>eventfs-transport/src/storage/nats\<close> calls it. The crate
  and the server behind it are not part of the sources: they are the parameter \<open>'s Nats\<close>, a record
  of the methods the backend calls, each of which answers a result and changes the state of the
  world. Whatever happens on the server while a call runs (other clients, expiring duplicate
  windows) is part of that call's change of state. The values are the crate's structures, with the
  fields the sources read or set.

  A subscription is what its \<open>next_timeout\<close> calls will answer: the messages, in order, up to the
  first error, a time-out or another, at which every loop over a subscription stops. The
  sources call nothing else while they drain one. A pull subscription is a handle, since its
  messages are acknowledged between fetches.
\<close>

section \<open>Values\<close>

text \<open>A \<open>Duration\<close> is its nanoseconds, a \<open>DateTime\<close> its (signed) nanoseconds since the epoch.\<close>

type_synonym Duration = nat
type_synonym DateTime = int
type_synonym HeaderMap = "(string \<times> string) list"

datatype StorageType = StorageFile | StorageMemory

record StreamConfig =
  sc_name :: string
  sc_subjects :: "string list"
  sc_max_msgs_per_subject :: int
  sc_storage :: StorageType
  sc_duplicate_window :: int

record StreamInfo =
  si_config :: StreamConfig
  si_messages :: u64

record StreamMessage =
  msg_subject :: string
  msg_sequence :: u64
  msg_headers :: "HeaderMap option"
  msg_data :: bytes
  msg_time :: DateTime

record JetStreamMessageInfo =
  ji_stream_seq :: u64
  ji_pending :: u64
  ji_published :: DateTime

record Message =
  m_subject :: string
  m_headers :: "HeaderMap option"
  m_data :: bytes
  m_info :: "JetStreamMessageInfo option"

record PublishOptions =
  po_timeout :: "Duration option"
  po_id :: "string option"
  po_expected_stream :: "string option"
  po_expected_last_subject_sequence :: "u64 option"

datatype DeliverPolicy = DeliverAll | DeliverNew | DeliverLastPerSubject

record SubscribeOptions =
  so_bind_stream :: "string option"
  so_ordered :: bool
  so_deliver :: DeliverPolicy

record Subscription =
  sub_messages :: "Message list"
  sub_error :: IoError

record ConsumerConfig =
  cc_deliver_policy :: DeliverPolicy
  cc_explicit_ack :: bool
  cc_filter_subject :: string
  cc_replay_instant :: bool
  cc_headers_only :: bool

record KvConfig =
  kc_bucket :: string
  kc_history :: int
  kc_storage :: StorageType

datatype KvOperation = KvPut | KvDelete | KvPurge

record KvEntry =
  ke_operation :: KvOperation
  ke_revision :: u64
  ke_created :: DateTime
  ke_value :: bytes

record ObjectConfig =
  oc_bucket :: string
  oc_storage :: StorageType

record ObjectMeta =
  ot_name :: string
  ot_description :: "string option"

record ObjectInfo =
  oi_name :: string
  oi_description :: "string option"
  oi_nuid :: string
  oi_size :: nat
  oi_chunks :: nat
  oi_modified :: DateTime
  oi_deleted :: bool

section \<open>Methods\<close>

type_synonym ('s, 'a) io_call = "'s \<Rightarrow> (IoError + 'a) \<times> 's"

text \<open>\<open>js_publish\<close> is \<open>publish_with_options\<close> (no headers) and \<open>publish_message_with_options\<close>; it
  answers the sequence of the acknowledgement. A KV or object store is identified by its bucket,
  an open object by a handle to read from.\<close>

record 's Nats =
  js_stream_names :: "'s \<Rightarrow> (IoError + string) list \<times> 's"
  js_stream_info :: "string \<Rightarrow> ('s, StreamInfo) io_call"
  js_add_stream :: "StreamConfig \<Rightarrow> ('s, StreamInfo) io_call"
  js_update_stream :: "StreamConfig \<Rightarrow> ('s, StreamInfo) io_call"
  js_get_last_message :: "string \<Rightarrow> string \<Rightarrow> ('s, StreamMessage) io_call"
  js_get_message :: "string \<Rightarrow> u64 \<Rightarrow> ('s, StreamMessage) io_call"
  js_publish :: "string \<Rightarrow> HeaderMap option \<Rightarrow> bytes \<Rightarrow> PublishOptions \<Rightarrow> ('s, u64) io_call"
  js_subscribe :: "string \<Rightarrow> SubscribeOptions \<Rightarrow> ('s, Subscription) io_call"
  js_pull_subscribe :: "string \<Rightarrow> string \<Rightarrow> ConsumerConfig \<Rightarrow> ('s, nat) io_call"
  js_fetch :: "nat \<Rightarrow> nat \<Rightarrow> ('s, Message list) io_call"
  js_ack :: "nat \<Rightarrow> Message \<Rightarrow> ('s, unit) io_call"
  js_purge_stream_subject :: "string \<Rightarrow> string \<Rightarrow> ('s, unit) io_call"
  js_key_value :: "string \<Rightarrow> ('s, unit) io_call"
  js_create_key_value :: "KvConfig \<Rightarrow> ('s, unit) io_call"
  kvs_keys :: "string \<Rightarrow> ('s, string list) io_call"
  kvs_entry :: "string \<Rightarrow> string \<Rightarrow> ('s, KvEntry option) io_call"
  kvs_put :: "string \<Rightarrow> string \<Rightarrow> bytes \<Rightarrow> ('s, u64) io_call"
  js_object_store :: "string \<Rightarrow> ('s, unit) io_call"
  js_create_object_store :: "ObjectConfig \<Rightarrow> ('s, unit) io_call"
  os_get :: "string \<Rightarrow> string \<Rightarrow> ('s, ObjectInfo \<times> nat) io_call"
  os_read_to_end :: "nat \<Rightarrow> ('s, bytes) io_call"
  os_info :: "string \<Rightarrow> string \<Rightarrow> ('s, ObjectInfo) io_call"
  os_put :: "string \<Rightarrow> ObjectMeta \<Rightarrow> bytes \<Rightarrow> ('s, unit) io_call"
  os_delete :: "string \<Rightarrow> string \<Rightarrow> ('s, unit) io_call"

text \<open>\<open>?\<close> on an \<open>io::Result\<close>, or \<open>map_err(TransportError::from)\<close>.\<close>

definition from_io :: "(IoError + 'a) \<times> 's \<Rightarrow> ('s, 'a) outcome" where
  "from_io r = (case r of (v, s) \<Rightarrow> (map_err Io v, s))"

lemma from_io_simps [simp]:
  "from_io (Inl e, s) = (Inl (Io e), s)"
  "from_io (Inr x, s) = (Inr x, s)"
  by (simp_all add: from_io_def map_err_def)

end
