(* ===== verification/Nats_Core.thy ===== *)
theory Nats_Core
  imports Nats_Client File_Names Paths
begin

text \<open>
  \<open>storage/nats/core.rs\<close> and \<open>storage/nats/ledger.rs\<close>: the configuration, the retry loop, the
  classification of the client's errors, the calls every part of the backend shares, and the write-back
  ledger. \<open>thread::sleep\<close> between two attempts is not a step of the model: what the world does
  in the meantime belongs to the next call.
\<close>

section \<open>Configuration and errors\<close>

record NatsStorageConfig =
  nc_timeout :: Duration
  nc_stream_duplicate_window :: Duration
  nc_kv_history :: int
  nc_retries :: nat
  nc_backoff :: Duration

definition NatsStorageConfig_default :: NatsStorageConfig where
  "NatsStorageConfig_default =
     \<lparr>nc_timeout = 2 * 10 ^ 9, nc_stream_duplicate_window = 24 * 60 * 60 * 10 ^ 9, nc_kv_history = 64,
      nc_retries = 2, nc_backoff = 25 * 10 ^ 6\<rparr>"

record 's NatsCore =
  core_context :: "'s Nats"
  core_config :: NatsStorageConfig

definition to_ascii_lowercase :: "string \<Rightarrow> string" where
  "to_ascii_lowercase s =
     map (\<lambda>c. if 65 \<le> (of_char c :: nat) \<and> (of_char c :: nat) \<le> 90 then char_of (of_char c + 32 :: nat) else c) s"

text \<open>The \<open>Display\<close> of the transport's errors.\<close>

fun transport_error_text :: "TransportError \<Rightarrow> string" where
  "transport_error_text (Io err) = ''NATS IO failed: '' @ io_text err"
| "transport_error_text (Json_Error detail) = ''JSON failed: '' @ detail"
| "transport_error_text (Invalid detail) = ''invalid transport request: '' @ detail"
| "transport_error_text QueueFull = ''writeback queue is full''"
| "transport_error_text (QueueLocked path) = ''writeback queue is already open: '' @ path"
| "transport_error_text NotFound = ''entry not found''"

definition is_no_responders :: "string \<Rightarrow> bool" where
  "is_no_responders message \<longleftrightarrow>
     contains_str ''no responders'' message \<or> contains_str ''no-responders'' message"

definition is_not_found :: "IoError \<Rightarrow> bool" where
  "is_not_found err =
     (let message = to_ascii_lowercase (io_text err) in
        if is_no_responders message then False
        else io_kind err = KindNotFound
          \<or> contains_str ''no message found'' message
          \<or> contains_str ''not found'' message
          \<or> contains_str ''404'' message)"

definition is_timeout :: "IoError \<Rightarrow> bool" where
  "is_timeout err \<longleftrightarrow> io_kind err = KindTimedOut \<or> contains_str ''timed out'' (io_text err)"

definition is_already_exists :: "TransportError \<Rightarrow> bool" where
  "is_already_exists err =
     (let message = to_ascii_lowercase (transport_error_text err) in
        (case err of Io io \<Rightarrow> io_kind io = KindAlreadyExists | _ \<Rightarrow> False)
        \<or> contains_str ''already in use'' message
        \<or> contains_str ''already exists'' message)"

definition store_lookup_error :: "IoError \<Rightarrow> TransportError" where
  "store_lookup_error err = (if is_not_found err then NotFound else Io err)"

definition stream_lookup_error :: "IoError \<Rightarrow> TransportError" where
  "stream_lookup_error err = (if is_not_found err then NotFound else Io err)"

text \<open>\<open>as_nanos\<close> is a \<open>u128\<close>; the cast to \<open>i64\<close> cannot wrap after the \<open>min\<close>.\<close>

definition duration_as_nanos :: "Duration \<Rightarrow> int" where
  "duration_as_nanos d = min (int d) (2 ^ 63 - 1)"

definition message_stream_sequence :: "Message \<Rightarrow> TransportError + u64" where
  "message_stream_sequence message =
     ok_or (Invalid ''bound JetStream delivery is missing stream sequence metadata'')
       (map_option ji_stream_seq (m_info message))"

section \<open>Retries\<close>

text \<open>\<open>retries\<close> counts the attempts that may still follow a failing one.\<close>

primrec retry_transport :: "nat \<Rightarrow> ('s \<Rightarrow> ('s, 'a) outcome) \<Rightarrow> 's \<Rightarrow> ('s, 'a) outcome" where
  "retry_transport 0 operation s =
     (case operation s of
        (Inr x, s) \<Rightarrow> (Inr x, s)
      | (Inl err, s) \<Rightarrow> (Inl err, s))"
| "retry_transport (Suc retries) operation s =
     (case operation s of
        (Inr x, s) \<Rightarrow> (Inr x, s)
      | (Inl err, s) \<Rightarrow> retry_transport retries operation s)"

definition retry_io :: "'s NatsCore \<Rightarrow> ('s, 'a) io_call \<Rightarrow> 's \<Rightarrow> ('s, 'a) outcome" where
  "retry_io core f s = retry_transport (nc_retries (core_config core)) (\<lambda>s. from_io (f s)) s"

section \<open>Shared calls\<close>

definition stream_info :: "'s NatsCore \<Rightarrow> string \<Rightarrow> 's \<Rightarrow> ('s, StreamInfo) outcome" where
  "stream_info core stream s =
     (case js_stream_info (core_context core) stream s of (r, s) \<Rightarrow> (map_err stream_lookup_error r, s))"

definition ensure_duplicate_window :: "'s NatsCore \<Rightarrow> string \<Rightarrow> 's \<Rightarrow> ('s, unit) outcome" where
  "ensure_duplicate_window core stream s =
     (let duplicate_window = duration_as_nanos (nc_stream_duplicate_window (core_config core)) in
        obind (stream_info core stream s) (\<lambda>info s.
          if sc_duplicate_window (si_config info) < duplicate_window then
            obind (from_io (js_update_stream (core_context core)
                     ((si_config info)\<lparr>sc_duplicate_window := duplicate_window\<rparr>) s)) (\<lambda>_ s.
              (Inr (), s))
          else (Inr (), s)))"

text \<open>The stream the sources create: \<open>StreamConfig { name, subjects, storage: File,
  duplicate_window, ..Default::default() }\<close>.\<close>

definition new_stream_config :: "string \<Rightarrow> string list \<Rightarrow> int \<Rightarrow> StreamConfig" where
  "new_stream_config name subjects window =
     \<lparr>sc_name = name, sc_subjects = subjects, sc_max_msgs_per_subject = 0, sc_storage = StorageFile,
      sc_duplicate_window = window\<rparr>"

definition add_stream_or_widen ::
  "'s NatsCore \<Rightarrow> string \<Rightarrow> string list \<Rightarrow> 's \<Rightarrow> ('s, unit) outcome" where
  "add_stream_or_widen core stream subjects s =
     (let duplicate_window = duration_as_nanos (nc_stream_duplicate_window (core_config core)) in
        case retry_io core (js_add_stream (core_context core)
               (new_stream_config stream subjects duplicate_window)) s of
          (Inr _, s) \<Rightarrow> (Inr (), s)
        | (Inl err, s) \<Rightarrow>
            (if is_already_exists err then ensure_duplicate_window core stream s else (Inl err, s)))"

definition ensure_stream_with_subjects ::
  "'s NatsCore \<Rightarrow> string \<Rightarrow> string list \<Rightarrow> 's \<Rightarrow> ('s, unit) outcome" where
  "ensure_stream_with_subjects core stream subjects s =
     (case stream_info core stream s of
        (Inr info, s) \<Rightarrow> ensure_duplicate_window core (sc_name (si_config info)) s
      | (Inl NotFound, s) \<Rightarrow> add_stream_or_widen core stream subjects s
      | (Inl err, s) \<Rightarrow> (Inl err, s))"

definition last_subject_sequence ::
  "'s NatsCore \<Rightarrow> string \<Rightarrow> string \<Rightarrow> 's \<Rightarrow> ('s, u64 option) outcome" where
  "last_subject_sequence core stream subject s =
     (case js_get_last_message (core_context core) stream subject s of
        (Inr message, s) \<Rightarrow> (Inr (Some (msg_sequence message)), s)
      | (Inl err, s) \<Rightarrow> (if is_not_found err then (Inr None, s) else (Inl (Io err), s)))"

text \<open>The loop over \<open>next_timeout\<close>, with the error that ends the deliveries.\<close>

definition scan_timeout :: "string \<Rightarrow> string \<Rightarrow> u64 \<Rightarrow> IoError \<Rightarrow> TransportError" where
  "scan_timeout stream subject last_sequence err =
     (if is_timeout err then
        Invalid (''timed out scanning '' @ stream @ '':'' @ subject
          @ '' before reaching retained sequence '' @ show_u64 last_sequence)
      else Io err)"

fun scan_loop ::
  "TransportError \<Rightarrow> u64 \<Rightarrow> (Message \<Rightarrow> TransportError + 'a option) \<Rightarrow> Message list
    \<Rightarrow> TransportError + 'a option" where
  "scan_loop final last_sequence on_message [] = Inl final"
| "scan_loop final last_sequence on_message (message # rest) =
     rbind (on_message message) (\<lambda>result.
       case result of
         Some x \<Rightarrow> Inr (Some x)
       | None \<Rightarrow>
           rbind (message_stream_sequence message) (\<lambda>sequence.
             if last_sequence \<le> sequence then Inr None
             else scan_loop final last_sequence on_message rest))"

definition scan_subject_history_until ::
  "'s NatsCore \<Rightarrow> string \<Rightarrow> string \<Rightarrow> (Message \<Rightarrow> TransportError + 'a option) \<Rightarrow> 's
    \<Rightarrow> ('s, 'a option) outcome" where
  "scan_subject_history_until core stream subject on_message s =
     obind (last_subject_sequence core stream subject s) (\<lambda>last_seen s.
       case last_seen of
         None \<Rightarrow> (Inr None, s)
       | Some last_sequence \<Rightarrow>
           (case js_subscribe (core_context core) subject
                   \<lparr>so_bind_stream = Some stream, so_ordered = False, so_deliver = DeliverAll\<rparr> s of
              (Inl err, s) \<Rightarrow> (if is_not_found err then (Inr None, s) else (Inl (Io err), s))
            | (Inr subscription, s) \<Rightarrow>
                (scan_loop (scan_timeout stream subject last_sequence (sub_error subscription))
                   last_sequence on_message (sub_messages subscription), s)))"

section \<open>The write-back ledger\<close>

definition LEDGER_STREAM :: string where
  "LEDGER_STREAM = ''EVENTFS_WRITEBACK''"

definition LEDGER_SUBJECT_PREFIX :: string where
  "LEDGER_SUBJECT_PREFIX = ''eventfs.writeback''"

text \<open>\<open>{:02x}\<close> prints the two lower-case hexadecimal digits of a byte.\<close>

definition nats_hex_encode :: "bytes \<Rightarrow> string" where
  "nats_hex_encode bs = concat (map (\<lambda>b. [HEX ! (unat b div 16), HEX ! (unat b mod 16)]) bs)"

definition scoped_key :: "string \<Rightarrow> string list \<Rightarrow> string" where
  "scoped_key kind parts =
     foldl (\<lambda>key part. key @ ''|'' @ show_nat (length part) @ '':'' @ part) kind parts"

definition ledger_subject :: "string \<Rightarrow> string" where
  "ledger_subject ledger_key = LEDGER_SUBJECT_PREFIX @ ''.'' @ nats_hex_encode (as_bytes ledger_key)"

definition ledger_payload_matches :: "string \<Rightarrow> bytes \<Rightarrow> bool" where
  "ledger_payload_matches ledger_key payload \<longleftrightarrow> payload = as_bytes ledger_key"

definition has_applied :: "'s NatsCore \<Rightarrow> string \<Rightarrow> 's \<Rightarrow> ('s, bool) outcome" where
  "has_applied core ledger_key s =
     (case js_get_last_message (core_context core) LEDGER_STREAM (ledger_subject ledger_key) s of
        (Inr message, s) \<Rightarrow> (Inr (ledger_payload_matches ledger_key (msg_data message)), s)
      | (Inl err, s) \<Rightarrow> (if is_not_found err then (Inr False, s) else (Inl (Io err), s)))"

definition ledger_ensure_stream :: "'s NatsCore \<Rightarrow> 's \<Rightarrow> ('s, unit) outcome" where
  "ledger_ensure_stream core s =
     (case js_stream_info (core_context core) LEDGER_STREAM s of
        (Inr info, s) \<Rightarrow> ensure_duplicate_window core (sc_name (si_config info)) s
      | (Inl err, s) \<Rightarrow>
          (if is_not_found err
           then add_stream_or_widen core LEDGER_STREAM [LEDGER_SUBJECT_PREFIX @ ''.>''] s
           else (Inl (Io err), s)))"

definition publish_options :: "'s NatsCore \<Rightarrow> string option \<Rightarrow> string \<Rightarrow> u64 option \<Rightarrow> PublishOptions" where
  "publish_options core msg_id stream last_sequence =
     \<lparr>po_timeout = Some (nc_timeout (core_config core)), po_id = msg_id, po_expected_stream = Some stream,
      po_expected_last_subject_sequence = last_sequence\<rparr>"

definition record_applied :: "'s NatsCore \<Rightarrow> string \<Rightarrow> 's \<Rightarrow> ('s, unit) outcome" where
  "record_applied core ledger_key s =
     obind (ledger_ensure_stream core s) (\<lambda>_ s.
       let publish_id = ''writeback-applied:'' @ nats_hex_encode (as_bytes ledger_key) in
         obind (retry_io core (js_publish (core_context core) (ledger_subject ledger_key) None
                  (as_bytes ledger_key) (publish_options core (Some publish_id) LEDGER_STREAM None)) s) (\<lambda>_ s.
           (Inr (), s)))"

end
