(* ===== verification/Nats_Helpers.thy ===== *)
theory Nats_Helpers
  imports Nats_Core Memory_Storage
begin

text \<open>
  The helper functions of \<open>storage/nats/mod.rs\<close>: directory listings out of keys, the conversion of
  JetStream's timestamps and the matching of subjects against a stream's subject patterns, with the proof that
  the listings are the in-memory backend's and that matching is that of NATS wildcards.
\<close>

section \<open>Directory listings\<close>

definition nats_merge_child_entry :: "DirectoryEntry list \<Rightarrow> string \<Rightarrow> EntryKind \<Rightarrow> DirectoryEntry list" where
  "nats_merge_child_entry entries name kind =
     (if list_ex (\<lambda>e. de_name e = name) entries then
        update_first (\<lambda>e. de_name e = name)
          (\<lambda>e. if kind = EntryKind.File then e\<lparr>de_kind := EntryKind.File\<rparr> else e) entries
      else entries @ [\<lparr>de_name = name, de_kind = kind\<rparr>])"

definition nats_add_child :: "string \<Rightarrow> DirectoryEntry list \<Rightarrow> string \<Rightarrow> DirectoryEntry list" where
  "nats_add_child prefix_with_slash entries key =
     (if \<not> starts_with prefix_with_slash key then entries
      else (let rest = drop (length prefix_with_slash) key in
              if rest = [] then entries
              else (case split_once (CHR ''/'') rest of
                      Some (dir, _) \<Rightarrow> nats_merge_child_entry entries dir EntryKind.Directory
                    | None \<Rightarrow> nats_merge_child_entry entries rest EntryKind.File)))"

definition nats_immediate_children :: "string list \<Rightarrow> string \<Rightarrow> DirectoryEntry list" where
  "nats_immediate_children keys prfx =
     (let normalized_prefix = trim_matches (CHR ''/'') prfx;
          prefix_with_slash = (if normalized_prefix = [] then [] else normalized_prefix @ ''/'') in
        sort_key de_name (foldl (nats_add_child prefix_with_slash) [] keys))"

definition nats_immediate_history_children :: "string list \<Rightarrow> string \<Rightarrow> DirectoryEntry list" where
  "nats_immediate_history_children keys prfx =
     map (\<lambda>entry. \<lparr>de_name = de_name entry, de_kind = EntryKind.Directory\<rparr>) (nats_immediate_children keys prfx)"

section \<open>Timestamps\<close>

definition system_time_from_datetime :: "DateTime \<Rightarrow> TransportError + SystemTime" where
  "system_time_from_datetime datetime =
     (if 0 \<le> datetime \<and> datetime < 2 ^ 64 then Inr datetime
      else Inl (Invalid ''JetStream timestamp is outside SystemTime range''))"

section \<open>Subject patterns\<close>

definition subject_matches :: "string \<Rightarrow> string \<Rightarrow> bool" where
  "subject_matches pattern subject =
     (if pattern = subject \<or> pattern = ''>'' then True
      else (case strip_suffix ''.>'' pattern of
              Some prfx \<Rightarrow> starts_with (prfx @ ''.'') subject
            | None \<Rightarrow>
                (let pattern_parts = split_on (CHR ''.'') pattern;
                     subject_parts = split_on (CHR ''.'') subject in
                   length pattern_parts = length subject_parts
                   \<and> list_all (\<lambda>(want, got). want = ''*'' \<or> want = got) (zip pattern_parts subject_parts))))"

section \<open>The listings are those of the in-memory backend\<close>

lemma EntryKind_not_Directory: "k \<noteq> EntryKind.Directory \<longleftrightarrow> k = EntryKind.File"
  by (cases k) auto

lemma update_first_cong:
  "(\<And>x. x \<in> set xs \<Longrightarrow> f x = g x) \<Longrightarrow> update_first P f xs = update_first P g xs"
  by (induction xs) auto

lemma nats_merge_child_entry_eq: "nats_merge_child_entry = merge_child_entry"
proof (intro ext)
  fix entries :: "DirectoryEntry list" and name kind
  have "e\<lparr>de_kind := EntryKind.File\<rparr> = e" if "de_kind e = EntryKind.File" for e :: DirectoryEntry
    using that by (cases e) simp
  then have "update_first P (\<lambda>e. if kind = EntryKind.File then e\<lparr>de_kind := EntryKind.File\<rparr> else e) entries =
      update_first P (\<lambda>e. if de_kind e = EntryKind.Directory \<and> kind = EntryKind.File
        then e\<lparr>de_kind := EntryKind.File\<rparr> else e) entries" for P
    by (intro update_first_cong) (use EntryKind_not_Directory in auto)
  then show "nats_merge_child_entry entries name kind = merge_child_entry entries name kind"
    by (simp add: nats_merge_child_entry_def merge_child_entry_def)
qed

lemma nats_add_child_eq:
  "nats_add_child (case prefix_with_sep of Some p \<Rightarrow> p | None \<Rightarrow> []) = add_child prefix_with_sep"
  by (intro ext) (auto simp: nats_add_child_def add_child_def strip_prefix_def nats_merge_child_entry_eq
    split: option.splits)

lemma nats_immediate_children_eq: "nats_immediate_children keys prfx = immediate_children keys prfx"
proof (cases "trim_matches (CHR ''/'') prfx = []")
  case True
  then show ?thesis
    using nats_add_child_eq [of None] by (simp add: nats_immediate_children_def immediate_children_def)
next
  case False
  then show ?thesis
    using nats_add_child_eq [of "Some (trim_matches (CHR ''/'') prfx @ ''/'')"]
    by (simp add: nats_immediate_children_def immediate_children_def)
qed

lemma nats_immediate_history_children_eq:
  "nats_immediate_history_children keys prfx = immediate_history_children keys prfx"
proof -
  have "\<lparr>de_name = de_name e, de_kind = EntryKind.Directory\<rparr> =
      (if de_kind e = EntryKind.File then e\<lparr>de_kind := EntryKind.Directory\<rparr> else e)" for e :: DirectoryEntry
    by (cases e; cases "de_kind e") auto
  then show ?thesis
    by (simp add: nats_immediate_history_children_def immediate_history_children_def
      nats_immediate_children_eq)
qed

section \<open>NATS wildcards\<close>

text \<open>The meaning of a pattern, token by token: \<open>*\<close> is any one token, a final \<open>>\<close> is one or more.\<close>

fun token_matches :: "string list \<Rightarrow> string list \<Rightarrow> bool" where
  "token_matches [] ts = (ts = [])"
| "token_matches (p # ps) [] = False"
| "token_matches (p # ps) (t # ts) =
     ((ps = [] \<and> p = ''>'') \<or> (p = ''*'' \<or> p = t) \<and> token_matches ps ts)"

definition well_formed_subject :: "string \<Rightarrow> bool" where
  "well_formed_subject s \<longleftrightarrow> [] \<notin> set (split_on (CHR ''.'') s)"

lemma token_matches_self: "token_matches ts ts"
  by (induction ts) auto

lemma token_matches_exact:
  "ps = [] \<or> last ps \<noteq> ''>'' \<Longrightarrow>
    token_matches ps ts \<longleftrightarrow>
      length ps = length ts \<and> list_all (\<lambda>(want, got). want = ''*'' \<or> want = got) (zip ps ts)"
proof (induction ps ts rule: token_matches.induct)
  case (3 p ps t ts)
  then show ?case by (cases "ps = []") auto
qed auto

lemma token_matches_literal_tail:
  "''*'' \<notin> set ps \<Longrightarrow> token_matches (ps @ [''>'']) ts \<longleftrightarrow> (\<exists>us. ts = ps @ us \<and> us \<noteq> [])"
proof (induction ps arbitrary: ts)
  case Nil
  show ?case by (cases ts) auto
next
  case (Cons p ps)
  then show ?case by (cases ts) auto
qed

lemma split_on_starts_with:
  assumes "well_formed_subject s"
  shows "starts_with (p @ ''.'') s \<longleftrightarrow>
    (\<exists>us. split_on (CHR ''.'') s = split_on (CHR ''.'') p @ us \<and> us \<noteq> [])"
proof
  assume "starts_with (p @ ''.'') s"
  then obtain r where "s = p @ CHR ''.'' # r" by (auto simp: starts_with_iff)
  then show "\<exists>us. split_on (CHR ''.'') s = split_on (CHR ''.'') p @ us \<and> us \<noteq> []"
    by (auto simp: split_on_append)
next
  assume "\<exists>us. split_on (CHR ''.'') s = split_on (CHR ''.'') p @ us \<and> us \<noteq> []"
  then obtain us where us: "split_on (CHR ''.'') s = split_on (CHR ''.'') p @ us" "us \<noteq> []" by blast
  have "s = join_with (CHR ''.'') (split_on (CHR ''.'') s)" by simp
  also have "\<dots> = p @ CHR ''.'' # join_with (CHR ''.'') us" using us by (simp add: join_with_append)
  finally show "starts_with (p @ ''.'') s" unfolding starts_with_iff by auto
qed

lemma last_split_on: "d \<notin> set q \<Longrightarrow> last (split_on d (p @ d # q)) = q"
  by (simp add: split_on_append)

lemma split_on_last_token:
  assumes "last (split_on d s) = t" "tl (split_on d s) \<noteq> []"
  shows "\<exists>p. s = p @ d # t \<and> split_on d p = butlast (split_on d s)"
proof -
  have "split_on d s = butlast (split_on d s) @ [t]" using assms by (metis append_butlast_last_id split_on_not_Nil)
  moreover have bl: "butlast (split_on d s) \<noteq> []" using assms(2) by (cases "split_on d s") (auto split: if_splits)
  ultimately have "s = join_with d (butlast (split_on d s)) @ d # t"
    by (metis join_split join_with.simps(2) join_with_append list.distinct(1))
  moreover have "split_on d (join_with d (butlast (split_on d s))) = butlast (split_on d s)"
    by (rule split_join [OF bl]) (auto dest!: in_set_butlastD split_on_no_delim)
  ultimately show ?thesis by blast
qed

text \<open>C31: A stream's subject pattern whose prefix before a final \<open>.>\<close> has no \<open>*\<close> matches exactly the
  subjects that NATS matches token by token: \<open>*\<close> stands for one token, a final \<open>>\<close> for one or
  more. The subject has no empty token.\<close>

theorem subject_matching_is_by_token:
  assumes "well_formed_subject subject"
    and "\<And>prfx. strip_suffix ''.>'' pattern = Some prfx \<Longrightarrow> ''*'' \<notin> set (split_on (CHR ''.'') prfx)"
  shows "subject_matches pattern subject \<longleftrightarrow>
    token_matches (split_on (CHR ''.'') pattern) (split_on (CHR ''.'') subject)"
proof -
  consider "pattern = subject" | "pattern = ''>''" "pattern \<noteq> subject"
    | prfx where "strip_suffix ''.>'' pattern = Some prfx" "pattern \<noteq> subject" "pattern \<noteq> ''>''"
    | "strip_suffix ''.>'' pattern = None" "pattern \<noteq> subject" "pattern \<noteq> ''>''" by fastforce
  then show ?thesis
  proof cases
    case 1
    then show ?thesis by (simp add: subject_matches_def token_matches_self)
  next
    case 2
    then show ?thesis by (cases "split_on (CHR ''.'') subject") (auto simp: subject_matches_def)
  next
    case 3
    then have "pattern = prfx @ CHR ''.'' # ''>''" by (simp add: strip_suffix_Some_iff)
    then have "split_on (CHR ''.'') pattern = split_on (CHR ''.'') prfx @ [''>'']"
      by (simp add: split_on_append)
    then show ?thesis
      using 3 token_matches_literal_tail [OF assms(2) [OF 3(1)]] split_on_starts_with [OF assms(1)]
      by (simp add: subject_matches_def)
  next
    case 4
    have "last (split_on (CHR ''.'') pattern) \<noteq> ''>''"
    proof
      assume last: "last (split_on (CHR ''.'') pattern) = ''>''"
      then have "tl (split_on (CHR ''.'') pattern) \<noteq> []"
        using 4(3) join_split [of "CHR ''.''" pattern] by (cases "split_on (CHR ''.'') pattern") auto
      with last obtain p where "pattern = p @ CHR ''.'' # ''>''" using split_on_last_token by metis
      then have "strip_suffix ''.>'' pattern = Some p" by (simp add: strip_suffix_Some_iff)
      with 4(1) show False by simp
    qed
    then show ?thesis using 4 by (simp add: subject_matches_def token_matches_exact Let_def)
  qed
qed

theorem subject_matching_is_by_token_witness:
  "subject_matches ''agents.*.inbox'' ''agents.a.inbox'' = token_matches [''agents'', ''*'', ''inbox''] [''agents'', ''a'', ''inbox'']"
proof -
  have "split_on (CHR ''.'') ''agents.a.inbox'' = [''agents'', ''a'', ''inbox'']"
    "split_on (CHR ''.'') ''agents.*.inbox'' = [''agents'', ''*'', ''inbox'']"
    "strip_suffix ''.>'' ''agents.*.inbox'' = None" by code_simp+
  then show ?thesis
    using subject_matching_is_by_token [of "''agents.a.inbox''" "''agents.*.inbox''"]
    by (simp add: well_formed_subject_def)
qed

text \<open>A wildcard before the final \<open>.>\<close> is compared literally, so the pattern misses subjects that NATS
  stores in the stream.\<close>

lemma star_before_tail_not_matched:
  "token_matches (split_on (CHR ''.'') ''a.*.>'') (split_on (CHR ''.'') ''a.b.c'') \<and> \<not> subject_matches ''a.*.>'' ''a.b.c''"
  by code_simp

end
