(* ===== verification/Nats_Kv.thy ===== *)
theory Nats_Kv
  imports Nats_Helpers
begin

text \<open>
  \<open>storage/nats/kv.rs\<close>: key-value buckets on JetStream. A bucket is the stream \<open>KV_<bucket>\<close>, a key the
  subject \<open>$KV.<bucket>.<key>\<close>. A write-back put is made idempotent by two marker messages in
  reserved keys of the bucket, one before and one after the write, by a header on the write
  itself, and by an entry in the ledger. The JSON coding of a marker is a parameter.
\<close>

definition WRITEBACK_IDEMPOTENCY_HEADER :: string where
  "WRITEBACK_IDEMPOTENCY_HEADER = ''EventFS-Idempotency-Key''"

definition WRITEBACK_MARKER_OPERATION :: string where
  "WRITEBACK_MARKER_OPERATION = ''kv-writeback-marker''"

definition APPLIED_MARKER_OPERATION :: string where
  "APPLIED_MARKER_OPERATION = ''kv-applied-marker''"

definition OPERATION_HEADER :: string where
  "OPERATION_HEADER = ''KV-Operation''"

definition OPERATION_DELETE :: string where
  "OPERATION_DELETE = ''DEL''"

definition OPERATION_PURGE :: string where
  "OPERATION_PURGE = ''PURGE''"

datatype KvDeleteRevision = Deleted | Missing | RevisionChanged

record KvWritebackMarker =
  wm_operation :: string
  wm_idempotency_key :: string
  wm_key :: string

record MarkerSerde =
  marker_to_vec :: "KvWritebackMarker \<Rightarrow> string + bytes"
  marker_from_slice :: "bytes \<Rightarrow> string + KvWritebackMarker"

section \<open>Names, markers and messages\<close>

definition kv_subject_parts :: "string \<Rightarrow> (string \<times> string) option" where
  "kv_subject_parts subject =
     (case strip_prefix ''$KV.'' subject of
        None \<Rightarrow> None
      | Some rest \<Rightarrow> split_once (CHR ''.'') rest)"

definition kv_stream_looks_like_bucket :: "StreamInfo \<Rightarrow> string \<Rightarrow> bool" where
  "kv_stream_looks_like_bucket info bucket \<longleftrightarrow>
     1 \<le> sc_max_msgs_per_subject (si_config info)
     \<and> list_ex (\<lambda>subject. subject = ''$KV.'' @ bucket @ ''.>'') (sc_subjects (si_config info))"

definition kv_stream_name :: "string \<Rightarrow> string" where
  "kv_stream_name bucket = ''KV_'' @ bucket"

definition bucket_name_from_stream :: "string \<Rightarrow> string option" where
  "bucket_name_from_stream stream_name = strip_prefix ''KV_'' stream_name"

definition kv_subject :: "string \<Rightarrow> string \<Rightarrow> string" where
  "kv_subject bucket key = ''$KV.'' @ bucket @ ''.'' @ key"

definition writeback_marker_key :: "string \<Rightarrow> string" where
  "writeback_marker_key idempotency_key =
     KV_WRITEBACK_MARKER_KEY_PREFIX @ ''.'' @ nats_hex_encode (as_bytes idempotency_key)"

definition writeback_marker_subject :: "string \<Rightarrow> string \<Rightarrow> string" where
  "writeback_marker_subject bucket idempotency_key = kv_subject bucket (writeback_marker_key idempotency_key)"

definition applied_marker_key :: "string \<Rightarrow> string" where
  "applied_marker_key idempotency_key =
     KV_APPLIED_MARKER_KEY_PREFIX @ ''.'' @ nats_hex_encode (as_bytes idempotency_key)"

definition applied_marker_subject :: "string \<Rightarrow> string \<Rightarrow> string" where
  "applied_marker_subject bucket idempotency_key = kv_subject bucket (applied_marker_key idempotency_key)"

definition is_writeback_marker_key :: "string \<Rightarrow> bool" where
  "is_writeback_marker_key key = is_reserved_kv_key key"

definition marker_payload :: "MarkerSerde \<Rightarrow> string \<Rightarrow> string \<Rightarrow> string \<Rightarrow> TransportError + bytes" where
  "marker_payload serde operation key idempotency_key =
     map_err Json_Error (marker_to_vec serde
       \<lparr>wm_operation = operation, wm_idempotency_key = idempotency_key, wm_key = key\<rparr>)"

definition marker_matches :: "MarkerSerde \<Rightarrow> bytes \<Rightarrow> string \<Rightarrow> string \<Rightarrow> string \<Rightarrow> bool" where
  "marker_matches serde payload operation key idempotency_key =
     (case marker_from_slice serde payload of
        Inl _ \<Rightarrow> False
      | Inr marker \<Rightarrow>
          wm_operation marker = operation \<and> wm_key marker = key \<and> wm_idempotency_key marker = idempotency_key)"

definition header_get :: "HeaderMap option \<Rightarrow> string \<Rightarrow> string option" where
  "header_get headers name = Option.bind headers (\<lambda>headers. map_of headers name)"

definition message_is_put :: "HeaderMap option \<Rightarrow> bool" where
  "message_is_put headers =
     (case header_get headers OPERATION_HEADER of
        None \<Rightarrow> True
      | Some operation \<Rightarrow> \<not> (operation = OPERATION_DELETE \<or> operation = OPERATION_PURGE))"

definition headers_contain_idempotency_key :: "HeaderMap option \<Rightarrow> string \<Rightarrow> bool" where
  "headers_contain_idempotency_key headers idempotency_key =
     (case header_get headers WRITEBACK_IDEMPOTENCY_HEADER of
        Some v \<Rightarrow> v = idempotency_key
      | None \<Rightarrow> False)"

definition kv_writeback_ledger_key :: "string \<Rightarrow> string \<Rightarrow> string \<Rightarrow> string" where
  "kv_writeback_ledger_key bucket key idempotency_key = scoped_key ''kv'' [bucket, key, idempotency_key]"

definition message_to_key_revision :: "Message \<Rightarrow> KeyRevision option" where
  "message_to_key_revision message =
     (case m_info message of
        None \<Rightarrow> None
      | Some info \<Rightarrow>
          (case system_time_from_datetime (ji_published info) of
             Inl _ \<Rightarrow> None
           | Inr created \<Rightarrow>
               Some \<lparr>kr_revision = ji_stream_seq info, kr_created = created, kr_bytes = m_data message\<rparr>))"

section \<open>Buckets\<close>

definition nkv_store :: "'s NatsCore \<Rightarrow> string \<Rightarrow> 's \<Rightarrow> ('s, unit) outcome" where
  "nkv_store core bucket s =
     (case js_key_value (core_context core) bucket s of (r, s) \<Rightarrow> (map_err store_lookup_error r, s))"

definition nkv_ensure_bucket :: "'s NatsCore \<Rightarrow> string \<Rightarrow> 's \<Rightarrow> ('s, unit) outcome" where
  "nkv_ensure_bucket core bucket s =
     (case nkv_store core bucket s of
        (Inr _, s) \<Rightarrow> (Inr (), s)
      | (Inl NotFound, s) \<Rightarrow>
          (case retry_io core (js_create_key_value (core_context core)
                  \<lparr>kc_bucket = bucket, kc_history = nc_kv_history (core_config core),
                   kc_storage = StorageFile\<rparr>) s of
             (Inr _, s) \<Rightarrow> (Inr (), s)
           | (Inl err, s) \<Rightarrow> (if is_already_exists err then (Inr (), s) else (Inl err, s)))
      | (Inl err, s) \<Rightarrow> (Inl err, s))"

definition nkv_store_or_create :: "'s NatsCore \<Rightarrow> string \<Rightarrow> 's \<Rightarrow> ('s, unit) outcome" where
  "nkv_store_or_create core bucket s =
     (case nkv_store core bucket s of
        (Inr _, s) \<Rightarrow> (Inr (), s)
      | (Inl NotFound, s) \<Rightarrow>
          obind (nkv_ensure_bucket core bucket s) (\<lambda>_ s. from_io (js_key_value (core_context core) bucket s))
      | (Inl err, s) \<Rightarrow> (Inl err, s))"

fun list_bucket_loop ::
  "'s NatsCore \<Rightarrow> (string \<Rightarrow> string option) \<Rightarrow> (StreamInfo \<Rightarrow> string \<Rightarrow> bool)
    \<Rightarrow> (IoError + string) list \<Rightarrow> 's \<Rightarrow> ('s, string list) outcome" where
  "list_bucket_loop core name_of looks_like [] s = (Inr [], s)"
| "list_bucket_loop core name_of looks_like (Inl err # names) s = (Inl (Io err), s)"
| "list_bucket_loop core name_of looks_like (Inr stream_name # names) s =
     (case name_of stream_name of
        None \<Rightarrow> list_bucket_loop core name_of looks_like names s
      | Some bucket \<Rightarrow>
          (case stream_info core stream_name s of
             (Inr info, s) \<Rightarrow>
               (if looks_like info bucket then
                  obind (list_bucket_loop core name_of looks_like names s) (\<lambda>buckets s. (Inr (bucket # buckets), s))
                else list_bucket_loop core name_of looks_like names s)
           | (Inl NotFound, s) \<Rightarrow> list_bucket_loop core name_of looks_like names s
           | (Inl err, s) \<Rightarrow> (Inl err, s)))"

definition nkv_list_buckets :: "'s NatsCore \<Rightarrow> 's \<Rightarrow> ('s, string list) outcome" where
  "nkv_list_buckets core s =
     (case js_stream_names (core_context core) s of
        (names, s) \<Rightarrow> list_bucket_loop core bucket_name_from_stream kv_stream_looks_like_bucket names s)"

section \<open>Reading\<close>

definition nkv_list_prefix ::
  "'s NatsCore \<Rightarrow> string \<Rightarrow> string \<Rightarrow> 's \<Rightarrow> ('s, DirectoryEntry list) outcome" where
  "nkv_list_prefix core bucket prfx s =
     obind (nkv_store core bucket s) (\<lambda>_ s.
       obind (from_io (kvs_keys (core_context core) bucket s)) (\<lambda>keys s.
         (Inr (nats_immediate_children (filter (\<lambda>key. \<not> is_writeback_marker_key key) keys) prfx), s)))"

definition nkv_get :: "'s NatsCore \<Rightarrow> string \<Rightarrow> string \<Rightarrow> 's \<Rightarrow> ('s, KeyRevision option) outcome" where
  "nkv_get core bucket key s =
     (case nkv_store core bucket s of
        (Inl NotFound, s) \<Rightarrow> (Inr None, s)
      | (Inl err, s) \<Rightarrow> (Inl err, s)
      | (Inr _, s) \<Rightarrow>
          obind (from_io (kvs_entry (core_context core) bucket key s)) (\<lambda>found s.
            case found of
              None \<Rightarrow> (Inr None, s)
            | Some entry \<Rightarrow>
                (if ke_operation entry = KvPut then
                   (map_ok (\<lambda>created. Some \<lparr>kr_revision = ke_revision entry, kr_created = created,
                                             kr_bytes = ke_value entry\<rparr>)
                      (system_time_from_datetime (ke_created entry)), s)
                 else (Inr None, s))))"

definition message_complete :: "Message \<Rightarrow> bool" where
  "message_complete message = (case m_info message of Some info \<Rightarrow> ji_pending info = 0 | None \<Rightarrow> False)"

fun history_loop :: "IoError \<Rightarrow> Message list \<Rightarrow> TransportError + KeyRevision list" where
  "history_loop err [] = (if is_timeout err then Inr [] else Inl (Io err))"
| "history_loop err (message # rest) =
     (let revisions = (if message_is_put (m_headers message)
                       then (case message_to_key_revision message of Some r \<Rightarrow> [r] | None \<Rightarrow> []) else []) in
        if message_complete message then Inr revisions
        else map_ok (\<lambda>more. revisions @ more) (history_loop err rest))"

definition nkv_history :: "'s NatsCore \<Rightarrow> string \<Rightarrow> string \<Rightarrow> 's \<Rightarrow> ('s, KeyRevision list) outcome" where
  "nkv_history core bucket key s =
     obind (nkv_store core bucket s) (\<lambda>_ s.
       let stream = kv_stream_name bucket; subject = kv_subject bucket key in
         case js_get_last_message (core_context core) stream subject s of
           (Inl err, s) \<Rightarrow> (if is_not_found err then (Inr [], s) else (Inl (Io err), s))
         | (Inr _, s) \<Rightarrow>
             obind (from_io (js_subscribe (core_context core) subject
                      \<lparr>so_bind_stream = Some stream, so_ordered = False, so_deliver = DeliverAll\<rparr> s)) (\<lambda>sub s.
               (history_loop (sub_error sub) (sub_messages sub), s)))"

fun history_prefix_loop ::
  "string \<Rightarrow> string list \<Rightarrow> IoError \<Rightarrow> Message list \<Rightarrow> TransportError + string list" where
  "history_prefix_loop bucket keys err [] = (if keys = [] \<and> is_timeout err then Inr keys else Inl (Io err))"
| "history_prefix_loop bucket keys err (message # rest) =
     (let keys = (case kv_subject_parts (m_subject message) of
                    Some (entry_bucket, key) \<Rightarrow>
                      (if entry_bucket = bucket \<and> \<not> is_writeback_marker_key key then keys @ [key] else keys)
                  | None \<Rightarrow> keys) in
        if message_complete message then Inr keys else history_prefix_loop bucket keys err rest)"

definition nkv_list_history_prefix ::
  "'s NatsCore \<Rightarrow> string \<Rightarrow> string \<Rightarrow> 's \<Rightarrow> ('s, DirectoryEntry list) outcome" where
  "nkv_list_history_prefix core bucket prfx s =
     obind (nkv_store core bucket s) (\<lambda>_ s.
       obind (from_io (js_subscribe (core_context core) (''$KV.'' @ bucket @ ''.>'')
                \<lparr>so_bind_stream = Some (kv_stream_name bucket), so_ordered = False,
                 so_deliver = DeliverLastPerSubject\<rparr> s)) (\<lambda>sub s.
         (map_ok (\<lambda>keys. nats_immediate_history_children keys prfx)
            (history_prefix_loop bucket [] (sub_error sub) (sub_messages sub)), s)))"

definition nkv_revision ::
  "'s NatsCore \<Rightarrow> string \<Rightarrow> string \<Rightarrow> u64 \<Rightarrow> 's \<Rightarrow> ('s, KeyRevision option) outcome" where
  "nkv_revision core bucket key revision s =
     obind (nkv_history core bucket key s) (\<lambda>revisions s.
       (Inr (find (\<lambda>entry. kr_revision entry = revision) revisions), s))"

text \<open>One \<open>next_timeout\<close> with a caller's timeout; only the error's kind is looked at.\<close>

definition watch_next :: "(Message \<Rightarrow> 'a option) \<Rightarrow> Subscription \<Rightarrow> TransportError + 'a option" where
  "watch_next view sub =
     (case sub_messages sub of
        message # _ \<Rightarrow> Inr (view message)
      | [] \<Rightarrow> (if io_kind (sub_error sub) = KindTimedOut then Inr None else Inl (Io (sub_error sub))))"

definition nkv_watch_once :: "'s NatsCore \<Rightarrow> string \<Rightarrow> string \<Rightarrow> 's \<Rightarrow> ('s, KeyRevision option) outcome" where
  "nkv_watch_once core bucket key s =
     obind (nkv_ensure_bucket core bucket s) (\<lambda>_ s.
       obind (from_io (js_subscribe (core_context core) (''$KV.'' @ bucket @ ''.'' @ key)
                \<lparr>so_bind_stream = Some (''KV_'' @ bucket), so_ordered = False, so_deliver = DeliverNew\<rparr> s)) (\<lambda>sub s.
         (watch_next message_to_key_revision sub, s)))"

end
