(* ===== verification/Nats_Kv_Write.thy ===== *)
theory Nats_Kv_Write
  imports Nats_Kv
begin

text \<open>
  \<open>storage/nats/kv.rs\<close>, the operations that change a bucket: plain puts and deletes, the delete
  conditional on a revision, and the idempotent put with its markers and its ledger entry.
\<close>

section \<open>Plain writes\<close>

definition nkv_put :: "'s NatsCore \<Rightarrow> string \<Rightarrow> string \<Rightarrow> bytes \<Rightarrow> 's \<Rightarrow> ('s, u64) outcome" where
  "nkv_put core bucket key bs s =
     obind (nkv_store_or_create core bucket s) (\<lambda>_ s.
       retry_io core (kvs_put (core_context core) bucket key bs) s)"

definition nkv_delete_revision_once ::
  "'s NatsCore \<Rightarrow> string \<Rightarrow> string \<Rightarrow> u64 \<Rightarrow> 's \<Rightarrow> ('s, KvDeleteRevision) outcome" where
  "nkv_delete_revision_once core bucket key expected_revision s =
     (case retry_io core (js_publish (core_context core) (kv_subject bucket key)
             (Some [(OPERATION_HEADER, OPERATION_DELETE)]) []
             (publish_options core None (kv_stream_name bucket) (Some expected_revision))) s of
        (Inr _, s) \<Rightarrow> (Inr Deleted, s)
      | (Inl err, s) \<Rightarrow>
          obind (nkv_get core bucket key s) (\<lambda>found s.
            case found of
              None \<Rightarrow> (Inr Missing, s)
            | Some entry \<Rightarrow>
                (if kr_revision entry \<noteq> expected_revision then (Inr RevisionChanged, s) else (Inl err, s))))"

text \<open>The \<open>for\<close> loop of \<open>retry_plain_kv_delete\<close>: \<open>left\<close> attempts of \<open>attempts\<close> are left. A
  \<open>usize\<close> has 64 bits.\<close>

fun kv_delete_loop ::
  "nat \<Rightarrow> ('s \<Rightarrow> ('s, u64 option) outcome) \<Rightarrow> (u64 \<Rightarrow> 's \<Rightarrow> ('s, KvDeleteRevision) outcome)
    \<Rightarrow> nat \<Rightarrow> 's \<Rightarrow> ('s, unit) outcome" where
  "kv_delete_loop attempts current_revision delete_revision 0 s =
     (Inl (Invalid ''KV delete conflict with no attempts configured''), s)"
| "kv_delete_loop attempts current_revision delete_revision (Suc left) s =
     obind (current_revision s) (\<lambda>current s.
       case current of
         None \<Rightarrow> (Inl NotFound, s)
       | Some revision \<Rightarrow>
           obind (delete_revision revision s) (\<lambda>result s.
             case result of
               Deleted \<Rightarrow> (Inr (), s)
             | Missing \<Rightarrow> (Inl NotFound, s)
             | RevisionChanged \<Rightarrow>
                 (if 0 < left then kv_delete_loop attempts current_revision delete_revision left s
                  else (Inl (Invalid (''KV delete conflict after '' @ show_nat attempts @ '' attempts'')), s))))"

definition retry_plain_kv_delete ::
  "nat \<Rightarrow> ('s \<Rightarrow> ('s, u64 option) outcome) \<Rightarrow> (u64 \<Rightarrow> 's \<Rightarrow> ('s, KvDeleteRevision) outcome)
    \<Rightarrow> 's \<Rightarrow> ('s, unit) outcome" where
  "retry_plain_kv_delete retries current_revision delete_revision s =
     (let attempts = nat (min (int retries + 1) (2 ^ 64 - 1)) in
        kv_delete_loop attempts current_revision delete_revision attempts s)"

definition nkv_delete :: "'s NatsCore \<Rightarrow> string \<Rightarrow> string \<Rightarrow> 's \<Rightarrow> ('s, unit) outcome" where
  "nkv_delete core bucket key s =
     retry_plain_kv_delete (nc_retries (core_config core))
       (\<lambda>s. obind (nkv_get core bucket key s) (\<lambda>found s. (Inr (map_option kr_revision found), s)))
       (nkv_delete_revision_once core bucket key) s"

definition nkv_delete_if_revision ::
  "'s NatsCore \<Rightarrow> string \<Rightarrow> string \<Rightarrow> u64 \<Rightarrow> 's \<Rightarrow> ('s, unit) outcome" where
  "nkv_delete_if_revision core bucket key expected_revision s =
     obind (nkv_get core bucket key s) (\<lambda>found s.
       case found of
         None \<Rightarrow> (Inr (), s)
       | Some entry \<Rightarrow>
           (if kr_revision entry \<noteq> expected_revision then (Inr (), s)
            else obind (nkv_delete_revision_once core bucket key expected_revision s) (\<lambda>_ s. (Inr (), s))))"

definition nkv_delete_if_revision_applied ::
  "'s NatsCore \<Rightarrow> string \<Rightarrow> string \<Rightarrow> u64 \<Rightarrow> 's \<Rightarrow> ('s, bool) outcome" where
  "nkv_delete_if_revision_applied core bucket key expected_revision s =
     obind (nkv_get core bucket key s) (\<lambda>found s.
       (Inr (case found of None \<Rightarrow> True | Some entry \<Rightarrow> kr_revision entry \<noteq> expected_revision), s))"

section \<open>Markers\<close>

text \<open>The sequence of a marker: the last message on its subject, when that is this marker.\<close>

definition marker_sequence ::
  "'s NatsCore \<Rightarrow> string \<Rightarrow> string \<Rightarrow> (bytes \<Rightarrow> bool) \<Rightarrow> 's \<Rightarrow> ('s, u64 option) outcome" where
  "marker_sequence core stream subject matches s =
     (case js_get_last_message (core_context core) stream subject s of
        (Inr message, s) \<Rightarrow> (Inr (if matches (msg_data message) then Some (msg_sequence message) else None), s)
      | (Inl err, s) \<Rightarrow> (if is_not_found err then (Inr None, s) else (Inl (Io err), s)))"

definition apply_marker_sequence ::
  "'s NatsCore \<Rightarrow> MarkerSerde \<Rightarrow> string \<Rightarrow> string \<Rightarrow> string \<Rightarrow> 's \<Rightarrow> ('s, u64 option) outcome" where
  "apply_marker_sequence core serde bucket key idempotency_key =
     marker_sequence core (kv_stream_name bucket) (writeback_marker_subject bucket idempotency_key)
       (\<lambda>payload. marker_matches serde payload WRITEBACK_MARKER_OPERATION key idempotency_key)"

definition applied_marker_sequence ::
  "'s NatsCore \<Rightarrow> MarkerSerde \<Rightarrow> string \<Rightarrow> string \<Rightarrow> string \<Rightarrow> 's \<Rightarrow> ('s, u64 option) outcome" where
  "applied_marker_sequence core serde bucket key idempotency_key =
     marker_sequence core (kv_stream_name bucket) (applied_marker_subject bucket idempotency_key)
       (\<lambda>payload. marker_matches serde payload APPLIED_MARKER_OPERATION key idempotency_key)"

text \<open>What \<open>ensure_apply_marker\<close> and \<open>record_applied_marker\<close> do when the marker is not there.\<close>

definition publish_marker ::
  "'s NatsCore \<Rightarrow> MarkerSerde \<Rightarrow> string \<Rightarrow> string \<Rightarrow> string \<Rightarrow> string \<Rightarrow> string \<Rightarrow> string \<Rightarrow> 's
    \<Rightarrow> ('s, u64) outcome" where
  "publish_marker core serde bucket subject operation msg_id key idempotency_key s =
     obind (nkv_ensure_bucket core bucket s) (\<lambda>_ s.
       obind (ensure_duplicate_window core (kv_stream_name bucket) s) (\<lambda>_ s.
         case marker_payload serde operation key idempotency_key of
           Inl err \<Rightarrow> (Inl err, s)
         | Inr payload \<Rightarrow>
             retry_io core (js_publish (core_context core) subject None payload
               (publish_options core (Some msg_id) (kv_stream_name bucket) None)) s))"

definition ensure_apply_marker ::
  "'s NatsCore \<Rightarrow> MarkerSerde \<Rightarrow> string \<Rightarrow> string \<Rightarrow> string \<Rightarrow> 's \<Rightarrow> ('s, u64) outcome" where
  "ensure_apply_marker core serde bucket key idempotency_key s =
     obind (apply_marker_sequence core serde bucket key idempotency_key s) (\<lambda>found s.
       case found of
         Some sequence \<Rightarrow> (Inr sequence, s)
       | None \<Rightarrow>
           publish_marker core serde bucket (writeback_marker_subject bucket idempotency_key)
             WRITEBACK_MARKER_OPERATION (''writeback-marker:'' @ idempotency_key) key idempotency_key s)"

definition record_applied_marker ::
  "'s NatsCore \<Rightarrow> MarkerSerde \<Rightarrow> string \<Rightarrow> string \<Rightarrow> string \<Rightarrow> 's \<Rightarrow> ('s, u64) outcome" where
  "record_applied_marker core serde bucket key idempotency_key s =
     obind (applied_marker_sequence core serde bucket key idempotency_key s) (\<lambda>found s.
       case found of
         Some sequence \<Rightarrow> (Inr sequence, s)
       | None \<Rightarrow>
           publish_marker core serde bucket (applied_marker_subject bucket idempotency_key)
             APPLIED_MARKER_OPERATION (''writeback-applied-marker:'' @ idempotency_key) key idempotency_key s)"

section \<open>Was the write applied?\<close>

definition latest_applied_revision ::
  "'s NatsCore \<Rightarrow> string \<Rightarrow> string \<Rightarrow> string \<Rightarrow> 's \<Rightarrow> ('s, u64 option) outcome" where
  "latest_applied_revision core bucket key idempotency_key s =
     (case js_get_last_message (core_context core) (kv_stream_name bucket) (kv_subject bucket key) s of
        (Inr message, s) \<Rightarrow>
          (Inr (if headers_contain_idempotency_key (msg_headers message) idempotency_key
                then Some (msg_sequence message) else None), s)
      | (Inl err, s) \<Rightarrow> (if is_not_found err then (Inr None, s) else (Inl (Io err), s)))"

definition target_sequence_after_apply_marker ::
  "'s NatsCore \<Rightarrow> MarkerSerde \<Rightarrow> string \<Rightarrow> string \<Rightarrow> string \<Rightarrow> 's \<Rightarrow> ('s, u64 option) outcome" where
  "target_sequence_after_apply_marker core serde bucket key idempotency_key s =
     obind (apply_marker_sequence core serde bucket key idempotency_key s) (\<lambda>found s.
       case found of
         None \<Rightarrow> (Inr None, s)
       | Some marker_seq \<Rightarrow>
           (case js_get_last_message (core_context core) (kv_stream_name bucket) (kv_subject bucket key) s of
              (Inr message, s) \<Rightarrow>
                (Inr (if marker_seq < msg_sequence message then Some (msg_sequence message) else None), s)
            | (Inl err, s) \<Rightarrow> (if is_not_found err then (Inr None, s) else (Inl (Io err), s))))"

text \<open>\<open>if let Some(x) = probe? { ledger.record_applied(key)?; return Ok(Some(x)) }\<close>, then the rest.\<close>

definition applied_or_else ::
  "'s NatsCore \<Rightarrow> string \<Rightarrow> ('s, 'a option) outcome \<Rightarrow> ('s \<Rightarrow> ('s, 'a option) outcome)
    \<Rightarrow> ('s, 'a option) outcome" where
  "applied_or_else core ledger_key probe rest =
     obind probe (\<lambda>found s.
       case found of
         Some x \<Rightarrow> obind (record_applied core ledger_key s) (\<lambda>_ s. (Inr (Some x), s))
       | None \<Rightarrow> rest s)"

definition idempotency_scan :: "string \<Rightarrow> Message \<Rightarrow> TransportError + u64 option" where
  "idempotency_scan idempotency_key message =
     (if \<not> headers_contain_idempotency_key (m_headers message) idempotency_key then Inr None
      else map_ok Some (message_stream_sequence message))"

definition any_applied_revision ::
  "'s NatsCore \<Rightarrow> MarkerSerde \<Rightarrow> string \<Rightarrow> string \<Rightarrow> string \<Rightarrow> 's \<Rightarrow> ('s, u64 option) outcome" where
  "any_applied_revision core serde bucket key idempotency_key s =
     (let ledger_key = kv_writeback_ledger_key bucket key idempotency_key in
        obind (has_applied core ledger_key s) (\<lambda>applied s.
          if applied then (Inr (Some 0), s)
          else
            applied_or_else core ledger_key (applied_marker_sequence core serde bucket key idempotency_key s) (\<lambda>s.
            applied_or_else core ledger_key (latest_applied_revision core bucket key idempotency_key s) (\<lambda>s.
            applied_or_else core ledger_key (target_sequence_after_apply_marker core serde bucket key idempotency_key s) (\<lambda>s.
            applied_or_else core ledger_key
              (scan_subject_history_until core (kv_stream_name bucket) (kv_subject bucket key)
                 (idempotency_scan idempotency_key) s)
              (\<lambda>s. (Inr None, s)))))))"

section \<open>The idempotent put\<close>

definition nkv_put_idempotent ::
  "'s NatsCore \<Rightarrow> MarkerSerde \<Rightarrow> string \<Rightarrow> string \<Rightarrow> bytes \<Rightarrow> string \<Rightarrow> 's \<Rightarrow> ('s, u64) outcome" where
  "nkv_put_idempotent core serde bucket key bs idempotency_key s =
     (let ledger_key = kv_writeback_ledger_key bucket key idempotency_key; stream = kv_stream_name bucket in
        obind (any_applied_revision core serde bucket key idempotency_key s) (\<lambda>applied s.
          case applied of
            Some revision \<Rightarrow> (Inr revision, s)
          | None \<Rightarrow>
              obind (nkv_ensure_bucket core bucket s) (\<lambda>_ s.
              obind (ensure_duplicate_window core stream s) (\<lambda>_ s.
              obind (ensure_apply_marker core serde bucket key idempotency_key s) (\<lambda>_ s.
              obind (retry_io core (js_publish (core_context core) (kv_subject bucket key)
                       (Some [(WRITEBACK_IDEMPOTENCY_HEADER, idempotency_key)]) bs
                       (publish_options core (Some idempotency_key) stream None)) s) (\<lambda>ack s.
              obind (record_applied_marker core serde bucket key idempotency_key s) (\<lambda>_ s.
              obind (record_applied core ledger_key s) (\<lambda>_ s.
                (Inr ack, s)))))))))"

definition nkv_put_applied ::
  "'s NatsCore \<Rightarrow> MarkerSerde \<Rightarrow> string \<Rightarrow> string \<Rightarrow> string \<Rightarrow> 's \<Rightarrow> ('s, bool) outcome" where
  "nkv_put_applied core serde bucket key idempotency_key s =
     obind (any_applied_revision core serde bucket key idempotency_key s) (\<lambda>applied s. (Inr (applied \<noteq> None), s))"

end
