(* ===== verification/Nats_Objects.thy ===== *)
theory Nats_Objects
  imports Nats_Kv_Write
begin

text \<open>
  \<open>storage/nats/objects.rs\<close>: object buckets on JetStream. The metadata of an object is a message on
  \<open>$O.<bucket>.M.<name>\<close>, its content is in chunks on \<open>$O.<bucket>.C.<nuid>\<close>, and the marker of
  a write-back put on \<open>$O.<bucket>.W.<key>\<close>. The JSON codings of metadata and markers and the base64
  coding of names are parameters.
\<close>

definition IDEMPOTENCY_DESCRIPTION_PREFIX :: string where
  "IDEMPOTENCY_DESCRIPTION_PREFIX = ''eventfs-idempotency:''"

definition NATS_ROLLUP :: string where
  "NATS_ROLLUP = ''Nats-Rollup''"

definition ROLLUP_SUBJECT :: string where
  "ROLLUP_SUBJECT = ''sub''"

record ObjectWritebackIdentity =
  wi_idempotency_key :: string
  wi_previous_nuid :: "string option"

record ObjectApplyMarker =
  am_sequence :: u64
  am_identity :: ObjectWritebackIdentity

text \<open>\<open>serde_json\<close> on \<open>ObjectInfo\<close> and \<open>ObjectWritebackIdentity\<close> (as text and as bytes), and
  \<open>base64::encode_config(_, URL_SAFE)\<close>.\<close>

record ObjectSerde =
  info_to_vec :: "ObjectInfo \<Rightarrow> string + bytes"
  info_from_slice :: "bytes \<Rightarrow> string + ObjectInfo"
  identity_to_string :: "ObjectWritebackIdentity \<Rightarrow> string + string"
  identity_from_str :: "string \<Rightarrow> string + ObjectWritebackIdentity"
  identity_to_vec :: "ObjectWritebackIdentity \<Rightarrow> string + bytes"
  identity_from_slice :: "bytes \<Rightarrow> string + ObjectWritebackIdentity"
  base64_url :: "string \<Rightarrow> string"

section \<open>Names and identities\<close>

definition object_writeback_identity :: "string \<Rightarrow> string option \<Rightarrow> ObjectWritebackIdentity" where
  "object_writeback_identity idempotency_key previous_nuid =
     \<lparr>wi_idempotency_key = idempotency_key,
      wi_previous_nuid = (case previous_nuid of Some nuid \<Rightarrow> if nuid = [] then None else Some nuid | None \<Rightarrow> None)\<rparr>"

definition object_idempotency_description ::
  "ObjectSerde \<Rightarrow> string \<Rightarrow> string option \<Rightarrow> TransportError + string" where
  "object_idempotency_description serde idempotency_key previous_nuid =
     map_ok (\<lambda>payload. IDEMPOTENCY_DESCRIPTION_PREFIX @ payload)
       (map_err Json_Error (identity_to_string serde (object_writeback_identity idempotency_key previous_nuid)))"

definition object_writeback_identity_from_description ::
  "ObjectSerde \<Rightarrow> string \<Rightarrow> ObjectWritebackIdentity option" where
  "object_writeback_identity_from_description serde description =
     (case strip_prefix IDEMPOTENCY_DESCRIPTION_PREFIX description of
        None \<Rightarrow> None
      | Some payload \<Rightarrow> ok_of (identity_from_str serde payload))"

definition object_stream_name :: "string \<Rightarrow> string" where
  "object_stream_name bucket = ''OBJ_'' @ bucket"

definition object_bucket_name_from_stream :: "string \<Rightarrow> string option" where
  "object_bucket_name_from_stream stream_name = strip_prefix ''OBJ_'' stream_name"

definition object_meta_subject :: "ObjectSerde \<Rightarrow> string \<Rightarrow> string \<Rightarrow> string" where
  "object_meta_subject serde bucket obj = ''$O.'' @ bucket @ ''.M.'' @ base64_url serde obj"

definition object_chunk_subject :: "string \<Rightarrow> string \<Rightarrow> string" where
  "object_chunk_subject bucket nuid = ''$O.'' @ bucket @ ''.C.'' @ nuid"

definition object_stream_looks_like_bucket :: "StreamInfo \<Rightarrow> string \<Rightarrow> bool" where
  "object_stream_looks_like_bucket info bucket \<longleftrightarrow>
     list_ex (\<lambda>subject. subject = ''$O.'' @ bucket @ ''.M.>'') (sc_subjects (si_config info))
     \<and> list_ex (\<lambda>subject. subject = ''$O.'' @ bucket @ ''.C.>'') (sc_subjects (si_config info))"

definition object_writeback_marker_subject :: "string \<Rightarrow> string \<Rightarrow> string" where
  "object_writeback_marker_subject bucket idempotency_key =
     ''$O.'' @ bucket @ ''.W.'' @ nats_hex_encode (as_bytes idempotency_key)"

definition object_writeback_marker_subject_filter :: "string \<Rightarrow> string" where
  "object_writeback_marker_subject_filter bucket = ''$O.'' @ bucket @ ''.W.>''"

definition object_writeback_marker_payload ::
  "ObjectSerde \<Rightarrow> string \<Rightarrow> string option \<Rightarrow> TransportError + bytes" where
  "object_writeback_marker_payload serde idempotency_key previous_nuid =
     map_err Json_Error (identity_to_vec serde (object_writeback_identity idempotency_key previous_nuid))"

definition object_writeback_identity_from_marker ::
  "ObjectSerde \<Rightarrow> bytes \<Rightarrow> string \<Rightarrow> TransportError + ObjectWritebackIdentity" where
  "object_writeback_identity_from_marker serde payload expected_idempotency_key =
     rbind (map_err Json_Error (identity_from_slice serde payload)) (\<lambda>identity.
       if wi_idempotency_key identity = expected_idempotency_key then Inr identity
       else Inl (Invalid (''object writeback marker identity mismatch for '' @ expected_idempotency_key)))"

definition object_put_previous_nuid ::
  "ObjectWritebackIdentity option \<Rightarrow> ObjectApplyMarker option \<Rightarrow> string option" where
  "object_put_previous_nuid identity marker =
     (case (case Option.bind identity wi_previous_nuid of
              Some nuid \<Rightarrow> Some nuid
            | None \<Rightarrow> Option.bind marker (\<lambda>m. wi_previous_nuid (am_identity m))) of
        Some nuid \<Rightarrow> if nuid = [] then None else Some nuid
      | None \<Rightarrow> None)"

definition object_writeback_ledger_key :: "string \<Rightarrow> string \<Rightarrow> string \<Rightarrow> string" where
  "object_writeback_ledger_key bucket obj idempotency_key = scoped_key ''object'' [bucket, obj, idempotency_key]"

section \<open>Buckets\<close>

definition nob_object_store :: "'s NatsCore \<Rightarrow> string \<Rightarrow> 's \<Rightarrow> ('s, unit) outcome" where
  "nob_object_store core bucket s =
     (case js_object_store (core_context core) bucket s of (r, s) \<Rightarrow> (map_err store_lookup_error r, s))"

definition nob_ensure_bucket :: "'s NatsCore \<Rightarrow> string \<Rightarrow> 's \<Rightarrow> ('s, unit) outcome" where
  "nob_ensure_bucket core bucket s =
     (case nob_object_store core bucket s of
        (Inr _, s) \<Rightarrow> (Inr (), s)
      | (Inl NotFound, s) \<Rightarrow>
          (case retry_io core (js_create_object_store (core_context core)
                  \<lparr>oc_bucket = bucket, oc_storage = StorageFile\<rparr>) s of
             (Inr _, s) \<Rightarrow> (Inr (), s)
           | (Inl err, s) \<Rightarrow> (if is_already_exists err then (Inr (), s) else (Inl err, s)))
      | (Inl err, s) \<Rightarrow> (Inl err, s))"

definition object_store_or_create :: "'s NatsCore \<Rightarrow> string \<Rightarrow> 's \<Rightarrow> ('s, unit) outcome" where
  "object_store_or_create core bucket s =
     (case nob_object_store core bucket s of
        (Inr _, s) \<Rightarrow> (Inr (), s)
      | (Inl NotFound, s) \<Rightarrow>
          obind (nob_ensure_bucket core bucket s) (\<lambda>_ s. from_io (js_object_store (core_context core) bucket s))
      | (Inl err, s) \<Rightarrow> (Inl err, s))"

definition nob_list_buckets :: "'s NatsCore \<Rightarrow> 's \<Rightarrow> ('s, string list) outcome" where
  "nob_list_buckets core s =
     (case js_stream_names (core_context core) s of
        (names, s) \<Rightarrow>
          list_bucket_loop core object_bucket_name_from_stream object_stream_looks_like_bucket names s)"

section \<open>Reading\<close>

fun list_object_loop ::
  "ObjectSerde \<Rightarrow> string list \<Rightarrow> IoError \<Rightarrow> Message list \<Rightarrow> TransportError + string list" where
  "list_object_loop serde names err [] = (if names = [] \<and> is_timeout err then Inr names else Inl (Io err))"
| "list_object_loop serde names err (message # rest) =
     rbind (map_err Json_Error (info_from_slice serde (m_data message))) (\<lambda>info.
       let names = (if oi_deleted info then names else names @ [oi_name info]) in
         if message_complete message then Inr names else list_object_loop serde names err rest)"

definition nob_list_prefix ::
  "'s NatsCore \<Rightarrow> ObjectSerde \<Rightarrow> string \<Rightarrow> string \<Rightarrow> 's \<Rightarrow> ('s, DirectoryEntry list) outcome" where
  "nob_list_prefix core serde bucket prfx s =
     obind (nob_object_store core bucket s) (\<lambda>_ s.
       obind (from_io (js_subscribe (core_context core) (''$O.'' @ bucket @ ''.M.>'')
                \<lparr>so_bind_stream = None, so_ordered = True, so_deliver = DeliverLastPerSubject\<rparr> s)) (\<lambda>sub s.
         (map_ok (\<lambda>names. nats_immediate_children names prfx)
            (list_object_loop serde [] (sub_error sub) (sub_messages sub)), s)))"

definition metadata_message ::
  "'s NatsCore \<Rightarrow> ObjectSerde \<Rightarrow> string \<Rightarrow> string \<Rightarrow> 's \<Rightarrow> ('s, (ObjectInfo \<times> u64) option) outcome" where
  "metadata_message core serde bucket obj s =
     (case js_get_last_message (core_context core) (object_stream_name bucket)
             (object_meta_subject serde bucket obj) s of
        (Inr message, s) \<Rightarrow>
          (map_ok (\<lambda>info. Some (info, msg_sequence message))
             (map_err Json_Error (info_from_slice serde (msg_data message))), s)
      | (Inl err, s) \<Rightarrow> (if is_not_found err then (Inr None, s) else (Inl (Io err), s)))"

definition nob_get ::
  "'s NatsCore \<Rightarrow> ObjectSerde \<Rightarrow> string \<Rightarrow> string \<Rightarrow> 's \<Rightarrow> ('s, ObjectVersion option) outcome" where
  "nob_get core serde bucket obj s =
     (case nob_object_store core bucket s of
        (Inl NotFound, s) \<Rightarrow> (Inr None, s)
      | (Inl err, s) \<Rightarrow> (Inl err, s)
      | (Inr _, s) \<Rightarrow>
          (case os_get (core_context core) bucket obj s of
             (Inl err, s) \<Rightarrow> (if is_not_found err then (Inr None, s) else (Inl (Io err), s))
           | (Inr (info, reader), s) \<Rightarrow>
               (if oi_deleted info then (Inr None, s)
                else
                  obind (from_io (os_read_to_end (core_context core) reader s)) (\<lambda>bs s.
                  obind (metadata_message core serde bucket obj s) (\<lambda>latest s.
                    case latest of
                      None \<Rightarrow> (Inr None, s)
                    | Some (latest, sequence) \<Rightarrow>
                        (if \<not> oi_deleted latest \<and> oi_nuid latest = oi_nuid info then
                           (map_ok (\<lambda>modified. Some \<lparr>ov_modified = modified, ov_sequence = sequence,
                                                      ov_nuid = oi_nuid info, ov_bytes = bs\<rparr>)
                              (system_time_from_datetime (oi_modified info)), s)
                         else (Inl (Invalid (''object '' @ bucket @ ''/'' @ obj @ '' changed while reading'')), s)))))))"

definition nob_metadata ::
  "'s NatsCore \<Rightarrow> ObjectSerde \<Rightarrow> string \<Rightarrow> string \<Rightarrow> 's \<Rightarrow> ('s, ObjectMetadata option) outcome" where
  "nob_metadata core serde bucket obj s =
     obind (metadata_message core serde bucket obj s) (\<lambda>found s.
       case found of
         None \<Rightarrow> (Inr None, s)
       | Some (info, sequence) \<Rightarrow>
           (if oi_deleted info then (Inr None, s)
            else (map_ok (\<lambda>modified. Some \<lparr>om_modified = modified, om_size = word_of_nat (oi_size info),
                                            om_sequence = sequence\<rparr>)
                    (system_time_from_datetime (oi_modified info)), s)))"

section \<open>Plain writes\<close>

definition nob_put :: "'s NatsCore \<Rightarrow> string \<Rightarrow> string \<Rightarrow> bytes \<Rightarrow> 's \<Rightarrow> ('s, unit) outcome" where
  "nob_put core bucket obj bs s =
     obind (object_store_or_create core bucket s) (\<lambda>_ s.
       retry_io core (os_put (core_context core) bucket \<lparr>ot_name = obj, ot_description = None\<rparr> bs) s)"

definition nob_delete :: "'s NatsCore \<Rightarrow> string \<Rightarrow> string \<Rightarrow> 's \<Rightarrow> ('s, unit) outcome" where
  "nob_delete core bucket obj s =
     obind (nob_object_store core bucket s) (\<lambda>_ s.
       case os_delete (core_context core) bucket obj s of
         (Inr _, s) \<Rightarrow> (Inr (), s)
       | (Inl err, s) \<Rightarrow> (if is_not_found err then (Inl NotFound, s) else (Inl (Io err), s)))"

section \<open>Chunks and conditional deletion\<close>

definition purge_chunks :: "'s NatsCore \<Rightarrow> string \<Rightarrow> string \<Rightarrow> 's \<Rightarrow> ('s, unit) outcome" where
  "purge_chunks core bucket nuid s =
     (case js_purge_stream_subject (core_context core) (object_stream_name bucket)
             (object_chunk_subject bucket nuid) s of
        (Inr _, s) \<Rightarrow> (Inr (), s)
      | (Inl err, s) \<Rightarrow> (if is_not_found err then (Inr (), s) else (Inl (Io err), s)))"

definition purge_chunks_if_known :: "'s NatsCore \<Rightarrow> string \<Rightarrow> string \<Rightarrow> 's \<Rightarrow> ('s, unit) outcome" where
  "purge_chunks_if_known core bucket nuid s = (if nuid = [] then (Inr (), s) else purge_chunks core bucket nuid s)"

definition delete_superseded ::
  "'s NatsCore \<Rightarrow> ObjectSerde \<Rightarrow> string \<Rightarrow> string \<Rightarrow> u64 \<Rightarrow> string \<Rightarrow> 's \<Rightarrow> ('s, bool) outcome" where
  "delete_superseded core serde bucket obj expected_sequence expected_nuid s =
     obind (metadata_message core serde bucket obj s) (\<lambda>found s.
       case found of
         None \<Rightarrow> obind (purge_chunks_if_known core bucket expected_nuid s) (\<lambda>_ s. (Inr True, s))
       | Some (info, sequence) \<Rightarrow>
           (if oi_deleted info then
              obind (purge_chunks core bucket (if expected_nuid = [] then oi_nuid info else expected_nuid) s) (\<lambda>_ s.
                (Inr True, s))
            else if sequence \<noteq> expected_sequence \<or> expected_nuid \<noteq> [] \<and> oi_nuid info \<noteq> expected_nuid then
              obind (purge_chunks_if_known core bucket expected_nuid s) (\<lambda>_ s. (Inr True, s))
            else (Inr False, s)))"

definition publish_delete ::
  "'s NatsCore \<Rightarrow> ObjectSerde \<Rightarrow> string \<Rightarrow> string \<Rightarrow> u64 \<Rightarrow> ObjectInfo \<Rightarrow> 's \<Rightarrow> ('s, unit) outcome" where
  "publish_delete core serde bucket obj expected_sequence info s =
     (let old_nuid = oi_nuid info; info = info\<lparr>oi_chunks := 0, oi_size := 0, oi_deleted := True\<rparr> in
        case info_to_vec serde info of
          Inl err \<Rightarrow> (Inl (Json_Error err), s)
        | Inr payload \<Rightarrow>
            (case retry_io core (js_publish (core_context core) (object_meta_subject serde bucket obj)
                    (Some [(NATS_ROLLUP, ROLLUP_SUBJECT)]) payload
                    (publish_options core None (object_stream_name bucket) (Some expected_sequence))) s of
               (Inr _, s) \<Rightarrow> purge_chunks core bucket old_nuid s
             | (Inl err, s) \<Rightarrow>
                 obind (delete_superseded core serde bucket obj expected_sequence old_nuid s) (\<lambda>superseded s.
                   if superseded then (Inr (), s) else (Inl err, s))))"

definition nob_delete_if_sequence ::
  "'s NatsCore \<Rightarrow> ObjectSerde \<Rightarrow> string \<Rightarrow> string \<Rightarrow> u64 \<Rightarrow> string \<Rightarrow> 's \<Rightarrow> ('s, unit) outcome" where
  "nob_delete_if_sequence core serde bucket obj expected_sequence expected_nuid s =
     obind (metadata_message core serde bucket obj s) (\<lambda>found s.
       case found of
         None \<Rightarrow> purge_chunks_if_known core bucket expected_nuid s
       | Some (info, current_sequence) \<Rightarrow>
           (if oi_deleted info then
              purge_chunks core bucket (if expected_nuid = [] then oi_nuid info else expected_nuid) s
            else if current_sequence \<noteq> expected_sequence \<or> expected_nuid \<noteq> [] \<and> oi_nuid info \<noteq> expected_nuid then
              purge_chunks_if_known core bucket expected_nuid s
            else publish_delete core serde bucket obj expected_sequence info s))"

definition nob_delete_if_sequence_applied ::
  "'s NatsCore \<Rightarrow> ObjectSerde \<Rightarrow> string \<Rightarrow> string \<Rightarrow> u64 \<Rightarrow> string \<Rightarrow> 's \<Rightarrow> ('s, bool) outcome" where
  "nob_delete_if_sequence_applied core serde bucket obj expected_sequence expected_nuid s =
     delete_superseded core serde bucket obj expected_sequence expected_nuid s"

end
