(* ===== verification/Nats_Objects_Write.thy ===== *)
theory Nats_Objects_Write
  imports Nats_Objects Mount_Paths
begin

text \<open>
  \<open>storage/nats/objects.rs\<close>, the idempotent put. A marker with the identity of the
  object's previous version is published before the put; the put carries the same identity in the
  object's description; the chunks of the version it replaces are purged once the put is known to
  be applied.
\<close>

section \<open>Markers\<close>

definition apply_marker ::
  "'s NatsCore \<Rightarrow> ObjectSerde \<Rightarrow> string \<Rightarrow> string \<Rightarrow> 's \<Rightarrow> ('s, ObjectApplyMarker option) outcome" where
  "apply_marker core serde bucket idempotency_key s =
     (case js_get_last_message (core_context core) (object_stream_name bucket)
             (object_writeback_marker_subject bucket idempotency_key) s of
        (Inr message, s) \<Rightarrow>
          (map_ok (\<lambda>identity. Some \<lparr>am_sequence = msg_sequence message, am_identity = identity\<rparr>)
             (object_writeback_identity_from_marker serde (msg_data message) idempotency_key), s)
      | (Inl err, s) \<Rightarrow> (if is_not_found err then (Inr None, s) else (Inl (Io err), s)))"

definition object_apply_marker_sequence ::
  "'s NatsCore \<Rightarrow> ObjectSerde \<Rightarrow> string \<Rightarrow> string \<Rightarrow> 's \<Rightarrow> ('s, u64 option) outcome" where
  "object_apply_marker_sequence core serde bucket idempotency_key s =
     obind (apply_marker core serde bucket idempotency_key s) (\<lambda>marker s. (Inr (map_option am_sequence marker), s))"

definition object_target_after_apply_marker ::
  "'s NatsCore \<Rightarrow> ObjectSerde \<Rightarrow> string \<Rightarrow> string \<Rightarrow> string \<Rightarrow> 's \<Rightarrow> ('s, ObjectApplyMarker option) outcome" where
  "object_target_after_apply_marker core serde bucket obj idempotency_key s =
     obind (apply_marker core serde bucket idempotency_key s) (\<lambda>found s.
       case found of
         None \<Rightarrow> (Inr None, s)
       | Some marker \<Rightarrow>
           (case js_get_last_message (core_context core) (object_stream_name bucket)
                   (object_meta_subject serde bucket obj) s of
              (Inr message, s) \<Rightarrow> (Inr (if am_sequence marker < msg_sequence message then Some marker else None), s)
            | (Inl err, s) \<Rightarrow> (if is_not_found err then (Inr None, s) else (Inl (Io err), s))))"

definition ensure_marker_subject :: "'s NatsCore \<Rightarrow> string \<Rightarrow> 's \<Rightarrow> ('s, unit) outcome" where
  "ensure_marker_subject core bucket s =
     (let subject = object_writeback_marker_subject_filter bucket in
        obind (stream_info core (object_stream_name bucket) s) (\<lambda>info s.
          if list_ex (\<lambda>candidate. subject_matches candidate subject) (sc_subjects (si_config info))
          then (Inr (), s)
          else obind (from_io (js_update_stream (core_context core)
                        ((si_config info)\<lparr>sc_subjects := sc_subjects (si_config info) @ [subject]\<rparr>) s)) (\<lambda>_ s.
                 (Inr (), s))))"

definition object_ensure_apply_marker ::
  "'s NatsCore \<Rightarrow> ObjectSerde \<Rightarrow> string \<Rightarrow> string \<Rightarrow> string option \<Rightarrow> 's \<Rightarrow> ('s, u64) outcome" where
  "object_ensure_apply_marker core serde bucket idempotency_key previous_nuid s =
     obind (object_apply_marker_sequence core serde bucket idempotency_key s) (\<lambda>found s.
       case found of
         Some sequence \<Rightarrow> (Inr sequence, s)
       | None \<Rightarrow>
           obind (nob_ensure_bucket core bucket s) (\<lambda>_ s.
           obind (ensure_duplicate_window core (object_stream_name bucket) s) (\<lambda>_ s.
           obind (ensure_marker_subject core bucket s) (\<lambda>_ s.
             case object_writeback_marker_payload serde idempotency_key previous_nuid of
               Inl err \<Rightarrow> (Inl err, s)
             | Inr payload \<Rightarrow>
                 retry_io core (js_publish (core_context core)
                   (object_writeback_marker_subject bucket idempotency_key) None payload
                   (publish_options core (Some (''writeback-marker:'' @ idempotency_key))
                      (object_stream_name bucket) None)) s))))"

section \<open>Was the put applied?\<close>

definition object_history_scan ::
  "ObjectSerde \<Rightarrow> string \<Rightarrow> Message \<Rightarrow> TransportError + ObjectWritebackIdentity option" where
  "object_history_scan serde idempotency_key message =
     rbind (map_err Json_Error (info_from_slice serde (m_data message))) (\<lambda>info.
       case Option.bind (oi_description info) (object_writeback_identity_from_description serde) of
         None \<Rightarrow> Inr None
       | Some identity \<Rightarrow>
           Inr (if \<not> oi_deleted info \<and> wi_idempotency_key identity = idempotency_key then Some identity else None))"

definition history_applied_identity ::
  "'s NatsCore \<Rightarrow> ObjectSerde \<Rightarrow> string \<Rightarrow> string \<Rightarrow> string \<Rightarrow> 's
    \<Rightarrow> ('s, ObjectWritebackIdentity option) outcome" where
  "history_applied_identity core serde bucket obj idempotency_key s =
     scan_subject_history_until core (object_stream_name bucket) (object_meta_subject serde bucket obj)
       (object_history_scan serde idempotency_key) s"

text \<open>What the object itself says: the identity in its description, when the object exists, is not
  deleted and was written under this key.\<close>

definition live_identity ::
  "'s NatsCore \<Rightarrow> ObjectSerde \<Rightarrow> string \<Rightarrow> string \<Rightarrow> string \<Rightarrow> 's
    \<Rightarrow> ('s, ObjectWritebackIdentity option) outcome" where
  "live_identity core serde bucket obj idempotency_key s =
     (case nob_object_store core bucket s of
        (Inl NotFound, s) \<Rightarrow> (Inr None, s)
      | (Inl err, s) \<Rightarrow> (Inl err, s)
      | (Inr _, s) \<Rightarrow>
          (case os_info (core_context core) bucket obj s of
             (Inr info, s) \<Rightarrow>
               (if oi_deleted info then (Inr None, s)
                else (Inr (case Option.bind (oi_description info) (object_writeback_identity_from_description serde) of
                             Some identity \<Rightarrow>
                               if wi_idempotency_key identity = idempotency_key then Some identity else None
                           | None \<Rightarrow> None), s))
           | (Inl err, s) \<Rightarrow> (if is_not_found err then (Inr None, s) else (Inl (Io err), s))))"

definition or_empty :: "string option \<Rightarrow> string" where
  "or_empty v = (case v of Some x \<Rightarrow> x | None \<Rightarrow> [])"

text \<open>The end of every branch of \<open>put_applied\<close> but the first: purge, record, \<open>Ok(true)\<close>.\<close>

definition finish_applied ::
  "'s NatsCore \<Rightarrow> string \<Rightarrow> string \<Rightarrow> string option \<Rightarrow> 's \<Rightarrow> ('s, bool) outcome" where
  "finish_applied core bucket ledger_key previous_nuid s =
     obind (purge_chunks_if_known core bucket (or_empty previous_nuid) s) (\<lambda>_ s.
       obind (record_applied core ledger_key s) (\<lambda>_ s. (Inr True, s)))"

definition nob_put_applied ::
  "'s NatsCore \<Rightarrow> ObjectSerde \<Rightarrow> string \<Rightarrow> string \<Rightarrow> string \<Rightarrow> 's \<Rightarrow> ('s, bool) outcome" where
  "nob_put_applied core serde bucket obj idempotency_key s =
     (let ledger_key = object_writeback_ledger_key bucket obj idempotency_key in
        obind (apply_marker core serde bucket idempotency_key s) (\<lambda>marker s.
        obind (has_applied core ledger_key s) (\<lambda>applied s.
          if applied then
            obind (purge_chunks_if_known core bucket (or_empty (object_put_previous_nuid None marker)) s) (\<lambda>_ s.
              (Inr True, s))
          else
            obind (live_identity core serde bucket obj idempotency_key s) (\<lambda>live s.
              case live of
                Some identity \<Rightarrow> finish_applied core bucket ledger_key (object_put_previous_nuid (Some identity) marker) s
              | None \<Rightarrow>
                  obind (history_applied_identity core serde bucket obj idempotency_key s) (\<lambda>past s.
                    case past of
                      Some identity \<Rightarrow>
                        finish_applied core bucket ledger_key (object_put_previous_nuid (Some identity) marker) s
                    | None \<Rightarrow>
                        obind (object_target_after_apply_marker core serde bucket obj idempotency_key s) (\<lambda>after s.
                          case after of
                            Some marker \<Rightarrow>
                              finish_applied core bucket ledger_key (object_put_previous_nuid None (Some marker)) s
                          | None \<Rightarrow> (Inr False, s)))))))"

section \<open>The idempotent put\<close>

definition nob_put_idempotent ::
  "'s NatsCore \<Rightarrow> ObjectSerde \<Rightarrow> string \<Rightarrow> string \<Rightarrow> bytes \<Rightarrow> string \<Rightarrow> 's \<Rightarrow> ('s, unit) outcome" where
  "nob_put_idempotent core serde bucket obj bs idempotency_key s =
     (let ledger_key = object_writeback_ledger_key bucket obj idempotency_key in
        obind (nob_put_applied core serde bucket obj idempotency_key s) (\<lambda>applied s.
          if applied then record_applied core ledger_key s
          else
            obind (metadata_message core serde bucket obj s) (\<lambda>found s.
              let previous_nuid = (case found of
                    Some (info, _) \<Rightarrow> if oi_deleted info then None else Some (oi_nuid info)
                  | None \<Rightarrow> None) in
                obind (object_ensure_apply_marker core serde bucket idempotency_key previous_nuid s) (\<lambda>_ s.
                obind (object_store_or_create core bucket s) (\<lambda>_ s.
                  case object_idempotency_description serde idempotency_key previous_nuid of
                    Inl err \<Rightarrow> (Inl err, s)
                  | Inr marker \<Rightarrow>
                      obind (retry_io core (os_put (core_context core) bucket
                               \<lparr>ot_name = obj, ot_description = Some marker\<rparr> bs) s) (\<lambda>_ s.
                      obind (purge_chunks_if_known core bucket (or_empty previous_nuid) s) (\<lambda>_ s.
                        record_applied core ledger_key s)))))))"

section \<open>Objects in the watched subjects\<close>

datatype ObjectWatchSubject = WatchMetadata string | WatchMarker | WatchChunk

definition object_watch_fact :: "ObjectSerde \<Rightarrow> string \<Rightarrow> Message \<Rightarrow> StorageFact option" where
  "object_watch_fact serde bucket message =
     map_option (\<lambda>info. StorageFact.Object bucket (oi_name info)) (ok_of (info_from_slice serde (m_data message)))"

definition object_watch_subject :: "string \<Rightarrow> ObjectWatchSubject option" where
  "object_watch_subject subject =
     (case strip_prefix ''$O.'' subject of
        None \<Rightarrow> None
      | Some rest \<Rightarrow>
          (case split_once (CHR ''.'') rest of
             None \<Rightarrow> None
           | Some (bucket, kind) \<Rightarrow>
               (if starts_with ''M.'' kind then Some (WatchMetadata bucket)
                else if starts_with ''W.'' kind then Some WatchMarker
                else if starts_with ''C.'' kind then Some WatchChunk
                else None)))"

end
