(* ===== verification/Nats_Streams.thy ===== *)
theory Nats_Streams
  imports Nats_Kv
begin

text \<open>
  \<open>storage/nats/streams.rs\<close>: streams and their messages, the listing of a stream by draining a
  pull consumer, and the publication of JSON lines, each made idempotent by its message
  id and by the ledger. \<open>json\<close> is the JSON parser and \<open>display\<close> the text of the protocol's errors.
\<close>

definition STREAM_LIST_BATCH_SIZE :: nat where
  "STREAM_LIST_BATCH_SIZE = 256"

definition NATS_MSG_ID :: string where
  "NATS_MSG_ID = ''Nats-Msg-Id''"

section \<open>Names and messages\<close>

definition stream_visible_in_mount :: "string \<Rightarrow> bool" where
  "stream_visible_in_mount stream_name \<longleftrightarrow>
     \<not> starts_with ''KV_'' stream_name \<and> \<not> starts_with ''OBJ_'' stream_name \<and> stream_name \<noteq> LEDGER_STREAM"

definition nats_agent_mailbox_subject_parts :: "string \<Rightarrow> (string \<times> string) option" where
  "nats_agent_mailbox_subject_parts subject =
     (case split_on (CHR ''.'') subject of
        root # agent # area # rest \<Rightarrow>
          (if root \<noteq> ''agents'' then None
           else if rest \<noteq> [] \<or> \<not> (area = ''inbox'' \<or> area = ''outbox'') then None
           else Some (agent, area))
      | _ \<Rightarrow> None)"

definition agent_mailbox_parts :: "string \<Rightarrow> (string \<times> string) option" where
  "agent_mailbox_parts subject =
     (case nats_agent_mailbox_subject_parts subject of
        None \<Rightarrow> None
      | Some (agent, area) \<Rightarrow> (if is_reserved_kv_key agent then None else Some (agent, area)))"

definition agent_mailbox_name :: "string \<Rightarrow> string option" where
  "agent_mailbox_name subject = map_option fst (agent_mailbox_parts subject)"

definition is_reserved_agent_mailbox_subject :: "string \<Rightarrow> bool" where
  "is_reserved_agent_mailbox_subject subject =
     (case nats_agent_mailbox_subject_parts subject of
        Some (agent, _) \<Rightarrow> is_reserved_kv_key agent
      | None \<Rightarrow> False)"

definition headers_contain_message_id :: "HeaderMap option \<Rightarrow> string \<Rightarrow> bool" where
  "headers_contain_message_id headers message_id =
     (case header_get headers NATS_MSG_ID of Some v \<Rightarrow> v = message_id | None \<Rightarrow> False)"

definition stream_writeback_ledger_key :: "string \<Rightarrow> string \<Rightarrow> string \<Rightarrow> string" where
  "stream_writeback_ledger_key stream subject message_id = scoped_key ''stream'' [stream, subject, message_id]"

definition message_to_stream_view :: "string \<Rightarrow> Message \<Rightarrow> StreamMessageView option" where
  "message_to_stream_view stream message =
     (case m_info message of
        None \<Rightarrow> None
      | Some info \<Rightarrow>
          (case system_time_from_datetime (ji_published info) of
             Inl _ \<Rightarrow> None
           | Inr published \<Rightarrow>
               Some \<lparr>sm_stream = stream, sm_sequence = ji_stream_seq info, sm_published = published,
                     sm_subject = m_subject message, sm_payload = m_data message\<rparr>))"

section \<open>Streams\<close>

definition nst_list :: "'s NatsCore \<Rightarrow> 's \<Rightarrow> ('s, string list) outcome" where
  "nst_list core s =
     (case js_stream_names (core_context core) s of
        (names, s) \<Rightarrow> (map_ok (filter stream_visible_in_mount) (try_map (map_err Io) names), s))"

definition nst_ensure :: "'s NatsCore \<Rightarrow> string \<Rightarrow> 's \<Rightarrow> ('s, unit) outcome" where
  "nst_ensure core stream s =
     ensure_stream_with_subjects core stream [to_ascii_lowercase stream @ ''.>'', ''events.'' @ stream] s"

definition nst_ensure_subject :: "'s NatsCore \<Rightarrow> string \<Rightarrow> string \<Rightarrow> 's \<Rightarrow> ('s, unit) outcome" where
  "nst_ensure_subject core stream subject s =
     obind (nst_ensure core stream s) (\<lambda>_ s.
       obind (stream_info core stream s) (\<lambda>info s.
         if list_ex (\<lambda>candidate. subject_matches candidate subject) (sc_subjects (si_config info))
         then (Inr (), s)
         else obind (from_io (js_update_stream (core_context core)
                       ((si_config info)\<lparr>sc_subjects := sc_subjects (si_config info) @ [subject]\<rparr>) s)) (\<lambda>_ s.
                (Inr (), s))))"

definition nst_message :: "'s NatsCore \<Rightarrow> string \<Rightarrow> u64 \<Rightarrow> 's \<Rightarrow> ('s, StreamMessageView) outcome" where
  "nst_message core stream sequence s =
     (case js_get_message (core_context core) stream sequence s of
        (Inl err, s) \<Rightarrow> (if is_not_found err then (Inl NotFound, s) else (Inl (Io err), s))
      | (Inr message, s) \<Rightarrow>
          (map_ok (\<lambda>published. \<lparr>sm_stream = stream, sm_sequence = msg_sequence message, sm_published = published,
                                 sm_subject = msg_subject message, sm_payload = msg_data message\<rparr>)
             (system_time_from_datetime (msg_time message)), s))"

definition nst_watch_once :: "'s NatsCore \<Rightarrow> string \<Rightarrow> string \<Rightarrow> 's \<Rightarrow> ('s, StreamMessageView option) outcome" where
  "nst_watch_once core stream subject s =
     obind (nst_ensure_subject core stream subject s) (\<lambda>_ s.
       obind (from_io (js_subscribe (core_context core) subject
                \<lparr>so_bind_stream = Some stream, so_ordered = False, so_deliver = DeliverNew\<rparr> s)) (\<lambda>sub s.
         (watch_next (message_to_stream_view stream) sub, s)))"

section \<open>Listing by draining a consumer\<close>

definition stream_headers :: "'s NatsCore \<Rightarrow> string \<Rightarrow> string \<Rightarrow> DeliverPolicy \<Rightarrow> 's \<Rightarrow> ('s, nat) outcome" where
  "stream_headers core stream filter_subject deliver_policy s =
     from_io (js_pull_subscribe (core_context core)
       (if filter_subject = [] then stream else filter_subject) stream
       \<lparr>cc_deliver_policy = deliver_policy, cc_explicit_ack = True, cc_filter_subject = filter_subject,
        cc_replay_instant = True, cc_headers_only = True\<rparr> s)"

text \<open>The \<open>for message in batch\<close> loop: what \<open>on_message\<close> made of each message, all of them
  acknowledged.\<close>

fun drain_batch ::
  "'s NatsCore \<Rightarrow> nat \<Rightarrow> (Message \<Rightarrow> TransportError + 'a) \<Rightarrow> Message list \<Rightarrow> 's \<Rightarrow> ('s, 'a list) outcome" where
  "drain_batch core consumer on_message [] s = (Inr [], s)"
| "drain_batch core consumer on_message (message # rest) s =
     (case on_message message of
        Inl err \<Rightarrow> (Inl err, s)
      | Inr x \<Rightarrow>
          obind (from_io (js_ack (core_context core) consumer message s)) (\<lambda>_ s.
            obind (drain_batch core consumer on_message rest s) (\<lambda>xs s. (Inr (x # xs), s))))"

text \<open>\<open>while remaining > 0\<close>. The loop goes on only after a full batch, which is never empty.\<close>

function drain_stream_headers ::
  "'s NatsCore \<Rightarrow> nat \<Rightarrow> nat \<Rightarrow> (Message \<Rightarrow> TransportError + 'a) \<Rightarrow> 's \<Rightarrow> ('s, 'a list) outcome" where
  "drain_stream_headers core consumer remaining on_message s =
     (if remaining = 0 then (Inr [], s)
      else (let batch_size = min remaining STREAM_LIST_BATCH_SIZE in
              obind (from_io (js_fetch (core_context core) consumer batch_size s)) (\<lambda>batch s.
                obind (drain_batch core consumer on_message batch s) (\<lambda>xs s.
                  if length batch < batch_size then (Inr xs, s)
                  else obind (drain_stream_headers core consumer (remaining - length batch) on_message s) (\<lambda>ys s.
                         (Inr (xs @ ys), s))))))"
  by pat_completeness auto
termination
  by (relation "measure (\<lambda>(core, consumer, remaining, on_message, s). remaining)")
    (auto simp: STREAM_LIST_BATCH_SIZE_def)

declare drain_stream_headers.simps [simp del]

definition listing_sequence :: "Message \<Rightarrow> TransportError + u64" where
  "listing_sequence message =
     ok_or (Invalid ''stream listing message missing JetStream metadata'')
       (map_option ji_stream_seq (m_info message))"

text \<open>\<open>messages as usize\<close> keeps the 64 bits.\<close>

definition nst_list_messages :: "'s NatsCore \<Rightarrow> string \<Rightarrow> 's \<Rightarrow> ('s, DirectoryEntry list) outcome" where
  "nst_list_messages core stream s =
     obind (stream_info core stream s) (\<lambda>info s.
       if si_messages info = 0 then (Inr [], s)
       else obind (stream_headers core stream [] DeliverAll s) (\<lambda>consumer s.
         obind (drain_stream_headers core consumer (unat (si_messages info)) listing_sequence s) (\<lambda>sequences s.
           (Inr (map (\<lambda>sequence. \<lparr>de_name = show_u64 sequence @ ''.json'', de_kind = EntryKind.File\<rparr>)
                   (remdups_adj (sort sequences))), s))))"

definition retained_subjects :: "'s NatsCore \<Rightarrow> string \<Rightarrow> 's \<Rightarrow> ('s, string list) outcome" where
  "retained_subjects core stream s =
     obind (stream_info core stream s) (\<lambda>info s.
       if si_messages info = 0 then (Inr [], s)
       else obind (stream_headers core stream [] DeliverAll s) (\<lambda>consumer s.
         obind (drain_stream_headers core consumer (unat (si_messages info)) (\<lambda>message. Inr (m_subject message)) s)
           (\<lambda>subjects s. (Inr (foldl (\<lambda>found subject. set_insert subject found) [] subjects), s))))"

definition nst_list_subjects :: "'s NatsCore \<Rightarrow> string \<Rightarrow> 's \<Rightarrow> ('s, DirectoryEntry list) outcome" where
  "nst_list_subjects core stream s =
     obind (retained_subjects core stream s) (\<lambda>subjects s.
       (Inr (map (\<lambda>subject. \<lparr>de_name = stream_subject_file_name_from_str subject, de_kind = EntryKind.File\<rparr>)
               subjects), s))"

definition nst_list_agent_names :: "'s NatsCore \<Rightarrow> 's \<Rightarrow> ('s, string list) outcome" where
  "nst_list_agent_names core s =
     (case retained_subjects core AGENTS_STREAM s of
        (Inl NotFound, s) \<Rightarrow> (Inr [], s)
      | (Inl err, s) \<Rightarrow> (Inl err, s)
      | (Inr subjects, s) \<Rightarrow>
          (Inr (foldl (\<lambda>agents subject. case agent_mailbox_name subject of
                         Some agent \<Rightarrow> set_insert agent agents
                       | None \<Rightarrow> agents) [] subjects), s))"

section \<open>Publishing JSON lines\<close>

definition message_id_scan :: "string \<Rightarrow> Message \<Rightarrow> TransportError + unit option" where
  "message_id_scan message_id message =
     Inr (if headers_contain_message_id (m_headers message) message_id then Some () else None)"

definition line_applied :: "'s NatsCore \<Rightarrow> string \<Rightarrow> string \<Rightarrow> string \<Rightarrow> 's \<Rightarrow> ('s, bool) outcome" where
  "line_applied core stream subject message_id s =
     (let ledger_key = stream_writeback_ledger_key stream subject message_id in
        obind (has_applied core ledger_key s) (\<lambda>applied s.
          if applied then (Inr True, s)
          else
            obind (scan_subject_history_until core stream subject (message_id_scan message_id) s) (\<lambda>found s.
              if found \<noteq> None then obind (record_applied core ledger_key s) (\<lambda>_ s. (Inr True, s))
              else (Inr False, s))))"

definition line_id :: "string \<Rightarrow> nat \<Rightarrow> string" where
  "line_id idempotency_seed index = idempotency_seed @ '':'' @ show_nat index"

fun publish_loop ::
  "'s NatsCore \<Rightarrow> string \<Rightarrow> string \<Rightarrow> string \<Rightarrow> nat \<Rightarrow> string list \<Rightarrow> 's \<Rightarrow> ('s, u64 list) outcome" where
  "publish_loop core stream subject seed index [] s = (Inr [], s)"
| "publish_loop core stream subject seed index (line # rest) s =
     (let message_id = line_id seed index in
        obind (line_applied core stream subject message_id s) (\<lambda>applied s.
          if applied then publish_loop core stream subject seed (Suc index) rest s
          else
            obind (retry_io core (js_publish (core_context core) subject None (as_bytes line)
                     (publish_options core (Some message_id) stream None)) s) (\<lambda>ack s.
            obind (record_applied core (stream_writeback_ledger_key stream subject message_id) s) (\<lambda>_ s.
            obind (publish_loop core stream subject seed (Suc index) rest s) (\<lambda>sequences s.
              (Inr (ack # sequences), s))))))"

text \<open>Both calls that start every line operation: \<open>validate_json_lines\<close>, then \<open>json_lines\<close>.\<close>

definition checked_lines ::
  "Json \<Rightarrow> (EventFsError \<Rightarrow> string) \<Rightarrow> string \<Rightarrow> bytes \<Rightarrow> TransportError + string list" where
  "checked_lines json display subject bs =
     rbind (transport_invalid display (validate_json_lines json subject bs)) (\<lambda>_.
       transport_invalid display (json_lines json subject bs))"

definition nst_publish_json_lines ::
  "'s NatsCore \<Rightarrow> Json \<Rightarrow> (EventFsError \<Rightarrow> string) \<Rightarrow> string \<Rightarrow> string \<Rightarrow> bytes \<Rightarrow> string \<Rightarrow> 's
    \<Rightarrow> ('s, u64 list) outcome" where
  "nst_publish_json_lines core json display stream subject bs seed s =
     (case transport_invalid display (validate_json_lines json subject bs) of
        Inl err \<Rightarrow> (Inl err, s)
      | Inr _ \<Rightarrow>
          obind (nst_ensure_subject core stream subject s) (\<lambda>_ s.
            case transport_invalid display (json_lines json subject bs) of
              Inl err \<Rightarrow> (Inl err, s)
            | Inr lines \<Rightarrow> publish_loop core stream subject seed 0 lines s))"

text \<open>\<open>applied_loop\<close> counts the lines applied before the first that is not.\<close>

fun applied_loop ::
  "'s NatsCore \<Rightarrow> string \<Rightarrow> string \<Rightarrow> string \<Rightarrow> nat \<Rightarrow> nat \<Rightarrow> 's \<Rightarrow> ('s, nat) outcome" where
  "applied_loop core stream subject seed index 0 s = (Inr index, s)"
| "applied_loop core stream subject seed index (Suc left) s =
     obind (line_applied core stream subject (line_id seed index) s) (\<lambda>applied s.
       if applied then applied_loop core stream subject seed (Suc index) left s else (Inr index, s))"

definition nst_publish_json_lines_applied ::
  "'s NatsCore \<Rightarrow> Json \<Rightarrow> (EventFsError \<Rightarrow> string) \<Rightarrow> string \<Rightarrow> string \<Rightarrow> bytes \<Rightarrow> string \<Rightarrow> 's
    \<Rightarrow> ('s, bool) outcome" where
  "nst_publish_json_lines_applied core json display stream subject bs seed s =
     (case checked_lines json display subject bs of
        Inl err \<Rightarrow> (Inl err, s)
      | Inr lines \<Rightarrow>
          (if lines = [] then (Inr True, s)
           else obind (applied_loop core stream subject seed 0 (length lines) s) (\<lambda>n s.
             (Inr (n = length lines), s))))"

definition nst_publish_json_lines_applied_prefix ::
  "'s NatsCore \<Rightarrow> Json \<Rightarrow> (EventFsError \<Rightarrow> string) \<Rightarrow> string \<Rightarrow> string \<Rightarrow> bytes \<Rightarrow> string \<Rightarrow> 's
    \<Rightarrow> ('s, nat) outcome" where
  "nst_publish_json_lines_applied_prefix core json display stream subject bs seed s =
     (case checked_lines json display subject bs of
        Inl err \<Rightarrow> (Inl err, s)
      | Inr lines \<Rightarrow> applied_loop core stream subject seed 0 (length lines) s)"

end
