(* ===== verification/Rust_Hex.thy ===== *)
theory Rust_Hex
  imports File_Names
begin

text \<open>
  Rust's fixed-width hexadecimal formats of 64-bit numbers.
\<close>

text \<open>\<open>{:0width$x}\<close> for a width of at least sixteen, the digits of 64 bits: the highest digit first.\<close>

definition hex_padded :: "nat \<Rightarrow> u64 \<Rightarrow> string" where
  "hex_padded width w = map (\<lambda>i. HEX ! (unat w div 16 ^ i mod 16)) (rev [0..<width])"

lemma HEX_inj: "m < 16 \<Longrightarrow> n < 16 \<Longrightarrow> HEX ! m = HEX ! n \<Longrightarrow> m = n"
  by (cases m rule: nibble_cases; cases n rule: nibble_cases; simp add: HEX_def)

lemma hex_padded_length [simp]: "length (hex_padded width w) = width"
  by (simp add: hex_padded_def)

lemma hex_padded_digits: "set (hex_padded width w) \<subseteq> set HEX"
proof -
  have "length HEX = 16" by (simp add: HEX_def)
  then show ?thesis by (auto simp: hex_padded_def intro!: nth_mem)
qed

lemma hex_padded_inj:
  assumes "hex_padded width v = hex_padded width w" "16 \<le> width"
  shows "v = w"
proof -
  have digit: "unat v div 16 ^ i mod 16 = unat w div 16 ^ i mod 16" if "i < width" for i
  proof (rule HEX_inj)
    have "i \<in> set (rev [0..<width])" using that by simp
    then show "HEX ! (unat v div 16 ^ i mod 16) = HEX ! (unat w div 16 ^ i mod 16)"
      using assms(1) unfolding hex_padded_def by (simp only: map_eq_conv)
  qed simp_all
  have "unat v mod 16 ^ n = unat w mod 16 ^ n" if "n \<le> width" for n
    using that
  proof (induction n)
    case (Suc n)
    have "m mod 16 ^ Suc n = 16 ^ n * (m div 16 ^ n mod 16) + m mod 16 ^ n" for m :: nat
      unfolding power_Suc2 by (rule mod_mult2_eq)
    then show ?case using Suc digit [of n] by simp
  qed simp
  from this [of 16] assms(2) have "unat v mod 2 ^ 64 = unat w mod 2 ^ 64" by simp
  moreover have "unat v < 2 ^ 64" "unat w < 2 ^ 64" using unsigned_less [of v] unsigned_less [of w] by simp_all
  ultimately have "unat v = unat w" by simp
  then show "v = w" by (rule unsigned_word_eqI)
qed

end
