(* ===== verification/Nats_Names.thy ===== *)
theory Nats_Names
  imports Nats_Objects_Write Nats_Streams Rust_Hex
begin

text \<open>
  The names of the NATS backend keep apart what has to be kept apart: ledger entries of different
  writes, the markers of different writes, markers and the keys a mount can name, and the
  streams of buckets, objects and the ledger.
\<close>

section \<open>Hexadecimal\<close>

lemma nats_hex_encode_Cons [simp]:
  "nats_hex_encode [] = []"
  "nats_hex_encode (b # bs) = HEX ! (unat b div 16) # HEX ! (unat b mod 16) # nats_hex_encode bs"
  by (simp_all add: nats_hex_encode_def)

lemma byte_digits_inj:
  assumes "HEX ! (unat a div 16) = HEX ! (unat b div 16)" "HEX ! (unat a mod 16) = HEX ! (unat b mod 16)"
  shows "a = (b :: u8)"
proof -
  have "unat a < 256" "unat b < 256" using unsigned_less [of a] unsigned_less [of b] by simp_all
  then have "unat a div 16 = unat b div 16" "unat a mod 16 = unat b mod 16"
    using assms by (auto intro: HEX_inj)
  then have "unat a = unat b" by (metis div_mult_mod_eq)
  then show ?thesis by (simp add: word_unat_eq_iff)
qed

lemma nats_hex_encode_inj: "nats_hex_encode a = nats_hex_encode b \<Longrightarrow> a = b"
proof (induction a arbitrary: b)
  case Nil
  then show ?case by (cases b) auto
next
  case (Cons x xs)
  then show ?case by (cases b) (auto intro: byte_digits_inj)
qed

lemma nats_hex_encode_eq [simp]: "nats_hex_encode a = nats_hex_encode b \<longleftrightarrow> a = b"
  using nats_hex_encode_inj by blast

lemma as_bytes_eq [simp]: "as_bytes a = as_bytes b \<longleftrightarrow> a = b"
  by (metis str_of_as_bytes)

section \<open>Scoped keys\<close>

lemma scoped_key_Nil [simp]: "scoped_key kind [] = kind"
  by (simp add: scoped_key_def)

lemma scoped_key_Cons:
  "scoped_key kind (p # ps) = scoped_key (kind @ ''|'' @ show_nat (length p) @ '':'' @ p) ps"
  by (simp add: scoped_key_def)

text \<open>The parts alone: each is its length, a colon and its text, so it can be read back.\<close>

fun scoped_parts :: "string list \<Rightarrow> string" where
  "scoped_parts [] = []"
| "scoped_parts (p # ps) = CHR ''|'' # show_nat (length p) @ CHR '':'' # p @ scoped_parts ps"

lemma scoped_key_parts: "scoped_key kind ps = kind @ scoped_parts ps"
  by (induction ps arbitrary: kind) (simp_all add: scoped_key_Cons)

lemma digits_no_colon: "CHR '':'' \<notin> set (show_nat n)" "CHR ''|'' \<notin> set (show_nat n)"
  by (auto dest!: show_nat_digits simp: is_ascii_digit_def)

lemma append_at_delimiter: "a @ d # b = a' @ d # b' \<Longrightarrow> d \<notin> set a \<Longrightarrow> d \<notin> set a' \<Longrightarrow> a = a' \<and> b = b'"
  by (metis option.inject prod.inject split_once_Some)

lemma show_nat_value: "foldl (\<lambda>v c. 10 * v + (of_char c - 48)) 0 (show_nat n) = (n :: nat)"
proof (induction n rule: show_nat.induct)
  case (1 n)
  then show ?case
    by (cases "n < 10"; subst show_nat.simps) (simp_all add: of_char_digit_char)
qed

lemma show_nat_inj: "show_nat m = show_nat n \<Longrightarrow> m = n"
  by (metis show_nat_value)

lemma scoped_parts_inj: "scoped_parts ps = scoped_parts qs \<Longrightarrow> ps = qs"
proof (induction ps arbitrary: qs)
  case Nil
  then show ?case by (cases qs) auto
next
  case (Cons p ps)
  then obtain q qs' where qs: "qs = q # qs'" by (cases qs) auto
  have "show_nat (length p) @ CHR '':'' # (p @ scoped_parts ps) =
      show_nat (length q) @ CHR '':'' # (q @ scoped_parts qs')"
    using Cons.prems qs by simp
  from append_at_delimiter [OF this digits_no_colon(1) digits_no_colon(1)]
  have eq: "show_nat (length p) = show_nat (length q)" "p @ scoped_parts ps = q @ scoped_parts qs'" by auto
  then have "length p = length q" by (blast intro: show_nat_inj)
  with eq show ?case using Cons.IH qs by simp
qed

lemma scoped_key_inj:
  assumes "scoped_key kind ps = scoped_key kind' qs" "CHR ''|'' \<notin> set kind" "CHR ''|'' \<notin> set kind'"
  shows "kind = kind' \<and> ps = qs"
proof (cases "ps = [] \<or> qs = []")
  case True
  then show ?thesis
    using assms by (cases ps; cases qs) (auto simp: scoped_key_parts)
next
  case False
  then obtain p ps' q qs' where "ps = p # ps'" "qs = q # qs'" by (meson neq_Nil_conv)
  then have "kind = kind'" "scoped_parts ps = scoped_parts qs"
    using assms append_at_delimiter [of kind "CHR ''|''" _ kind'] by (auto simp: scoped_key_parts)
  then show ?thesis by (simp add: scoped_parts_inj)
qed

lemmas ledger_key_defs = kv_writeback_ledger_key_def stream_writeback_ledger_key_def object_writeback_ledger_key_def

lemma ledger_subject_eq: "ledger_subject a = ledger_subject b \<longleftrightarrow> a = b"
  by (simp add: ledger_subject_def)

section \<open>Markers and streams\<close>

lemma marker_keys_reserved:
  "is_reserved_kv_key (writeback_marker_key ik)" "is_reserved_kv_key (applied_marker_key ik)"
  by (simp_all add: is_reserved_kv_key_def key_has_reserved_prefix_def writeback_marker_key_def applied_marker_key_def)

lemma kv_subject_eq: "kv_subject b k = kv_subject b k' \<longleftrightarrow> k = k'"
  by (simp add: kv_subject_def)

lemma marker_subjects_distinct:
  "writeback_marker_subject b ik \<noteq> applied_marker_subject b ik'"
  "\<not> is_reserved_kv_key k \<Longrightarrow> kv_subject b k \<noteq> writeback_marker_subject b ik"
  "\<not> is_reserved_kv_key k \<Longrightarrow> kv_subject b k \<noteq> applied_marker_subject b ik"
  using marker_keys_reserved
  by (auto simp: writeback_marker_subject_def applied_marker_subject_def kv_subject_eq)
    (simp add: writeback_marker_key_def applied_marker_key_def KV_WRITEBACK_MARKER_KEY_PREFIX_def
      KV_APPLIED_MARKER_KEY_PREFIX_def)

lemma ledger_stream_distinct:
  "LEDGER_STREAM \<noteq> kv_stream_name b" "LEDGER_STREAM \<noteq> object_stream_name b"
  by (simp_all add: LEDGER_STREAM_def kv_stream_name_def object_stream_name_def)

section \<open>Properties\<close>

text \<open>Two write-back operations share a ledger entry only if they are the same operation: the
  subject under which an applied write is recorded determines its kind (key, stream line or
  object), its bucket or stream, its key, subject or object, and its idempotency key, whatever
  characters those contain.\<close>

lemma ledger_entries_identify_writes:
  assumes "kind \<in> {''kv'', ''stream'', ''object''}" "kind' \<in> {''kv'', ''stream'', ''object''}"
  shows "ledger_subject (scoped_key kind parts) = ledger_subject (scoped_key kind' parts')
    \<longleftrightarrow> kind = kind' \<and> parts = parts'"
proof -
  have "CHR ''|'' \<notin> set kind" "CHR ''|'' \<notin> set kind'" using assms by auto
  then show ?thesis unfolding ledger_subject_eq using scoped_key_inj by blast
qed

lemma ledger_entries_identify_writes_example:
  "ledger_subject (scoped_key ''kv'' [''a|1:b'', ''c'', ''k1'']) \<noteq> ledger_subject (scoped_key ''kv'' [''a'', ''b|1:c'', ''k1''])
   \<and> ledger_subject (scoped_key ''kv'' [''a'', ''c'', ''k1'']) \<noteq> ledger_subject (scoped_key ''object'' [''a'', ''c'', ''k1''])"
  using ledger_entries_identify_writes [of "''kv''" "''kv''"]
    ledger_entries_identify_writes [of "''kv''" "''object''"]
  by simp

end
