(* ===== verification/Nats_Server.thy ===== *)
theory Nats_Server
  imports Nats_Names
begin

text \<open>
  What the backend's idempotence proofs rely on of the JetStream server and its client, stated as a
  predicate on the client parameter, and a small program logic for calls that may fail. The
  server's state is seen through the messages ever appended to each stream and through the message
  ids its duplicate window still holds.
\<close>

section \<open>Triples\<close>

text \<open>From a state with \<open>P\<close>, the call ends with \<open>Q\<close> if it succeeds and with \<open>E\<close> if it fails.\<close>

definition triple ::
  "('s \<Rightarrow> bool) \<Rightarrow> ('s \<Rightarrow> bool) \<Rightarrow> ('s \<Rightarrow> ('s, 'a) outcome) \<Rightarrow> ('a \<Rightarrow> 's \<Rightarrow> bool) \<Rightarrow> bool" where
  "triple E P f Q \<longleftrightarrow>
     (\<forall>s x s'. P s \<longrightarrow> f s = (Inr x, s') \<longrightarrow> Q x s') \<and> (\<forall>s e s'. P s \<longrightarrow> f s = (Inl e, s') \<longrightarrow> E s')"

lemma tripleI:
  "(\<And>s x s'. P s \<Longrightarrow> f s = (Inr x, s') \<Longrightarrow> Q x s') \<Longrightarrow> (\<And>s e s'. P s \<Longrightarrow> f s = (Inl e, s') \<Longrightarrow> E s')
    \<Longrightarrow> triple E P f Q"
  by (simp add: triple_def)

lemma tripleD: "triple E P f Q \<Longrightarrow> P s \<Longrightarrow> f s = (Inr x, s') \<Longrightarrow> Q x s'"
  "triple E P f Q \<Longrightarrow> P s \<Longrightarrow> f s = (Inl e, s') \<Longrightarrow> E s'"
  by (simp_all add: triple_def)

lemma triple_conseq:
  "triple E P f Q \<Longrightarrow> (\<And>s. P' s \<Longrightarrow> P s) \<Longrightarrow> (\<And>x s. Q x s \<Longrightarrow> Q' x s) \<Longrightarrow> triple E P' f Q'"
  unfolding triple_def by blast

lemma triple_obind:
  "triple E P f R \<Longrightarrow> (\<And>x. triple E (R x) (g x) Q) \<Longrightarrow> triple E P (\<lambda>s. obind (f s) g) Q"
  by (rule tripleI) (auto simp: obind_def dest: tripleD split: prod.splits sum.splits)

lemma triple_Inr: "(\<And>s. P s \<Longrightarrow> Q x s) \<Longrightarrow> triple E P (\<lambda>s. (Inr x, s)) Q"
  by (simp add: triple_def)

lemma triple_Inl: "(\<And>s. P s \<Longrightarrow> E s) \<Longrightarrow> triple E P (\<lambda>s. (Inl e, s)) Q"
  by (simp add: triple_def)

lemma triple_pure:
  "(\<And>s x. P s \<Longrightarrow> r = Inr x \<Longrightarrow> Q x s) \<Longrightarrow> (\<And>s. P s \<Longrightarrow> E s) \<Longrightarrow> triple E P (\<lambda>s. (r, s)) Q"
  by (auto simp: triple_def split: sum.splits)

lemma triple_if:
  "(b \<Longrightarrow> triple E P f Q) \<Longrightarrow> (\<not> b \<Longrightarrow> triple E P g Q) \<Longrightarrow> triple E P (\<lambda>s. if b then f s else g s) Q"
  by (cases b) simp_all

lemma triple_option:
  "(v = None \<Longrightarrow> triple E P f Q) \<Longrightarrow> (\<And>x. v = Some x \<Longrightarrow> triple E P (g x) Q)
    \<Longrightarrow> triple E P (\<lambda>s. case v of None \<Rightarrow> f s | Some x \<Rightarrow> g x s) Q"
  by (cases v) simp_all

lemma triple_sum:
  "(\<And>e. v = Inl e \<Longrightarrow> triple E P (f e) Q) \<Longrightarrow> (\<And>x. v = Inr x \<Longrightarrow> triple E P (g x) Q)
    \<Longrightarrow> triple E P (\<lambda>s. case v of Inl e \<Rightarrow> f e s | Inr x \<Rightarrow> g x s) Q"
  by (cases v) simp_all

text \<open>A retried call: \<open>J\<close> holds before and after every failing attempt.\<close>

lemma triple_retry_io:
  assumes "\<And>s x s'. J s \<Longrightarrow> f s = (Inr x, s') \<Longrightarrow> Q x s'" "\<And>s e s'. J s \<Longrightarrow> f s = (Inl e, s') \<Longrightarrow> J s'"
    and "\<And>s. J s \<Longrightarrow> E s"
  shows "triple E J (retry_io core f) Q"
proof -
  have step: "triple J J (\<lambda>s. from_io (f s)) Q"
    by (rule tripleI) (auto simp: from_io_def map_err_def intro: assms split: prod.splits sum.splits)
  have "triple E J (retry_transport n (\<lambda>s. from_io (f s))) Q" for n
  proof (induction n)
    case 0
    show ?case
      by (rule tripleI) (auto dest: tripleD [OF step] intro: assms(3) split: prod.splits sum.splits)
  next
    case (Suc n)
    show ?case
      by (rule tripleI)
        (auto dest: tripleD [OF step] tripleD [OF Suc.IH] split: prod.splits sum.splits)
  qed
  then show ?thesis by (simp add: triple_def retry_io_def)
qed

section \<open>The server\<close>

record Logged =
  lg_subject :: string
  lg_headers :: "HeaderMap option"
  lg_data :: bytes
  lg_id :: "string option"
  lg_seq :: u64

record 's Server =
  sv_log :: "'s \<Rightarrow> string \<Rightarrow> Logged list"
  sv_recent :: "'s \<Rightarrow> string \<Rightarrow> string \<Rightarrow> bool"

definition on_subject :: "string \<Rightarrow> Logged list \<Rightarrow> Logged list" where
  "on_subject subject log = filter (\<lambda>m. lg_subject m = subject) log"

text \<open>\<open>grows sv F s s'\<close>: from \<open>s\<close> to \<open>s'\<close> only messages that satisfy \<open>F\<close> were appended.\<close>

definition grows :: "'s Server \<Rightarrow> (string \<Rightarrow> Logged \<Rightarrow> bool) \<Rightarrow> 's \<Rightarrow> 's \<Rightarrow> bool" where
  "grows sv F s s' \<longleftrightarrow>
     (\<forall>stream. \<exists>new. sv_log sv s' stream = sv_log sv s stream @ new \<and> (\<forall>m \<in> set new. F stream m))"

text \<open>The message a publication appends; the client puts the message id into the headers too.\<close>

definition logged_as :: "string \<Rightarrow> HeaderMap option \<Rightarrow> bytes \<Rightarrow> string \<Rightarrow> Logged \<Rightarrow> bool" where
  "logged_as subject headers payload msg_id m \<longleftrightarrow>
     lg_subject m = subject \<and> lg_data m = payload \<and> lg_id m = Some msg_id
     \<and> header_get (lg_headers m) NATS_MSG_ID = Some msg_id
     \<and> (\<forall>name. name \<noteq> NATS_MSG_ID \<longrightarrow> header_get (lg_headers m) name = header_get headers name)"

text \<open>A publication with a message id appends its message at most once, whether or not its
  acknowledgement arrives; not at all if the duplicate window still holds the id; and an
  acknowledgement means that the message, or an earlier one under the same id, is in the stream.\<close>

definition publishes ::
  "'s Server \<Rightarrow> (string \<Rightarrow> Logged \<Rightarrow> bool) \<Rightarrow> string \<Rightarrow> string \<Rightarrow> HeaderMap option \<Rightarrow> bytes \<Rightarrow> string
    \<Rightarrow> 's \<Rightarrow> (IoError + u64) \<times> 's \<Rightarrow> bool" where
  "publishes sv F stream subject headers payload msg_id s result \<longleftrightarrow>
     (case result of (r, s') \<Rightarrow>
        (\<exists>before own later.
           sv_log sv s' stream = sv_log sv s stream @ before @ own @ later
           \<and> (\<forall>m \<in> set before \<union> set later. F stream m)
           \<and> (own = [] \<or> (\<exists>m. own = [m] \<and> logged_as subject headers payload msg_id m))
           \<and> (sv_recent sv s stream msg_id \<longrightarrow> own = [] \<and> sv_recent sv s' stream msg_id)
           \<and> (own \<noteq> [] \<longrightarrow> sv_recent sv s' stream msg_id)
           \<and> (is_ok r \<longrightarrow> own \<noteq> [] \<or> sv_recent sv s stream msg_id))
        \<and> (\<forall>other. other \<noteq> stream \<longrightarrow>
             (\<exists>new. sv_log sv s' other = sv_log sv s other @ new \<and> (\<forall>m \<in> set new. F other m))))"

definition message_of :: "StreamMessage \<Rightarrow> Logged \<Rightarrow> bool" where
  "message_of message m \<longleftrightarrow>
     msg_sequence message = lg_seq m \<and> msg_data message = lg_data m \<and> msg_headers message = lg_headers m"

definition delivery_of :: "Message \<Rightarrow> Logged \<Rightarrow> bool" where
  "delivery_of message m \<longleftrightarrow>
     m_headers message = lg_headers m \<and> m_data message = lg_data m
     \<and> (case m_info message of Some info \<Rightarrow> ji_stream_seq info = lg_seq m | None \<Rightarrow> True)"

text \<open>Sequences grow, and the duplicate window holds only ids of messages of the stream.\<close>

definition server_state :: "'s Server \<Rightarrow> 's \<Rightarrow> bool" where
  "server_state sv s \<longleftrightarrow>
     (\<forall>stream. sorted_wrt (<) (map lg_seq (sv_log sv s stream))
       \<and> (\<forall>msg_id. sv_recent sv s stream msg_id \<longrightarrow> (\<exists>m \<in> set (sv_log sv s stream). lg_id m = Some msg_id)))"

definition reads_last :: "'s Server \<Rightarrow> string \<Rightarrow> string \<Rightarrow> (IoError + StreamMessage) \<times> 's \<Rightarrow> bool" where
  "reads_last sv stream subject result \<longleftrightarrow>
     (case result of
        (Inr message, s') \<Rightarrow>
          on_subject subject (sv_log sv s' stream) \<noteq> []
          \<and> message_of message (last (on_subject subject (sv_log sv s' stream)))
      | (Inl err, s') \<Rightarrow> is_not_found err \<longrightarrow> on_subject subject (sv_log sv s' stream) = [])"

definition delivers :: "'s Server \<Rightarrow> string \<Rightarrow> string \<Rightarrow> (IoError + Subscription) \<times> 's \<Rightarrow> bool" where
  "delivers sv stream subject result \<longleftrightarrow>
     (case result of
        (Inr sub, s') \<Rightarrow>
          (\<exists>retained. suffix retained (on_subject subject (sv_log sv s' stream))
            \<and> (\<exists>n. list_all2 delivery_of (sub_messages sub) (take n retained)))
      | (Inl err, s') \<Rightarrow> is_not_found err \<longrightarrow> on_subject subject (sv_log sv s' stream) = [])"

text \<open>The contract. \<open>F\<close> describes the messages other clients may append meanwhile.\<close>

definition jetstream :: "'s Server \<Rightarrow> (string \<Rightarrow> Logged \<Rightarrow> bool) \<Rightarrow> 's Nats \<Rightarrow> bool" where
  "jetstream sv F nats \<longleftrightarrow>
     (\<forall>s. server_state sv s)
     \<and> (\<forall>stream s. grows sv F s (snd (js_stream_info nats stream s)))
     \<and> (\<forall>config s. grows sv F s (snd (js_add_stream nats config s)))
     \<and> (\<forall>config s. grows sv F s (snd (js_update_stream nats config s)))
     \<and> (\<forall>bucket s. grows sv F s (snd (js_key_value nats bucket s)))
     \<and> (\<forall>config s. grows sv F s (snd (js_create_key_value nats config s)))
     \<and> (\<forall>stream subject s. grows sv F s (snd (js_get_last_message nats stream subject s))
          \<and> reads_last sv stream subject (js_get_last_message nats stream subject s))
     \<and> (\<forall>stream subject options s. grows sv F s (snd (js_subscribe nats subject options s))
          \<and> (so_bind_stream options = Some stream \<and> so_deliver options = DeliverAll \<longrightarrow>
              delivers sv stream subject (js_subscribe nats subject options s)))
     \<and> (\<forall>stream subject headers payload msg_id options s.
          po_expected_stream options = Some stream \<and> po_id options = Some msg_id
          \<and> po_expected_last_subject_sequence options = None \<longrightarrow>
          publishes sv F stream subject headers payload msg_id s (js_publish nats subject headers payload options s))"

section \<open>Calls within a relation\<close>

text \<open>\<open>follows R f\<close>: whatever the call answers, the state before and the state after are related. For a
  reflexive and transitive relation this carries over to sequences, branches and retries.\<close>

definition follows :: "('s \<Rightarrow> 's \<Rightarrow> bool) \<Rightarrow> ('s \<Rightarrow> 'r \<times> 's) \<Rightarrow> bool" where
  "follows R f \<longleftrightarrow> (\<forall>s. R s (snd (f s)))"

lemma followsD: "follows R f \<Longrightarrow> f s = (r, s') \<Longrightarrow> R s s'"
  unfolding follows_def by (metis snd_conv)

lemma followsI: "(\<And>s r s'. f s = (r, s') \<Longrightarrow> R s s') \<Longrightarrow> follows R f"
  unfolding follows_def by (metis prod.collapse)

lemma follows_if: "follows R f \<Longrightarrow> follows R g \<Longrightarrow> follows R (\<lambda>s. if b then f s else g s)"
  by (cases b) simp_all

lemma follows_option:
  "follows R f \<Longrightarrow> (\<And>x. follows R (g x)) \<Longrightarrow> follows R (\<lambda>s. case v of None \<Rightarrow> f s | Some x \<Rightarrow> g x s)"
  by (cases v) simp_all

lemma follows_prod: "(\<And>a b. follows R (g a b)) \<Longrightarrow> follows R (\<lambda>s. case p of (a, b) \<Rightarrow> g a b s)"
  by (cases p) simp

lemma follows_from_io: "follows R f \<Longrightarrow> follows R (\<lambda>s. from_io (f s))"
  by (rule followsI) (auto simp: from_io_def dest: followsD split: prod.splits)

locale call_relation =
  fixes R :: "'s \<Rightarrow> 's \<Rightarrow> bool"
  assumes refl: "R s s"
    and trans: "R s t \<Longrightarrow> R t u \<Longrightarrow> R s u"
begin

lemma follows_pure: "follows R (\<lambda>s. (r, s))"
  by (simp add: follows_def refl)

lemma follows_obind: "follows R f \<Longrightarrow> (\<And>x. follows R (g x)) \<Longrightarrow> follows R (\<lambda>s. obind (f s) g)"
  by (rule followsI) (auto simp: obind_def dest: followsD intro: trans split: prod.splits sum.splits)

lemma follows_retry_io:
  assumes "follows R f"
  shows "follows R (retry_io core f)"
proof -
  have step: "follows R (\<lambda>s. from_io (f s))" by (rule follows_from_io [OF assms])
  have "follows R (retry_transport n (\<lambda>s. from_io (f s)))" for n
  proof (induction n)
    case 0
    show ?case by (rule followsI) (auto dest: followsD [OF step] split: prod.splits sum.splits)
  next
    case (Suc n)
    show ?case
      by (rule followsI)
        (auto dest: followsD [OF step] followsD [OF Suc.IH] intro: trans split: prod.splits sum.splits)
  qed
  then show ?thesis by (simp add: follows_def retry_io_def)
qed

end

section \<open>Calls that append nothing\<close>

abbreviation quiet :: "'s Server \<Rightarrow> (string \<Rightarrow> Logged \<Rightarrow> bool) \<Rightarrow> ('s \<Rightarrow> 'r \<times> 's) \<Rightarrow> bool" where
  "quiet sv F \<equiv> follows (grows sv F)"

lemma grows_refl [simp]: "grows sv F s s"
  by (simp add: grows_def)

lemma grows_trans: "grows sv F s t \<Longrightarrow> grows sv F t u \<Longrightarrow> grows sv F s u"
proof -
  assume st: "grows sv F s t" and tu: "grows sv F t u"
  show ?thesis
    unfolding grows_def
  proof
    fix stream
    obtain new where "sv_log sv t stream = sv_log sv s stream @ new" "\<forall>m \<in> set new. F stream m"
      using st unfolding grows_def by blast
    moreover obtain new' where "sv_log sv u stream = sv_log sv t stream @ new'" "\<forall>m \<in> set new'. F stream m"
      using tu unfolding grows_def by blast
    ultimately show "\<exists>new. sv_log sv u stream = sv_log sv s stream @ new \<and> (\<forall>m \<in> set new. F stream m)"
      by (intro exI [of _ "new @ new'"]) auto
  qed
qed

interpretation growing: call_relation "grows sv F" for sv F
  by unfold_locales (rule grows_refl, erule grows_trans)

lemmas quietD = followsD [of "grows sv F" for sv F]
lemmas quietI = followsI [of _ "grows sv F" for sv F]
lemmas quiet_obind = growing.follows_obind
lemmas quiet_from_io = follows_from_io [of "grows sv F" for sv F]
lemmas quiet_retry_io = growing.follows_retry_io
lemmas quiet_Inr = growing.follows_pure
lemmas quiet_if = follows_if [of "grows sv F" for sv F]

lemma quiet_triple:
  assumes "quiet sv F f" "\<And>s s'. P s \<Longrightarrow> grows sv F s s' \<Longrightarrow> P s'" "\<And>s. P s \<Longrightarrow> E s"
  shows "triple E P f (\<lambda>_. P)"
  by (rule tripleI) (auto dest: quietD [OF assms(1)] intro: assms(2,3))

lemma jetstream_quiet:
  assumes "jetstream sv F nats"
  shows "quiet sv F (js_stream_info nats stream)" "quiet sv F (js_add_stream nats config)"
    "quiet sv F (js_update_stream nats config)" "quiet sv F (js_key_value nats bucket)"
    "quiet sv F (js_create_key_value nats kvconfig)" "quiet sv F (js_get_last_message nats stream subject)"
    "quiet sv F (js_subscribe nats subject options)"
  using assms by (simp_all add: jetstream_def follows_def)

lemma jetstream_reads:
  "jetstream sv F nats \<Longrightarrow> js_get_last_message nats stream subject s = (r, s') \<Longrightarrow>
    grows sv F s s' \<and> reads_last sv stream subject (r, s')"
  unfolding jetstream_def by (metis snd_conv)

lemma jetstream_delivers:
  "jetstream sv F nats \<Longrightarrow> js_subscribe nats subject
      \<lparr>so_bind_stream = Some stream, so_ordered = False, so_deliver = DeliverAll\<rparr> s = (r, s') \<Longrightarrow>
    grows sv F s s' \<and> delivers sv stream subject (r, s')"
  unfolding jetstream_def by (metis SubscribeOptions.select_convs(1) SubscribeOptions.select_convs(3) snd_conv)

lemma jetstream_publishes:
  "jetstream sv F nats \<Longrightarrow>
    js_publish nats subject headers payload (publish_options core (Some msg_id) stream None) s = (r, s') \<Longrightarrow>
    publishes sv F stream subject headers payload msg_id s (r, s')"
  unfolding jetstream_def publish_options_def by (metis PublishOptions.select_convs(2-4))

lemma jetstream_state: "jetstream sv F nats \<Longrightarrow> server_state sv s"
  by (simp add: jetstream_def)

lemma core_quiet:
  assumes "jetstream sv F (core_context core)"
  shows stream_info_quiet: "quiet sv F (stream_info core stream)"
    and ensure_duplicate_window_quiet: "quiet sv F (ensure_duplicate_window core stream)"
    and add_stream_quiet: "quiet sv F (add_stream_or_widen core stream subjects)"
    and ledger_stream_quiet: "quiet sv F (ledger_ensure_stream core)"
    and ensure_stream_quiet: "quiet sv F (ensure_stream_with_subjects core stream subjects)"
    and ensure_bucket_quiet: "quiet sv F (nkv_ensure_bucket core bucket)"
proof -
  note q = jetstream_quiet [OF assms]
  show info: "quiet sv F (stream_info core stream)" for stream
    by (rule quietI) (auto simp: stream_info_def dest: quietD [OF q(1)] split: prod.splits)
  show window: "quiet sv F (ensure_duplicate_window core stream)" for stream
    unfolding ensure_duplicate_window_def Let_def
    by (intro quiet_obind info) (auto intro!: quiet_obind quiet_from_io q simp: follows_def obind_def
      dest: quietD [OF quiet_from_io [OF q(3)]] split: prod.splits sum.splits)
  show add: "quiet sv F (add_stream_or_widen core stream subjects)" for stream subjects
    unfolding add_stream_or_widen_def Let_def
    by (rule quietI) (auto dest: quietD [OF quiet_retry_io [OF q(2)]] quietD [OF window] intro: grows_trans
      split: prod.splits sum.splits if_splits)
  show "quiet sv F (ledger_ensure_stream core)"
    unfolding ledger_ensure_stream_def
    by (rule quietI) (auto dest: quietD [OF q(1)] quietD [OF window] quietD [OF add] intro: grows_trans
      split: prod.splits sum.splits if_splits)
  show "quiet sv F (ensure_stream_with_subjects core stream subjects)"
    unfolding ensure_stream_with_subjects_def
    by (rule quietI) (auto dest: quietD [OF info] quietD [OF window] quietD [OF add] intro: grows_trans
      split: prod.splits sum.splits if_splits TransportError.splits)
  have store: "quiet sv F (nkv_store core bucket)"
    by (rule quietI) (auto simp: nkv_store_def dest: quietD [OF q(4)] split: prod.splits)
  show "quiet sv F (nkv_ensure_bucket core bucket)"
    unfolding nkv_ensure_bucket_def
    by (rule quietI) (auto dest: quietD [OF store] quietD [OF quiet_retry_io [OF q(5)]] intro: grows_trans
      split: prod.splits sum.splits if_splits TransportError.splits)
qed

section \<open>Reading the last message of a subject\<close>

text \<open>Every probe of the backend has this shape: a value from the last message of a subject, another
  when there is none, and any other error passed on.\<close>

lemma triple_read_last:
  assumes js: "jetstream sv F (core_context core)"
    and grows: "\<And>s s'. P s \<Longrightarrow> grows sv F s s' \<Longrightarrow> P s'" and E: "\<And>s. P s \<Longrightarrow> E s"
    and found: "\<And>s message. P s \<Longrightarrow> on_subject subject (sv_log sv s stream) \<noteq> [] \<Longrightarrow>
      message_of message (last (on_subject subject (sv_log sv s stream))) \<Longrightarrow> Q (f message) s"
    and missing: "\<And>s. P s \<Longrightarrow> on_subject subject (sv_log sv s stream) = [] \<Longrightarrow> Q none s"
  shows "triple E P
    (\<lambda>s. case js_get_last_message (core_context core) stream subject s of
       (Inr message, s) \<Rightarrow> (Inr (f message), s)
     | (Inl err, s) \<Rightarrow> (if is_not_found err then (Inr none, s) else (Inl (Io err), s))) Q"
proof (rule tripleI)
  fix s x s'
  assume pre: "P s" and run: "(case js_get_last_message (core_context core) stream subject s of
       (Inr message, s) \<Rightarrow> (Inr (f message), s)
     | (Inl err, s) \<Rightarrow> (if is_not_found err then (Inr none, s) else (Inl (Io err), s))) = (Inr x, s')"
  then obtain r where read: "js_get_last_message (core_context core) stream subject s = (r, s')"
    and r: "(\<exists>err. r = Inl err \<and> is_not_found err \<and> x = none) \<or> (\<exists>message. r = Inr message \<and> x = f message)"
    by (auto split: prod.splits sum.splits if_splits)
  have "P s'" "reads_last sv stream subject (r, s')" using jetstream_reads [OF js read] grows [OF pre] by auto
  then show "Q x s'" using r found missing by (auto simp: reads_last_def)
next
  fix s e s'
  assume "P s" "(case js_get_last_message (core_context core) stream subject s of
       (Inr message, s) \<Rightarrow> (Inr (f message), s)
     | (Inl err, s) \<Rightarrow> (if is_not_found err then (Inr none, s) else (Inl (Io err), s))) = (Inl e, s')"
  then show "E s'"
    by (auto dest: jetstream_reads [OF js] intro: E grows split: prod.splits sum.splits if_splits)
qed

lemma last_on_subject:
  assumes "on_subject subject log \<noteq> []"
  shows "last (on_subject subject log) \<in> set log" "lg_subject (last (on_subject subject log)) = subject"
  using last_in_set [OF assms] by (auto simp: on_subject_def)

lemma sorted_last:
  assumes "sorted_wrt (<) (map lg_seq log)" "m \<in> set (on_subject subject log)"
  shows "lg_seq m \<le> lg_seq (last (on_subject subject log))"
proof -
  have sorted: "sorted_wrt (<) (map lg_seq (on_subject subject log))"
    using assms(1) by (simp add: on_subject_def sorted_wrt_map sorted_wrt_filter)
  show ?thesis
  proof (cases "on_subject subject log" rule: rev_cases)
    case (snoc ms l)
    then show ?thesis using sorted assms(2) by (auto simp: sorted_wrt_append less_imp_le)
  qed (use assms(2) in simp)
qed

section \<open>Scanning a subject's history\<close>

lemma scan_loop_Some: "scan_loop final last_sequence on_message ms = Inr (Some x) \<Longrightarrow> \<exists>m \<in> set ms. on_message m = Inr (Some x)"
  by (induction ms) (auto split: option.splits if_splits)

lemma delivers_logged:
  assumes "delivers sv stream subject (Inr sub, s)" "m \<in> set (sub_messages sub)"
  shows "\<exists>l \<in> set (on_subject subject (sv_log sv s stream)). delivery_of m l"
proof -
  obtain retained n where "suffix retained (on_subject subject (sv_log sv s stream))"
    "list_all2 delivery_of (sub_messages sub) (take n retained)"
    using assms(1) by (auto simp: delivers_def)
  then show ?thesis
    using assms(2) set_mono_suffix by (fastforce simp: list_all2_conv_all_nth in_set_conv_nth dest: in_set_takeD)
qed

lemma last_subject_sequence_triple:
  assumes "jetstream sv F (core_context core)" "\<And>s s'. P s \<Longrightarrow> grows sv F s s' \<Longrightarrow> P s'" "\<And>s. P s \<Longrightarrow> E s"
  shows "triple E P (last_subject_sequence core stream subject)
    (\<lambda>found s. P s \<and> (case found of
        None \<Rightarrow> on_subject subject (sv_log sv s stream) = []
      | Some seq \<Rightarrow> on_subject subject (sv_log sv s stream) \<noteq> []
          \<and> seq = lg_seq (last (on_subject subject (sv_log sv s stream)))))"
  unfolding last_subject_sequence_def
  by (rule triple_read_last [OF assms(1,2)]) (auto simp: message_of_def intro: assms(3))

lemma scan_triple:
  assumes js: "jetstream sv F (core_context core)"
    and grows: "\<And>s s'. P s \<Longrightarrow> grows sv F s s' \<Longrightarrow> P s'" and E: "\<And>s. P s \<Longrightarrow> E s"
    and found: "\<And>s m l x. P s \<Longrightarrow> l \<in> set (on_subject subject (sv_log sv s stream)) \<Longrightarrow> delivery_of m l \<Longrightarrow>
      on_message m = Inr (Some x) \<Longrightarrow> Q (Some x) s"
    and missing: "\<And>s. P s \<Longrightarrow> Q None s"
  shows "triple E P (scan_subject_history_until core stream subject on_message) Q"
  unfolding scan_subject_history_until_def
proof (intro triple_obind [OF last_subject_sequence_triple [OF js grows E]] triple_option)
  fix seen and last_sequence :: u64
  show "triple E (\<lambda>s. P s \<and> (case seen of None \<Rightarrow> on_subject subject (sv_log sv s stream) = []
        | Some seq \<Rightarrow> on_subject subject (sv_log sv s stream) \<noteq> []
            \<and> seq = lg_seq (last (on_subject subject (sv_log sv s stream)))))
     (\<lambda>s. case js_subscribe (core_context core) subject
             \<lparr>so_bind_stream = Some stream, so_ordered = False, so_deliver = DeliverAll\<rparr> s of
        (Inl err, s) \<Rightarrow> if is_not_found err then (Inr None, s) else (Inl (Io err), s)
      | (Inr subscription, s) \<Rightarrow>
          (scan_loop (scan_timeout stream subject last_sequence (sub_error subscription)) last_sequence on_message
            (sub_messages subscription), s)) Q"
  proof (rule tripleI, goal_cases)
    case (1 s x s')
    then obtain r where sub: "js_subscribe (core_context core) subject
        \<lparr>so_bind_stream = Some stream, so_ordered = False, so_deliver = DeliverAll\<rparr> s = (r, s')"
      by (auto split: prod.splits sum.splits if_splits)
    note d = jetstream_delivers [OF js sub]
    then have "P s'" using 1(1) grows by blast
    moreover have "\<exists>m l. l \<in> set (on_subject subject (sv_log sv s' stream)) \<and> delivery_of m l \<and> on_message m = Inr (Some y)"
      if y: "x = Some y" for y
    proof -
      obtain subscription m where "r = Inr subscription" "m \<in> set (sub_messages subscription)" "on_message m = Inr (Some y)"
        using 1(2) sub y by (auto dest: scan_loop_Some split: sum.splits if_splits)
      then show ?thesis using d delivers_logged [of sv stream subject subscription s' m] by auto
    qed
    ultimately show ?case using found missing by (cases x) blast+
  next
    case (2 s e s')
    then show ?case
      by (auto dest!: jetstream_delivers [OF js] intro!: E intro: grows split: prod.splits sum.splits if_splits)
  qed
qed (auto intro: triple_Inr missing)

text \<open>The messages of one subject within a log.\<close>

lemma on_subject_append [simp]: "on_subject subject (xs @ ys) = on_subject subject xs @ on_subject subject ys"
  by (simp add: on_subject_def)

lemma on_subject_sorted:
  "sorted_wrt (<) (map lg_seq log) \<Longrightarrow> sorted_wrt (<) (map lg_seq (on_subject subject log))"
  by (simp add: on_subject_def sorted_wrt_map sorted_wrt_filter)

end
