(* ===== verification/Nats_Idempotence.thy ===== *)
theory Nats_Idempotence
  imports Nats_Server
begin

text \<open>
  The idempotent put of a key (\<open>kv.rs\<close>) on an unreliable server. For one write, named by its bucket,
  key and idempotency key, the logs of the bucket's stream and of the ledger keep an invariant
  through every call, successful or not, and through whatever other clients append: the write
  is in the log at most once, after its marker, and whatever records it as applied
  is there only if it is.
\<close>

section \<open>One write and its messages\<close>

record KvWrite =
  kw_bucket :: string
  kw_key :: string
  kw_id :: string

abbreviation kw_stream :: "KvWrite \<Rightarrow> string" where
  "kw_stream w \<equiv> kv_stream_name (kw_bucket w)"

abbreviation kw_subject :: "KvWrite \<Rightarrow> string" where
  "kw_subject w \<equiv> kv_subject (kw_bucket w) (kw_key w)"

abbreviation kw_marker :: "KvWrite \<Rightarrow> string" where
  "kw_marker w \<equiv> writeback_marker_subject (kw_bucket w) (kw_id w)"

abbreviation kw_applied :: "KvWrite \<Rightarrow> string" where
  "kw_applied w \<equiv> applied_marker_subject (kw_bucket w) (kw_id w)"

abbreviation kw_marker_id :: "KvWrite \<Rightarrow> string" where
  "kw_marker_id w \<equiv> ''writeback-marker:'' @ kw_id w"

abbreviation kw_ledger :: "KvWrite \<Rightarrow> string" where
  "kw_ledger w \<equiv> kv_writeback_ledger_key (kw_bucket w) (kw_key w) (kw_id w)"

definition target :: "KvWrite \<Rightarrow> Logged \<Rightarrow> bool" where
  "target w m \<longleftrightarrow> lg_subject m = kw_subject w \<and> headers_contain_idempotency_key (lg_headers m) (kw_id w)"

text \<open>What other clients do not do: write to the reserved keys or the ledger entry of this write, or use
  its idempotency key or message ids.\<close>

definition others :: "KvWrite \<Rightarrow> string \<Rightarrow> Logged \<Rightarrow> bool" where
  "others w stream m \<longleftrightarrow>
     (stream = kw_stream w \<longrightarrow>
        lg_subject m \<noteq> kw_marker w \<and> lg_subject m \<noteq> kw_applied w \<and> \<not> target w m
        \<and> lg_id m \<noteq> Some (kw_id w) \<and> lg_id m \<noteq> Some (kw_marker_id w))
     \<and> (stream = LEDGER_STREAM \<longrightarrow> lg_subject m \<noteq> ledger_subject (kw_ledger w))"

text \<open>The write took effect: it is in the log, or the key was written again after its marker.\<close>

definition took_effect :: "KvWrite \<Rightarrow> Logged list \<Rightarrow> bool" where
  "took_effect w log \<longleftrightarrow>
     (\<exists>m \<in> set log. target w m)
     \<or> (\<exists>mk \<in> set log. \<exists>m \<in> set log. lg_subject mk = kw_marker w \<and> lg_subject m = kw_subject w \<and> lg_seq mk < lg_seq m)"

definition kv_log_inv :: "MarkerSerde \<Rightarrow> KvWrite \<Rightarrow> Logged list \<Rightarrow> Logged list \<Rightarrow> bool" where
  "kv_log_inv serde w log ledger \<longleftrightarrow>
     length (filter (target w) log) \<le> 1
     \<and> (\<forall>m \<in> set log. lg_subject m = kw_marker w \<longrightarrow>
          marker_matches serde (lg_data m) WRITEBACK_MARKER_OPERATION (kw_key w) (kw_id w))
     \<and> (\<forall>t \<in> set log. target w t \<longrightarrow>
          on_subject (kw_marker w) log \<noteq> [] \<and> (\<forall>mk \<in> set (on_subject (kw_marker w) log). lg_seq mk < lg_seq t))
     \<and> (\<forall>m \<in> set log. lg_id m = Some (kw_id w) \<longrightarrow> target w m)
     \<and> (\<forall>m \<in> set log. lg_id m = Some (kw_marker_id w) \<longrightarrow> lg_subject m = kw_marker w)
     \<and> (on_subject (kw_applied w) log \<noteq> [] \<longrightarrow> took_effect w log)
     \<and> (on_subject (ledger_subject (kw_ledger w)) ledger \<noteq> [] \<longrightarrow> took_effect w log)"

lemma took_effect_append: "took_effect w log \<Longrightarrow> took_effect w (log @ new)"
  unfolding took_effect_def by auto

lemma on_subject_others:
  "\<forall>m \<in> set new. others w (kw_stream w) m \<Longrightarrow> on_subject (kw_marker w) new = []"
  "\<forall>m \<in> set new. others w (kw_stream w) m \<Longrightarrow> on_subject (kw_applied w) new = []"
  "\<forall>m \<in> set new. others w (kw_stream w) m \<Longrightarrow> filter (target w) new = []"
  "\<forall>m \<in> set new. others w LEDGER_STREAM m \<Longrightarrow> on_subject (ledger_subject (kw_ledger w)) new = []"
  by (auto simp: on_subject_def others_def filter_empty_conv)

lemma kv_log_inv_others:
  assumes "kv_log_inv serde w log ledger" "\<forall>m \<in> set new. others w (kw_stream w) m"
    and "\<forall>m \<in> set new'. others w LEDGER_STREAM m"
  shows "kv_log_inv serde w (log @ new) (ledger @ new')"
proof -
  have new: "\<not> target w m" "lg_subject m \<noteq> kw_marker w" "lg_id m \<noteq> Some (kw_id w)"
    "lg_id m \<noteq> Some (kw_marker_id w)" if "m \<in> set new" for m
    using assms(2) that by (auto simp: others_def)
  show ?thesis
    using assms(1) on_subject_others(1-3) [OF assms(2)] on_subject_others(4) [OF assms(3)]
    by (auto simp: kv_log_inv_def dest: new took_effect_append)
qed

lemma not_header_get_Nil [simp]: "header_get None name = None"
  by (simp add: header_get_def)

lemma logged_without_headers:
  "logged_as subject None payload msg_id m \<Longrightarrow> \<not> target w m"
  by (auto simp: logged_as_def target_def headers_contain_idempotency_key_def WRITEBACK_IDEMPOTENCY_HEADER_def
    NATS_MSG_ID_def)

lemma kv_log_inv_marker:
  assumes "kv_log_inv serde w log ledger" "filter (target w) log = []"
    and "logged_as (kw_marker w) None payload (kw_marker_id w) m"
    and "marker_matches serde payload WRITEBACK_MARKER_OPERATION (kw_key w) (kw_id w)"
  shows "kv_log_inv serde w (log @ [m]) ledger"
proof -
  have m: "lg_subject m = kw_marker w" "lg_data m = payload" "lg_id m = Some (kw_marker_id w)" "\<not> target w m"
    using assms(3) logged_without_headers by (auto simp: logged_as_def)
  then have "on_subject (kw_applied w) [m] = []"
    using marker_subjects_distinct(1) by (simp add: on_subject_def)
  then show ?thesis
    using assms(1,2,4) m by (auto simp: kv_log_inv_def filter_empty_conv dest: took_effect_append)
qed

lemma kv_log_inv_target:
  assumes "kv_log_inv serde w log ledger" "filter (target w) log = []" "on_subject (kw_marker w) log \<noteq> []"
    and "logged_as (kw_subject w) (Some [(WRITEBACK_IDEMPOTENCY_HEADER, kw_id w)]) payload (kw_id w) m"
    and "\<not> is_reserved_kv_key (kw_key w)" "\<forall>x \<in> set log. lg_seq x < lg_seq m"
  shows "kv_log_inv serde w (log @ [m]) ledger \<and> target w m"
proof -
  have m: "lg_subject m = kw_subject w" "lg_id m = Some (kw_id w)" "target w m"
    using assms(4) by (auto simp: logged_as_def target_def headers_contain_idempotency_key_def header_get_def
      WRITEBACK_IDEMPOTENCY_HEADER_def NATS_MSG_ID_def)
  have "on_subject (kw_marker w) [m] = []" "on_subject (kw_applied w) [m] = []"
    using m(1) marker_subjects_distinct(2,3) [OF assms(5)] by (auto simp: on_subject_def)
  moreover have "\<forall>x \<in> set (on_subject (kw_marker w) log). lg_seq x < lg_seq m"
    using assms(6) by (auto simp: on_subject_def)
  moreover have "took_effect w (log @ [m])" using m(3) by (auto simp: took_effect_def)
  ultimately show ?thesis
    using assms(1-3) m marker_subjects_distinct(2) [OF assms(5)]
    by (auto simp: kv_log_inv_def filter_empty_conv)
qed

lemma kv_log_inv_applied_marker:
  assumes "kv_log_inv serde w log ledger" "took_effect w log"
    and "logged_as (kw_applied w) None payload (''writeback-applied-marker:'' @ kw_id w) m"
  shows "kv_log_inv serde w (log @ [m]) ledger"
proof -
  have m: "lg_subject m = kw_applied w" "lg_id m = Some (''writeback-applied-marker:'' @ kw_id w)" "\<not> target w m"
    using assms(3) logged_without_headers by (auto simp: logged_as_def)
  have ids: "''writeback-applied-marker:'' @ kw_id w \<noteq> kw_id w"
    "''writeback-applied-marker:'' @ kw_id w \<noteq> kw_marker_id w"
    using arg_cong [of "''writeback-applied-marker:'' @ kw_id w" "kw_id w" length] by auto
  have "on_subject (kw_marker w) [m] = []"
    using m(1) marker_subjects_distinct(1) [symmetric] by (simp add: on_subject_def)
  then show ?thesis
    using assms(1,2) m ids marker_subjects_distinct(1) [symmetric]
    by (auto simp: kv_log_inv_def dest: took_effect_append)
qed

lemma kv_log_inv_ledger:
  "kv_log_inv serde w log ledger \<Longrightarrow> took_effect w log \<Longrightarrow> kv_log_inv serde w log (ledger @ new)"
  by (auto simp: kv_log_inv_def)

end
