(* ===== verification/Nats_Idempotence_Calls.thy ===== *)
theory Nats_Idempotence_Calls
  imports Nats_Idempotence
begin

text \<open>
  Every call of the idempotent put as a triple over the states of one write: nothing known
  (\<open>kv_inv\<close>), not in the log (\<open>unwritten\<close>), not in the log but marked (\<open>marked\<close>), in effect
  (\<open>effective\<close>).
\<close>

definition kv_inv :: "'s Server \<Rightarrow> MarkerSerde \<Rightarrow> KvWrite \<Rightarrow> 's \<Rightarrow> bool" where
  "kv_inv sv serde w s \<longleftrightarrow> kv_log_inv serde w (sv_log sv s (kw_stream w)) (sv_log sv s LEDGER_STREAM)"

definition unwritten :: "'s Server \<Rightarrow> MarkerSerde \<Rightarrow> KvWrite \<Rightarrow> 's \<Rightarrow> bool" where
  "unwritten sv serde w s \<longleftrightarrow> kv_inv sv serde w s \<and> filter (target w) (sv_log sv s (kw_stream w)) = []"

definition marked :: "'s Server \<Rightarrow> MarkerSerde \<Rightarrow> KvWrite \<Rightarrow> 's \<Rightarrow> bool" where
  "marked sv serde w s \<longleftrightarrow> unwritten sv serde w s \<and> on_subject (kw_marker w) (sv_log sv s (kw_stream w)) \<noteq> []"

definition effective :: "'s Server \<Rightarrow> MarkerSerde \<Rightarrow> KvWrite \<Rightarrow> 's \<Rightarrow> bool" where
  "effective sv serde w s \<longleftrightarrow> kv_inv sv serde w s \<and> took_effect w (sv_log sv s (kw_stream w))"

lemmas kv_state_defs = kv_inv_def unwritten_def marked_def effective_def

lemma growsD:
  assumes "grows sv F s s'"
  obtains new where "sv_log sv s' stream = sv_log sv s stream @ new" "\<forall>m \<in> set new. F stream m"
  using assms unfolding grows_def by blast

lemma kv_inv_grows: "kv_inv sv serde w s \<Longrightarrow> grows sv (others w) s s' \<Longrightarrow> kv_inv sv serde w s'"
  unfolding kv_inv_def by (metis growsD kv_log_inv_others)

lemma targets_grow:
  assumes "grows sv (others w) s s'"
  shows "filter (target w) (sv_log sv s' (kw_stream w)) = filter (target w) (sv_log sv s (kw_stream w))"
    and "on_subject (kw_marker w) (sv_log sv s' (kw_stream w)) = on_subject (kw_marker w) (sv_log sv s (kw_stream w))"
  by (rule growsD [OF assms, of "kw_stream w"], simp add: on_subject_others)+

lemma took_effect_grows:
  "grows sv (others w) s s' \<Longrightarrow> took_effect w (sv_log sv s (kw_stream w)) \<Longrightarrow> took_effect w (sv_log sv s' (kw_stream w))"
  by (metis growsD took_effect_append)

lemma unwritten_grows: "unwritten sv serde w s \<Longrightarrow> grows sv (others w) s s' \<Longrightarrow> unwritten sv serde w s'"
  using kv_inv_grows targets_grow(1) by (fastforce simp: unwritten_def)

lemma marked_grows: "marked sv serde w s \<Longrightarrow> grows sv (others w) s s' \<Longrightarrow> marked sv serde w s'"
  using unwritten_grows targets_grow(2) by (fastforce simp: marked_def)

lemma effective_grows: "effective sv serde w s \<Longrightarrow> grows sv (others w) s s' \<Longrightarrow> effective sv serde w s'"
  using kv_inv_grows took_effect_grows by (fastforce simp: effective_def)

lemma growsI:
  assumes "sv_log sv s' stream = sv_log sv s stream @ new" "\<forall>m \<in> set new. F stream m"
    and "\<forall>other. other \<noteq> stream \<longrightarrow> (\<exists>new. sv_log sv s' other = sv_log sv s other @ new \<and> (\<forall>m \<in> set new. F other m))"
  shows "grows sv F s s'"
  unfolding grows_def using assms by metis

section \<open>Publications\<close>

lemma publishes_split:
  assumes "publishes sv F stream subject headers payload msg_id s (r, s')"
  obtains before own later where
    "sv_log sv s' stream = sv_log sv s stream @ before @ own @ later"
    "\<forall>m \<in> set before. F stream m" "\<forall>m \<in> set later. F stream m"
    "own = [] \<or> (\<exists>m. own = [m] \<and> logged_as subject headers payload msg_id m)"
    "sv_recent sv s stream msg_id \<longrightarrow> own = [] \<and> sv_recent sv s' stream msg_id"
    "own \<noteq> [] \<longrightarrow> sv_recent sv s' stream msg_id"
    "is_ok r \<longrightarrow> own \<noteq> [] \<or> sv_recent sv s stream msg_id"
    "\<forall>other. other \<noteq> stream \<longrightarrow> (\<exists>new. sv_log sv s' other = sv_log sv s other @ new \<and> (\<forall>m \<in> set new. F other m))"
  using assms unfolding publishes_def prod.case ball_Un by (elim conjE exE) (rule that, assumption+)

text \<open>A publication into the bucket's stream, when its message keeps the invariant.\<close>

lemma kv_publish_inv:
  assumes "publishes sv (others w) (kw_stream w) subject headers payload msg_id s (r, s')" "kv_inv sv serde w s"
    and "\<And>log ledger m. kv_log_inv serde w log ledger \<Longrightarrow> logged_as subject headers payload msg_id m \<Longrightarrow>
      prefix (sv_log sv s (kw_stream w)) log \<Longrightarrow>
      filter (target w) log = filter (target w) (sv_log sv s (kw_stream w)) \<Longrightarrow>
      on_subject (kw_marker w) log = on_subject (kw_marker w) (sv_log sv s (kw_stream w)) \<Longrightarrow>
      (\<exists>later. sv_log sv s' (kw_stream w) = log @ m # later) \<Longrightarrow> kv_log_inv serde w (log @ [m]) ledger"
  shows "kv_inv sv serde w s'"
proof -
  let ?L = "sv_log sv s (kw_stream w)"
  obtain before own later where split: "sv_log sv s' (kw_stream w) = ?L @ before @ own @ later"
    "\<forall>m \<in> set before. others w (kw_stream w) m" "\<forall>m \<in> set later. others w (kw_stream w) m"
    "own = [] \<or> (\<exists>m. own = [m] \<and> logged_as subject headers payload msg_id m)"
    and ledger: "\<exists>new. sv_log sv s' LEDGER_STREAM = sv_log sv s LEDGER_STREAM @ new \<and> (\<forall>m \<in> set new. others w LEDGER_STREAM m)"
    using publishes_split [OF assms(1)] ledger_stream_distinct(1) by metis
  obtain new where new: "sv_log sv s' LEDGER_STREAM = sv_log sv s LEDGER_STREAM @ new" "\<forall>m \<in> set new. others w LEDGER_STREAM m"
    using ledger by blast
  have inv: "kv_log_inv serde w (?L @ before) (sv_log sv s' LEDGER_STREAM)"
    unfolding new(1) using assms(2) split(2) new(2) by (auto simp: kv_inv_def intro: kv_log_inv_others)
  have "kv_log_inv serde w ((?L @ before) @ own) (sv_log sv s' LEDGER_STREAM)"
  proof (cases "own = []")
    case False
    then obtain m where "own = [m]" "logged_as subject headers payload msg_id m" using split(4) by auto
    then show ?thesis
      using assms(3) [OF inv, of m] split(1) on_subject_others(1,3) [OF split(2)] by auto
  qed (use inv in simp)
  from kv_log_inv_others [OF this split(3), of "[]"]
  show ?thesis unfolding kv_inv_def split(1) by simp
qed

lemma marker_published:
  assumes "publishes sv (others w) (kw_stream w) (kw_marker w) None payload (kw_marker_id w) s (r, s')"
    and "unwritten sv serde w s" "server_state sv s"
    and "marker_matches serde payload WRITEBACK_MARKER_OPERATION (kw_key w) (kw_id w)"
  shows "unwritten sv serde w s'" "is_ok r \<Longrightarrow> marked sv serde w s'"
proof -
  obtain before own later where split: "sv_log sv s' (kw_stream w) = sv_log sv s (kw_stream w) @ before @ own @ later"
    "\<forall>m \<in> set before. others w (kw_stream w) m" "\<forall>m \<in> set later. others w (kw_stream w) m"
    "own = [] \<or> (\<exists>m. own = [m] \<and> logged_as (kw_marker w) None payload (kw_marker_id w) m)"
    "is_ok r \<longrightarrow> own \<noteq> [] \<or> sv_recent sv s (kw_stream w) (kw_marker_id w)"
    using publishes_split [OF assms(1)] by metis
  have "kv_inv sv serde w s'"
    using assms(2,4) by (intro kv_publish_inv [OF assms(1)]) (auto simp: unwritten_def intro: kv_log_inv_marker)
  moreover have "filter (target w) own = []" using split(4) logged_without_headers by auto
  ultimately show un: "unwritten sv serde w s'"
    using assms(2) on_subject_others(3) [OF split(2)] on_subject_others(3) [OF split(3)] split(1)
    by (simp add: unwritten_def)
  assume ok: "is_ok r"
  have "on_subject (kw_marker w) (sv_log sv s' (kw_stream w)) \<noteq> []"
  proof (cases "own = []")
    case True
    then obtain m where "m \<in> set (sv_log sv s (kw_stream w))" "lg_id m = Some (kw_marker_id w)"
      using split(5) ok assms(3) unfolding server_state_def by blast
    then have "m \<in> set (on_subject (kw_marker w) (sv_log sv s (kw_stream w)))"
      using assms(2) by (auto simp: unwritten_def kv_inv_def kv_log_inv_def on_subject_def)
    then show ?thesis unfolding split(1) by auto
  next
    case False
    then show ?thesis using split(1,4) by (auto simp: on_subject_def logged_as_def)
  qed
  with un show "marked sv serde w s'" by (simp add: marked_def)
qed

lemma sorted_before: "sorted_wrt (<) (map lg_seq (log @ m # later)) \<Longrightarrow> x \<in> set log \<Longrightarrow> lg_seq x < lg_seq m"
  by (auto simp: sorted_wrt_append)

text \<open>While the write itself is being published: it is not there yet, or it is and the
  duplicate window knows it.\<close>

definition publishing :: "'s Server \<Rightarrow> MarkerSerde \<Rightarrow> KvWrite \<Rightarrow> 's \<Rightarrow> bool" where
  "publishing sv serde w s \<longleftrightarrow>
     marked sv serde w s \<or>
     (kv_inv sv serde w s \<and> filter (target w) (sv_log sv s (kw_stream w)) \<noteq> [] \<and> sv_recent sv s (kw_stream w) (kw_id w))"

lemma target_published:
  assumes "publishes sv (others w) (kw_stream w) (kw_subject w)
      (Some [(WRITEBACK_IDEMPOTENCY_HEADER, kw_id w)]) payload (kw_id w) s (r, s')"
    and "publishing sv serde w s" "server_state sv s" "server_state sv s'" "\<not> is_reserved_kv_key (kw_key w)"
  shows "publishing sv serde w s'" "is_ok r \<Longrightarrow> effective sv serde w s'"
proof -
  let ?L = "sv_log sv s (kw_stream w)"
  obtain before own later where split: "sv_log sv s' (kw_stream w) = ?L @ before @ own @ later"
    "\<forall>m \<in> set before. others w (kw_stream w) m" "\<forall>m \<in> set later. others w (kw_stream w) m"
    "own = [] \<or> (\<exists>m. own = [m] \<and> logged_as (kw_subject w) (Some [(WRITEBACK_IDEMPOTENCY_HEADER, kw_id w)]) payload (kw_id w) m)"
    "sv_recent sv s (kw_stream w) (kw_id w) \<longrightarrow> own = [] \<and> sv_recent sv s' (kw_stream w) (kw_id w)"
    "own \<noteq> [] \<longrightarrow> sv_recent sv s' (kw_stream w) (kw_id w)"
    "is_ok r \<longrightarrow> own \<noteq> [] \<or> sv_recent sv s (kw_stream w) (kw_id w)"
    and other: "\<forall>other. other \<noteq> kw_stream w \<longrightarrow>
      (\<exists>new. sv_log sv s' other = sv_log sv s other @ new \<and> (\<forall>m \<in> set new. others w other m))"
    by (rule publishes_split [OF assms(1)]) (rule that)
  have I: "kv_inv sv serde w s" using assms(2) by (auto simp: publishing_def marked_def unwritten_def)
  have recent: "filter (target w) ?L \<noteq> []" if known: "sv_recent sv s (kw_stream w) (kw_id w)"
  proof -
    obtain m where "m \<in> set ?L" "lg_id m = Some (kw_id w)"
      using known assms(3) unfolding server_state_def by blast
    then have "target w m" using I by (auto simp: kv_inv_def kv_log_inv_def)
    with \<open>m \<in> set ?L\<close> show ?thesis by (auto simp: filter_empty_conv)
  qed
  have eff: "effective sv serde w s'" if "kv_inv sv serde w s'" "filter (target w) (sv_log sv s' (kw_stream w)) \<noteq> []"
    using that by (auto simp: effective_def took_effect_def filter_empty_conv)
  have "publishing sv serde w s' \<and> (is_ok r \<longrightarrow> effective sv serde w s')"
  proof (cases "own = []")
    case True
    have "grows sv (others w) s s'"
      using split(1-3) True by (intro growsI [OF _ _ other, of "before @ later"]) auto
    then show ?thesis
      using assms(2) split(5,7) True recent eff kv_inv_grows [OF I] marked_grows targets_grow(1)
      unfolding publishing_def by (metis (no_types, lifting))
  next
    case False
    then have marked: "marked sv serde w s" using assms(2) split(5) by (auto simp: publishing_def)
    obtain m where m: "own = [m]" "logged_as (kw_subject w) (Some [(WRITEBACK_IDEMPOTENCY_HEADER, kw_id w)]) payload (kw_id w) m"
      using False split(4) by blast
    have sorted: "sorted_wrt (<) (map lg_seq (sv_log sv s' (kw_stream w)))"
      using assms(4) by (simp add: server_state_def)
    have step: "kv_log_inv serde w (log @ [m]) ledger"
      if "kv_log_inv serde w log ledger"
        "logged_as (kw_subject w) (Some [(WRITEBACK_IDEMPOTENCY_HEADER, kw_id w)]) payload (kw_id w) m"
        "filter (target w) log = filter (target w) ?L" "on_subject (kw_marker w) log = on_subject (kw_marker w) ?L"
        "\<exists>later. sv_log sv s' (kw_stream w) = log @ m # later" for log ledger m
      using that marked sorted sorted_before assms(5)
      by (intro conjunct1 [OF kv_log_inv_target]) (auto simp: marked_def unwritten_def)
    have "kv_inv sv serde w s'" by (rule kv_publish_inv [OF assms(1) I step])
    moreover have "target w m"
      using m(2) by (auto simp: logged_as_def target_def headers_contain_idempotency_key_def header_get_def
        WRITEBACK_IDEMPOTENCY_HEADER_def NATS_MSG_ID_def)
    then have "filter (target w) (sv_log sv s' (kw_stream w)) \<noteq> []" using split(1) m(1) by simp
    ultimately show ?thesis using eff split(6) False by (auto simp: publishing_def)
  qed
  then show "publishing sv serde w s'" "is_ok r \<Longrightarrow> effective sv serde w s'" by auto
qed

end
