(* ===== verification/Nats_Kv_Once.thy ===== *)
theory Nats_Kv_Once
  imports Nats_Idempotence_Calls
begin

text \<open>
  The idempotent put as a whole: through any sequence of attempts, failing or not, mixed with
  whatever other clients append and with the duplicate window forgetting, the write is appended
  at most once, and an attempt that answers \<open>Ok\<close> means it took effect.
\<close>

section \<open>Recording a write that took effect\<close>

lemma effective_inv: "effective sv serde w s \<Longrightarrow> kv_inv sv serde w s"
  and unwritten_inv: "unwritten sv serde w s \<Longrightarrow> kv_inv sv serde w s"
  and marked_inv: "marked sv serde w s \<Longrightarrow> kv_inv sv serde w s"
  and publishing_inv: "publishing sv serde w s \<Longrightarrow> kv_inv sv serde w s"
  by (auto simp: effective_def unwritten_def marked_def publishing_def)

lemma publishes_took_effect:
  "publishes sv (others w) stream subject headers payload msg_id s (r, s') \<Longrightarrow>
    took_effect w (sv_log sv s (kw_stream w)) \<Longrightarrow> took_effect w (sv_log sv s' (kw_stream w))"
  by (cases "stream = kw_stream w"; erule publishes_split) (metis took_effect_append)+

lemma applied_marker_published:
  assumes "publishes sv (others w) (kw_stream w) (kw_applied w) None payload
      (''writeback-applied-marker:'' @ kw_id w) s (r, s')" "effective sv serde w s"
  shows "effective sv serde w s'"
proof -
  have "kv_inv sv serde w s'"
  proof (rule kv_publish_inv [OF assms(1) effective_inv [OF assms(2)]])
    fix log ledger m
    assume "kv_log_inv serde w log ledger" "prefix (sv_log sv s (kw_stream w)) log"
      "logged_as (kw_applied w) None payload (''writeback-applied-marker:'' @ kw_id w) m"
    moreover have "took_effect w log"
      using assms(2) \<open>prefix _ log\<close> took_effect_append by (auto simp: effective_def prefix_def)
    ultimately show "kv_log_inv serde w (log @ [m]) ledger" by (intro kv_log_inv_applied_marker)
  qed
  then show ?thesis using assms publishes_took_effect by (auto simp: effective_def)
qed

lemma ledger_published:
  assumes "publishes sv (others w) LEDGER_STREAM subject headers payload msg_id s (r, s')" "effective sv serde w s"
  shows "effective sv serde w s'"
proof -
  obtain new where new: "sv_log sv s' LEDGER_STREAM = sv_log sv s LEDGER_STREAM @ new"
    using assms(1) by (elim publishes_split) auto
  obtain more where more: "sv_log sv s' (kw_stream w) = sv_log sv s (kw_stream w) @ more"
    "\<forall>m \<in> set more. others w (kw_stream w) m"
    using publishes_split [OF assms(1)] ledger_stream_distinct(1) by metis
  have "kv_log_inv serde w (sv_log sv s' (kw_stream w)) (sv_log sv s LEDGER_STREAM)"
    using assms(2) more kv_log_inv_others [of serde w _ _ more "[]"] by (simp add: effective_def kv_inv_def)
  moreover have "took_effect w (sv_log sv s' (kw_stream w))"
    using assms publishes_took_effect by (auto simp: effective_def)
  ultimately show ?thesis by (auto simp: effective_def kv_inv_def new intro: kv_log_inv_ledger)
qed

lemma record_applied_triple:
  assumes "jetstream sv (others w) (core_context core)"
  shows "triple (kv_inv sv serde w) (effective sv serde w) (record_applied core ledger_key) (\<lambda>_. effective sv serde w)"
proof -
  have publish: "triple (kv_inv sv serde w) (effective sv serde w)
      (retry_io core (js_publish (core_context core) (ledger_subject ledger_key) None (as_bytes ledger_key)
        (publish_options core (Some publish_id) LEDGER_STREAM None))) (\<lambda>_. effective sv serde w)" for publish_id
    by (rule triple_retry_io)
      (auto intro: ledger_published [OF jetstream_publishes [OF assms]] effective_inv)
  show ?thesis
    unfolding record_applied_def Let_def
    by (intro triple_obind [OF quiet_triple [OF ledger_stream_quiet [OF assms]]] triple_obind [OF publish] triple_Inr)
      (auto intro: effective_grows effective_inv)
qed

lemma marker_payload_matches:
  assumes "\<And>m bs. marker_to_vec serde m = Inr bs \<Longrightarrow> marker_from_slice serde bs = Inr m"
    and "marker_payload serde operation key ik = Inr payload"
  shows "marker_matches serde payload operation key ik"
  using assms by (auto simp: marker_payload_def marker_matches_def map_err_def split: sum.splits)

lemma publish_marker_triple:
  assumes js: "jetstream sv (others w) (core_context core)"
    and "\<And>s s'. P s \<Longrightarrow> grows sv (others w) s s' \<Longrightarrow> P s'" "\<And>s. P s \<Longrightarrow> kv_inv sv serde w s"
    and "\<And>s r s' payload. P s \<Longrightarrow> marker_payload serde operation key ik = Inr payload \<Longrightarrow>
      publishes sv (others w) (kw_stream w) subject None payload msg_id s (r, s') \<Longrightarrow> P s' \<and> (is_ok r \<longrightarrow> Q s')"
  shows "triple (kv_inv sv serde w) P
    (publish_marker core serde (kw_bucket w) subject operation msg_id key ik) (\<lambda>_. Q)"
  unfolding publish_marker_def
proof (intro triple_obind [OF quiet_triple [OF ensure_bucket_quiet [OF js]]]
    triple_obind [OF quiet_triple [OF ensure_duplicate_window_quiet [OF js]]] triple_sum)
  fix payload
  assume payload: "marker_payload serde operation key ik = Inr payload"
  show "triple (kv_inv sv serde w) P (retry_io core (js_publish (core_context core) subject None payload
      (publish_options core (Some msg_id) (kw_stream w) None))) (\<lambda>_. Q)"
    by (rule triple_retry_io)
      (use assms(4) [OF _ payload jetstream_publishes [OF js]] assms(3) in \<open>force simp: is_ok_def\<close>)+
qed (auto intro: triple_Inl assms(2,3))

section \<open>The probes\<close>

text \<open>What a probe for an applied write tells: the write took effect, or \<open>R\<close>.\<close>

definition probed :: "'s Server \<Rightarrow> MarkerSerde \<Rightarrow> KvWrite \<Rightarrow> ('s \<Rightarrow> bool) \<Rightarrow> 'a option \<Rightarrow> 's \<Rightarrow> bool" where
  "probed sv serde w R found s \<longleftrightarrow> (if found = None then R s else effective sv serde w s)"

lemma probed_simps [simp]:
  "probed sv serde w R None s \<longleftrightarrow> R s"
  "probed sv serde w R (Some x) s \<longleftrightarrow> effective sv serde w s"
  by (simp_all add: probed_def)

lemma probed_fun:
  "probed sv serde w R None = R" "probed sv serde w R (Some x) = effective sv serde w"
  by (simp_all add: fun_eq_iff)

lemma effective_recorded:
  "kv_inv sv serde w s \<Longrightarrow> on_subject (kw_applied w) (sv_log sv s (kw_stream w)) \<noteq> [] \<Longrightarrow> effective sv serde w s"
  "kv_inv sv serde w s \<Longrightarrow> on_subject (ledger_subject (kw_ledger w)) (sv_log sv s LEDGER_STREAM) \<noteq> [] \<Longrightarrow>
    effective sv serde w s"
  by (simp_all add: effective_def kv_inv_def kv_log_inv_def)

lemma has_applied_triple:
  assumes "jetstream sv (others w) (core_context core)"
  shows "triple (kv_inv sv serde w) (kv_inv sv serde w) (has_applied core (kw_ledger w))
    (\<lambda>applied s. if applied then effective sv serde w s else kv_inv sv serde w s)"
  unfolding has_applied_def
  by (rule triple_read_last [OF assms])
    (auto intro: kv_inv_grows effective_recorded)

lemma applied_marker_sequence_triple:
  assumes "jetstream sv (others w) (core_context core)"
  shows "triple (kv_inv sv serde w) (kv_inv sv serde w)
    (applied_marker_sequence core serde (kw_bucket w) (kw_key w) (kw_id w))
    (probed sv serde w (kv_inv sv serde w))"
  unfolding applied_marker_sequence_def marker_sequence_def
  by (rule triple_read_last [OF assms])
    (auto intro: kv_inv_grows effective_recorded)

lemma effective_target:
  "kv_inv sv serde w s \<Longrightarrow> m \<in> set (sv_log sv s (kw_stream w)) \<Longrightarrow> target w m \<Longrightarrow> effective sv serde w s"
  by (auto simp: effective_def took_effect_def)

lemma latest_applied_revision_triple:
  assumes "jetstream sv (others w) (core_context core)"
  shows "triple (kv_inv sv serde w) (kv_inv sv serde w)
    (latest_applied_revision core (kw_bucket w) (kw_key w) (kw_id w))
    (probed sv serde w (kv_inv sv serde w))"
  unfolding latest_applied_revision_def
proof (rule triple_read_last [OF assms], goal_cases)
  case (3 s message)
  then have "target w (last (on_subject (kw_subject w) (sv_log sv s (kw_stream w))))"
    if "headers_contain_idempotency_key (msg_headers message) (kw_id w)"
    using that last_on_subject(2) by (auto simp: target_def message_of_def)
  then show ?case using 3(1) effective_target [OF 3(1) last_on_subject(1) [OF 3(2)]] by simp
qed (auto intro: kv_inv_grows)

text \<open>Without a marker there is no write; with one, the write is later in the log.\<close>

definition at_marker :: "'s Server \<Rightarrow> KvWrite \<Rightarrow> u64 \<Rightarrow> 's \<Rightarrow> bool" where
  "at_marker sv w seq s \<longleftrightarrow>
     on_subject (kw_marker w) (sv_log sv s (kw_stream w)) \<noteq> []
     \<and> seq = lg_seq (last (on_subject (kw_marker w) (sv_log sv s (kw_stream w))))"

lemma at_marker_grows: "at_marker sv w seq s \<Longrightarrow> grows sv (others w) s s' \<Longrightarrow> at_marker sv w seq s'"
  by (simp add: at_marker_def targets_grow(2))

lemma apply_marker_sequence_triple:
  assumes "jetstream sv (others w) (core_context core)"
    and "\<And>s s'. P s \<Longrightarrow> grows sv (others w) s s' \<Longrightarrow> P s'" and inv: "\<And>s. P s \<Longrightarrow> kv_inv sv serde w s"
  shows "triple (kv_inv sv serde w) P
    (apply_marker_sequence core serde (kw_bucket w) (kw_key w) (kw_id w))
    (\<lambda>found s. case found of None \<Rightarrow> P s \<and> unwritten sv serde w s | Some seq \<Rightarrow> P s \<and> at_marker sv w seq s)"
  unfolding apply_marker_sequence_def marker_sequence_def
proof (rule triple_read_last [OF assms(1,2) inv], goal_cases)
  case (4 s message)
  then have "marker_matches serde (msg_data message) WRITEBACK_MARKER_OPERATION (kw_key w) (kw_id w)"
    using inv [OF 4(1)] last_on_subject [OF 4(2)] by (auto simp: kv_inv_def kv_log_inv_def message_of_def)
  then show ?case using 4 by (auto simp: message_of_def at_marker_def)
next
  case (5 s)
  then show ?case
    using inv [OF 5(1)] by (auto simp: unwritten_def kv_inv_def kv_log_inv_def filter_empty_conv)
qed

lemma not_after_marker:
  assumes "kv_inv sv serde w s" "at_marker sv w seq s"
    and "\<And>m. m \<in> set (on_subject (kw_subject w) (sv_log sv s (kw_stream w))) \<Longrightarrow> lg_seq m \<le> seq"
  shows "unwritten sv serde w s"
proof -
  let ?L = "sv_log sv s (kw_stream w)"
  have "\<not> target w m" if m: "m \<in> set ?L" for m
  proof
    assume t: "target w m"
    then have "m \<in> set (on_subject (kw_subject w) ?L)" using m by (simp add: on_subject_def target_def)
    then have "lg_seq m \<le> seq" by (rule assms(3))
    moreover have "last (on_subject (kw_marker w) ?L) \<in> set (on_subject (kw_marker w) ?L)"
      using assms(2) by (simp add: at_marker_def)
    then have "seq < lg_seq m"
      using assms(1,2) m t unfolding kv_inv_def kv_log_inv_def at_marker_def by blast
    ultimately show False by simp
  qed
  then show ?thesis using assms(1) by (simp add: unwritten_def filter_empty_conv)
qed

lemma after_marker_triple:
  assumes js: "jetstream sv (others w) (core_context core)"
  shows "triple (kv_inv sv serde w) (\<lambda>s. kv_inv sv serde w s \<and> at_marker sv w marker_seq s)
    (\<lambda>s. case js_get_last_message (core_context core) (kw_stream w) (kw_subject w) s of
       (Inr message, s) \<Rightarrow> (Inr (if marker_seq < msg_sequence message then Some (msg_sequence message) else None), s)
     | (Inl err, s) \<Rightarrow> (if is_not_found err then (Inr None, s) else (Inl (Io err), s)))
    (probed sv serde w (unwritten sv serde w))"
proof (rule triple_read_last [OF js], goal_cases)
  case (1 s s')
  then show ?case by (auto intro: kv_inv_grows at_marker_grows)
next
  case (3 s message)
  let ?L = "sv_log sv s (kw_stream w)"
  have seq: "msg_sequence message = lg_seq (last (on_subject (kw_subject w) ?L))" using 3(3) by (simp add: message_of_def)
  show ?case
  proof (cases "marker_seq < msg_sequence message")
    case True
    then have "took_effect w ?L"
      using 3 seq last_on_subject unfolding took_effect_def at_marker_def by metis
    then show ?thesis using True 3(1) by (simp add: effective_def)
  next
    case False
    have "sorted_wrt (<) (map lg_seq ?L)"
      using jetstream_state [OF js, of s] unfolding server_state_def by blast
    then have "lg_seq m \<le> marker_seq" if "m \<in> set (on_subject (kw_subject w) ?L)" for m
      using sorted_last [OF _ that] False seq by simp
    then have "unwritten sv serde w s"
      by (rule not_after_marker [OF conjunct1 [OF 3(1)] conjunct2 [OF 3(1)]])
    then show ?thesis using False by simp
  qed
next
  case (4 s)
  then show ?case using not_after_marker by fastforce
qed simp

lemma target_sequence_triple:
  assumes js: "jetstream sv (others w) (core_context core)"
  shows "triple (kv_inv sv serde w) (kv_inv sv serde w)
    (target_sequence_after_apply_marker core serde (kw_bucket w) (kw_key w) (kw_id w))
    (probed sv serde w (unwritten sv serde w))"
  unfolding target_sequence_after_apply_marker_def
proof (intro triple_obind [OF apply_marker_sequence_triple [OF js]] triple_option)
  fix found :: "u64 option" and marker_seq
  assume found: "found = Some marker_seq"
  show "triple (kv_inv sv serde w)
      (\<lambda>s. case found of None \<Rightarrow> kv_inv sv serde w s \<and> unwritten sv serde w s
         | Some seq \<Rightarrow> kv_inv sv serde w s \<and> at_marker sv w seq s)
    (\<lambda>s. case js_get_last_message (core_context core) (kw_stream w) (kw_subject w) s of
       (Inr message, s) \<Rightarrow> (Inr (if marker_seq < msg_sequence message then Some (msg_sequence message) else None), s)
     | (Inl err, s) \<Rightarrow> (if is_not_found err then (Inr None, s) else (Inl (Io err), s)))
    (probed sv serde w (unwritten sv serde w))"
    unfolding found option.case by (rule after_marker_triple [OF js])
qed (auto intro: triple_Inr kv_inv_grows)

end
