(* ===== verification/Nats_Lines.thy ===== *)
theory Nats_Lines
  imports Nats_Kv_Once
begin

text \<open>
  The publication of JSON lines (\<open>streams.rs\<close>) on an unreliable server. Each line is a message of
  its own, named by its message id; before a line is published, the ledger and then the whole history of the
  subject are searched for it. The states of one line: nothing known (\<open>line_inv\<close>), not in the
  stream (\<open>line_absent\<close>), in the stream once (\<open>line_present\<close>).
\<close>

section \<open>One line\<close>

record LineWrite =
  lw_stream :: string
  lw_subject :: string
  lw_id :: string
  lw_data :: bytes

abbreviation lw_ledger :: "LineWrite \<Rightarrow> string" where
  "lw_ledger l \<equiv> stream_writeback_ledger_key (lw_stream l) (lw_subject l) (lw_id l)"

definition is_line :: "LineWrite \<Rightarrow> Logged \<Rightarrow> bool" where
  "is_line l m \<longleftrightarrow> lg_subject m = lw_subject l \<and> headers_contain_message_id (lg_headers m) (lw_id l)"

definition line_others :: "LineWrite \<Rightarrow> string \<Rightarrow> Logged \<Rightarrow> bool" where
  "line_others l stream m \<longleftrightarrow>
     (stream = lw_stream l \<longrightarrow> \<not> is_line l m \<and> lg_id m \<noteq> Some (lw_id l))
     \<and> (stream = LEDGER_STREAM \<longrightarrow> lg_subject m \<noteq> ledger_subject (lw_ledger l))"

definition line_inv :: "'s Server \<Rightarrow> LineWrite \<Rightarrow> 's \<Rightarrow> bool" where
  "line_inv sv l s \<longleftrightarrow>
     (let log = sv_log sv s (lw_stream l); ledger = sv_log sv s LEDGER_STREAM in
        length (filter (is_line l) log) \<le> 1
        \<and> (\<forall>m \<in> set log. is_line l m \<longrightarrow> lg_data m = lw_data l)
        \<and> (\<forall>m \<in> set log. lg_id m = Some (lw_id l) \<longrightarrow> is_line l m)
        \<and> (on_subject (ledger_subject (lw_ledger l)) ledger \<noteq> [] \<longrightarrow> filter (is_line l) log \<noteq> []))"

definition line_absent :: "'s Server \<Rightarrow> LineWrite \<Rightarrow> 's \<Rightarrow> bool" where
  "line_absent sv l s \<longleftrightarrow> line_inv sv l s \<and> filter (is_line l) (sv_log sv s (lw_stream l)) = []"

definition line_present :: "'s Server \<Rightarrow> LineWrite \<Rightarrow> 's \<Rightarrow> bool" where
  "line_present sv l s \<longleftrightarrow> line_inv sv l s \<and> filter (is_line l) (sv_log sv s (lw_stream l)) \<noteq> []"

lemma line_filter_grows:
  assumes "grows sv (line_others l) s s'"
  shows "filter (is_line l) (sv_log sv s' (lw_stream l)) = filter (is_line l) (sv_log sv s (lw_stream l))"
proof -
  obtain new where "sv_log sv s' (lw_stream l) = sv_log sv s (lw_stream l) @ new" "\<forall>m \<in> set new. line_others l (lw_stream l) m"
    using growsD [OF assms] by blast
  then show ?thesis by (simp add: line_others_def filter_empty_conv)
qed

lemma line_inv_grows:
  assumes "line_inv sv l s" "grows sv (line_others l) s s'"
  shows "line_inv sv l s'"
proof -
  obtain new where new: "sv_log sv s' (lw_stream l) = sv_log sv s (lw_stream l) @ new"
    "\<forall>m \<in> set new. line_others l (lw_stream l) m"
    using growsD [OF assms(2)] by blast
  obtain led where led: "sv_log sv s' LEDGER_STREAM = sv_log sv s LEDGER_STREAM @ led" "\<forall>m \<in> set led. line_others l LEDGER_STREAM m"
    using growsD [OF assms(2)] by blast
  have "on_subject (ledger_subject (lw_ledger l)) led = []"
    using led(2) by (auto simp: on_subject_def line_others_def filter_empty_conv)
  moreover have "\<not> is_line l m \<and> lg_id m \<noteq> Some (lw_id l)" if "m \<in> set new" for m
    using new(2) that by (simp add: line_others_def)
  ultimately show ?thesis
    using assms(1) line_filter_grows [OF assms(2)] new(1) led(1) unfolding line_inv_def Let_def by auto
qed

lemma line_absent_grows: "line_absent sv l s \<Longrightarrow> grows sv (line_others l) s s' \<Longrightarrow> line_absent sv l s'"
  by (auto simp: line_absent_def line_filter_grows intro: line_inv_grows)

lemma line_present_grows: "line_present sv l s \<Longrightarrow> grows sv (line_others l) s s' \<Longrightarrow> line_present sv l s'"
  by (auto simp: line_present_def line_filter_grows intro: line_inv_grows)

lemma line_cases: "line_absent sv l s \<or> line_present sv l s" if "line_inv sv l s"
  using that by (auto simp: line_absent_def line_present_def)

lemma line_states_inv: "line_absent sv l s \<Longrightarrow> line_inv sv l s" "line_present sv l s \<Longrightarrow> line_inv sv l s"
  by (simp_all add: line_absent_def line_present_def)

lemma grows_mono: "grows sv F s s' \<Longrightarrow> (\<And>stream m. F stream m \<Longrightarrow> G stream m) \<Longrightarrow> grows sv G s s'"
  unfolding grows_def by blast

section \<open>Publications\<close>

text \<open>A publication whose own message counts as one of the others.\<close>

lemma publishes_grows:
  assumes "publishes sv F stream subject headers payload msg_id s (r, s')"
    and "\<And>m. logged_as subject headers payload msg_id m \<Longrightarrow> F stream m"
  shows "grows sv F s s'"
proof -
  obtain before own later where split: "sv_log sv s' stream = sv_log sv s stream @ before @ own @ later"
    "\<forall>m \<in> set before. F stream m" "\<forall>m \<in> set later. F stream m"
    "own = [] \<or> (\<exists>m. own = [m] \<and> logged_as subject headers payload msg_id m)"
    and other: "\<forall>other. other \<noteq> stream \<longrightarrow>
      (\<exists>new. sv_log sv s' other = sv_log sv s other @ new \<and> (\<forall>m \<in> set new. F other m))"
    by (rule publishes_split [OF assms(1)]) (rule that)
  then have "\<forall>m \<in> set (before @ own @ later). F stream m" using assms(2) by auto
  then show ?thesis by (rule growsI [OF split(1) _ other])
qed

lemma publishes_mono:
  assumes "publishes sv F stream subject headers payload msg_id s (r, s')" "\<And>stream m. F stream m \<Longrightarrow> G stream m"
  shows "publishes sv G stream subject headers payload msg_id s (r, s')"
proof -
  obtain before own later where split: "sv_log sv s' stream = sv_log sv s stream @ before @ own @ later"
    "\<forall>m \<in> set before. F stream m" "\<forall>m \<in> set later. F stream m"
    "own = [] \<or> (\<exists>m. own = [m] \<and> logged_as subject headers payload msg_id m)"
    "sv_recent sv s stream msg_id \<longrightarrow> own = [] \<and> sv_recent sv s' stream msg_id"
    "own \<noteq> [] \<longrightarrow> sv_recent sv s' stream msg_id"
    "is_ok r \<longrightarrow> own \<noteq> [] \<or> sv_recent sv s stream msg_id"
    and other: "\<forall>other. other \<noteq> stream \<longrightarrow>
      (\<exists>new. sv_log sv s' other = sv_log sv s other @ new \<and> (\<forall>m \<in> set new. F other m))"
    by (rule publishes_split [OF assms(1)]) (rule that)
  have "\<forall>m \<in> set before \<union> set later. G stream m" using split(2,3) assms(2) by blast
  moreover have "\<forall>other. other \<noteq> stream \<longrightarrow>
      (\<exists>new. sv_log sv s' other = sv_log sv s other @ new \<and> (\<forall>m \<in> set new. G other m))"
    using other assms(2) by blast
  ultimately show ?thesis unfolding publishes_def prod.case using split(1,4-7) by blast
qed

lemma jetstream_mono:
  assumes "jetstream sv F nats" "\<And>stream m. F stream m \<Longrightarrow> G stream m"
  shows "jetstream sv G nats"
proof -
  have more: "grows sv F s s' \<Longrightarrow> grows sv G s s'" for s s'
    by (erule grows_mono) (rule assms(2))
  have "publishes sv G stream subject headers payload msg_id s (js_publish nats subject headers payload options s)"
    if "po_expected_stream options = Some stream \<and> po_id options = Some msg_id \<and> po_expected_last_subject_sequence options = None"
    for stream subject headers payload msg_id options s
  proof -
    obtain r s' where pub: "js_publish nats subject headers payload options s = (r, s')" by fastforce
    have "publishes sv F stream subject headers payload msg_id s (r, s')"
      using assms(1) that pub unfolding jetstream_def by metis
    then show ?thesis unfolding pub using assms(2) by (rule publishes_mono)
  qed
  then show ?thesis using assms(1) unfolding jetstream_def by (elim conjE, intro conjI) (auto intro: more)
qed

lemma logged_is_line:
  "logged_as subject headers payload msg_id m \<Longrightarrow> is_line l m \<longleftrightarrow> subject = lw_subject l \<and> msg_id = lw_id l"
  by (auto simp: logged_as_def is_line_def headers_contain_message_id_def)

text \<open>While the line itself is being published.\<close>

definition line_publishing :: "'s Server \<Rightarrow> LineWrite \<Rightarrow> 's \<Rightarrow> bool" where
  "line_publishing sv l s \<longleftrightarrow>
     line_absent sv l s \<or> (line_present sv l s \<and> sv_recent sv s (lw_stream l) (lw_id l))"

lemma line_published:
  assumes "publishes sv (line_others l) (lw_stream l) (lw_subject l) None (lw_data l) (lw_id l) s (r, s')"
    and "line_publishing sv l s" "server_state sv s" "lw_stream l \<noteq> LEDGER_STREAM"
  shows "line_publishing sv l s'" "is_ok r \<Longrightarrow> line_present sv l s'"
proof -
  let ?L = "sv_log sv s (lw_stream l)"
  obtain before own later where split: "sv_log sv s' (lw_stream l) = ?L @ before @ own @ later"
    "\<forall>m \<in> set before. line_others l (lw_stream l) m" "\<forall>m \<in> set later. line_others l (lw_stream l) m"
    "own = [] \<or> (\<exists>m. own = [m] \<and> logged_as (lw_subject l) None (lw_data l) (lw_id l) m)"
    "sv_recent sv s (lw_stream l) (lw_id l) \<longrightarrow> own = [] \<and> sv_recent sv s' (lw_stream l) (lw_id l)"
    "own \<noteq> [] \<longrightarrow> sv_recent sv s' (lw_stream l) (lw_id l)"
    "is_ok r \<longrightarrow> own \<noteq> [] \<or> sv_recent sv s (lw_stream l) (lw_id l)"
    and other: "\<forall>other. other \<noteq> lw_stream l \<longrightarrow>
      (\<exists>new. sv_log sv s' other = sv_log sv s other @ new \<and> (\<forall>m \<in> set new. line_others l other m))"
    by (rule publishes_split [OF assms(1)]) (rule that)
  have I: "line_inv sv l s" using assms(2) by (auto simp: line_publishing_def line_states_inv)
  have recent: "line_present sv l s" if known: "sv_recent sv s (lw_stream l) (lw_id l)"
  proof -
    obtain m where "m \<in> set ?L" "lg_id m = Some (lw_id l)"
      using known assms(3) unfolding server_state_def by blast
    then have "is_line l m" using I by (auto simp: line_inv_def Let_def)
    with \<open>m \<in> set ?L\<close> show ?thesis using I by (auto simp: line_present_def filter_empty_conv)
  qed
  have "line_publishing sv l s' \<and> (is_ok r \<longrightarrow> line_present sv l s')"
  proof (cases "own = []")
    case True
    then have "grows sv (line_others l) s s'"
      using split(1-3) by (intro growsI [OF _ _ other, of "before @ later"]) auto
    then show ?thesis
      using assms(2) split(5,7) True recent line_absent_grows line_present_grows
      unfolding line_publishing_def by (metis (no_types, lifting))
  next
    case False
    then obtain m where m: "own = [m]" "logged_as (lw_subject l) None (lw_data l) (lw_id l) m"
      using split(4) by blast
    have absent: "line_absent sv l s" using False assms(2) split(5) by (auto simp: line_publishing_def)
    have quiet: "filter (is_line l) before = []" "filter (is_line l) later = []"
      "\<forall>x \<in> set before \<union> set later. lg_id x \<noteq> Some (lw_id l) \<and> \<not> is_line l x"
      using split(2,3) by (auto simp: line_others_def filter_empty_conv)
    have "is_line l m" "lg_data m = lw_data l" using m(2) logged_is_line by (auto simp: logged_as_def)
    then have "line_inv sv l s'" "filter (is_line l) (sv_log sv s' (lw_stream l)) = [m]"
      using absent quiet m(1) unfolding line_absent_def line_inv_def Let_def split(1) by auto
    then show ?thesis using split(6) False by (simp add: line_publishing_def line_present_def)
  qed
  then show "line_publishing sv l s'" "is_ok r \<Longrightarrow> line_present sv l s'" by auto
qed

end
