(* ===== verification/Nats_Line_Calls.thy ===== *)
theory Nats_Line_Calls
  imports Nats_Lines
begin

text \<open>
  The search of a subject's history is complete when the stream retains its messages: a scan
  that finds nothing has seen every message there was when it began. With it, the calls of
  the publication of JSON lines as triples over the states of one line.
\<close>

section \<open>A complete scan\<close>

definition retains :: "'s Server \<Rightarrow> 's Nats \<Rightarrow> string \<Rightarrow> bool" where
  "retains sv nats stream \<longleftrightarrow>
     (\<forall>subject s sub s'.
        js_subscribe nats subject \<lparr>so_bind_stream = Some stream, so_ordered = False, so_deliver = DeliverAll\<rparr> s = (Inr sub, s')
        \<longrightarrow> (\<exists>n. list_all2 delivery_of (sub_messages sub) (take n (on_subject subject (sv_log sv s' stream)))))"

lemma scan_loop_None:
  "scan_loop final last_sequence on_message ms = Inr None \<Longrightarrow>
    \<exists>k < length ms. (\<forall>j \<le> k. on_message (ms ! j) = Inr None)
      \<and> (\<exists>seq. message_stream_sequence (ms ! k) = Inr seq \<and> last_sequence \<le> seq)"
proof (induction ms)
  case (Cons m ms)
  then obtain seq where m: "on_message m = Inr None" "message_stream_sequence m = Inr seq"
    and rest: "last_sequence \<le> seq \<or> scan_loop final last_sequence on_message ms = Inr None"
    by (auto split: option.splits if_splits)
  show ?case
  proof (cases "last_sequence \<le> seq")
    case True
    then show ?thesis using m by (intro exI [of _ 0]) auto
  next
    case False
    then obtain k seq' where k: "k < length ms" "\<forall>j \<le> k. on_message (ms ! j) = Inr None"
      "message_stream_sequence (ms ! k) = Inr seq'" "last_sequence \<le> seq'"
      using rest Cons.IH by auto
    then have "\<forall>j \<le> Suc k. on_message ((m # ms) ! j) = Inr None" using m(1) by (simp add: nth_Cons split: nat.splits)
    then show ?thesis using k by (intro exI [of _ "Suc k"]) auto
  qed
qed simp

lemma scanned_all:
  assumes "scan_loop final last_sequence on_message ms = Inr None" "list_all2 delivery_of ms (take n hist)"
    and "sorted_wrt (<) (map lg_seq hist)" "l \<in> set hist" "lg_seq l \<le> last_sequence"
  shows "\<exists>m. delivery_of m l \<and> on_message m = Inr None"
proof -
  obtain k seq where k: "k < length ms" "\<forall>j \<le> k. on_message (ms ! j) = Inr None"
    "message_stream_sequence (ms ! k) = Inr seq" "last_sequence \<le> seq"
    using scan_loop_None [OF assms(1)] by blast
  have len: "length ms = min (length hist) n" using assms(2) list_all2_lengthD by fastforce
  have delivered: "delivery_of (ms ! j) (hist ! j)" if "j < length ms" for j
    using list_all2_nthD [OF assms(2) that] that len by simp
  obtain j where j: "j < length hist" "l = hist ! j" using assms(4) by (metis in_set_conv_nth)
  have "seq = lg_seq (hist ! k)"
    using delivered [OF k(1)] k(3) by (auto simp: message_stream_sequence_def delivery_of_def ok_or_def split: option.splits)
  then have "lg_seq (hist ! j) \<le> lg_seq (hist ! k)" using assms(5) k(4) j(2) by simp
  moreover have "lg_seq (hist ! k) < lg_seq (hist ! j)" if "k < j"
    using assms(3) that j(1) by (auto simp: sorted_wrt_map sorted_wrt_iff_nth_less)
  ultimately have "j \<le> k" by (meson leD not_le_imp_less)
  then show ?thesis using delivered [of j] k(1,2) j(2) by auto
qed

lemma triple_conj:
  "triple E P f Q1 \<Longrightarrow> triple E P f Q2 \<Longrightarrow> triple E P f (\<lambda>x s. Q1 x s \<and> Q2 x s)"
  by (simp add: triple_def)

lemma scan_complete_triple:
  assumes js: "jetstream sv F (core_context core)" and keeps: "retains sv (core_context core) stream"
    and grows: "\<And>s s'. P s \<Longrightarrow> grows sv F s s' \<Longrightarrow> P s'" and E: "\<And>s. P s \<Longrightarrow> E s"
    and none: "\<And>s s'. P s \<Longrightarrow> grows sv F s s' \<Longrightarrow>
      \<forall>l \<in> set (on_subject subject (sv_log sv s stream)). \<exists>m. delivery_of m l \<and> on_message m = Inr None \<Longrightarrow> Q s'"
  shows "triple E P (scan_subject_history_until core stream subject on_message) (\<lambda>found s. found = None \<longrightarrow> Q s)"
  unfolding scan_subject_history_until_def
proof (intro triple_obind [OF last_subject_sequence_triple [OF js grows E]] triple_option)
  fix seen and last_sequence :: u64
  assume seen: "seen = Some last_sequence"
  show "triple E (\<lambda>s. P s \<and> (case seen of None \<Rightarrow> on_subject subject (sv_log sv s stream) = []
        | Some seq \<Rightarrow> on_subject subject (sv_log sv s stream) \<noteq> []
            \<and> seq = lg_seq (last (on_subject subject (sv_log sv s stream)))))
     (\<lambda>s. case js_subscribe (core_context core) subject
             \<lparr>so_bind_stream = Some stream, so_ordered = False, so_deliver = DeliverAll\<rparr> s of
        (Inl err, s) \<Rightarrow> if is_not_found err then (Inr None, s) else (Inl (Io err), s)
      | (Inr subscription, s) \<Rightarrow>
          (scan_loop (scan_timeout stream subject last_sequence (sub_error subscription)) last_sequence on_message
            (sub_messages subscription), s)) (\<lambda>found s. found = None \<longrightarrow> Q s)"
    unfolding seen option.case
  proof (rule tripleI, goal_cases)
    case (1 s x s')
    let ?hist = "\<lambda>s. on_subject subject (sv_log sv s stream)"
    obtain r where sub: "js_subscribe (core_context core) subject
        \<lparr>so_bind_stream = Some stream, so_ordered = False, so_deliver = DeliverAll\<rparr> s = (r, s')"
      using 1(2) by (auto split: prod.splits sum.splits if_splits)
    have d: "grows sv F s s'" "delivers sv stream subject (r, s')" using jetstream_delivers [OF js sub] by auto
    obtain new where new: "?hist s' = ?hist s @ new" using growsD [OF d(1), of stream] on_subject_append by metis
    have sorted: "sorted_wrt (<) (map lg_seq (sv_log sv t stream))" for t
      using jetstream_state [OF js, of t] unfolding server_state_def by blast
    have "\<exists>m. delivery_of m l \<and> on_message m = Inr None" if x: "x = None" and l: "l \<in> set (?hist s)" for l
    proof (cases r)
      case (Inl err)
      then have "?hist s' = []" using 1(2) sub d(2) by (auto simp: delivers_def split: if_splits)
      then show ?thesis using l new by simp
    next
      case (Inr subscription)
      obtain n where "list_all2 delivery_of (sub_messages subscription) (take n (?hist s'))"
        using keeps sub Inr unfolding retains_def by blast
      moreover have "scan_loop (scan_timeout stream subject last_sequence (sub_error subscription)) last_sequence on_message
          (sub_messages subscription) = Inr None"
        using 1(2) sub Inr x by simp
      moreover have "lg_seq l \<le> last_sequence" using sorted_last [OF sorted l] 1(1) by simp
      moreover have "l \<in> set (?hist s')" using l new by simp
      ultimately show ?thesis using scanned_all [OF _ _ on_subject_sorted [OF sorted]] by blast
    qed
    then show ?case using none [OF _ d(1)] 1(1) by blast
  next
    case (2 s e s')
    then show ?case
      by (auto dest!: jetstream_delivers [OF js] intro!: E intro: grows split: prod.splits sum.splits if_splits)
  qed
qed (auto intro!: triple_Inr intro: none grows_refl)

section \<open>The calls for other lines append nothing of this one\<close>

lemma quiet_read_last:
  assumes "jetstream sv F (core_context core)"
  shows "quiet sv F (has_applied core ledger_key)" "quiet sv F (last_subject_sequence core stream subject)"
  unfolding has_applied_def last_subject_sequence_def
  by (rule quietI, auto dest: quietD [OF jetstream_quiet(6) [OF assms]] split: prod.splits sum.splits if_splits)+

lemma quiet_scan:
  assumes "jetstream sv F (core_context core)"
  shows "quiet sv F (scan_subject_history_until core stream subject on_message)"
proof -
  have sub: "quiet sv F (\<lambda>s. case js_subscribe (core_context core) subject
           \<lparr>so_bind_stream = Some stream, so_ordered = False, so_deliver = DeliverAll\<rparr> s of
        (Inl err, s) \<Rightarrow> if is_not_found err then (Inr None, s) else (Inl (Io err), s)
      | (Inr subscription, s) \<Rightarrow> (f subscription, s))" for f :: "Subscription \<Rightarrow> TransportError + 'b option"
    by (rule quietI) (auto dest: quietD [OF jetstream_quiet(7) [OF assms]] split: prod.splits sum.splits if_splits)
  have "quiet sv F (\<lambda>s. case seen of None \<Rightarrow> (Inr None, s) | Some last_sequence \<Rightarrow>
       (case js_subscribe (core_context core) subject
           \<lparr>so_bind_stream = Some stream, so_ordered = False, so_deliver = DeliverAll\<rparr> s of
        (Inl err, s) \<Rightarrow> if is_not_found err then (Inr None, s) else (Inl (Io err), s)
      | (Inr subscription, s) \<Rightarrow> (f last_sequence subscription, s)))" for seen and f :: "u64 \<Rightarrow> Subscription \<Rightarrow> TransportError + 'b option"
    by (cases seen) (simp_all add: sub quiet_Inr)
  then show ?thesis
    unfolding scan_subject_history_until_def by (intro quiet_obind quiet_read_last(2) [OF assms])
qed

lemma quiet_publish:
  assumes "jetstream sv F (core_context core)" "\<And>m. logged_as subject headers payload msg_id m \<Longrightarrow> F stream m"
  shows "quiet sv F (retry_io core (js_publish (core_context core) subject headers payload
    (publish_options core (Some msg_id) stream None)))"
  by (intro quiet_retry_io quietI) (rule publishes_grows [OF jetstream_publishes [OF assms(1)] assms(2)])

lemma quiet_record_applied:
  assumes "jetstream sv (line_others l) (core_context core)" "lw_stream l \<noteq> LEDGER_STREAM" "ledger_key \<noteq> lw_ledger l"
  shows "quiet sv (line_others l) (record_applied core ledger_key)"
  unfolding record_applied_def Let_def
proof (intro quiet_obind ledger_stream_quiet [OF assms(1)] quiet_Inr quiet_publish [OF assms(1)])
  fix m
  assume "logged_as (ledger_subject ledger_key) None (as_bytes ledger_key)
    (''writeback-applied:'' @ nats_hex_encode (as_bytes ledger_key)) m"
  then show "line_others l LEDGER_STREAM m"
    using assms(2,3) by (auto simp: logged_as_def line_others_def ledger_subject_eq)
qed

lemma stream_ledger_key_eq:
  "stream_writeback_ledger_key st su a = stream_writeback_ledger_key st su b \<longleftrightarrow> a = b"
  using scoped_key_inj [of "''stream''" "[st, su, a]" "''stream''" "[st, su, b]"] by (auto simp: stream_writeback_ledger_key_def)

lemma quiet_line_applied:
  assumes "jetstream sv (line_others l) (core_context core)" "lw_stream l \<noteq> LEDGER_STREAM" "msg_id \<noteq> lw_id l"
  shows "quiet sv (line_others l) (line_applied core (lw_stream l) (lw_subject l) msg_id)"
proof -
  have "quiet sv (line_others l) (record_applied core (stream_writeback_ledger_key (lw_stream l) (lw_subject l) msg_id))"
    using assms by (intro quiet_record_applied) (auto simp: stream_ledger_key_eq)
  then show ?thesis
    unfolding line_applied_def Let_def
    by (intro quiet_obind quiet_read_last(1) quiet_if quiet_Inr quiet_scan assms(1))
qed

lemma quiet_publish_loop:
  assumes js: "jetstream sv (line_others l) (core_context core)" and stream: "lw_stream l \<noteq> LEDGER_STREAM"
  shows "(\<And>j. index \<le> j \<Longrightarrow> j < index + length lines \<Longrightarrow> line_id seed j \<noteq> lw_id l) \<Longrightarrow>
    quiet sv (line_others l) (publish_loop core (lw_stream l) (lw_subject l) seed index lines)"
proof (induction lines arbitrary: index)
  case Nil
  show ?case by (simp add: quiet_Inr)
next
  case (Cons line lines)
  have other: "line_id seed index \<noteq> lw_id l" using Cons.prems by simp
  have rest: "quiet sv (line_others l) (publish_loop core (lw_stream l) (lw_subject l) seed (Suc index) lines)"
    using Cons.prems by (intro Cons.IH) auto
  have own: "line_others l (lw_stream l) m"
    if "logged_as (lw_subject l) None (as_bytes line) (line_id seed index) m" for m
    using that logged_is_line [OF that] other stream by (simp add: line_others_def logged_as_def)
  have "quiet sv (line_others l) (record_applied core (stream_writeback_ledger_key (lw_stream l) (lw_subject l) (line_id seed index)))"
    using other by (intro quiet_record_applied [OF js stream]) (simp add: stream_ledger_key_eq)
  then show ?case
    unfolding publish_loop.simps Let_def
    by (intro quiet_obind quiet_line_applied [OF js stream other] quiet_if quiet_publish [OF js own] quiet_Inr rest)
qed

section \<open>The calls for this line\<close>

lemma line_ledger_published:
  assumes "publishes sv (line_others l) LEDGER_STREAM subject headers payload msg_id s (r, s')" "line_present sv l s"
    and "lw_stream l \<noteq> LEDGER_STREAM"
  shows "line_present sv l s'"
proof -
  obtain new where new: "sv_log sv s' (lw_stream l) = sv_log sv s (lw_stream l) @ new"
    "\<forall>m \<in> set new. line_others l (lw_stream l) m"
    using publishes_split [OF assms(1)] assms(3) by metis
  then have "filter (is_line l) new = []" "\<forall>m \<in> set new. lg_id m \<noteq> Some (lw_id l) \<and> \<not> is_line l m"
    by (auto simp: line_others_def filter_empty_conv)
  then show ?thesis using assms(2) unfolding line_present_def line_inv_def Let_def new(1) by auto
qed

lemma line_record_triple:
  assumes js: "jetstream sv (line_others l) (core_context core)" and stream: "lw_stream l \<noteq> LEDGER_STREAM"
  shows "triple (line_inv sv l) (line_present sv l) (record_applied core ledger_key) (\<lambda>_. line_present sv l)"
proof -
  have publish: "triple (line_inv sv l) (line_present sv l)
      (retry_io core (js_publish (core_context core) (ledger_subject ledger_key) None (as_bytes ledger_key)
        (publish_options core (Some publish_id) LEDGER_STREAM None))) (\<lambda>_. line_present sv l)" for publish_id
    by (rule triple_retry_io)
      (auto intro: line_ledger_published [OF jetstream_publishes [OF js] _ stream] line_states_inv)
  show ?thesis
    unfolding record_applied_def Let_def
    by (intro triple_obind [OF quiet_triple [OF ledger_stream_quiet [OF js]]] triple_obind [OF publish] triple_Inr)
      (auto intro: line_present_grows line_states_inv)
qed

lemma line_scan_triple:
  assumes js: "jetstream sv (line_others l) (core_context core)" and keeps: "retains sv (core_context core) (lw_stream l)"
  shows "triple (line_inv sv l) (line_inv sv l)
    (scan_subject_history_until core (lw_stream l) (lw_subject l) (message_id_scan (lw_id l)))
    (\<lambda>found s. if found = None then line_absent sv l s else line_present sv l s)"
proof -
  have "triple (line_inv sv l) (line_inv sv l)
      (scan_subject_history_until core (lw_stream l) (lw_subject l) (message_id_scan (lw_id l)))
      (\<lambda>found s. found = None \<longrightarrow> line_absent sv l s)"
  proof (rule scan_complete_triple [OF js keeps], goal_cases)
    case (3 s s')
    have "\<not> is_line l m" if "m \<in> set (sv_log sv s (lw_stream l))" for m
      using 3(3) that by (auto simp: is_line_def on_subject_def message_id_scan_def delivery_of_def split: if_splits)
    then have "line_absent sv l s" using 3(1) by (simp add: line_absent_def filter_empty_conv)
    then show ?case using 3(2) by (rule line_absent_grows)
  qed (auto intro: line_inv_grows)
  moreover have "triple (line_inv sv l) (line_inv sv l)
      (scan_subject_history_until core (lw_stream l) (lw_subject l) (message_id_scan (lw_id l)))
      (\<lambda>found s. found \<noteq> None \<longrightarrow> line_present sv l s)"
  proof (rule scan_triple [OF js], goal_cases)
    case (3 s m x y)
    then have "is_line l x" "x \<in> set (sv_log sv s (lw_stream l))"
      by (auto simp: is_line_def on_subject_def message_id_scan_def delivery_of_def split: if_splits)
    then show ?case using 3(1) by (auto simp: line_present_def filter_empty_conv)
  qed (auto intro: line_inv_grows)
  ultimately show ?thesis by (rule triple_conseq [OF triple_conj]) auto
qed

lemma line_applied_triple:
  assumes js: "jetstream sv (line_others l) (core_context core)" and stream: "lw_stream l \<noteq> LEDGER_STREAM"
    and keeps: "retains sv (core_context core) (lw_stream l)"
  shows "triple (line_inv sv l) (line_inv sv l) (line_applied core (lw_stream l) (lw_subject l) (lw_id l))
    (\<lambda>applied s. if applied then line_present sv l s else line_absent sv l s)"
proof -
  have recorded: "line_present sv l s"
    if "line_inv sv l s" "on_subject (ledger_subject (lw_ledger l)) (sv_log sv s LEDGER_STREAM) \<noteq> []" for s
    using that by (simp add: line_present_def line_inv_def Let_def)
  have ledger: "triple (line_inv sv l) (line_inv sv l) (has_applied core (lw_ledger l))
      (\<lambda>applied s. if applied then line_present sv l s else line_inv sv l s)"
    unfolding has_applied_def
    by (rule triple_read_last [OF js]) (auto intro: line_inv_grows recorded)
  have record_true: "triple (line_inv sv l) (line_present sv l)
      (\<lambda>s. obind (record_applied core (lw_ledger l) s) (\<lambda>_ s. (Inr True, s)))
      (\<lambda>applied s. if applied then line_present sv l s else line_absent sv l s)"
    by (rule triple_obind [OF line_record_triple [OF js stream] triple_Inr]) simp
  show ?thesis
    unfolding line_applied_def Let_def
  proof (intro triple_obind [OF ledger] triple_if, goal_cases)
    case (1 applied)
    then show ?case by (intro triple_Inr) simp
  next
    case (2 applied)
    have "triple (line_inv sv l) (line_inv sv l)
        (\<lambda>s. obind (scan_subject_history_until core (lw_stream l) (lw_subject l) (message_id_scan (lw_id l)) s) (\<lambda>found s.
          if found \<noteq> None then obind (record_applied core (lw_ledger l) s) (\<lambda>_ s. (Inr True, s)) else (Inr False, s)))
        (\<lambda>applied s. if applied then line_present sv l s else line_absent sv l s)"
    proof (intro triple_obind [OF line_scan_triple [OF js keeps]] triple_if, goal_cases)
      case (1 found)
      then show ?case using record_true by (cases found) simp_all
    next
      case (2 found)
      then show ?case by (intro triple_Inr) (cases found; simp)
    qed
    then show ?case using 2 by simp
  qed
qed

end
