(* ===== verification/Nats_Sim.thy ===== *)
theory Nats_Sim
  imports Nats_Server
begin

text \<open>
  A small JetStream server on which the contract of \<open>Nats_Server\<close> holds: it shows that the contract can be met, and
  the concrete runs of the idempotent writes execute on it. It keeps the messages of all its
  streams in one list, forgets message ids when told to, and loses the acknowledgements it is
  told to lose.
\<close>

record Sim =
  sim_entries :: "(string \<times> Logged) list"
  sim_forgotten :: nat
  sim_lost :: "bool list"

definition sim_ok :: "Sim \<Rightarrow> bool" where
  "sim_ok s \<longleftrightarrow> sorted_wrt (<) (map (\<lambda>(_, m). lg_seq m) (sim_entries s))"

definition sim_log :: "Sim \<Rightarrow> string \<Rightarrow> Logged list" where
  "sim_log s stream = (if sim_ok s then map snd (filter (\<lambda>(st, _). st = stream) (sim_entries s)) else [])"

definition sim_recent :: "Sim \<Rightarrow> string \<Rightarrow> string \<Rightarrow> bool" where
  "sim_recent s stream msg_id \<longleftrightarrow>
     sim_ok s \<and> list_ex (\<lambda>(st, m). st = stream \<and> lg_id m = Some msg_id) (drop (sim_forgotten s) (sim_entries s))"

definition sim_server :: "Sim Server" where
  "sim_server = \<lparr>sv_log = sim_log, sv_recent = sim_recent\<rparr>"

definition sim_error :: IoError where
  "sim_error = \<lparr>io_kind = KindOther, io_text = ''refused''\<rparr>"

definition sim_timeout :: IoError where
  "sim_timeout = \<lparr>io_kind = KindTimedOut, io_text = ''timed out''\<rparr>"

definition sim_missing :: IoError where
  "sim_missing = \<lparr>io_kind = KindNotFound, io_text = ''no message found''\<rparr>"

definition sim_message :: "string \<Rightarrow> HeaderMap option \<Rightarrow> bytes \<Rightarrow> string \<Rightarrow> Sim \<Rightarrow> Logged" where
  "sim_message subject headers payload msg_id s =
     \<lparr>lg_subject = subject,
      lg_headers = Some ((NATS_MSG_ID, msg_id) # (case headers of Some h \<Rightarrow> h | None \<Rightarrow> [])),
      lg_data = payload, lg_id = Some msg_id,
      lg_seq = (if sim_entries s = [] then 1 else lg_seq (snd (last (sim_entries s))) + 1)\<rparr>"

definition sim_append :: "string \<Rightarrow> Logged \<Rightarrow> Sim \<Rightarrow> Sim" where
  "sim_append stream m s = s\<lparr>sim_entries := sim_entries s @ [(stream, m)]\<rparr>"

text \<open>A publication without an id that names the sequence it follows.\<close>

definition sim_compare ::
  "string \<Rightarrow> string \<Rightarrow> HeaderMap option \<Rightarrow> bytes \<Rightarrow> u64 option \<Rightarrow> (Sim, u64) io_call" where
  "sim_compare stream subject headers payload expected s =
     (let m = (sim_message subject headers payload [] s)\<lparr>lg_id := None, lg_headers := headers\<rparr>;
          ms = on_subject subject (sim_log s stream) in
        if ms \<noteq> [] \<and> expected = Some (lg_seq (last ms)) \<and> sim_ok (sim_append stream m s)
        then (Inr (lg_seq m), sim_append stream m s)
        else (Inl sim_error, s))"

definition sim_publish ::
  "string \<Rightarrow> HeaderMap option \<Rightarrow> bytes \<Rightarrow> PublishOptions \<Rightarrow> (Sim, u64) io_call" where
  "sim_publish subject headers payload options s =
     (case (po_expected_stream options, po_id options) of
        (Some stream, Some msg_id) \<Rightarrow>
          (let m = sim_message subject headers payload msg_id s;
               answer = (if sim_lost s \<noteq> [] \<and> hd (sim_lost s) then Inl sim_timeout else Inr (lg_seq m));
               heard = (\<lambda>s. s\<lparr>sim_lost := tl (sim_lost s)\<rparr>) in
             if sim_recent s stream msg_id then (answer, heard s)
             else if sim_ok (sim_append stream m s) \<and> sim_forgotten s \<le> length (sim_entries s)
             then (answer, heard (sim_append stream m s))
             else (Inl sim_error, s))
      | (Some stream, None) \<Rightarrow> sim_compare stream subject headers payload (po_expected_last_subject_sequence options) s
      | (None, _) \<Rightarrow> (Inl sim_error, s))"

definition sim_last :: "string \<Rightarrow> string \<Rightarrow> (Sim, StreamMessage) io_call" where
  "sim_last stream subject s =
     (let ms = on_subject subject (sim_log s stream) in
        if ms = [] then (Inl sim_missing, s)
        else (Inr \<lparr>msg_subject = subject, msg_sequence = lg_seq (last ms), msg_headers = lg_headers (last ms),
                   msg_data = lg_data (last ms), msg_time = 0\<rparr>, s))"

definition sim_delivery :: "Logged \<Rightarrow> Message" where
  "sim_delivery m =
     \<lparr>m_subject = lg_subject m, m_headers = lg_headers m, m_data = lg_data m,
      m_info = Some \<lparr>ji_stream_seq = lg_seq m, ji_pending = 0, ji_published = 0\<rparr>\<rparr>"

definition sim_subscribe :: "string \<Rightarrow> SubscribeOptions \<Rightarrow> (Sim, Subscription) io_call" where
  "sim_subscribe subject options s =
     (case so_bind_stream options of
        Some stream \<Rightarrow>
          (Inr \<lparr>sub_messages = map sim_delivery (on_subject subject (sim_log s stream)), sub_error = sim_timeout\<rparr>, s)
      | None \<Rightarrow> (Inl sim_error, s))"

definition sim_config :: "string \<Rightarrow> StreamConfig" where
  "sim_config stream =
     \<lparr>sc_name = stream, sc_subjects = [''>''], sc_max_msgs_per_subject = 1, sc_storage = StorageFile,
      sc_duplicate_window = 2 ^ 62\<rparr>"

definition sim_info :: "string \<Rightarrow> (Sim, StreamInfo) io_call" where
  "sim_info stream s = (Inr \<lparr>si_config = sim_config stream, si_messages = 0\<rparr>, s)"

definition sim_unit :: "(Sim, unit) io_call" where
  "sim_unit s = (Inr (), s)"

definition sim_no :: "(Sim, 'a) io_call" where
  "sim_no s = (Inl sim_error, s)"

definition sim_entry :: "string \<Rightarrow> string \<Rightarrow> (Sim, KvEntry option) io_call" where
  "sim_entry bucket key s =
     (let ms = on_subject (kv_subject bucket key) (sim_log s (kv_stream_name bucket)) in
        (Inr (if ms = [] then None
              else Some \<lparr>ke_operation = (if message_is_put (lg_headers (last ms)) then KvPut else KvDelete),
                         ke_revision = lg_seq (last ms), ke_created = 0, ke_value = lg_data (last ms)\<rparr>), s))"

text \<open>Pull consumers and objects are not simulated.\<close>

definition sim_nats :: "Sim Nats" where
  "sim_nats =
     \<lparr>js_stream_names = (\<lambda>s. ([], s)), js_stream_info = sim_info,
      js_add_stream = (\<lambda>config. sim_info (sc_name config)), js_update_stream = (\<lambda>config. sim_info (sc_name config)),
      js_get_last_message = sim_last, js_get_message = (\<lambda>_ _. sim_no), js_publish = sim_publish,
      js_subscribe = sim_subscribe, js_pull_subscribe = (\<lambda>_ _ _. sim_no), js_fetch = (\<lambda>_ _. sim_no),
      js_ack = (\<lambda>_ _. sim_no), js_purge_stream_subject = (\<lambda>_ _. sim_no), js_key_value = (\<lambda>_. sim_unit),
      js_create_key_value = (\<lambda>_. sim_unit), kvs_keys = (\<lambda>_. sim_no), kvs_entry = sim_entry,
      kvs_put = (\<lambda>_ _ _. sim_no), js_object_store = (\<lambda>_. sim_no), js_create_object_store = (\<lambda>_. sim_no),
      os_get = (\<lambda>_ _. sim_no), os_read_to_end = (\<lambda>_. sim_no), os_info = (\<lambda>_ _. sim_no),
      os_put = (\<lambda>_ _ _. sim_no), os_delete = (\<lambda>_ _. sim_no)\<rparr>"

definition sim_core :: "Sim NatsCore" where
  "sim_core = \<lparr>core_context = sim_nats, core_config =
     \<lparr>nc_timeout = 1, nc_stream_duplicate_window = 1, nc_kv_history = 1, nc_retries = 2, nc_backoff = 1\<rparr>\<rparr>"

text \<open>Ids forgotten, as when the duplicate window passes.\<close>

definition sim_forget :: "Sim \<Rightarrow> Sim" where
  "sim_forget s = s\<lparr>sim_forgotten := length (sim_entries s)\<rparr>"

section \<open>It keeps the contract\<close>

lemma sim_missing_not_found: "is_not_found sim_missing"
  by code_simp

lemma sim_error_not_missing: "\<not> is_not_found sim_error"
  by code_simp

lemma sim_server_simps [simp]: "sv_log sim_server = sim_log" "sv_recent sim_server = sim_recent"
  by (simp_all add: sim_server_def)

lemma sim_state: "server_state sim_server s"
proof -
  have "sorted_wrt (<) (map lg_seq (sim_log s stream))" for stream
  proof (cases "sim_ok s")
    case True
    then have "sorted_wrt (\<lambda>x y. lg_seq (snd x) < lg_seq (snd y)) (filter (\<lambda>(st, _). st = stream) (sim_entries s))"
      by (intro sorted_wrt_filter) (simp add: sim_ok_def sorted_wrt_map case_prod_beta)
    then show ?thesis using True by (simp add: sim_log_def sorted_wrt_map)
  qed (simp add: sim_log_def)
  moreover have "\<exists>m \<in> set (sim_log s stream). lg_id m = Some msg_id" if "sim_recent s stream msg_id" for stream msg_id
    using that by (force simp: sim_recent_def sim_log_def list_ex_iff dest: in_set_dropD)
  ultimately show ?thesis by (simp add: server_state_def)
qed

lemma sim_message_logged: "logged_as subject headers payload msg_id (sim_message subject headers payload msg_id s)"
  by (auto simp: logged_as_def sim_message_def header_get_def NATS_MSG_ID_def split: option.splits)

lemma sim_append_log:
  assumes "sim_ok (sim_append stream m s)"
  shows "sim_log (sim_append stream m s) st = sim_log s st @ (if st = stream then [m] else [])"
proof -
  have "sim_ok s" using assms by (simp add: sim_ok_def sim_append_def sorted_wrt_append)
  then show ?thesis using assms by (simp add: sim_log_def) (simp add: sim_append_def)
qed

lemma sim_lost_irrelevant [simp]:
  "sim_log (s\<lparr>sim_lost := xs\<rparr>) = sim_log s" "sim_recent (s\<lparr>sim_lost := xs\<rparr>) = sim_recent s"
  by (simp_all add: sim_log_def sim_recent_def sim_ok_def fun_eq_iff)

lemma sim_append_recent:
  "sim_ok (sim_append stream m s) \<Longrightarrow> sim_forgotten s \<le> length (sim_entries s) \<Longrightarrow> lg_id m = Some msg_id \<Longrightarrow>
    sim_recent (sim_append stream m s) stream msg_id"
  by (simp add: sim_recent_def) (simp add: sim_append_def)

lemma publishes_alone:
  assumes "\<And>st. sv_log sv s' st = sv_log sv s st @ (if st = stream then own else [])"
    and "own = [] \<or> (\<exists>m. own = [m] \<and> logged_as subject headers payload msg_id m)"
    and "sv_recent sv s stream msg_id \<Longrightarrow> own = [] \<and> sv_recent sv s' stream msg_id"
    and "own \<noteq> [] \<Longrightarrow> sv_recent sv s' stream msg_id" "is_ok r \<Longrightarrow> own \<noteq> [] \<or> sv_recent sv s stream msg_id"
  shows "publishes sv F stream subject headers payload msg_id s (r, s')"
proof -
  have "sv_log sv s' stream = sv_log sv s stream @ [] @ own @ []" using assms(1) [of stream] by simp
  moreover have "\<exists>new. sv_log sv s' other = sv_log sv s other @ new \<and> (\<forall>m \<in> set new. F other m)"
    if "other \<noteq> stream" for other
    using assms(1) [of other] that by (intro exI [of _ "[]"]) simp
  moreover have "\<forall>m \<in> set [] \<union> set []. F stream m" by simp
  ultimately show ?thesis
    unfolding publishes_def prod.case using assms(2-5) by blast
qed

lemma sim_publishes:
  assumes "po_expected_stream options = Some stream" "po_id options = Some msg_id"
  shows "publishes sim_server F stream subject headers payload msg_id s (sim_publish subject headers payload options s)"
proof -
  let ?m = "sim_message subject headers payload msg_id s"
  consider "sim_recent s stream msg_id"
    | "\<not> sim_recent s stream msg_id" "sim_ok (sim_append stream ?m s)" "sim_forgotten s \<le> length (sim_entries s)"
    | "\<not> sim_recent s stream msg_id" "\<not> (sim_ok (sim_append stream ?m s) \<and> sim_forgotten s \<le> length (sim_entries s))"
    by blast
  then show ?thesis
  proof cases
    case 1
    then obtain r where "sim_publish subject headers payload options s = (r, s\<lparr>sim_lost := tl (sim_lost s)\<rparr>)"
      using assms by (auto simp: sim_publish_def Let_def)
    then show ?thesis using 1 by (simp, intro publishes_alone [where own = "[]"]) simp_all
  next
    case 2
    have "lg_id ?m = Some msg_id" by (simp add: sim_message_def)
    with 2 have "sim_recent (sim_append stream ?m s) stream msg_id" by (intro sim_append_recent)
    moreover obtain r where "sim_publish subject headers payload options s =
        (r, (sim_append stream ?m s)\<lparr>sim_lost := tl (sim_lost (sim_append stream ?m s))\<rparr>)"
      using 2 assms by (auto simp: sim_publish_def Let_def)
    ultimately show ?thesis
      using 2 sim_message_logged by (simp, intro publishes_alone [where own = "[?m]"]) (simp_all add: sim_append_log)
  next
    case 3
    then have "sim_publish subject headers payload options s = (Inl sim_error, s)"
      using assms by (auto simp: sim_publish_def Let_def)
    then show ?thesis using 3(1) by (simp, intro publishes_alone [where own = "[]"]) (simp_all add: is_ok_def)
  qed
qed

lemma sim_jetstream: "jetstream sim_server F sim_nats"
proof -
  have "reads_last sim_server stream subject (sim_last stream subject s)" for stream subject s
    by (simp add: reads_last_def sim_last_def Let_def message_of_def)
  moreover have "delivers sim_server stream subject (sim_subscribe subject options s)"
    if "so_bind_stream options = Some stream" for stream subject options s
    using that
    by (auto simp: delivers_def sim_subscribe_def list_all2_map1 delivery_of_def sim_delivery_def
      intro!: exI [of _ "on_subject subject (sim_log s stream)"] exI [of _ "length (on_subject subject (sim_log s stream))"]
        list_all2_refl)
  moreover have "snd (sim_subscribe subject options s) = s" for subject options s
    by (simp add: sim_subscribe_def split: option.splits)
  ultimately show ?thesis
    by (auto simp: jetstream_def sim_nats_def sim_state sim_info_def sim_unit_def sim_publishes)
      (simp add: sim_last_def Let_def)
qed

section \<open>A marker coding\<close>

fun sim_string :: "string \<Rightarrow> bytes" where
  "sim_string [] = [0]"
| "sim_string (c # cs) = 1 # word_of_nat (of_char c) # sim_string cs"

fun sim_parse :: "bytes \<Rightarrow> (string \<times> bytes) option" where
  "sim_parse (t # b # rest) =
     (if t = 0 then Some ([], b # rest) else map_option (\<lambda>(cs, r). (char_of (unat b) # cs, r)) (sim_parse rest))"
| "sim_parse [t] = (if t = 0 then Some ([], []) else None)"
| "sim_parse [] = None"

lemma sim_parse_string: "sim_parse (sim_string cs @ rest) = Some (cs, rest)"
proof (induction cs)
  case Nil
  show ?case by (cases rest) simp_all
next
  case (Cons c cs)
  have "char_of (unat (word_of_nat (of_char c) :: u8)) = c"
    using str_of_as_bytes [of "[c]"] by (simp add: str_of_bytes_def as_bytes_def)
  with Cons show ?case by simp
qed

definition sim_markers :: MarkerSerde where
  "sim_markers =
     \<lparr>marker_to_vec = (\<lambda>m. Inr (sim_string (wm_operation m) @ sim_string (wm_idempotency_key m) @ sim_string (wm_key m))),
      marker_from_slice = (\<lambda>bs.
        case sim_parse bs of None \<Rightarrow> Inl ''marker''
        | Some (operation, r) \<Rightarrow> (case sim_parse r of None \<Rightarrow> Inl ''marker''
        | Some (ik, r) \<Rightarrow> (case sim_parse r of None \<Rightarrow> Inl ''marker''
        | Some (key, _) \<Rightarrow> Inr \<lparr>wm_operation = operation, wm_idempotency_key = ik, wm_key = key\<rparr>)))\<rparr>"

lemma sim_markers_roundtrip: "marker_to_vec sim_markers m = Inr bs \<Longrightarrow> marker_from_slice sim_markers bs = Inr m"
  using sim_parse_string [of _ "[]"] by (auto simp: sim_markers_def sim_parse_string)

end
