(* ===== verification/Nats_Line_Props.thy ===== *)
theory Nats_Line_Props
  imports Nats_Line_Calls Nats_Sim
begin

text \<open>
  The publication of JSON lines as a whole, over all runs of attempts: every line is in its stream
  at most once, and exactly once after an attempt that succeeds.
\<close>

section \<open>The loop over the lines\<close>

lemma line_publishing_inv: "line_publishing sv l s \<Longrightarrow> line_inv sv l s"
  by (auto simp: line_publishing_def line_states_inv)

lemma publish_line_triple:
  assumes js: "jetstream sv (line_others l) (core_context core)" and stream: "lw_stream l \<noteq> LEDGER_STREAM"
  shows "triple (line_inv sv l) (line_absent sv l)
    (retry_io core (js_publish (core_context core) (lw_subject l) None (lw_data l)
      (publish_options core (Some (lw_id l)) (lw_stream l) None))) (\<lambda>_. line_present sv l)"
proof -
  note published = line_published [OF jetstream_publishes [OF js] _ jetstream_state [OF js] stream]
  have "triple (line_inv sv l) (line_publishing sv l)
    (retry_io core (js_publish (core_context core) (lw_subject l) None (lw_data l)
      (publish_options core (Some (lw_id l)) (lw_stream l) None))) (\<lambda>_. line_present sv l)"
    by (rule triple_retry_io) (auto intro: published line_publishing_inv simp: is_ok_def)
  then show ?thesis by (rule triple_conseq) (simp_all add: line_publishing_def)
qed

lemma line_id_inj: "line_id seed i = line_id seed j \<longleftrightarrow> i = j"
  using show_nat_inj by (auto simp: line_id_def)

lemma publish_loop_triple:
  assumes js: "jetstream sv (line_others l) (core_context core)" and stream: "lw_stream l \<noteq> LEDGER_STREAM"
    and keeps: "retains sv (core_context core) (lw_stream l)"
  shows "lw_id l = line_id seed (index + i) \<Longrightarrow> i < length lines \<Longrightarrow> lw_data l = as_bytes (lines ! i) \<Longrightarrow>
    triple (line_inv sv l) (line_inv sv l) (publish_loop core (lw_stream l) (lw_subject l) seed index lines)
      (\<lambda>_. line_present sv l)"
proof (induction lines arbitrary: index i)
  case (Cons line lines)
  show ?case
  proof (cases i)
    case 0
    have rest: "quiet sv (line_others l) (publish_loop core (lw_stream l) (lw_subject l) seed (Suc index) lines)"
      using Cons.prems(1) 0 by (intro quiet_publish_loop [OF js stream]) (simp add: line_id_inj)
    note tail = quiet_triple [where E = "line_inv sv l", OF rest line_present_grows line_states_inv(2)]
    have own: "line_id seed index = lw_id l" "as_bytes line = lw_data l" using Cons.prems 0 by simp_all
    have publish: "triple (line_inv sv l) (line_absent sv l)
        (\<lambda>s. obind (retry_io core (js_publish (core_context core) (lw_subject l) None (lw_data l)
               (publish_options core (Some (lw_id l)) (lw_stream l) None)) s) (\<lambda>ack s.
             obind (record_applied core (lw_ledger l) s) (\<lambda>_ s.
             obind (publish_loop core (lw_stream l) (lw_subject l) seed (Suc index) lines s) (\<lambda>sequences s.
               (Inr (ack # sequences), s))))) (\<lambda>_. line_present sv l)"
      by (intro triple_obind [OF publish_line_triple [OF js stream]] triple_obind [OF line_record_triple [OF js stream]]
        triple_obind [OF tail] triple_Inr)
    show ?thesis
      unfolding publish_loop.simps Let_def own
      by (intro triple_obind [OF line_applied_triple [OF js stream keeps]] triple_if)
        (auto intro: triple_conseq [OF tail] triple_conseq [OF publish])
  next
    case (Suc k)
    have other: "line_id seed index \<noteq> lw_id l" using Cons.prems(1) Suc by (simp add: line_id_inj)
    have rest: "triple (line_inv sv l) (line_inv sv l)
        (publish_loop core (lw_stream l) (lw_subject l) seed (Suc index) lines) (\<lambda>_. line_present sv l)"
      using Cons.prems Suc by (intro Cons.IH [of _ k]) simp_all
    have own: "line_others l (lw_stream l) m"
      if "logged_as (lw_subject l) None (as_bytes line) (line_id seed index) m" for m
      using that logged_is_line [OF that] other stream by (simp add: line_others_def logged_as_def)
    have recording: "quiet sv (line_others l)
        (record_applied core (stream_writeback_ledger_key (lw_stream l) (lw_subject l) (line_id seed index)))"
      using other by (intro quiet_record_applied [OF js stream]) (simp add: stream_ledger_key_eq)
    show ?thesis
      unfolding publish_loop.simps Let_def
      by (intro triple_obind [OF quiet_triple [OF quiet_line_applied [OF js stream other] line_inv_grows]] triple_if
        triple_obind [OF quiet_triple [OF quiet_publish [OF js own] line_inv_grows]]
        triple_obind [OF quiet_triple [OF recording line_inv_grows]] triple_obind [OF rest] triple_Inr rest)
  qed
qed simp

lemma ensure_subject_quiet:
  assumes "jetstream sv F (core_context core)"
  shows "quiet sv F (nst_ensure_subject core stream subject)"
  unfolding nst_ensure_subject_def nst_ensure_def
  by (intro quiet_obind quiet_if quiet_from_io quiet_Inr core_quiet jetstream_quiet assms)

section \<open>Runs of attempts\<close>

definition line_of :: "string \<Rightarrow> string \<Rightarrow> string \<Rightarrow> string list \<Rightarrow> nat \<Rightarrow> LineWrite" where
  "line_of stream subject seed lines i =
     \<lparr>lw_stream = stream, lw_subject = subject, lw_id = line_id seed i, lw_data = as_bytes (lines ! i)\<rparr>"

text \<open>Other clients leave all lines of this publication alone.\<close>

definition lines_others :: "string \<Rightarrow> string \<Rightarrow> string \<Rightarrow> string list \<Rightarrow> string \<Rightarrow> Logged \<Rightarrow> bool" where
  "lines_others stream subject seed lines st m \<longleftrightarrow>
     (\<forall>i < length lines. line_others (line_of stream subject seed lines i) st m)"

inductive line_run ::
  "'s NatsCore \<Rightarrow> 's Server \<Rightarrow> Json \<Rightarrow> (EventFsError \<Rightarrow> string) \<Rightarrow> string \<Rightarrow> string \<Rightarrow> bytes \<Rightarrow> string \<Rightarrow> string list
    \<Rightarrow> 's \<Rightarrow> 's \<Rightarrow> bool"
  for core sv json display stream subject bs seed lines s where
  start: "line_run core sv json display stream subject bs seed lines s s"
| attempt: "line_run core sv json display stream subject bs seed lines s s1 \<Longrightarrow>
    nst_publish_json_lines core json display stream subject bs seed s1 = (r, s2) \<Longrightarrow>
    line_run core sv json display stream subject bs seed lines s s2"
| elsewhere: "line_run core sv json display stream subject bs seed lines s s1 \<Longrightarrow>
    grows sv (lines_others stream subject seed lines) s1 s2 \<Longrightarrow>
    line_run core sv json display stream subject bs seed lines s s2"

lemma publish_json_lines_triple:
  assumes js: "jetstream sv (line_others l) (core_context core)" and stream: "stream \<noteq> LEDGER_STREAM"
    and keeps: "retains sv (core_context core) stream" and lines: "json_lines json subject bs = Inr lines"
    and l: "l = line_of stream subject seed lines i" and i: "i < length lines"
  shows "triple (line_inv sv l) (line_inv sv l) (nst_publish_json_lines core json display stream subject bs seed)
    (\<lambda>_. line_present sv l)"
proof -
  have own: "lw_stream l = stream" "lw_subject l = subject" "lw_id l = line_id seed (0 + i)" "lw_data l = as_bytes (lines ! i)"
    by (simp_all add: l line_of_def)
  have loop: "triple (line_inv sv l) (line_inv sv l) (publish_loop core stream subject seed 0 lines) (\<lambda>_. line_present sv l)"
    using publish_loop_triple [OF js _ _ own(3) i own(4)] own(1,2) stream keeps by simp
  have checked: "transport_invalid display (json_lines json subject bs) = Inr lines"
    by (simp add: lines transport_invalid_def map_err_def)
  show ?thesis
    unfolding nst_publish_json_lines_def checked sum.case
    by (intro triple_sum triple_Inl triple_obind [OF quiet_triple [OF ensure_subject_quiet [OF js] line_inv_grows] loop])
qed

text \<open>A publication no line of which was ever sent.\<close>

definition new_lines :: "'s Server \<Rightarrow> string \<Rightarrow> string \<Rightarrow> string \<Rightarrow> string list \<Rightarrow> 's \<Rightarrow> bool" where
  "new_lines sv stream subject seed lines s \<longleftrightarrow>
     (\<forall>st. \<forall>m \<in> set (sv_log sv s st). lines_others stream subject seed lines st m)"

lemma new_lines_inv:
  assumes "new_lines sv stream subject seed lines s" "i < length lines"
  shows "line_inv sv (line_of stream subject seed lines i) s"
proof -
  let ?l = "line_of stream subject seed lines i"
  have old: "line_others ?l st m" if "m \<in> set (sv_log sv s st)" for st m
    using assms that by (simp add: new_lines_def lines_others_def)
  have "filter (is_line ?l) (sv_log sv s (lw_stream ?l)) = []"
    "on_subject (ledger_subject (lw_ledger ?l)) (sv_log sv s LEDGER_STREAM) = []"
    using old by (auto simp: filter_empty_conv on_subject_def line_others_def)
  moreover have "\<forall>m \<in> set (sv_log sv s (lw_stream ?l)). lg_id m \<noteq> Some (lw_id ?l) \<and> \<not> is_line ?l m"
    using old by (simp add: line_others_def)
  ultimately show ?thesis unfolding line_inv_def Let_def by simp
qed

lemma line_run_inv:
  assumes "jetstream sv (lines_others stream subject seed lines) (core_context core)" "stream \<noteq> LEDGER_STREAM"
    and "retains sv (core_context core) stream" "json_lines json subject bs = Inr lines" "i < length lines"
  shows "line_run core sv json display stream subject bs seed lines s s' \<Longrightarrow>
    line_inv sv (line_of stream subject seed lines i) s \<Longrightarrow> line_inv sv (line_of stream subject seed lines i) s'"
proof (induction rule: line_run.induct)
  case (attempt s1 r s2)
  have "jetstream sv (line_others (line_of stream subject seed lines i)) (core_context core)"
    by (rule jetstream_mono [OF assms(1)]) (use assms(5) in \<open>simp add: lines_others_def\<close>)
  note t = publish_json_lines_triple [OF this assms(2-4) refl assms(5)]
  show ?case using attempt by (cases r) (auto dest: tripleD [OF t] intro: line_states_inv)
next
  case (elsewhere s1 s2)
  have "grows sv (line_others (line_of stream subject seed lines i)) s1 s2"
    by (rule grows_mono [OF elsewhere(2)]) (use assms(5) in \<open>simp add: lines_others_def\<close>)
  then show ?case using elsewhere(3) [OF elsewhere(4)] by (blast intro: line_inv_grows)
qed

lemma line_present_once:
  assumes "line_present sv l s"
  shows "\<exists>m. filter (is_line l) (sv_log sv s (lw_stream l)) = [m] \<and> lg_data m = lw_data l"
proof -
  have "filter (is_line l) (sv_log sv s (lw_stream l)) \<noteq> []" "length (filter (is_line l) (sv_log sv s (lw_stream l))) \<le> 1"
    using assms by (auto simp: line_present_def line_inv_def Let_def)
  then obtain m where m: "filter (is_line l) (sv_log sv s (lw_stream l)) = [m]"
    by (cases "filter (is_line l) (sv_log sv s (lw_stream l))") auto
  then have "m \<in> set (sv_log sv s (lw_stream l))" "is_line l m"
    using filter_set [of "is_line l" "sv_log sv s (lw_stream l)"] by auto
  then show ?thesis using assms m unfolding line_present_def line_inv_def Let_def by blast
qed

section \<open>Property\<close>

text \<open>C6: JSON lines are published exactly once. Take a publication that was never sent and any run of
  attempts at it, each of which may fail at any of its calls, also after the server
  appended a line and lost the acknowledgement, while other clients write and the duplicate
  window forgets between calls. If the stream retains its messages, then after one more
  attempt every line is in the stream at most once; and if that attempt answers \<open>Ok\<close>, every
  line is there exactly once, with its bytes.\<close>

theorem json_lines_exactly_once:
  assumes "jetstream sv (lines_others stream subject seed lines) (core_context core)" "stream \<noteq> LEDGER_STREAM"
    and "retains sv (core_context core) stream" "json_lines json subject bs = Inr lines" "i < length lines"
    and "new_lines sv stream subject seed lines s" "line_run core sv json display stream subject bs seed lines s s1"
    and "nst_publish_json_lines core json display stream subject bs seed s1 = (r, s2)"
  shows "length (filter (is_line (line_of stream subject seed lines i)) (sv_log sv s2 stream)) \<le> 1
    \<and> (is_ok r \<longrightarrow> (\<exists>m. filter (is_line (line_of stream subject seed lines i)) (sv_log sv s2 stream) = [m]
          \<and> lg_data m = as_bytes (lines ! i)))"
proof -
  let ?l = "line_of stream subject seed lines i"
  have st: "lw_stream ?l = stream" "lw_data ?l = as_bytes (lines ! i)" by (simp_all add: line_of_def)
  have inv1: "line_inv sv ?l s1" by (rule line_run_inv [OF assms(1-5,7) new_lines_inv [OF assms(6,5)]])
  have inv2: "line_inv sv ?l s2"
    by (rule line_run_inv [OF assms(1-5) line_run.attempt [OF assms(7,8)] new_lines_inv [OF assms(6,5)]])
  have "jetstream sv (line_others ?l) (core_context core)"
    by (rule jetstream_mono [OF assms(1)]) (use assms(5) in \<open>simp add: lines_others_def\<close>)
  note t = publish_json_lines_triple [OF this assms(2-4) refl assms(5)]
  have "line_present sv ?l s2" if "is_ok r"
    using that assms(8) tripleD(1) [OF t inv1] by (cases r) (auto simp: is_ok_def)
  then show ?thesis using line_present_once [of sv ?l s2] inv2 st by (auto simp: line_inv_def Let_def)
qed

text \<open>The witness loses the acknowledgements of the second line, lets the duplicate window forget, and
  tries again.\<close>

definition sim_lines_json :: Json where
  "sim_lines_json = \<lparr>json_parse = (\<lambda>_. Inr ()), utf8_text = (\<lambda>_. [])\<rparr>"

definition sim_lines_start :: Sim where
  "sim_lines_start = \<lparr>sim_entries = [], sim_forgotten = 0, sim_lost = [False, False, True, True, True]\<rparr>"

definition sim_lines_put :: "Sim \<Rightarrow> (Sim, u64 list) outcome" where
  "sim_lines_put = nst_publish_json_lines sim_core sim_lines_json (\<lambda>_. []) ''S'' ''s'' [49, 10, 50] ''w''"

abbreviation sim_run_of :: "Sim \<Rightarrow> Sim \<Rightarrow> bool" where
  "sim_run_of \<equiv> line_run sim_core sim_server sim_lines_json (\<lambda>_. []) ''S'' ''s'' [49, 10, 50] ''w'' [''1'', ''2'']"

lemma sim_retains: "retains sim_server sim_nats stream"
  unfolding retains_def
proof (intro allI impI)
  fix subject s sub s'
  assume "js_subscribe sim_nats subject \<lparr>so_bind_stream = Some stream, so_ordered = False, so_deliver = DeliverAll\<rparr> s = (Inr sub, s')"
  then have "s' = s" "sub_messages sub = map sim_delivery (on_subject subject (sim_log s stream))"
    by (auto simp: sim_nats_def sim_subscribe_def)
  then show "\<exists>n. list_all2 delivery_of (sub_messages sub) (take n (on_subject subject (sv_log sim_server s' stream)))"
    by (intro exI [of _ "length (on_subject subject (sim_log s stream))"])
      (auto simp: list_all2_map1 delivery_of_def sim_delivery_def intro!: list_all2_refl)
qed

lemma sim_lines_run: "sim_run_of sim_lines_start (sim_forget (snd (sim_lines_put sim_lines_start)))"
proof -
  have "sim_run_of sim_lines_start (snd (sim_lines_put sim_lines_start))"
    using line_run.attempt [OF line_run.start] unfolding sim_lines_put_def by (metis prod.collapse)
  moreover have "grows sim_server F s (sim_forget s)" for F s
    by (simp add: grows_def sim_forget_def sim_log_def sim_ok_def)
  ultimately show ?thesis by (rule line_run.elsewhere)
qed

lemma sim_lines_parsed: "json_lines sim_lines_json ''s'' [49, 10, 50] = Inr [''1'', ''2'']"
  by code_simp

lemma sim_lines_put_eq:
  "sim_lines_put s =
    obind (nst_ensure_subject sim_core ''S'' ''s'' s) (\<lambda>_. publish_loop sim_core ''S'' ''s'' ''w'' 0 [''1'', ''2''])"
proof -
  have "validate_json_lines sim_lines_json ''s'' [49, 10, 50] = Inr ()"
    by (simp add: validate_json_lines_Inr sim_lines_parsed) (simp add: sim_lines_json_def)
  then show ?thesis
    by (simp add: sim_lines_put_def nst_publish_json_lines_def sim_lines_parsed transport_invalid_def map_err_def
      del: publish_loop.simps)
qed

theorem json_lines_exactly_once_witness:
  "is_err (fst (sim_lines_put sim_lines_start))
   \<and> (\<exists>m. filter (is_line (line_of ''S'' ''s'' ''w'' [''1'', ''2''] 1))
         (sv_log sim_server (snd (sim_lines_put (sim_forget (snd (sim_lines_put sim_lines_start))))) ''S'') = [m]
       \<and> lg_data m = as_bytes ''2'')"
proof -
  let ?s = "sim_forget (snd (sim_lines_put sim_lines_start))"
  have "stream_visible_in_mount ''S''" by code_simp
  then have stream: "''S'' \<noteq> LEDGER_STREAM" by (simp add: stream_visible_in_mount_def)
  have new: "new_lines sim_server ''S'' ''s'' ''w'' [''1'', ''2''] sim_lines_start"
    by (simp add: new_lines_def sim_lines_start_def sim_log_def)
  have put: "nst_publish_json_lines sim_core sim_lines_json (\<lambda>_. []) ''S'' ''s'' [49, 10, 50] ''w'' ?s =
      (fst (sim_lines_put ?s), snd (sim_lines_put ?s))"
    by (simp add: sim_lines_put_def)
  have "jetstream sim_server (lines_others ''S'' ''s'' ''w'' [''1'', ''2'']) (core_context sim_core)"
    "retains sim_server (core_context sim_core) ''S''" "1 < length [''1'', ''2'']"
    by (simp_all add: sim_core_def sim_jetstream sim_retains)
  note once = json_lines_exactly_once [OF this(1) stream this(2) sim_lines_parsed this(3) new sim_lines_run put]
  have "is_ok (fst (sim_lines_put ?s))" unfolding sim_lines_put_eq by code_simp
  moreover have "is_err (fst (sim_lines_put sim_lines_start))" unfolding sim_lines_put_eq by code_simp
  ultimately show ?thesis using once by simp
qed

end
