(* ===== verification/Nats_Watch.thy ===== *)
theory Nats_Watch
  imports Nats_Objects_Write Nats_Streams Cache
begin

text \<open>
  \<open>storage/nats/watch.rs\<close>: the live subscriptions a mount watches, and how their messages become
  the watch events of the cache. A message that cannot be understood, a subscription that lost messages, a
  connection that was interrupted and a subscription with more messages than one poll takes
  all become a gap, which empties the cache.
\<close>

definition WATCH_DRAIN_LIMIT :: nat where
  "WATCH_DRAIN_LIMIT = 4096"

definition OBJECT_METADATA_WATCH_SUBJECT :: string where
  "OBJECT_METADATA_WATCH_SUBJECT = ''$O.*.M.>''"

definition live_watch_subjects :: "string list" where
  "live_watch_subjects = [''$KV.>'', OBJECT_METADATA_WATCH_SUBJECT, ''events.>'', ''agents.>'']"

section \<open>One message\<close>

type_synonym WatchMessageDispatch = "WatchEvent list"

definition dispatch_ignored :: WatchMessageDispatch where
  "dispatch_ignored = []"

definition dispatch_gap :: WatchMessageDispatch where
  "dispatch_gap = [Gap]"

definition dispatch_invalidate_affected_paths :: "AffectedPath list \<Rightarrow> WatchMessageDispatch" where
  "dispatch_invalidate_affected_paths paths =
     map (\<lambda>affected. InvalidateAffectedPath (ap_path affected) (ap_reason affected)) paths"

definition storage_fact_watch_dispatch :: "StorageFact \<Rightarrow> WatchMessageDispatch" where
  "storage_fact_watch_dispatch sfact =
     (case invalidation_paths sfact of
        Inr paths \<Rightarrow> dispatch_invalidate_affected_paths paths
      | Inl _ \<Rightarrow> dispatch_gap)"

definition object_watch_dispatch :: "ObjectSerde \<Rightarrow> Message \<Rightarrow> WatchMessageDispatch option" where
  "object_watch_dispatch serde message =
     (case object_watch_subject (m_subject message) of
        None \<Rightarrow> None
      | Some WatchChunk \<Rightarrow> Some dispatch_ignored
      | Some WatchMarker \<Rightarrow> Some dispatch_ignored
      | Some (WatchMetadata bucket) \<Rightarrow>
          (case object_watch_fact serde bucket message of
             Some sfact \<Rightarrow> Some (storage_fact_watch_dispatch sfact)
           | None \<Rightarrow> Some dispatch_gap))"

definition watch_message_dispatch :: "ObjectSerde \<Rightarrow> Message \<Rightarrow> WatchMessageDispatch" where
  "watch_message_dispatch serde message =
     (let subject = m_subject message in
        case kv_subject_parts subject of
          Some (bucket, key) \<Rightarrow> storage_fact_watch_dispatch (StorageFact.Kv bucket key)
        | None \<Rightarrow>
            (case object_watch_dispatch serde message of
               Some dispatch \<Rightarrow> dispatch
             | None \<Rightarrow>
                 (case strip_prefix ''events.'' subject of
                    Some stream \<Rightarrow> storage_fact_watch_dispatch (StorageFact.StreamSubject stream subject)
                  | None \<Rightarrow>
                      (if agent_mailbox_parts subject \<noteq> None then
                         storage_fact_watch_dispatch (StorageFact.StreamSubject AGENTS_STREAM subject)
                       else if is_reserved_agent_mailbox_subject subject then dispatch_ignored
                       else dispatch_gap))))"

definition watch_events_from_message :: "ObjectSerde \<Rightarrow> Message \<Rightarrow> WatchEvent list" where
  "watch_events_from_message serde message = watch_message_dispatch serde message"

section \<open>One poll\<close>

text \<open>\<open>messages\<close> is what \<open>try_iter()\<close> yields.\<close>

definition drain_watch_messages :: "ObjectSerde \<Rightarrow> Message list \<Rightarrow> WatchEvent list" where
  "drain_watch_messages serde messages =
     (let drained = take WATCH_DRAIN_LIMIT messages in
        concat (map (watch_events_from_message serde) drained)
        @ (if length drained = WATCH_DRAIN_LIMIT then [Gap] else []))"

record WatchContinuity =
  wc_gap :: bool

definition WatchContinuity_new :: WatchContinuity where
  "WatchContinuity_new = \<lparr>wc_gap = False\<rparr>"

definition mark_gap :: "WatchContinuity \<Rightarrow> WatchContinuity" where
  "mark_gap continuity = continuity\<lparr>wc_gap := True\<rparr>"

definition take_gap :: "WatchContinuity \<Rightarrow> bool \<times> WatchContinuity" where
  "take_gap continuity = (wc_gap continuity, continuity\<lparr>wc_gap := False\<rparr>)"

text \<open>A live subscription: what \<open>dropped_messages\<close> answers, and the messages that wait.\<close>

record WatchSubscription =
  ws_dropped :: "IoError + nat"
  ws_waiting :: "Message list"

record NatsWatch =
  nw_subscriptions :: "WatchSubscription list"
  nw_continuity :: WatchContinuity

definition subscription_events :: "ObjectSerde \<Rightarrow> WatchSubscription \<Rightarrow> WatchEvent list" where
  "subscription_events serde sub =
     (case ws_dropped sub of Inr 0 \<Rightarrow> [] | _ \<Rightarrow> [Gap]) @ drain_watch_messages serde (ws_waiting sub)"

text \<open>The poll leaves behind what \<open>take\<close> did not reach.\<close>

definition nats_watch_events :: "ObjectSerde \<Rightarrow> NatsWatch \<Rightarrow> WatchEvent list \<times> NatsWatch" where
  "nats_watch_events serde watch =
     (case take_gap (nw_continuity watch) of
        (gap, continuity) \<Rightarrow>
          ((if gap then [Gap] else []) @ concat (map (subscription_events serde) (nw_subscriptions watch)),
           \<lparr>nw_subscriptions =
              map (\<lambda>sub. sub\<lparr>ws_waiting := drop WATCH_DRAIN_LIMIT (ws_waiting sub)\<rparr>) (nw_subscriptions watch),
            nw_continuity = continuity\<rparr>))"

section \<open>Connecting\<close>

text \<open>The callbacks installed by \<open>connection_options\<close>; each marks a gap.\<close>

datatype ConnectionEvent = Disconnected | Reconnected | Closed | ConnectionError

fun connection_callback :: "ConnectionEvent \<Rightarrow> WatchContinuity \<Rightarrow> WatchContinuity" where
  "connection_callback Disconnected continuity = mark_gap continuity"
| "connection_callback Reconnected continuity = mark_gap continuity"
| "connection_callback Closed continuity = mark_gap continuity"
| "connection_callback ConnectionError continuity = mark_gap continuity"

text \<open>\<open>connect\<close>: \<open>connection\<close> and \<open>subscribe\<close> are the client's answers.\<close>

definition nats_watch_connect ::
  "IoError + unit \<Rightarrow> (string \<Rightarrow> IoError + WatchSubscription) \<Rightarrow> TransportError + NatsWatch" where
  "nats_watch_connect connection subscribe =
     rbind (map_err Io connection) (\<lambda>_.
       rbind (try_map (\<lambda>subject. map_err Io (subscribe subject)) live_watch_subjects) (\<lambda>subscriptions.
         Inr \<lparr>nw_subscriptions = subscriptions, nw_continuity = WatchContinuity_new\<rparr>))"

end
