(* ===== verification/Nats_Watch_Props.thy ===== *)
theory Nats_Watch_Props
  imports Nats_Watch Cache_Props
begin

text \<open>
  The watch and the cache together: whatever a poll of the live subscriptions finds waiting, and
  whatever it may have lost, the cache afterwards holds nothing that a waiting message made stale.
\<close>

section \<open>Polls never refresh\<close>

definition invalidates_only :: "WatchEvent list \<Rightarrow> bool" where
  "invalidates_only events \<longleftrightarrow> (\<forall>ev \<in> set events. \<forall>entry. ev \<noteq> Refresh entry)"

definition cache_apply_all :: "WatchEvent list \<Rightarrow> LocalCache \<Rightarrow> LocalCache" where
  "cache_apply_all events cache = foldl (\<lambda>cache ev. cache_apply ev cache) cache events"

lemma cache_apply_invalidates:
  assumes "cache_inv cache" "\<And>entry. ev \<noteq> Refresh entry"
  shows "cache_get (cache_apply ev cache) k =
    (if \<exists>a \<in> set (actions (for_watch_event ev)). action_clears k a then None else cache_get cache k)"
  using assms get_apply_invalidation [OF assms(1), of "for_watch_event ev" k]
  by (cases ev) (auto simp: cache_apply_def Let_def)

lemma cache_apply_all_None:
  assumes "cache_inv cache" "invalidates_only events" "ev \<in> set events"
    and "a \<in> set (actions (for_watch_event ev))" "action_clears k a"
  shows "cache_get (cache_apply_all events cache) k = None"
proof -
  have keep: "cache_get (cache_apply_all es c) k = None"
    if "cache_inv c" "invalidates_only es" "cache_get c k = None" for es c
    using that
    by (induction es arbitrary: c)
      (auto simp: cache_apply_all_def invalidates_only_def cache_apply_invalidates cache_inv_apply)
  show ?thesis
    using assms(1-3)
  proof (induction events arbitrary: cache)
    case (Cons e es)
    then have e: "\<And>entry. e \<noteq> Refresh entry" and es: "invalidates_only es"
      by (auto simp: invalidates_only_def)
    have inv: "cache_inv (cache_apply e cache)" using Cons.prems(1) by (rule cache_inv_apply)
    have step: "cache_apply_all (e # es) cache = cache_apply_all es (cache_apply e cache)"
      by (simp add: cache_apply_all_def)
    show ?case
    proof (cases "ev = e")
      case True
      then have "cache_get (cache_apply e cache) k = None"
        using cache_apply_invalidates [OF Cons.prems(1) e] assms(4,5) by auto
      then show ?thesis unfolding step by (rule keep [OF inv es])
    next
      case False
      then show ?thesis unfolding step using Cons.IH [OF inv es] Cons.prems(3) by simp
    qed
  qed simp
qed

lemma gap_clears: "\<exists>a \<in> set (actions (for_watch_event Gap)). action_clears k a"
  by (simp add: for_watch_event_def gap_plan_def action_clears_def)

lemma dispatch_invalidates_only: "invalidates_only (watch_events_from_message serde message)"
proof -
  have fact: "invalidates_only (storage_fact_watch_dispatch f)" for f
    by (auto simp: storage_fact_watch_dispatch_def dispatch_invalidate_affected_paths_def dispatch_gap_def
      invalidates_only_def split: sum.splits)
  have gap: "invalidates_only dispatch_gap" "invalidates_only dispatch_ignored"
    by (simp_all add: dispatch_gap_def dispatch_ignored_def invalidates_only_def)
  have "invalidates_only d" if "object_watch_dispatch serde message = Some d" for d
    using that fact gap by (auto simp: object_watch_dispatch_def split: option.splits ObjectWatchSubject.splits)
  then show ?thesis
    using fact gap
    by (auto simp: watch_events_from_message_def watch_message_dispatch_def Let_def split: option.splits)
qed

lemma subscription_invalidates_only: "invalidates_only (subscription_events serde sub)"
  using dispatch_invalidates_only [of serde]
  by (auto simp: subscription_events_def drain_watch_messages_def Let_def invalidates_only_def
    split: sum.splits nat.splits)

lemma poll_invalidates_only: "nats_watch_events serde watch = (events, watch') \<Longrightarrow> invalidates_only events"
  using subscription_invalidates_only [of serde]
  by (fastforce simp: nats_watch_events_def take_gap_def invalidates_only_def split: if_splits)

section \<open>What a message is about\<close>

text \<open>The messages the server sends when a stored value changes: on the key's subject, on the metadata subject of an
  object, on the event subject of a stream, on an agent's mailbox subject. A bucket is one token of
  a subject.\<close>

definition message_about :: "ObjectSerde \<Rightarrow> Message \<Rightarrow> StorageFact \<Rightarrow> bool" where
  "message_about serde message sfact =
     (case sfact of
        StorageFact.Kv bucket key \<Rightarrow> CHR ''.'' \<notin> set bucket \<and> m_subject message = kv_subject bucket key
      | StorageFact.Object bucket name \<Rightarrow>
          CHR ''.'' \<notin> set bucket \<and> m_subject message = object_meta_subject serde bucket name
          \<and> (\<exists>info. info_from_slice serde (m_data message) = Inr info \<and> oi_name info = name)
      | StorageFact.StreamSubject stream subject \<Rightarrow>
          m_subject message = subject
          \<and> (subject = ''events.'' @ stream \<or> stream = AGENTS_STREAM \<and> agent_mailbox_parts subject \<noteq> None))"

lemma split_once_at: "d \<notin> set a \<Longrightarrow> split_once d (a @ d # b) = Some (a, b)"
  by (simp add: split_once_Some)

lemma no_prefix:
  "strip_prefix ''$KV.'' (''$O.'' @ r) = None" "strip_prefix ''$KV.'' (''events.'' @ r) = None"
  "strip_prefix ''$O.'' (''events.'' @ r) = None"
  by (simp_all add: strip_prefix_None_iff)

lemma mailbox_no_prefix:
  assumes "agent_mailbox_parts subject \<noteq> None"
  shows "strip_prefix ''$KV.'' subject = None" "strip_prefix ''$O.'' subject = None"
    "strip_prefix ''events.'' subject = None"
proof -
  obtain root rest where "split_on (CHR ''.'') subject = root # rest" "root = ''agents''" "rest \<noteq> []"
    using assms
    by (auto simp: agent_mailbox_parts_def nats_agent_mailbox_subject_parts_def split: list.splits option.splits if_splits)
  then have "subject = ''agents'' @ CHR ''.'' # join_with (CHR ''.'') rest"
    using join_split [of "CHR ''.''" subject] by (simp add: join_with_Cons)
  then show "strip_prefix ''$KV.'' subject = None" "strip_prefix ''$O.'' subject = None"
    "strip_prefix ''events.'' subject = None"
    by (simp_all add: strip_prefix_None_iff)
qed

lemma dispatch_of_message:
  assumes "message_about serde message sfact"
  shows "watch_events_from_message serde message = storage_fact_watch_dispatch sfact"
proof (cases sfact)
  case (Kv bucket key)
  then have subject: "m_subject message = ''$KV.'' @ bucket @ CHR ''.'' # key" and bucket: "CHR ''.'' \<notin> set bucket"
    using assms by (auto simp: message_about_def kv_subject_def)
  have "kv_subject_parts (m_subject message) = Some (bucket, key)"
    unfolding subject kv_subject_parts_def by (simp only: strip_prefix_append option.case split_once_at [OF bucket])
  then show ?thesis
    using Kv by (simp add: watch_events_from_message_def watch_message_dispatch_def)
next
  case (Object bucket name)
  then have subject: "m_subject message = ''$O.'' @ bucket @ CHR ''.'' # ''M.'' @ base64_url serde name"
    and bucket: "CHR ''.'' \<notin> set bucket"
    using assms by (auto simp: message_about_def object_meta_subject_def)
  have "kv_subject_parts (m_subject message) = None"
    unfolding subject kv_subject_parts_def by (simp only: no_prefix option.case)
  moreover have "object_watch_subject (m_subject message) = Some (WatchMetadata bucket)"
    unfolding subject object_watch_subject_def strip_prefix_append option.case split_once_at [OF bucket] prod.case
    by simp
  ultimately show ?thesis
    using Object assms by (auto simp: message_about_def watch_events_from_message_def watch_message_dispatch_def
      object_watch_dispatch_def object_watch_fact_def ok_of_def)
next
  case (StreamSubject stream subject)
  then consider "m_subject message = ''events.'' @ stream" "subject = ''events.'' @ stream"
    | "m_subject message = subject" "stream = AGENTS_STREAM" "agent_mailbox_parts subject \<noteq> None"
    using assms by (auto simp: message_about_def)
  then show ?thesis
  proof cases
    case 1
    then show ?thesis
      using StreamSubject
      by (simp only: watch_events_from_message_def watch_message_dispatch_def Let_def kv_subject_parts_def
        object_watch_dispatch_def object_watch_subject_def no_prefix option.case strip_prefix_append)
  next
    case 2
    then show ?thesis
      using StreamSubject mailbox_no_prefix [OF 2(3)]
      by (simp add: watch_events_from_message_def watch_message_dispatch_def kv_subject_parts_def
        object_watch_dispatch_def object_watch_subject_def)
  qed
qed

lemma dispatch_clears:
  assumes "message_about serde message f" "parse t = Inr q" "from_jetstream_path q = Some f"
    and "mount_path_from_jetstream_path q = Inr m" "wf_mount k" "is_self_or_descendant_of k m"
  shows "\<exists>ev \<in> set (watch_events_from_message serde message). \<exists>a \<in> set (actions (for_watch_event ev)). action_clears k a"
proof (cases "invalidation_paths f")
  case (Inl e)
  then show ?thesis
    using gap_clears by (simp add: dispatch_of_message [OF assms(1)] storage_fact_watch_dispatch_def dispatch_gap_def)
next
  case (Inr qs)
  then obtain vs where vs: "visible_paths f = Inr vs" by (auto simp: invalidation_paths_def)
  have "wf_path q" using assms(2) by (rule parse_wf)
  then obtain w where w: "w \<in> set vs" "ap_path w = m"
    using path_components_visible [of q f] assms(3,4) visible_paths_mounts(1) [OF vs]
      mount_path_of_wf [of q] by (metis imageE image_eqI sum.inject(2))
  have "ap_path w \<in> ap_path ` set qs" using invalidation_paths_spec [OF vs] Inr w(1) by auto
  then obtain a where a: "a \<in> set qs" "ap_path a = m" using w(2) by auto
  have "ap_reason a \<noteq> Ancestor" using invalidation_entry_of_visible [OF vs w(1) Inr a(1)] a(2) w(2) by simp
  then have "\<lparr>ia_path = m, ia_scope = Subtree\<rparr> \<in> set (actions (for_watch_event (InvalidateAffectedPath (ap_path a) (ap_reason a))))"
    using a(2) by (simp add: for_watch_event_def for_affected_path_actions)
  moreover have "MountPath_new k = Inr k" using assms(5) MountPath_new_mount_of by (metis wf_mountE)
  then have "action_clears k \<lparr>ia_path = m, ia_scope = Subtree\<rparr>"
    using assms(6) by (simp add: action_clears_def survives_def path_matches_action_def)
  moreover have "InvalidateAffectedPath (ap_path a) (ap_reason a) \<in> set (watch_events_from_message serde message)"
    using Inr a(1) by (auto simp: dispatch_of_message [OF assms(1)] storage_fact_watch_dispatch_def
      dispatch_invalidate_affected_paths_def)
  ultimately show ?thesis by blast
qed

lemma drain_reports:
  assumes "message \<in> set messages"
  shows "set (watch_events_from_message serde message) \<subseteq> set (drain_watch_messages serde messages)
    \<or> Gap \<in> set (drain_watch_messages serde messages)"
proof (cases "length messages < WATCH_DRAIN_LIMIT")
  case True
  then show ?thesis using assms by (auto simp: drain_watch_messages_def Let_def)
next
  case False
  then show ?thesis by (simp add: drain_watch_messages_def Let_def)
qed

lemma poll_reports:
  assumes "nats_watch_events serde watch = (events, watch')" "sub \<in> set (nw_subscriptions watch)"
  shows "set (subscription_events serde sub) \<subseteq> set events" "wc_gap (nw_continuity watch) \<Longrightarrow> Gap \<in> set events"
  using assms by (auto simp: nats_watch_events_def take_gap_def)

section \<open>Property\<close>

text \<open>C16: A poll of the watch leaves no stale entry in the cache. Let a message about a stored value wait in a
  live subscription, or let the subscription have dropped messages, or the connection
  have been interrupted since the last poll. After the events of one poll are applied, the cache holds
  nothing at or below any mount path of that value: not under its storage path, nor under an
  alias, however many messages wait and whatever else they are about.\<close>

theorem watch_leaves_no_stale_entry:
  assumes "cache_inv cache" "nats_watch_events serde watch = (events, watch')" "sub \<in> set (nw_subscriptions watch)"
    and "wc_gap (nw_continuity watch) \<or> ws_dropped sub \<noteq> Inr 0
      \<or> (\<exists>message \<in> set (ws_waiting sub). message_about serde message f)"
    and "parse t = Inr q" "from_jetstream_path q = Some f" "mount_path_from_jetstream_path q = Inr m"
    and "wf_mount k" "is_self_or_descendant_of k m"
  shows "cache_get (cache_apply_all events cache) k = None"
proof -
  have "Gap \<in> set events
      \<or> (\<exists>ev \<in> set events. \<exists>a \<in> set (actions (for_watch_event ev)). action_clears k a)"
    using assms(4)
  proof (elim disjE bexE)
    assume "wc_gap (nw_continuity watch)"
    then show ?thesis using poll_reports(2) [OF assms(2,3)] by blast
  next
    assume "ws_dropped sub \<noteq> Inr 0"
    then have "Gap \<in> set (subscription_events serde sub)"
      by (auto simp: subscription_events_def gr0_conv_Suc split: sum.splits nat.splits)
    then show ?thesis using poll_reports(1) [OF assms(2,3)] by blast
  next
    fix message
    assume message: "message \<in> set (ws_waiting sub)" "message_about serde message f"
    have "set (drain_watch_messages serde (ws_waiting sub)) \<subseteq> set events"
      using poll_reports(1) [OF assms(2,3)] by (auto simp: subscription_events_def)
    then show ?thesis
      using drain_reports [OF message(1), of serde] dispatch_clears [OF message(2) assms(5-9)] by blast
  qed
  then obtain ev a where "ev \<in> set events" "a \<in> set (actions (for_watch_event ev))" "action_clears k a"
    using gap_clears by blast
  then show ?thesis using cache_apply_all_None [OF assms(1) poll_invalidates_only [OF assms(2)]] by blast
qed

definition sample_object_serde :: ObjectSerde where
  "sample_object_serde =
     \<lparr>info_to_vec = (\<lambda>_. Inr []), info_from_slice = (\<lambda>_. Inl []), identity_to_string = (\<lambda>_. Inr []),
      identity_from_str = (\<lambda>_. Inl []), identity_to_vec = (\<lambda>_. Inr []), identity_from_slice = (\<lambda>_. Inl []),
      base64_url = (\<lambda>s. s)\<rparr>"

definition sample_watch :: NatsWatch where
  "sample_watch =
     \<lparr>nw_subscriptions =
        [\<lparr>ws_dropped = Inr 0,
          ws_waiting = [\<lparr>m_subject = ''$KV.EVENTFS_TASKS.ops/a.json'', m_headers = None, m_data = [], m_info = None\<rparr>]\<rparr>],
      nw_continuity = WatchContinuity_new\<rparr>"

theorem watch_leaves_no_stale_entry_witness:
  "cache_get (cache_apply_all (fst (nats_watch_events sample_object_serde sample_watch))
     (cache_insert (sample_entry ''/tasks/ops/a.json'') LocalCache_new)) ''/tasks/ops/a.json'' = None"
proof (rule watch_leaves_no_stale_entry)
  show "cache_inv (cache_insert (sample_entry ''/tasks/ops/a.json'') LocalCache_new)"
    by (intro cache_inv_insert cache_inv_new)
  show "nats_watch_events sample_object_serde sample_watch =
      (fst (nats_watch_events sample_object_serde sample_watch), snd (nats_watch_events sample_object_serde sample_watch))"
    by simp
  show "hd (nw_subscriptions sample_watch) \<in> set (nw_subscriptions sample_watch)" by (simp add: sample_watch_def)
  show "wc_gap (nw_continuity sample_watch) \<or> ws_dropped (hd (nw_subscriptions sample_watch)) \<noteq> Inr 0
      \<or> (\<exists>message \<in> set (ws_waiting (hd (nw_subscriptions sample_watch))).
          message_about sample_object_serde message (StorageFact.Kv ''EVENTFS_TASKS'' ''ops/a.json''))"
    by (simp add: sample_watch_def message_about_def kv_subject_def)
  show "parse ''/tasks/ops/a.json'' = Inr (JetStreamPath.Task ''ops'' ''a.json'')" by code_simp
  show "from_jetstream_path (JetStreamPath.Task ''ops'' ''a.json'') =
      Some (StorageFact.Kv ''EVENTFS_TASKS'' ''ops/a.json'')" by code_simp
  show "mount_path_from_jetstream_path (JetStreamPath.Task ''ops'' ''a.json'') = Inr ''/tasks/ops/a.json''" by code_simp
  show "wf_mount ''/tasks/ops/a.json''" by code_simp
  show "is_self_or_descendant_of ''/tasks/ops/a.json'' ''/tasks/ops/a.json''" by code_simp
qed

end
