(* ===== verification/Nats_Storage.thy ===== *)
theory Nats_Storage
  imports Nats_Watch Runtime_State
begin

text \<open>
  \<open>storage/nats/mod.rs\<close>: the backend, which hands every method of the storage traits to one of its
  parts. The queues of the live subscriptions are filled by the client's reader thread at any
  time, so they are part of the world's state; \<open>read_watch\<close> and \<open>write_watch\<close> say where.
\<close>

record 's NatsStorage =
  ns_core :: "'s NatsCore"
  ns_marker_serde :: MarkerSerde
  ns_object_serde :: ObjectSerde
  read_watch :: "'s \<Rightarrow> NatsWatch"
  write_watch :: "NatsWatch \<Rightarrow> 's \<Rightarrow> 's"

text \<open>\<open>connect\<close>: the backend and the watch it starts with, on the client's answers.\<close>

definition NatsStorage_connect ::
  "'s Nats \<Rightarrow> MarkerSerde \<Rightarrow> ObjectSerde \<Rightarrow> ('s \<Rightarrow> NatsWatch) \<Rightarrow> (NatsWatch \<Rightarrow> 's \<Rightarrow> 's) \<Rightarrow> IoError + unit
    \<Rightarrow> (string \<Rightarrow> IoError + WatchSubscription) \<Rightarrow> NatsStorageConfig \<Rightarrow> TransportError + 's NatsStorage \<times> NatsWatch" where
  "NatsStorage_connect nats markers objs rd wr connection subscribe config =
     map_ok (\<lambda>watch.
         (\<lparr>ns_core = \<lparr>core_context = nats, core_config = config\<rparr>, ns_marker_serde = markers, ns_object_serde = objs,
           read_watch = rd, write_watch = wr\<rparr>, watch))
       (nats_watch_connect connection subscribe)"

definition nst_watch_events :: "'s NatsStorage \<Rightarrow> 's \<Rightarrow> ('s, WatchEvent list) outcome" where
  "nst_watch_events storage s =
     (case nats_watch_events (ns_object_serde storage) (read_watch storage s) of
        (events, watch) \<Rightarrow> (Inr events, write_watch storage watch s))"

definition watch_kv_once :: "'s NatsStorage \<Rightarrow> string \<Rightarrow> string \<Rightarrow> 's \<Rightarrow> ('s, KeyRevision option) outcome" where
  "watch_kv_once storage bucket key = nkv_watch_once (ns_core storage) bucket key"

definition watch_stream_once ::
  "'s NatsStorage \<Rightarrow> string \<Rightarrow> string \<Rightarrow> 's \<Rightarrow> ('s, StreamMessageView option) outcome" where
  "watch_stream_once storage stream subject = nst_watch_once (ns_core storage) stream subject"

definition nats_replay_storage ::
  "Json \<Rightarrow> (EventFsError \<Rightarrow> string) \<Rightarrow> 's NatsStorage \<Rightarrow> 's ReplayStorage" where
  "nats_replay_storage json display storage =
     (let core = ns_core storage; markers = ns_marker_serde storage; objs = ns_object_serde storage in
        \<lparr>kv_put_idempotent = nkv_put_idempotent core markers,
         kv_put_applied = nkv_put_applied core markers,
         kv_delete_if_revision = nkv_delete_if_revision core,
         kv_delete_if_revision_applied = nkv_delete_if_revision_applied core,
         publish_json_lines = nst_publish_json_lines core json display,
         publish_json_lines_applied = nst_publish_json_lines_applied core json display,
         publish_json_lines_applied_prefix = nst_publish_json_lines_applied_prefix core json display,
         object_put_idempotent = nob_put_idempotent core objs,
         object_put_applied = nob_put_applied core objs,
         object_delete_if_sequence = nob_delete_if_sequence core objs,
         object_delete_if_sequence_applied = nob_delete_if_sequence_applied core objs\<rparr>)"

definition nats_mount_storage ::
  "Json \<Rightarrow> (EventFsError \<Rightarrow> string) \<Rightarrow> 's NatsStorage \<Rightarrow> 's MountStorage" where
  "nats_mount_storage json display storage =
     (let core = ns_core storage; objs = ns_object_serde storage in
        ReplayStorage.extend (nats_replay_storage json display storage)
          (MountStorage.fields (nkv_list_buckets core) (nkv_ensure_bucket core) (nkv_list_prefix core) (nkv_get core)
            (nkv_put core) (nkv_delete core) (nkv_history core) (nkv_list_history_prefix core) (nkv_revision core)
            (nst_list core) (nst_ensure core) (nst_list_messages core) (nst_list_subjects core)
            (nst_list_agent_names core) (nst_message core) (nob_list_buckets core) (nob_ensure_bucket core)
            (nob_list_prefix core objs) (nob_get core objs) (nob_metadata core objs)
            (nob_put core) (nob_delete core) (nst_watch_events storage)))"

end
