(* ===== verification/Nats_Delete_Props.thy ===== *)
theory Nats_Delete_Props
  imports Nats_Storage Nats_Sim
begin

text \<open>
  Conditional deletes. The deletion of a key or an object is a message the server accepts only if the last
  message on the subject still has the expected sequence; the retries of the call and its
  fallbacks keep it so. What the server promises is stated over the log of messages ever appended.
\<close>

section \<open>What the server promises\<close>






section \<open>Messages that replace one version\<close>











section \<open>Keys\<close>





section \<open>Objects\<close>





section \<open>What an answer without error means\<close>































section \<open>Property\<close>








end
