(* ===== verification/Nats_List_Props.thy ===== *)
theory Nats_List_Props
  imports Nats_Streams Nats_Names
begin

text \<open>
  The listing of a stream drains a pull consumer in batches (\<open>streams.rs\<close>): it ends for every
  client, and what it returns is the stream's messages, each once and in order of sequence.
\<close>

text \<open>\<open>q s c\<close> is what consumer \<open>c\<close> still has to deliver: a fetch takes the next messages of it, as
  many as it asks for or all there are, and an acknowledgement changes nothing.\<close>

definition consumer_queue :: "('s \<Rightarrow> nat \<Rightarrow> Message list) \<Rightarrow> 's Nats \<Rightarrow> bool" where
  "consumer_queue q nats \<longleftrightarrow>
     (\<forall>c n s batch s'. js_fetch nats c n s = (Inr batch, s') \<longrightarrow> batch = take n (q s c) \<and> q s' c = drop n (q s c))
     \<and> (\<forall>c m s r s'. js_ack nats c m s = (r, s') \<longrightarrow> q s' c = q s c)"

lemma drain_batch_spec:
  assumes "consumer_queue q (core_context core)"
  shows "drain_batch core c on_message batch s = (Inr xs, s') \<Longrightarrow> map on_message batch = map Inr xs \<and> q s' c = q s c"
proof (induction batch arbitrary: s xs)
  case (Cons m batch)
  then obtain x ys s1 where x: "on_message m = Inr x" "xs = x # ys"
    and ack: "js_ack (core_context core) c m s = (Inr (), s1)" "drain_batch core c on_message batch s1 = (Inr ys, s')"
    by (auto simp: obind_Inr_iff from_io_def map_err_def split: sum.splits prod.splits)
  have "q s1 c = q s c" using assms ack(1) unfolding consumer_queue_def by blast
  then show ?case using Cons.IH [OF ack(2)] x by simp
qed simp

lemma drain_stream_headers_spec:
  assumes "consumer_queue q (core_context core)"
  shows "drain_stream_headers core c remaining on_message s = (Inr xs, s') \<Longrightarrow>
    map on_message (take remaining (q s c)) = map Inr xs"
proof (induction remaining arbitrary: s xs rule: less_induct)
  case (less remaining)
  show ?case
  proof (cases "remaining = 0")
    case True
    then show ?thesis using less.prems by (simp add: drain_stream_headers.simps)
  next
    case False
    define batch_size where "batch_size = min remaining STREAM_LIST_BATCH_SIZE"
    obtain batch s1 ys s2 where fetch: "js_fetch (core_context core) c batch_size s = (Inr batch, s1)"
      and batch: "drain_batch core c on_message batch s1 = (Inr ys, s2)"
      and rest: "if length batch < batch_size then xs = ys
        else \<exists>zs. drain_stream_headers core c (remaining - length batch) on_message s2 = (Inr zs, s') \<and> xs = ys @ zs"
      using less.prems False unfolding batch_size_def
      by (subst (asm) drain_stream_headers.simps)
        (auto simp: Let_def obind_Inr_iff from_io_def map_err_def split: sum.splits prod.splits if_splits)
    have q: "batch = take batch_size (q s c)" "q s1 c = drop batch_size (q s c)"
      using assms fetch unfolding consumer_queue_def by blast+
    note ys = drain_batch_spec [OF assms batch]
    show ?thesis
    proof (cases "length batch < batch_size")
      case True
      then have "length (q s c) < batch_size" using q(1) by simp
      moreover have "batch_size \<le> remaining" by (simp add: batch_size_def)
      ultimately have "take remaining (q s c) = batch" using q(1) by simp
      then show ?thesis using True rest ys by simp
    next
      case False
      then have len: "length batch = batch_size" using q(1) by simp
      obtain zs where zs: "drain_stream_headers core c (remaining - batch_size) on_message s2 = (Inr zs, s')" "xs = ys @ zs"
        using False rest len by auto
      have "0 < batch_size" using \<open>remaining \<noteq> 0\<close> by (simp add: batch_size_def STREAM_LIST_BATCH_SIZE_def)
      then have "map on_message (take (remaining - batch_size) (q s2 c)) = map Inr zs"
        using less.IH [OF _ zs(1)] \<open>remaining \<noteq> 0\<close> by simp
      moreover have "take remaining (q s c) = batch @ take (remaining - batch_size) (drop batch_size (q s c))"
        using q(1) take_add [of batch_size "remaining - batch_size" "q s c"] by (simp add: batch_size_def)
      ultimately show ?thesis using ys q(2) zs(2) by simp
    qed
  qed
qed

lemma listing_sequences:
  "map listing_sequence ms = map Inr seqs \<Longrightarrow> seqs = map (\<lambda>m. ji_stream_seq (the (m_info m))) ms"
proof (induction ms arbitrary: seqs)
  case (Cons m ms)
  then show ?case by (cases seqs) (auto simp: listing_sequence_def ok_or_def split: option.splits)
qed simp

lemma sorted_distinct_remdups_adj:
  fixes xs :: "'a::linorder list"
  shows "sorted xs \<Longrightarrow> distinct (remdups_adj xs)"
proof (induction xs rule: remdups_adj.induct)
  case (3 x y xs)
  then have "sorted (y # xs)" "x \<le> y" by auto
  show ?case
  proof (cases "x = y")
    case False
    then have "x \<notin> set (y # xs)" using 3(3) by fastforce
    then have "x \<notin> set (remdups_adj (y # xs))" by (simp only: remdups_adj_set not_False_eq_True)
    moreover have "distinct (remdups_adj (y # xs))" using 3(2) False \<open>sorted (y # xs)\<close> by blast
    ultimately show ?thesis using False by simp
  qed (use 3 in auto)
qed simp_all

lemma remdups_adj_sort: "remdups_adj (sort xs) = sorted_list_of_set (set xs)"
proof -
  have "sorted (remdups_adj (sort xs))" by (simp add: sorted_remdups_adj)
  moreover have "distinct (remdups_adj (sort xs))" by (simp add: sorted_distinct_remdups_adj)
  ultimately show ?thesis by (metis remdups_adj_set set_sort sorted_list_of_set.idem_if_sorted_distinct)
qed

text \<open>C30: A stream's listing is exact. When the listing of a stream succeeds, it holds one file for each
  of the messages the stream had when it was asked for its size, or for all the consumer delivers
  if those are fewer: each sequence once, in increasing order, whatever the number of batches.\<close>

theorem stream_listing_is_exact:
  assumes "consumer_queue q (core_context core)"
    and "stream_info core stream s = (Inr info, s1)" "si_messages info \<noteq> 0"
    and "stream_headers core stream [] DeliverAll s1 = (Inr consumer, s2)"
    and "nst_list_messages core stream s = (Inr entries, s')"
  shows "entries = map (\<lambda>sequence. \<lparr>de_name = show_u64 sequence @ ''.json'', de_kind = EntryKind.File\<rparr>)
    (sorted_list_of_set ((\<lambda>m. ji_stream_seq (the (m_info m))) ` set (take (unat (si_messages info)) (q s2 consumer))))"
proof -
  obtain sequences where drained:
    "drain_stream_headers core consumer (unat (si_messages info)) listing_sequence s2 = (Inr sequences, s')"
    and entries: "entries = map (\<lambda>sequence. \<lparr>de_name = show_u64 sequence @ ''.json'', de_kind = EntryKind.File\<rparr>)
      (remdups_adj (sort sequences))"
    using assms(2-5) by (auto simp: nst_list_messages_def obind_Inr_iff)
  have "sequences = map (\<lambda>m. ji_stream_seq (the (m_info m))) (take (unat (si_messages info)) (q s2 consumer))"
    by (rule listing_sequences [OF drain_stream_headers_spec [OF assms(1) drained]])
  then show ?thesis unfolding entries remdups_adj_sort by simp
qed

text \<open>The witness is a client whose state is the one queue of its one consumer.\<close>

definition queue_error :: "('s, 'a) io_call" where
  "queue_error s = (Inl \<lparr>io_kind = KindOther, io_text = ''refused''\<rparr>, s)"

definition queue_nats :: "Message list Nats" where
  "queue_nats =
     \<lparr>js_stream_names = (\<lambda>s. ([], s)),
      js_stream_info = (\<lambda>stream s. (Inr \<lparr>si_config = new_stream_config stream [] 0, si_messages = 2\<rparr>, s)),
      js_add_stream = (\<lambda>_. queue_error), js_update_stream = (\<lambda>_. queue_error),
      js_get_last_message = (\<lambda>_ _. queue_error), js_get_message = (\<lambda>_ _. queue_error),
      js_publish = (\<lambda>_ _ _ _. queue_error), js_subscribe = (\<lambda>_ _. queue_error),
      js_pull_subscribe = (\<lambda>_ _ _ s. (Inr 0, s)), js_fetch = (\<lambda>_ n s. (Inr (take n s), drop n s)),
      js_ack = (\<lambda>_ _ s. (Inr (), s)), js_purge_stream_subject = (\<lambda>_ _. queue_error),
      js_key_value = (\<lambda>_. queue_error), js_create_key_value = (\<lambda>_. queue_error), kvs_keys = (\<lambda>_. queue_error),
      kvs_entry = (\<lambda>_ _. queue_error), kvs_put = (\<lambda>_ _ _. queue_error), js_object_store = (\<lambda>_. queue_error),
      js_create_object_store = (\<lambda>_. queue_error), os_get = (\<lambda>_ _. queue_error), os_read_to_end = (\<lambda>_. queue_error),
      os_info = (\<lambda>_ _. queue_error), os_put = (\<lambda>_ _ _. queue_error), os_delete = (\<lambda>_ _. queue_error)\<rparr>"

definition queue_core :: "Message list NatsCore" where
  "queue_core = \<lparr>core_context = queue_nats, core_config =
     \<lparr>nc_timeout = 1, nc_stream_duplicate_window = 1, nc_kv_history = 1, nc_retries = 2, nc_backoff = 1\<rparr>\<rparr>"

definition queue_message :: "u64 \<Rightarrow> Message" where
  "queue_message seq = \<lparr>m_subject = ''s'', m_headers = None, m_data = [],
     m_info = Some \<lparr>ji_stream_seq = seq, ji_pending = 0, ji_published = 0\<rparr>\<rparr>"

theorem stream_listing_is_exact_witness:
  "fst (nst_list_messages queue_core ''S'' [queue_message 4, queue_message 7, queue_message 9]) =
    Inr (map (\<lambda>sequence. \<lparr>de_name = show_u64 sequence @ ''.json'', de_kind = EntryKind.File\<rparr>)
      (sorted_list_of_set {4, 7}))"
proof -
  let ?s = "[queue_message 4, queue_message 7, queue_message 9]"
  let ?info = "\<lparr>si_config = new_stream_config ''S'' [] 0, si_messages = 2\<rparr>"
  have "consumer_queue (\<lambda>s _. s) (core_context queue_core)"
    by (simp add: consumer_queue_def queue_core_def queue_nats_def)
  moreover have "stream_info queue_core ''S'' ?s = (Inr ?info, ?s)"
    by (simp add: stream_info_def queue_core_def queue_nats_def map_err_def)
  moreover have "si_messages ?info \<noteq> 0" by simp
  moreover have "stream_headers queue_core ''S'' [] DeliverAll ?s = (Inr 0, ?s)"
    by (simp add: stream_headers_def queue_core_def queue_nats_def map_err_def)
  moreover obtain entries where listing: "nst_list_messages queue_core ''S'' ?s = (Inr entries, snd (nst_list_messages queue_core ''S'' ?s))"
  proof -
    have "is_ok (fst (nst_list_messages queue_core ''S'' ?s))" by code_simp
    then show thesis using that by (cases "nst_list_messages queue_core ''S'' ?s") (auto simp: is_ok_def split: sum.splits)
  qed
  ultimately have "entries = map (\<lambda>sequence. \<lparr>de_name = show_u64 sequence @ ''.json'', de_kind = EntryKind.File\<rparr>)
      (sorted_list_of_set ((\<lambda>m. ji_stream_seq (the (m_info m))) ` set (take (unat (si_messages ?info)) ?s)))"
    by (rule stream_listing_is_exact [of "\<lambda>s _. s" queue_core "''S''" ?s ?info ?s 0 ?s entries])
  moreover have "(\<lambda>m. ji_stream_seq (the (m_info m))) ` set (take (unat (si_messages ?info)) ?s) = {4, 7}"
    by (simp add: queue_message_def insert_commute)
  ultimately show ?thesis by (subst listing) (simp only: fst_conv)
qed

end
