(* ===== verification/Mount_Main.thy ===== *)
theory Mount_Main
  imports Fuse_Fs Nats_Storage Rust_Hex
begin

unbundle bit_operations_syntax

text \<open>
  \<open>eventfs-fuse/src/main.rs\<close> and \<open>cli.rs\<close>: where the write-back queue of a mount is kept, and the start of a
  mount: open the queue, connect to the server, replay. The parser of the command line and the
  loop that serves the kernel are libraries; what starts is the \<open>Runtime\<close> whose callbacks \<open>Fuse_Fs\<close>
  models.
\<close>

section \<open>The command line\<close>

record Cli =
  cli_mountpoint :: string
  cli_nats_url :: string
  cli_nats_creds_file :: "string option"
  cli_mount_name :: string
  cli_cache_dir :: "string option"
  cli_timeout_ms :: u64
  cli_duplicate_window_ms :: u64
  cli_queue_capacity :: nat
  cli_foreground :: bool

definition Cli_timeout :: "Cli \<Rightarrow> Duration" where
  "Cli_timeout cli = unat (cli_timeout_ms cli) * 10 ^ 6"

definition Cli_stream_duplicate_window :: "Cli \<Rightarrow> Duration" where
  "Cli_stream_duplicate_window cli = unat (cli_duplicate_window_ms cli) * 10 ^ 6"

section \<open>The directory of the queue\<close>

text \<open>\<open>Path::join\<close> on Unix paths.\<close>

definition path_join :: "string \<Rightarrow> string \<Rightarrow> string" where
  "path_join base part =
     (if starts_with ''/'' part then part
      else if base = [] \<or> ends_with ''/'' base then base @ part
      else base @ ''/'' @ part)"

definition default_cache_root_from :: "string option \<Rightarrow> string option \<Rightarrow> string \<Rightarrow> string" where
  "default_cache_root_from xdg_state_home home current_dir =
     (case xdg_state_home of
        Some path \<Rightarrow> path_join path ''eventfs''
      | None \<Rightarrow>
          (case home of
             Some home \<Rightarrow> path_join (path_join (path_join home ''.local'') ''state'') ''eventfs''
           | None \<Rightarrow> path_join current_dir ''.eventfs-state''))"

definition nonempty_env_path :: "(string \<Rightarrow> string option) \<Rightarrow> string \<Rightarrow> string option" where
  "nonempty_env_path var key =
     (case var key of
        Some v \<Rightarrow> (if v = [] then None else Some v)
      | None \<Rightarrow> None)"

definition default_cache_root :: "(string \<Rightarrow> string option) \<Rightarrow> IoError + string \<Rightarrow> string" where
  "default_cache_root var current_dir =
     default_cache_root_from (nonempty_env_path var ''XDG_STATE_HOME'') (nonempty_env_path var ''HOME'')
       (case current_dir of Inr dir \<Rightarrow> dir | Inl _ \<Rightarrow> ''.'')"

text \<open>\<open>chars()\<close> yields code points, so a character of several bytes becomes one dash.\<close>

definition sanitize_cache_segment :: "string \<Rightarrow> string" where
  "sanitize_cache_segment v =
     (let sanitized = map (\<lambda>u. if u < 128 \<and> (is_ascii_alphanumeric (char_of u) \<or> char_of u \<in> {CHR ''-'', CHR ''_''})
                               then char_of u else CHR ''-'') (chars v) in
        if sanitized = [] then ''mount'' else sanitized)"

definition FNV_OFFSET :: u64 where
  "FNV_OFFSET = 0xcbf29ce484222325"

definition FNV_PRIME :: u64 where
  "FNV_PRIME = 0x00000100000001b3"

definition hash_byte :: "u64 \<Rightarrow> u8 \<Rightarrow> u64" where
  "hash_byte hash byte = (hash XOR ucast byte) * FNV_PRIME"

definition stable_hash :: "bytes \<Rightarrow> u64" where
  "stable_hash bs = foldl hash_byte FNV_OFFSET bs"

text \<open>The mountpoint is UTF-8, so \<open>display()\<close> shows the path itself.\<close>

definition mount_identity :: "Cli \<Rightarrow> string" where
  "mount_identity cli =
     ''mount_name='' @ cli_mount_name cli @ [newline] @ ''nats_url='' @ cli_nats_url cli @ [newline]
     @ ''mountpoint='' @ cli_mountpoint cli @ [newline]
     @ ''creds='' @ (case cli_nats_creds_file cli of Some creds \<Rightarrow> creds | None \<Rightarrow> [])"

definition cache_dir_for_identity :: "string \<Rightarrow> Cli \<Rightarrow> string" where
  "cache_dir_for_identity root cli =
     path_join (path_join root ''mounts'')
       (sanitize_cache_segment (cli_mount_name cli) @ ''-'' @ hex_padded 16 (stable_hash (as_bytes (mount_identity cli))))"

definition default_cache_dir :: "(string \<Rightarrow> string option) \<Rightarrow> IoError + string \<Rightarrow> Cli \<Rightarrow> string" where
  "default_cache_dir var current_dir cli = cache_dir_for_identity (default_cache_root var current_dir) cli"

section \<open>Starting a mount\<close>

text \<open>What the process finds when it starts: its environment, the client and its answers, and the
  parameters of the runtime. \<open>h_open_error\<close> is the error of creating the queue's directory or lock file.\<close>

record 's Host =
  h_var :: "string \<Rightarrow> string option"
  h_current_dir :: "IoError + string"
  h_open_error :: "IoError option"
  h_connection :: "IoError + unit"
  h_subscribe :: "string \<Rightarrow> IoError + WatchSubscription"
  h_nats :: "'s Nats"
  h_marker_serde :: MarkerSerde
  h_object_serde :: ObjectSerde
  h_read_watch :: "'s \<Rightarrow> NatsWatch"
  h_write_watch :: "NatsWatch \<Rightarrow> 's \<Rightarrow> 's"
  h_env :: "'s Env"
  h_instance_seed :: nat
  h_mounted_at :: SystemTime

definition main_cache_dir :: "'s Host \<Rightarrow> Cli \<Rightarrow> string" where
  "main_cache_dir host cli =
     (case cli_cache_dir cli of
        Some dir \<Rightarrow> dir
      | None \<Rightarrow> default_cache_dir (h_var host) (h_current_dir host) cli)"

definition main_config :: "Cli \<Rightarrow> NatsStorageConfig" where
  "main_config cli =
     NatsStorageConfig_default\<lparr>nc_timeout := Cli_timeout cli,
       nc_stream_duplicate_window := Cli_stream_duplicate_window cli\<rparr>"

definition with_storage :: "'s Env \<Rightarrow> 's NatsStorage \<Rightarrow> 's Env" where
  "with_storage env storage = env\<lparr>e_store := nats_mount_storage (e_json env) (e_display env) storage\<rparr>"

text \<open>\<open>disks\<close> holds the queue directories of the machine. A start that fails drops the queue and with it
  the lock; the error carries its \<open>context\<close>.\<close>

definition eventfs_main ::
  "'s Host \<Rightarrow> Cli \<Rightarrow> (string \<Rightarrow> Disk) \<Rightarrow> 's \<Rightarrow> (string \<times> TransportError + 's Runtime) \<times> (string \<Rightarrow> Disk)" where
  "eventfs_main host cli disks s =
     (let cache_dir = main_cache_dir host cli in
        case queue_open (e_serde (h_env host)) cache_dir (h_open_error host) (cli_queue_capacity cli) (disks cache_dir) of
          (Inl err, disk) \<Rightarrow> (Inl (''open queue'', err), disks(cache_dir := disk))
        | (Inr queue, disk) \<Rightarrow>
            (case NatsStorage_connect (h_nats host) (h_marker_serde host) (h_object_serde host) (h_read_watch host)
                    (h_write_watch host) (h_connection host) (h_subscribe host) (main_config cli) of
               Inl err \<Rightarrow> (Inl (''connect to JetStream'', err), disks(cache_dir := drop_lock disk))
             | Inr (storage, watch) \<Rightarrow>
                 (let fs = JetStreamFuse_new (with_storage (h_env host) storage) (write_watch storage watch s) queue disk
                             (cli_mount_name cli) (h_instance_seed host) (h_mounted_at host) in
                    (Inr fs, disks(cache_dir := rt_disk fs)))))"

end
