(* ===== verification/Nats_Kv_Runs.thy ===== *)
theory Nats_Kv_Runs
  imports Nats_Kv_Once
begin

text \<open>
  The idempotent put of a key from its parts, the sequences of attempts at one write, and a
  simulated server on which the contract holds.
\<close>

section \<open>The whole put\<close>

lemma history_scan_triple:
  assumes "jetstream sv (others w) (core_context core)"
  shows "triple (kv_inv sv serde w) (unwritten sv serde w)
    (scan_subject_history_until core (kw_stream w) (kw_subject w) (idempotency_scan (kw_id w)))
    (probed sv serde w (unwritten sv serde w))"
proof (rule scan_triple [OF assms], goal_cases)
  case (3 s m l x)
  then have "target w l" "l \<in> set (sv_log sv s (kw_stream w))"
    by (auto simp: target_def idempotency_scan_def delivery_of_def on_subject_def split: if_splits)
  then show ?case using effective_target unwritten_inv [OF 3(1)] by fastforce
qed (auto intro: unwritten_grows unwritten_inv)

lemma applied_or_else_triple:
  assumes "jetstream sv (others w) (core_context core)"
    and "triple (kv_inv sv serde w) P probe (probed sv serde w R)"
    and "triple (kv_inv sv serde w) R rest (probed sv serde w (unwritten sv serde w))"
  shows "triple (kv_inv sv serde w) P (\<lambda>s. applied_or_else core ledger_key (probe s) rest)
    (probed sv serde w (unwritten sv serde w))"
  unfolding applied_or_else_def
proof (intro triple_obind [OF assms(2)] triple_option)
  fix found :: "'b option" and x
  assume found: "found = Some x"
  have "triple (kv_inv sv serde w) (effective sv serde w)
      (\<lambda>s. obind (record_applied core ledger_key s) (\<lambda>_ s. (Inr (Some x), s)))
      (probed sv serde w (unwritten sv serde w))"
    by (rule triple_obind [OF record_applied_triple [OF assms(1)] triple_Inr]) simp
  then show "triple (kv_inv sv serde w) (probed sv serde w R found)
      (\<lambda>s. obind (record_applied core ledger_key s) (\<lambda>_ s. (Inr (Some x), s)))
      (probed sv serde w (unwritten sv serde w))"
    unfolding found probed_fun .
next
  fix found :: "'b option"
  assume found: "found = None"
  show "triple (kv_inv sv serde w) (probed sv serde w R found) rest (probed sv serde w (unwritten sv serde w))"
    unfolding found probed_fun by (rule assms(3))
qed

lemma any_applied_revision_triple:
  assumes "jetstream sv (others w) (core_context core)"
  shows "triple (kv_inv sv serde w) (kv_inv sv serde w)
    (any_applied_revision core serde (kw_bucket w) (kw_key w) (kw_id w)) (probed sv serde w (unwritten sv serde w))"
proof -
  note chain = applied_or_else_triple [OF assms]
  have rest: "triple (kv_inv sv serde w) (unwritten sv serde w) (\<lambda>s. (Inr None, s)) (probed sv serde w (unwritten sv serde w))"
    by (rule triple_Inr) simp
  note probes = chain [OF applied_marker_sequence_triple [OF assms]
    chain [OF latest_applied_revision_triple [OF assms]
    chain [OF target_sequence_triple [OF assms] chain [OF history_scan_triple [OF assms] rest]]]]
  show ?thesis
    unfolding any_applied_revision_def Let_def
    by (intro triple_obind [OF has_applied_triple [OF assms]] triple_if triple_Inr triple_conseq [OF probes]) auto
qed

lemma ensure_apply_marker_triple:
  assumes js: "jetstream sv (others w) (core_context core)"
    and codec: "\<And>m bs. marker_to_vec serde m = Inr bs \<Longrightarrow> marker_from_slice serde bs = Inr m"
  shows "triple (kv_inv sv serde w) (unwritten sv serde w)
    (ensure_apply_marker core serde (kw_bucket w) (kw_key w) (kw_id w)) (\<lambda>_. marked sv serde w)"
  unfolding ensure_apply_marker_def
proof (intro triple_obind [OF apply_marker_sequence_triple [OF js unwritten_grows unwritten_inv]] triple_option)
  fix found :: "u64 option"
  assume "found = None"
  moreover have "triple (kv_inv sv serde w) (unwritten sv serde w)
      (publish_marker core serde (kw_bucket w) (kw_marker w) WRITEBACK_MARKER_OPERATION (kw_marker_id w) (kw_key w) (kw_id w))
      (\<lambda>_. marked sv serde w)"
    using marker_published [OF _ _ jetstream_state [OF js] marker_payload_matches [OF codec]]
    by (intro publish_marker_triple [OF js unwritten_grows unwritten_inv]) blast+
  ultimately show "triple (kv_inv sv serde w)
      (\<lambda>s. case found of None \<Rightarrow> unwritten sv serde w s \<and> unwritten sv serde w s
         | Some seq \<Rightarrow> unwritten sv serde w s \<and> at_marker sv w seq s)
      (publish_marker core serde (kw_bucket w) (kw_marker w) WRITEBACK_MARKER_OPERATION (kw_marker_id w) (kw_key w) (kw_id w))
      (\<lambda>_. marked sv serde w)"
    by simp
qed (auto intro!: triple_Inr simp: marked_def at_marker_def)

lemma publish_target_triple:
  assumes js: "jetstream sv (others w) (core_context core)" and "\<not> is_reserved_kv_key (kw_key w)"
  shows "triple (kv_inv sv serde w) (marked sv serde w)
    (retry_io core (js_publish (core_context core) (kw_subject w) (Some [(WRITEBACK_IDEMPOTENCY_HEADER, kw_id w)]) bs
      (publish_options core (Some (kw_id w)) (kw_stream w) None))) (\<lambda>_. effective sv serde w)"
proof -
  note published = target_published [OF jetstream_publishes [OF js] _ jetstream_state [OF js] jetstream_state [OF js] assms(2)]
  have "triple (kv_inv sv serde w) (publishing sv serde w)
    (retry_io core (js_publish (core_context core) (kw_subject w) (Some [(WRITEBACK_IDEMPOTENCY_HEADER, kw_id w)]) bs
      (publish_options core (Some (kw_id w)) (kw_stream w) None))) (\<lambda>_. effective sv serde w)"
    by (rule triple_retry_io) (auto intro: published publishing_inv simp: is_ok_def)
  then show ?thesis by (rule triple_conseq) (simp_all add: publishing_def)
qed

lemma record_applied_marker_triple:
  assumes js: "jetstream sv (others w) (core_context core)"
  shows "triple (kv_inv sv serde w) (effective sv serde w)
    (record_applied_marker core serde (kw_bucket w) (kw_key w) (kw_id w)) (\<lambda>_. effective sv serde w)"
proof -
  have probe: "triple (kv_inv sv serde w) (effective sv serde w)
      (applied_marker_sequence core serde (kw_bucket w) (kw_key w) (kw_id w)) (\<lambda>_. effective sv serde w)"
    unfolding applied_marker_sequence_def marker_sequence_def
    by (rule triple_read_last [OF js]) (auto intro: effective_grows effective_inv)
  have "triple (kv_inv sv serde w) (effective sv serde w)
      (publish_marker core serde (kw_bucket w) (kw_applied w) APPLIED_MARKER_OPERATION
        (''writeback-applied-marker:'' @ kw_id w) (kw_key w) (kw_id w)) (\<lambda>_. effective sv serde w)"
    by (rule publish_marker_triple [OF js effective_grows effective_inv]) (blast intro: applied_marker_published)+
  then show ?thesis
    unfolding record_applied_marker_def by (intro triple_obind [OF probe] triple_option) (auto intro: triple_Inr)
qed

lemma put_idempotent_triple:
  assumes js: "jetstream sv (others w) (core_context core)" and key: "\<not> is_reserved_kv_key (kw_key w)"
    and codec: "\<And>m bs. marker_to_vec serde m = Inr bs \<Longrightarrow> marker_from_slice serde bs = Inr m"
  shows "triple (kv_inv sv serde w) (kv_inv sv serde w)
    (nkv_put_idempotent core serde (kw_bucket w) (kw_key w) bs (kw_id w)) (\<lambda>_. effective sv serde w)"
  unfolding nkv_put_idempotent_def Let_def
proof (intro triple_obind [OF any_applied_revision_triple [OF js]] triple_option)
  fix applied :: "u64 option"
  assume none: "applied = None"
  show "triple (kv_inv sv serde w) (probed sv serde w (unwritten sv serde w) applied)
     (\<lambda>s. obind (nkv_ensure_bucket core (kw_bucket w) s) (\<lambda>_ s.
          obind (ensure_duplicate_window core (kw_stream w) s) (\<lambda>_ s.
          obind (ensure_apply_marker core serde (kw_bucket w) (kw_key w) (kw_id w) s) (\<lambda>_ s.
          obind (retry_io core (js_publish (core_context core) (kw_subject w)
                   (Some [(WRITEBACK_IDEMPOTENCY_HEADER, kw_id w)]) bs
                   (publish_options core (Some (kw_id w)) (kw_stream w) None)) s) (\<lambda>ack s.
          obind (record_applied_marker core serde (kw_bucket w) (kw_key w) (kw_id w) s) (\<lambda>_ s.
          obind (record_applied core (kw_ledger w) s) (\<lambda>_ s. (Inr ack, s)))))))) (\<lambda>_. effective sv serde w)"
    unfolding none probed_fun
    by (intro triple_obind [OF quiet_triple [OF ensure_bucket_quiet [OF js]]]
        triple_obind [OF quiet_triple [OF ensure_duplicate_window_quiet [OF js]]]
        triple_obind [OF ensure_apply_marker_triple [OF js codec]]
        triple_obind [OF publish_target_triple [OF js key]]
        triple_obind [OF record_applied_marker_triple [OF js]]
        triple_obind [OF record_applied_triple [OF js]] triple_Inr)
      (auto intro: unwritten_grows unwritten_inv)
qed (auto intro: triple_Inr)

end
