(* ===== verification/Nats_Kv_Props.thy ===== *)
theory Nats_Kv_Props
  imports Nats_Kv_Runs Nats_Sim
begin

text \<open>
  The properties of the NATS backend's idempotent put of a key, over all runs of attempts at one
  write: attempts and probes of the write-back queue in any number and order, failing anywhere,
  between steps of other clients and of time.
\<close>

inductive kv_run :: "'s NatsCore \<Rightarrow> 's Server \<Rightarrow> MarkerSerde \<Rightarrow> KvWrite \<Rightarrow> 's \<Rightarrow> 's \<Rightarrow> bool"
  for core sv serde w s where
  start: "kv_run core sv serde w s s"
| attempt: "kv_run core sv serde w s s1 \<Longrightarrow>
    nkv_put_idempotent core serde (kw_bucket w) (kw_key w) bs (kw_id w) s1 = (r, s2) \<Longrightarrow> kv_run core sv serde w s s2"
| probe: "kv_run core sv serde w s s1 \<Longrightarrow>
    nkv_put_applied core serde (kw_bucket w) (kw_key w) (kw_id w) s1 = (a, s2) \<Longrightarrow> kv_run core sv serde w s s2"
| elsewhere: "kv_run core sv serde w s s1 \<Longrightarrow> grows sv (others w) s1 s2 \<Longrightarrow> kv_run core sv serde w s s2"

definition marker_roundtrip :: "MarkerSerde \<Rightarrow> bool" where
  "marker_roundtrip serde \<longleftrightarrow> (\<forall>m bs. marker_to_vec serde m = Inr bs \<longrightarrow> marker_from_slice serde bs = Inr m)"

text \<open>A write no message of which was ever sent.\<close>

definition new_write :: "'s Server \<Rightarrow> KvWrite \<Rightarrow> 's \<Rightarrow> bool" where
  "new_write sv w s \<longleftrightarrow> (\<forall>stream. \<forall>m \<in> set (sv_log sv s stream). others w stream m)"

lemma new_write_inv: "new_write sv w s \<Longrightarrow> kv_inv sv serde w s"
  using kv_log_inv_others [of serde w "[]" "[]" "sv_log sv s (kw_stream w)" "sv_log sv s LEDGER_STREAM"]
  by (simp add: new_write_def kv_inv_def kv_log_inv_def on_subject_def)

lemma put_applied_triple:
  assumes "jetstream sv (others w) (core_context core)"
  shows "triple (kv_inv sv serde w) (kv_inv sv serde w)
    (nkv_put_applied core serde (kw_bucket w) (kw_key w) (kw_id w))
    (\<lambda>applied s. kv_inv sv serde w s \<and> (applied \<longrightarrow> effective sv serde w s))"
  unfolding nkv_put_applied_def
  by (intro triple_obind [OF any_applied_revision_triple [OF assms]] triple_Inr)
    (auto simp: probed_def intro: unwritten_inv effective_inv split: if_splits)

lemma put_idempotent_kv_triple:
  assumes "jetstream sv (others w) (core_context core)" "\<not> is_reserved_kv_key (kw_key w)" "marker_roundtrip serde"
  shows "triple (kv_inv sv serde w) (kv_inv sv serde w)
    (nkv_put_idempotent core serde (kw_bucket w) (kw_key w) bs (kw_id w)) (\<lambda>_. effective sv serde w)"
  using assms by (intro put_idempotent_triple) (auto simp: marker_roundtrip_def)

lemma kv_run_inv:
  assumes "jetstream sv (others w) (core_context core)" "\<not> is_reserved_kv_key (kw_key w)" "marker_roundtrip serde"
  shows "kv_run core sv serde w s s' \<Longrightarrow> kv_inv sv serde w s \<Longrightarrow> kv_inv sv serde w s'"
proof (induction rule: kv_run.induct)
  case (attempt s1 bs r s2)
  then show ?case
    by (cases r) (auto dest: tripleD [OF put_idempotent_kv_triple [OF assms]] intro: effective_inv)
next
  case (probe s1 a s2)
  then show ?case by (cases a) (auto dest: tripleD [OF put_applied_triple [OF assms(1)]])
next
  case (elsewhere s1 s2)
  then show ?case by (auto intro: kv_inv_grows)
qed

section \<open>Properties\<close>

text \<open>C5: The idempotent put of a key on a NATS server is applied at most once. Take a write that
  was never sent, and any run of attempts and probes for it, each of which may fail at any of its calls
  (also after the server appended the message and lost the acknowledgement), while
  other clients write and the server's duplicate window forgets between calls. In the stream of the
  bucket, the write is there at most once.\<close>

theorem kv_put_at_most_once:
  assumes "jetstream sv (others w) (core_context core)" "\<not> is_reserved_kv_key (kw_key w)" "marker_roundtrip serde"
    and "new_write sv w s" "kv_run core sv serde w s s'"
  shows "length (filter (target w) (sv_log sv s' (kw_stream w))) \<le> 1"
  using kv_run_inv [OF assms(1-3,5) new_write_inv [OF assms(4)]] by (simp add: kv_inv_def kv_log_inv_def)

text \<open>The witness loses all three acknowledgements of the write, lets the duplicate window forget, and
  tries again.\<close>

definition sim_write :: KvWrite where
  "sim_write = \<lparr>kw_bucket = ''b'', kw_key = ''k'', kw_id = ''w1''\<rparr>"

definition sim_start :: Sim where
  "sim_start = \<lparr>sim_entries = [], sim_forgotten = 0, sim_lost = [False, True, True, True]\<rparr>"

definition sim_put :: "Sim \<Rightarrow> (Sim, u64) outcome" where
  "sim_put = nkv_put_idempotent sim_core sim_markers ''b'' ''k'' [1] ''w1''"

lemma sim_contract:
  "jetstream sim_server (others sim_write) (core_context sim_core)" "\<not> is_reserved_kv_key (kw_key sim_write)"
  "marker_roundtrip sim_markers" "new_write sim_server sim_write sim_start"
proof -
  show "\<not> is_reserved_kv_key (kw_key sim_write)" by code_simp
  show "marker_roundtrip sim_markers" using sim_markers_roundtrip by (simp add: marker_roundtrip_def)
qed (simp_all add: sim_core_def sim_jetstream new_write_def sim_start_def sim_log_def)

lemma sim_run:
  "kv_run sim_core sim_server sim_markers sim_write sim_start (sim_forget (snd (sim_put sim_start)))"
  "kv_run sim_core sim_server sim_markers sim_write sim_start (snd (sim_put (sim_forget (snd (sim_put sim_start)))))"
proof -
  have put: "kv_run sim_core sim_server sim_markers sim_write sim_start (snd (sim_put s))"
    if "kv_run sim_core sim_server sim_markers sim_write sim_start s" for s
    using kv_run.attempt [OF that, of "[1]" "fst (sim_put s)"] by (simp add: sim_put_def sim_write_def)
  have "grows sim_server (others sim_write) s (sim_forget s)" for s
    by (simp add: grows_def sim_forget_def sim_log_def sim_ok_def)
  then show first: "kv_run sim_core sim_server sim_markers sim_write sim_start (sim_forget (snd (sim_put sim_start)))"
    by (rule kv_run.elsewhere [OF put [OF kv_run.start]])
  show "kv_run sim_core sim_server sim_markers sim_write sim_start (snd (sim_put (sim_forget (snd (sim_put sim_start)))))"
    by (rule put [OF first])
qed

theorem kv_put_at_most_once_witness:
  "is_err (fst (sim_put sim_start))
   \<and> length (filter (target sim_write) (sim_log (snd (sim_put (sim_forget (snd (sim_put sim_start))))) ''KV_b'')) = 1"
proof -
  have "length (filter (target sim_write) (sv_log sim_server (snd (sim_put (sim_forget (snd (sim_put sim_start)))))
      (kw_stream sim_write))) \<le> 1"
    by (rule kv_put_at_most_once [OF sim_contract sim_run(2)])
  moreover have "kw_stream sim_write = ''KV_b''" by code_simp
  moreover have "is_err (fst (sim_put sim_start))" by code_simp
  moreover have "1 \<le> length (filter (target sim_write) (sim_log (snd (sim_put (sim_forget (snd (sim_put sim_start))))) ''KV_b''))"
    by code_simp
  ultimately show ?thesis by simp
qed

text \<open>When an attempt of the idempotent put answers \<open>Ok\<close>, at whatever point of such a run, the
  write took effect: it is in the bucket's stream, or the key was written again by someone after
  the write's marker. The same holds when the probe answers that the write was applied.\<close>

lemma kv_put_ok_took_effect:
  assumes "jetstream sv (others w) (core_context core)" "\<not> is_reserved_kv_key (kw_key w)" "marker_roundtrip serde"
    and "new_write sv w s" "kv_run core sv serde w s s1"
    and "nkv_put_idempotent core serde (kw_bucket w) (kw_key w) bs (kw_id w) s1 = (Inr revision, s2)
      \<or> nkv_put_applied core serde (kw_bucket w) (kw_key w) (kw_id w) s1 = (Inr True, s2)"
  shows "took_effect w (sv_log sv s2 (kw_stream w))"
proof -
  have "kv_inv sv serde w s1" by (rule kv_run_inv [OF assms(1-3,5) new_write_inv [OF assms(4)]])
  then have "effective sv serde w s2"
    using assms(6) tripleD(1) [OF put_idempotent_kv_triple [OF assms(1-3)]]
      tripleD(1) [OF put_applied_triple [OF assms(1)]] by blast
  then show ?thesis by (simp add: effective_def)
qed

lemma kv_put_ok_took_effect_example:
  "took_effect sim_write (sv_log sim_server (snd (sim_put (sim_forget (snd (sim_put sim_start))))) (kw_stream sim_write))"
proof -
  let ?s = "sim_forget (snd (sim_put sim_start))"
  obtain revision where "fst (sim_put ?s) = Inr revision"
  proof -
    have "is_ok (fst (sim_put ?s))" by code_simp
    then show thesis using that by (cases "fst (sim_put ?s)") (auto simp: is_ok_def)
  qed
  then have "sim_put ?s = (Inr revision, snd (sim_put ?s))" by (metis prod.collapse)
  then have "nkv_put_idempotent sim_core sim_markers (kw_bucket sim_write) (kw_key sim_write) [1] (kw_id sim_write) ?s =
      (Inr revision, snd (sim_put ?s))"
    by (simp add: sim_put_def sim_write_def)
  then show ?thesis by (rule kv_put_ok_took_effect [OF sim_contract sim_run(1) disjI1])
qed

end
