(* ===== verification/Nats_Replay.thy ===== *)
theory Nats_Replay
  imports Nats_Kv_Props Nats_Line_Calls Nats_Storage Writeback_Steps
begin

text \<open>
  The write-back queue over the NATS backend: a queue of key writes, replayed any number of times against
  an unreliable server. The writes of one queue do not disturb each other, so the invariant of each
  of them holds through the whole replay.
\<close>

section \<open>Several writes\<close>

text \<open>Messages that concern none of the writes.\<close>

definition others_of :: "KvWrite set \<Rightarrow> string \<Rightarrow> Logged \<Rightarrow> bool" where
  "others_of W stream m \<longleftrightarrow> (\<forall>w \<in> W. others w stream m)"

text \<open>Writes of one queue: to keys that are not reserved, under different idempotency keys, which are
  hexadecimal and so contain no colon.\<close>

definition independent :: "KvWrite set \<Rightarrow> bool" where
  "independent W \<longleftrightarrow>
     (\<forall>w \<in> W. \<not> is_reserved_kv_key (kw_key w) \<and> CHR '':'' \<notin> set (kw_id w))
     \<and> (\<forall>w \<in> W. \<forall>v \<in> W. kw_id w = kw_id v \<longrightarrow> w = v)"

lemma jetstream_others: "jetstream sv (others_of W) nats \<Longrightarrow> w \<in> W \<Longrightarrow> jetstream sv (others w) nats"
  by (erule jetstream_mono) (simp add: others_of_def)

section \<open>What one write sends is not the other's\<close>

lemma kv_stream_name_eq: "kv_stream_name a = kv_stream_name b \<longleftrightarrow> a = b"
  by (simp add: kv_stream_name_def)

lemma marker_subject_eq:
  "writeback_marker_subject b i = writeback_marker_subject b j \<longleftrightarrow> i = j"
  "applied_marker_subject b i = applied_marker_subject b j \<longleftrightarrow> i = j"
  by (simp_all add: writeback_marker_subject_def applied_marker_subject_def kv_subject_eq writeback_marker_key_def
    applied_marker_key_def)

lemma not_marker_id:
  "CHR '':'' \<notin> set i \<Longrightarrow> i \<noteq> ''writeback-marker:'' @ j" "CHR '':'' \<notin> set i \<Longrightarrow> i \<noteq> ''writeback-applied-marker:'' @ j"
  by auto

lemma kw_ledger_eq: "kw_ledger w = kw_ledger v \<Longrightarrow> kw_id w = kw_id v"
  unfolding kv_writeback_ledger_key_def by (drule scoped_key_inj) auto

lemma sent_by_other:
  assumes "independent W" "w \<in> W" "v \<in> W" "w \<noteq> v"
  shows "logged_as (kw_marker v) None payload (kw_marker_id v) m \<Longrightarrow> others w (kw_stream v) m"
    and "logged_as (kw_applied v) None payload (''writeback-applied-marker:'' @ kw_id v) m \<Longrightarrow> others w (kw_stream v) m"
    and "logged_as (kw_subject v) (Some [(WRITEBACK_IDEMPOTENCY_HEADER, kw_id v)]) payload (kw_id v) m \<Longrightarrow>
      others w (kw_stream v) m"
    and "logged_as (ledger_subject (kw_ledger v)) None payload msg_id m \<Longrightarrow> others w LEDGER_STREAM m"
proof -
  have ids: "kw_id w \<noteq> kw_id v" and plain: "CHR '':'' \<notin> set (kw_id w)" "CHR '':'' \<notin> set (kw_id v)"
    and key: "\<not> is_reserved_kv_key (kw_key v)"
    using assms by (auto simp: independent_def)
  note ne = ids ids [symmetric] not_marker_id [OF plain(1)] not_marker_id [OF plain(1), symmetric]
    not_marker_id [OF plain(2)] ledger_stream_distinct(1) ledger_stream_distinct(1) [symmetric]
  note subjects = marker_subjects_distinct(1) marker_subjects_distinct(1) [symmetric] marker_subjects_distinct(2,3) [OF key]
  show "others w (kw_stream v) m" if "logged_as (kw_marker v) None payload (kw_marker_id v) m"
    using that logged_without_headers [OF that] ne subjects
    by (auto simp: others_def logged_as_def kv_stream_name_eq marker_subject_eq)
  show "others w (kw_stream v) m" if "logged_as (kw_applied v) None payload (''writeback-applied-marker:'' @ kw_id v) m"
    using that logged_without_headers [OF that] ne subjects
    by (auto simp: others_def logged_as_def kv_stream_name_eq marker_subject_eq)
  show "others w (kw_stream v) m"
    if "logged_as (kw_subject v) (Some [(WRITEBACK_IDEMPOTENCY_HEADER, kw_id v)]) payload (kw_id v) m"
    using that ne subjects
    by (auto simp: others_def logged_as_def kv_stream_name_eq target_def headers_contain_idempotency_key_def header_get_def
      WRITEBACK_IDEMPOTENCY_HEADER_def NATS_MSG_ID_def)
  show "others w LEDGER_STREAM m" if "logged_as (ledger_subject (kw_ledger v)) None payload msg_id m"
    using that ne kw_ledger_eq [of w v] by (auto simp: others_def logged_as_def ledger_subject_eq)
qed

lemma probe_quiet:
  assumes js: "jetstream sv (others w) (core_context core)" and W: "independent W" "w \<in> W" "v \<in> W" "w \<noteq> v"
  shows "quiet sv (others w) (any_applied_revision core serde (kw_bucket v) (kw_key v) (kw_id v))"
    and "quiet sv (others w) (record_applied core (kw_ledger v))"
proof -
  note q = jetstream_quiet [OF js]
  have read: "quiet sv (others w) (\<lambda>s. case js_get_last_message (core_context core) stream subject s of
      (Inr message, s) \<Rightarrow> (Inr (f message), s)
    | (Inl err, s) \<Rightarrow> (if is_not_found err then (Inr x, s) else (Inl (Io err), s)))" for stream subject f x
    by (rule quietI) (auto dest: quietD [OF q(6)] split: prod.splits sum.splits if_splits)
  show recorded: "quiet sv (others w) (record_applied core (kw_ledger v))"
    unfolding record_applied_def Let_def
    by (intro quiet_obind ledger_stream_quiet [OF js] quiet_publish [OF js] sent_by_other(4) [OF W] quiet_Inr)
  have chain: "quiet sv (others w) (\<lambda>s. applied_or_else core (kw_ledger v) (probe s) rest)"
    if "quiet sv (others w) probe" "quiet sv (others w) rest" for probe and rest :: "'a \<Rightarrow> ('a, 'b option) outcome"
    unfolding applied_or_else_def using that by (intro quiet_obind follows_option recorded quiet_Inr)
  show "quiet sv (others w) (any_applied_revision core serde (kw_bucket v) (kw_key v) (kw_id v))"
    unfolding any_applied_revision_def Let_def has_applied_def
  proof (intro quiet_obind quiet_if read quiet_Inr chain)
    show "quiet sv (others w) (applied_marker_sequence core serde (kw_bucket v) (kw_key v) (kw_id v))"
      unfolding applied_marker_sequence_def marker_sequence_def by (rule read)
    show "quiet sv (others w) (latest_applied_revision core (kw_bucket v) (kw_key v) (kw_id v))"
      unfolding latest_applied_revision_def by (rule read)
    show "quiet sv (others w) (target_sequence_after_apply_marker core serde (kw_bucket v) (kw_key v) (kw_id v))"
      unfolding target_sequence_after_apply_marker_def apply_marker_sequence_def marker_sequence_def
      by (intro quiet_obind read follows_option quiet_Inr)
    show "quiet sv (others w) (scan_subject_history_until core (kw_stream v) (kw_subject v) (idempotency_scan (kw_id v)))"
      by (rule quiet_scan [OF js])
  qed
qed

lemma put_quiet:
  assumes js: "jetstream sv (others w) (core_context core)" and W: "independent W" "w \<in> W" "v \<in> W" "w \<noteq> v"
  shows "quiet sv (others w) (nkv_put_applied core serde (kw_bucket v) (kw_key v) (kw_id v))"
    and "quiet sv (others w) (nkv_put_idempotent core serde (kw_bucket v) (kw_key v) bs (kw_id v))"
proof -
  note probe = probe_quiet [OF js W]
  have read: "quiet sv (others w) (marker_sequence core stream subject f)" for stream subject f
    unfolding marker_sequence_def
    by (rule quietI) (auto dest: quietD [OF jetstream_quiet(6) [OF js]] split: prod.splits sum.splits if_splits)
  have marker: "quiet sv (others w) (publish_marker core serde (kw_bucket v) subject operation msg_id (kw_key v) (kw_id v))"
    if "\<And>payload m. logged_as subject None payload msg_id m \<Longrightarrow> others w (kw_stream v) m" for subject operation msg_id
  proof -
    have "quiet sv (others w) (\<lambda>s. case marker_payload serde operation (kw_key v) (kw_id v) of
        Inl err \<Rightarrow> (Inl err, s)
      | Inr payload \<Rightarrow> retry_io core (js_publish (core_context core) subject None payload
          (publish_options core (Some msg_id) (kw_stream v) None)) s)"
      using quiet_publish [OF js that] by (cases "marker_payload serde operation (kw_key v) (kw_id v)") (simp_all add: quiet_Inr)
    then show ?thesis
      unfolding publish_marker_def by (intro quiet_obind ensure_bucket_quiet [OF js] ensure_duplicate_window_quiet [OF js])
  qed
  show "quiet sv (others w) (nkv_put_applied core serde (kw_bucket v) (kw_key v) (kw_id v))"
    unfolding nkv_put_applied_def by (intro quiet_obind probe quiet_Inr)
  have "quiet sv (others w) (ensure_apply_marker core serde (kw_bucket v) (kw_key v) (kw_id v))"
    unfolding ensure_apply_marker_def apply_marker_sequence_def
    by (intro quiet_obind read follows_option quiet_Inr marker sent_by_other(1) [OF W])
  moreover have "quiet sv (others w) (record_applied_marker core serde (kw_bucket v) (kw_key v) (kw_id v))"
    unfolding record_applied_marker_def applied_marker_sequence_def
    by (intro quiet_obind read follows_option quiet_Inr marker sent_by_other(2) [OF W])
  ultimately show "quiet sv (others w) (nkv_put_idempotent core serde (kw_bucket v) (kw_key v) bs (kw_id v))"
    unfolding nkv_put_idempotent_def Let_def
    by (intro quiet_obind follows_option probe quiet_Inr ensure_bucket_quiet [OF js] ensure_duplicate_window_quiet [OF js]
      quiet_publish [OF js] sent_by_other(3) [OF W])
qed

section \<open>The queue's executor\<close>

text \<open>The key write an entry stands for.\<close>

definition put_of :: "QueueEntry \<Rightarrow> KvWrite option" where
  "put_of e =
     (case qe_operation e of
        QueueOperation.KvPut bucket key _ \<Rightarrow> Some \<lparr>kw_bucket = bucket, kw_key = key, kw_id = qe_idempotency_key e\<rparr>
      | QueueOperation.MaterializedPut bucket key _ \<Rightarrow>
          Some \<lparr>kw_bucket = bucket, kw_key = key, kw_id = qe_idempotency_key e\<rparr>
      | _ \<Rightarrow> None)"

definition queued_puts :: "KvWrite set \<Rightarrow> QueueEntry list \<Rightarrow> bool" where
  "queued_puts W es \<longleftrightarrow> distinct (keys es) \<and> (\<forall>e \<in> set es. \<not> qe_done e \<and> (\<exists>w \<in> W. put_of e = Some w))"

abbreviation nats_executor :: "Json \<Rightarrow> (EventFsError \<Rightarrow> string) \<Rightarrow> 's NatsStorage \<Rightarrow> 's WriteExecutor" where
  "nats_executor json display storage \<equiv> StoreReplayExecutor (nats_replay_storage json display storage)"

lemmas nats_executor_defs = StoreReplayExecutor_def nats_replay_storage_def store_is_applied_def store_execute_def
  store_refresh_def put_of_def

lemma put_of_id: "put_of e = Some w \<Longrightarrow> kw_id w = qe_idempotency_key e"
  by (auto simp: put_of_def split: QueueOperation.splits)

lemma put_of_bump [simp]: "put_of (bump_attempts e) = put_of e"
  by (auto simp: put_of_def split: QueueOperation.splits)

lemma executor_probe:
  "put_of e = Some w \<Longrightarrow> is_applied (nats_executor json display storage) e s =
    nkv_put_applied (ns_core storage) (ns_marker_serde storage) (kw_bucket w) (kw_key w) (kw_id w) s"
  by (auto simp: nats_executor_defs Let_def split: QueueOperation.splits)

lemma executor_execute:
  assumes "put_of e = Some w" "execute (nats_executor json display storage) e s = (r, s')"
  obtains bs r' where "nkv_put_idempotent (ns_core storage) (ns_marker_serde storage) (kw_bucket w) (kw_key w) bs (kw_id w) s =
      (r', s')" "is_ok r' \<longleftrightarrow> is_ok r"
  using assms that
  by (auto simp: nats_executor_defs ignore_value_def obind_def Let_def is_ok_def
    split: QueueOperation.splits prod.splits sum.splits)

lemma executor_refresh:
  "put_of e = Some w \<Longrightarrow> refresh_after_failed_execute (nats_executor json display storage) e s = (Inr (), e, s)"
  by (auto simp: nats_executor_defs split: QueueOperation.splits)

section \<open>Replays\<close>

definition nats_queue :: "'s Server \<Rightarrow> 's NatsStorage \<Rightarrow> KvWrite set \<Rightarrow> bool" where
  "nats_queue sv storage W \<longleftrightarrow>
     jetstream sv (others_of W) (core_context (ns_core storage)) \<and> independent W
     \<and> marker_roundtrip (ns_marker_serde storage)"

definition writes_inv :: "'s Server \<Rightarrow> 's NatsStorage \<Rightarrow> KvWrite set \<Rightarrow> 's \<Rightarrow> bool" where
  "writes_inv sv storage W s \<longleftrightarrow> (\<forall>w \<in> W. kv_inv sv (ns_marker_serde storage) w s)"

text \<open>A call for the write \<open>v\<close>: the invariant of all writes is kept, the others stay in effect, and if
  \<open>done_now\<close> then so is \<open>v\<close>.\<close>

definition serves :: "'s Server \<Rightarrow> 's NatsStorage \<Rightarrow> KvWrite set \<Rightarrow> KvWrite \<Rightarrow> bool \<Rightarrow> 's \<Rightarrow> 's \<Rightarrow> bool" where
  "serves sv storage W v done_now s s' \<longleftrightarrow>
     writes_inv sv storage W s'
     \<and> (\<forall>w \<in> W. w \<noteq> v \<and> effective sv (ns_marker_serde storage) w s \<longrightarrow> effective sv (ns_marker_serde storage) w s')
     \<and> (done_now \<longrightarrow> effective sv (ns_marker_serde storage) v s')"

lemma servesI:
  assumes "nats_queue sv storage W" "writes_inv sv storage W s"
    and "\<And>w. w \<in> W \<Longrightarrow> w \<noteq> v \<Longrightarrow> grows sv (others w) s s'"
    and "kv_inv sv (ns_marker_serde storage) v s'" "done_now \<Longrightarrow> effective sv (ns_marker_serde storage) v s'"
  shows "serves sv storage W v done_now s s'"
  using assms unfolding serves_def writes_inv_def by (metis kv_inv_grows effective_grows)

lemma probe_serves:
  assumes "nats_queue sv storage W" "v \<in> W" "writes_inv sv storage W s"
    and "nkv_put_applied (ns_core storage) (ns_marker_serde storage) (kw_bucket v) (kw_key v) (kw_id v) s = (r, s')"
  shows "serves sv storage W v (r = Inr True) s s'"
proof -
  have W: "independent W" and js: "\<And>w. w \<in> W \<Longrightarrow> jetstream sv (others w) (core_context (ns_core storage))"
    using assms(1) jetstream_others by (auto simp: nats_queue_def)
  have "kv_inv sv (ns_marker_serde storage) v s" using assms(2,3) by (simp add: writes_inv_def)
  then have "kv_inv sv (ns_marker_serde storage) v s' \<and> (r = Inr True \<longrightarrow> effective sv (ns_marker_serde storage) v s')"
    using assms(4) by (cases r) (auto dest: tripleD [OF put_applied_triple [OF js [OF assms(2)]]])
  moreover have "grows sv (others w) s s'" if "w \<in> W" "w \<noteq> v" for w
    using quietD [OF put_quiet(1) [OF js [OF that(1)] W that(1) assms(2) that(2)] assms(4)] .
  ultimately show ?thesis by (intro servesI [OF assms(1,3)]) auto
qed

lemma put_serves:
  assumes "nats_queue sv storage W" "v \<in> W" "writes_inv sv storage W s"
    and "nkv_put_idempotent (ns_core storage) (ns_marker_serde storage) (kw_bucket v) (kw_key v) bs (kw_id v) s = (r, s')"
  shows "serves sv storage W v (is_ok r) s s'"
proof -
  have W: "independent W" and codec: "marker_roundtrip (ns_marker_serde storage)"
    and js: "\<And>w. w \<in> W \<Longrightarrow> jetstream sv (others w) (core_context (ns_core storage))"
    using assms(1) jetstream_others by (auto simp: nats_queue_def)
  have key: "\<not> is_reserved_kv_key (kw_key v)" using W assms(2) by (auto simp: independent_def)
  have "kv_inv sv (ns_marker_serde storage) v s" using assms(2,3) by (simp add: writes_inv_def)
  then have "kv_inv sv (ns_marker_serde storage) v s' \<and> (is_ok r \<longrightarrow> effective sv (ns_marker_serde storage) v s')"
    using assms(4) by (cases r) (auto simp: is_ok_def intro: effective_inv
      dest: tripleD [OF put_idempotent_kv_triple [OF js [OF assms(2)] key codec]])
  moreover have "grows sv (others w) s s'" if "w \<in> W" "w \<noteq> v" for w
    using quietD [OF put_quiet(2) [OF js [OF that(1)] W that(1) assms(2) that(2)] assms(4)] .
  ultimately show ?thesis by (intro servesI [OF assms(1,3)]) auto
qed

text \<open>What a replay leaves: the invariant, writes in effect that were not in the queue stay so, and every entry is
  still queued or in effect.\<close>

definition replayed_to ::
  "'s Server \<Rightarrow> 's NatsStorage \<Rightarrow> KvWrite set \<Rightarrow> QueueEntry list \<Rightarrow> WritebackQueue \<Rightarrow> 's \<Rightarrow> 's \<Rightarrow> bool" where
  "replayed_to sv storage W es q' s s' \<longleftrightarrow>
     writes_inv sv storage W s'
     \<and> (\<forall>w \<in> W. kw_id w \<notin> set (keys es) \<and> effective sv (ns_marker_serde storage) w s \<longrightarrow>
          effective sv (ns_marker_serde storage) w s')
     \<and> (\<forall>e \<in> set es. qe_idempotency_key e \<in> set (keys (wq_entries q'))
          \<or> (\<forall>w. put_of e = Some w \<longrightarrow> effective sv (ns_marker_serde storage) w s'))"

lemma replayed_kept:
  assumes "serves sv storage W v b s s'" "kw_id v \<in> set (keys es)" "set (keys es) \<subseteq> set (keys (wq_entries q'))"
  shows "replayed_to sv storage W es q' s s'"
  using assms unfolding serves_def replayed_to_def by auto

lemma replayed_next:
  assumes "serves sv storage W v True s s1" "put_of e = Some v" "v \<in> W" "queued_puts W (e # rest)"
    and "replayed_to sv storage W rest q' s1 s'"
  shows "replayed_to sv storage W (e # rest) q' s s'"
proof -
  have "kw_id v \<notin> set (keys rest)" using assms(4) put_of_id [OF assms(2)] by (auto simp: queued_puts_def)
  then have "effective sv (ns_marker_serde storage) v s'"
    using assms(1,3,5) by (auto simp: serves_def replayed_to_def)
  moreover have "w \<noteq> v" if "kw_id w \<noteq> qe_idempotency_key e" for w using that put_of_id [OF assms(2)] by auto
  ultimately show ?thesis using assms(1,2,5) by (auto simp: serves_def replayed_to_def)
qed

lemma serves_trans:
  "serves sv storage W v b s t \<Longrightarrow> serves sv storage W v c t u \<Longrightarrow> serves sv storage W v c s u"
  unfolding serves_def by blast

lemma replay_loop_nats:
  assumes "nats_queue sv storage W"
  shows "replay_loop serde (nats_executor json display storage) es q d s = (r, q', d', s') \<Longrightarrow> wq_entries q = es \<Longrightarrow>
    queued_puts W es \<Longrightarrow> writes_inv sv storage W s \<Longrightarrow> replayed_to sv storage W es q' s s'"
proof (induction es arbitrary: q d s)
  case Nil
  then show ?case by (auto simp: replayed_to_def)
next
  case (Cons e rest)
  let ?ex = "nats_executor json display storage"
  obtain v where v: "put_of e = Some v" "v \<in> W" and e: "\<not> qe_done e" "queued_puts W rest"
    using Cons.prems(3) by (auto simp: queued_puts_def)
  note probe = probe_serves [OF assms v(2) Cons.prems(4), folded executor_probe [OF v(1), where json = json and display = display]]
  have put: "serves sv storage W v (is_ok r1) s s2"
    if run: "is_applied ?ex e s = (Inr False, s1)" "execute ?ex (bump_attempts e) s1 = (r1, s2)" for s1 r1 s2
  proof -
    note first = probe [OF run(1)]
    obtain bs r' where "nkv_put_idempotent (ns_core storage) (ns_marker_serde storage) (kw_bucket v) (kw_key v) bs (kw_id v) s1 =
      (r', s2)" "is_ok r' \<longleftrightarrow> is_ok r1"
      by (rule executor_execute [OF _ run(2)]) (simp add: v(1))
    then have "serves sv storage W v (is_ok r1) s1 s2" using put_serves [OF assms v(2)] first by (auto simp: serves_def)
    then show ?thesis by (rule serves_trans [OF first])
  qed
  have kept: ?case if "serves sv storage W v b s s'" "keys (wq_entries q') = keys (e # rest)" for b
    using that put_of_id [OF v(1)] by (intro replayed_kept) auto
  have continue: ?case if "serves sv storage W v True s s1" "wq_entries q1 = rest"
    "replay_loop serde ?ex rest q1 d1 s1 = (r, q', d', s')" for s1 q1 d1
    using that Cons.IH [OF that(3,2) e(2)] replayed_next [OF that(1) v Cons.prems(3)] by (auto simp: serves_def)
  from Cons.prems(1) show ?case
  proof (cases rule: replay_round_cases)
    case (dropped s1 q1 d1)
    then show ?thesis using continue [of s1 q1 d1] probe [of "Inr True" s1] e(1) replace_entries_entries [OF dropped(2)] by simp
  next
    case (drop_failed err)
    then show ?thesis using kept probe e(1) Cons.prems(2) replace_entries_entries [OF drop_failed(2)] by simp
  next
    case (check_failed err)
    then show ?thesis using kept [OF probe [OF check_failed(2)]] Cons.prems(2) by simp
  next
    case (bump_failed err)
    then show ?thesis using kept [OF probe [OF bump_failed(2)]] Cons.prems(2) replace_entries_entries [OF bump_failed(4)] by simp
  next
    case (execute_failed err s1 q1 d1 s2 x refreshed)
    have ref: "refreshed = bump_attempts e" "s' = s2" using execute_failed(5) executor_refresh [of "bump_attempts e" v json display storage s2] v(1) by auto
    obtain r2 where r2: "replace_entries serde (refreshed # rest) q1 d1 = (r2, q', d')" using execute_failed(6) by blast
    have "keys (wq_entries q') = keys (e # rest)"
      using ref(1) replace_entries_entries [OF r2] replace_entries_entries [OF execute_failed(3)] by (cases r2) auto
    then show ?thesis using kept put [OF execute_failed(2,4)] unfolding ref(2) by blast
  next
    case (executed s1 q1 d1 s2 r2 q2 d2)
    have q1: "wq_entries q1 = bump_attempts e # rest" using replace_entries_entries [OF executed(3)] by simp
    have served: "serves sv storage W v True s s2" using put [OF executed(2,4)] by (simp add: is_ok_def)
    show ?thesis
    proof (cases r2)
      case (Inl err)
      then show ?thesis
        using kept [of True] served executed(6) replace_entries_entries [OF executed(5)] q1 by simp
    next
      case (Inr u)
      then show ?thesis
        using continue [OF served, of q2 d2] executed(6) replace_entries_entries [OF executed(5)] by simp
    qed
  qed
qed

section \<open>Runs of replays\<close>

text \<open>Any number of replays of queues of these writes, with whatever saves and calls fail, and what other clients
  append between them. A restart only changes which queue is replayed next.\<close>

inductive replay_run ::
  "Json \<Rightarrow> (EventFsError \<Rightarrow> string) \<Rightarrow> Serde \<Rightarrow> 's NatsStorage \<Rightarrow> 's Server \<Rightarrow> KvWrite set \<Rightarrow> 's \<Rightarrow> 's \<Rightarrow> bool"
  for json display serde storage sv W s where
  start: "replay_run json display serde storage sv W s s"
| replayed: "replay_run json display serde storage sv W s s1 \<Longrightarrow> queued_puts W (wq_entries q) \<Longrightarrow>
    replay_with_store serde (nats_replay_storage json display storage) q d s1 = (r, q', d', s2) \<Longrightarrow>
    replay_run json display serde storage sv W s s2"
| elsewhere: "replay_run json display serde storage sv W s s1 \<Longrightarrow> grows sv (others_of W) s1 s2 \<Longrightarrow>
    replay_run json display serde storage sv W s s2"

lemma replay_nats:
  assumes "nats_queue sv storage W" "queued_puts W (wq_entries q)" "writes_inv sv storage W s"
    and "replay_with_store serde (nats_replay_storage json display storage) q d s = (r, q', d', s')"
  shows "replayed_to sv storage W (wq_entries q) q' s s'"
  using replay_loop_nats [OF assms(1) _ refl assms(2,3)] assms(4) by (simp add: replay_with_store_def replay_def)

lemma replay_run_inv:
  assumes "nats_queue sv storage W" "writes_inv sv storage W s"
  shows "replay_run json display serde storage sv W s s' \<Longrightarrow> writes_inv sv storage W s'"
proof (induction rule: replay_run.induct)
  case (replayed s1 q d r q' d' s2)
  then show ?case using replay_nats [OF assms(1)] by (auto simp: replayed_to_def)
next
  case (elsewhere s1 s2)
  have "grows sv (others w) s1 s2" if "w \<in> W" for w
    using elsewhere.hyps(2) by (rule grows_mono) (simp add: others_of_def that)
  then show ?case using elsewhere.IH by (auto simp: writes_inv_def intro: kv_inv_grows)
qed (rule assms(2))

text \<open>Replaying the write-back queue against a NATS server is exactly once. Take key writes that were never sent, in
  a durable queue, and any run of replays, each of which may fail at any call to the server (also
  after the server took a write and its acknowledgement was lost) and at any save of the queue,
  with restarts and other clients between them. After one more replay every queued write is in its
  stream at most once, and it took effect unless the replay failed and the write is still queued.\<close>

lemma replay_outcome:
  assumes "nats_queue sv storage W" "\<forall>w \<in> W. new_write sv w s" "replay_run json display serde storage sv W s s1"
    and "queued_puts W (wq_entries q)" "e \<in> set (wq_entries q)" "put_of e = Some w"
    and "replay_with_store serde (nats_replay_storage json display storage) q d s1 = (r, q', d', s2)"
  shows "length (filter (target w) (sv_log sv s2 (kw_stream w))) \<le> 1
    \<and> (took_effect w (sv_log sv s2 (kw_stream w))
       \<or> is_err r \<and> qe_idempotency_key e \<in> set (keys (wq_entries q')))"
proof -
  have "writes_inv sv storage W s" using assms(2) by (auto simp: writes_inv_def intro: new_write_inv)
  note inv = replay_run_inv [OF assms(1) this assms(3)]
  note after = replay_nats [OF assms(1,4) inv assms(7)]
  have "w \<in> W" using assms(4-6) by (auto simp: queued_puts_def)
  then have "length (filter (target w) (sv_log sv s2 (kw_stream w))) \<le> 1"
    using after by (auto simp: replayed_to_def writes_inv_def kv_inv_def kv_log_inv_def)
  moreover have "wq_entries q' = []" if "\<not> is_err r"
  proof -
    have "r = Inr ()" using that by (cases r) (auto simp: is_err_def)
    then show ?thesis
      using replay_keeps [OF assms(7) [unfolded replay_with_store_def] store_refresh_keeps] by (auto simp: kept_suffix_def)
  qed
  moreover have "qe_idempotency_key e \<in> set (keys (wq_entries q')) \<or> took_effect w (sv_log sv s2 (kw_stream w))"
    using after assms(5,6) by (auto simp: replayed_to_def effective_def)
  ultimately show ?thesis by (cases "is_err r") auto
qed

section \<open>Example\<close>

text \<open>The example replays a queue of one write twice: the server loses every acknowledgement of the first
  replay and forgets message ids before the second.\<close>

definition sim_storage :: "Sim NatsStorage" where
  "sim_storage =
     \<lparr>ns_core = sim_core, ns_marker_serde = sim_markers,
      ns_object_serde = \<lparr>info_to_vec = (\<lambda>_. Inr []), info_from_slice = (\<lambda>_. Inl []), identity_to_string = (\<lambda>_. Inr []),
        identity_from_str = (\<lambda>_. Inl []), identity_to_vec = (\<lambda>_. Inr []), identity_from_slice = (\<lambda>_. Inl []),
        base64_url = (\<lambda>s. s)\<rparr>,
      read_watch = (\<lambda>_. \<lparr>nw_subscriptions = [], nw_continuity = WatchContinuity_new\<rparr>), write_watch = (\<lambda>_ s. s)\<rparr>"

definition sim_entry_queued :: QueueEntry where
  "sim_entry_queued =
     \<lparr>qe_idempotency_key = ''w1'', qe_version = VersionStamp_at 0,
      qe_operation = QueueOperation.KvPut ''b'' ''k'' [1], qe_attempts = 0, qe_done = False\<rparr>"

definition sim_json :: Json where
  "sim_json = \<lparr>json_parse = (\<lambda>_. Inr ()), utf8_text = (\<lambda>_. [])\<rparr>"

definition sim_replay :: "Sim \<Rightarrow> (TransportError + unit) \<times> WritebackQueue \<times> Disk \<times> Sim" where
  "sim_replay = replay_with_store line_serde (nats_replay_storage sim_json (\<lambda>_. []) sim_storage)
     \<lparr>wq_capacity = 1, wq_entries = [sim_entry_queued]\<rparr> blank_disk"

abbreviation after_replay :: "Sim \<Rightarrow> Sim" where
  "after_replay s \<equiv> snd (snd (snd (sim_replay s)))"

lemma sim_queue:
  "nats_queue sim_server sim_storage {sim_write}" "\<forall>w \<in> {sim_write}. new_write sim_server w sim_start"
  "queued_puts {sim_write} [sim_entry_queued]" "put_of sim_entry_queued = Some sim_write"
  using sim_contract(2-4)
  by (simp_all add: nats_queue_def sim_storage_def sim_core_def sim_jetstream independent_def queued_puts_def put_of_def
    sim_entry_queued_def sim_write_def)

lemma sim_replay_run: "replay_run sim_json (\<lambda>_. []) line_serde sim_storage sim_server {sim_write} sim_start
    (sim_forget (after_replay sim_start))"
proof -
  have "replay_with_store line_serde (nats_replay_storage sim_json (\<lambda>_. []) sim_storage)
      \<lparr>wq_capacity = 1, wq_entries = [sim_entry_queued]\<rparr> blank_disk sim_start =
    (fst (sim_replay sim_start), fst (snd (sim_replay sim_start)), fst (snd (snd (sim_replay sim_start))), after_replay sim_start)"
    by (simp add: sim_replay_def)
  then have "replay_run sim_json (\<lambda>_. []) line_serde sim_storage sim_server {sim_write} sim_start (after_replay sim_start)"
    by (rule replay_run.replayed [OF replay_run.start, rotated]) (simp add: sim_queue)
  moreover have "grows sim_server (others_of {sim_write}) (after_replay sim_start) (sim_forget (after_replay sim_start))"
    by (simp add: grows_def sim_forget_def sim_log_def sim_ok_def)
  ultimately show ?thesis by (rule replay_run.elsewhere)
qed

lemma nats_replay_example:
  "is_err (fst (sim_replay sim_start))
   \<and> length (filter (target sim_write) (sim_log (after_replay (sim_forget (after_replay sim_start))) ''KV_b'')) = 1"
proof -
  let ?s = "sim_forget (after_replay sim_start)"
  have again: "replay_with_store line_serde (nats_replay_storage sim_json (\<lambda>_. []) sim_storage)
      \<lparr>wq_capacity = 1, wq_entries = [sim_entry_queued]\<rparr> blank_disk ?s =
    (fst (sim_replay ?s), fst (snd (sim_replay ?s)), fst (snd (snd (sim_replay ?s))), after_replay ?s)"
    by (simp add: sim_replay_def)
  have "length (filter (target sim_write) (sv_log sim_server (after_replay ?s) (kw_stream sim_write))) \<le> 1"
    using replay_outcome [OF sim_queue(1,2) sim_replay_run _ _ sim_queue(4) again] sim_queue(3) by simp
  moreover have "kw_stream sim_write = ''KV_b''" by code_simp
  moreover have "is_err (fst (sim_replay sim_start))" by code_simp
  moreover have "1 \<le> length (filter (target sim_write) (sim_log (after_replay ?s) ''KV_b''))" by code_simp
  ultimately show ?thesis by simp
qed

end
