(* ===== verification/Mount_Start.thy ===== *)
theory Mount_Start
  imports Mount_Main_Props Fuse_Props
begin

text \<open>
  The start of a mount (\<open>main.rs\<close>): it holds the lock of its queue for as long as it runs, a start that fails
  leaves the queue as it was, and the queue is replayed before the first callback.
\<close>

section \<open>The lock\<close>

lemma persist_locked: "persist_entries serde es d = (r, d') \<Longrightarrow> d_locked d' = d_locked d"
  by (auto simp: persist_entries_def Let_def split: sum.splits option.splits prod.splits)

lemma replace_locked: "replace_entries serde es q d = (r, q', d') \<Longrightarrow> d_locked d' = d_locked d"
  by (auto simp: replace_entries_def dest: persist_locked split: prod.splits sum.splits)

lemma replay_locked: "replay_loop serde ex es q d s = (r, q', d', s') \<Longrightarrow> d_locked d' = d_locked d"
proof (induction es arbitrary: q d s)
  case (Cons e rest)
  from Cons.prems show ?case
  proof (cases rule: replay_round_cases)
    case (executed s1 q1 d1 s2 r2 q2 d2)
    then show ?thesis by (cases r2) (auto dest!: replace_locked Cons.IH)
  qed (auto dest!: replace_locked Cons.IH)
qed simp

lemma writeback_locked:
  "writeback_enqueue serde failed wr d = (r, wr', d') \<Longrightarrow> d_locked d' = d_locked d"
  "writeback_replay serde store wr d s = (r', wr', d', s') \<Longrightarrow> d_locked d' = d_locked d"
  by (auto simp: writeback_enqueue_def enqueue_failed_write_def enqueue_def enqueue_all_def writeback_replay_def
    replay_with_store_def replay_def Let_def dest: replace_locked replay_locked split: prod.splits sum.splits if_splits)

text \<open>A running mount holds the lock, and its gate agrees with its queue.\<close>

definition holds_queue :: "'s Runtime \<Rightarrow> bool" where
  "holds_queue st \<longleftrightarrow> d_locked (rt_disk st) \<and> wr_inv (rt_replay st)"

interpretation held: fuse_frame holds_queue
proof (unfold_locales, goal_cases)
  case (13 st serde failed r wr d)
  then show ?case using enqueue_inv [OF 13(2)] writeback_locked(1) [OF 13(2)] by (simp add: holds_queue_def)
next
  case (14 st out wr)
  then show ?case using sync_gate_inv [OF 14(2)] by (auto simp: holds_queue_def wr_inv_def)
next
  case (15 st serde store q wr d b)
  then show ?case using replay_inv [OF 15(2)] writeback_locked(2) [OF 15(2)] by (simp add: holds_queue_def)
qed (simp_all add: holds_queue_def)

lemma fuse_step_held: "fuse_step env owner st st' \<Longrightarrow> holds_queue st \<Longrightarrow> holds_queue st'"
  by (induction rule: fuse_step.induct)
    (erule held.callbacks [THEN preservesD] held.creates [THEN preservesD] held.setattrs [THEN preservesD],
      assumption | simp add: holds_queue_def)+

section \<open>Opening and connecting\<close>

lemma from_queue_queue: "wr_queue (from_queue q) = q"
  by (simp add: from_queue_def sync_gate_def split: prod.splits)

lemma queue_open_held:
  assumes "queue_open serde dir open_error cap d = (Inr q, d')"
  shows "d_locked d'" "wr_inv (from_queue q)" "open_error = None" "\<not> d_locked d"
proof -
  show "d_locked d'" "open_error = None" "\<not> d_locked d"
    using assms by (auto simp: queue_open_def Let_def split: option.splits if_splits sum.splits prod.splits)
  have "writeback_open serde dir open_error cap d = (Inr (from_queue q), d')" using assms by (simp add: writeback_open_def)
  then show "wr_inv (from_queue q)" using open_inv by blast
qed

lemma open_without_faults:
  assumes "serde_roundtrip serde" "on_disk serde d es" "\<not> d_locked d" "d_faults d = []"
  shows "\<exists>q d'. queue_open serde dir None cap d = (Inr q, d')"
proof -
  obtain content where c: "serialize_entries serde es = Inr content" "d_file d = Some content"
    using assms(2) by (auto simp: on_disk_def)
  obtain kept where "serialize_entries serde (filter (\<lambda>e. \<not> qe_done e) es) = Inr kept"
    using serialize_printable [of "filter (\<lambda>e. \<not> qe_done e) es" serde] on_disk_printable [OF assms(2)] by auto
  then show ?thesis
    using read_entries_serialized [OF assms(1) c(1)] c(2) assms(3,4)
    by (simp add: queue_open_def compact_completed_entries_def Let_def persist_no_faults)
qed

lemma queue_open_faults: "queue_open serde dir open_error cap d = (Inr q, d') \<Longrightarrow> d_faults d = [] \<Longrightarrow> d_faults d' = []"
  by (auto simp: queue_open_def persist_entries_def Let_def split: option.splits if_splits sum.splits prod.splits)

lemma queue_open_keeps:
  assumes "serde_roundtrip serde" "on_disk serde d es" "queue_open serde dir open_error cap d = (r, d')"
  shows "on_disk serde d' es \<or> on_disk serde d' (filter (\<lambda>e. \<not> qe_done e) es)"
    and "r = Inl err \<Longrightarrow> d_locked d' = d_locked d"
    and "r = Inr q \<Longrightarrow> wq_entries q = filter (\<lambda>e. \<not> qe_done e) es"
proof -
  let ?kept = "filter (\<lambda>e. \<not> qe_done e) es"
  obtain content where c: "serialize_entries serde es = Inr content" "d_file d = Some content"
    using assms(2) by (auto simp: on_disk_def)
  note read = read_entries_serialized [OF assms(1) c(1)]
  obtain pr pd where p: "persist_entries serde ?kept d = (pr, pd)" by fastforce
  have pd: "on_disk serde pd es \<or> on_disk serde pd ?kept"
    using p
  proof (cases rule: persist_cases)
    case (old err)
    then show ?thesis using assms(2) on_disk_cong [of pd d serde es] by simp
  qed simp_all
  have d': "d_file d' = d_file d \<or> d_file d' = d_file pd"
    using assms(3) c(2) read p
    by (auto simp: queue_open_def compact_completed_entries_def Let_def split: option.splits if_splits sum.splits)
  then show "on_disk serde d' es \<or> on_disk serde d' ?kept"
    using pd assms(2) on_disk_cong [of d' d serde] on_disk_cong [of d' pd serde] by auto
  show "r = Inl err \<Longrightarrow> d_locked d' = d_locked d"
    using assms(3) c(2) read p persist_locked [OF p]
    by (auto simp: queue_open_def compact_completed_entries_def Let_def split: option.splits if_splits sum.splits)
  show "r = Inr q \<Longrightarrow> wq_entries q = ?kept"
    using assms(3) c(2) read p
    by (auto simp: queue_open_def compact_completed_entries_def Let_def split: option.splits if_splits sum.splits)
qed

text \<open>The backend a start connects to.\<close>

definition main_storage :: "'s Host \<Rightarrow> Cli \<Rightarrow> 's NatsStorage" where
  "main_storage host cli =
     \<lparr>ns_core = \<lparr>core_context = h_nats host, core_config = main_config cli\<rparr>, ns_marker_serde = h_marker_serde host,
      ns_object_serde = h_object_serde host, read_watch = h_read_watch host, write_watch = h_write_watch host\<rparr>"

lemma main_cases:
  assumes "eventfs_main host cli disks s = (result, disks')"
  obtains (locked_out) err disk where "result = Inl (''open queue'', err)" "disks' = disks(main_cache_dir host cli := disk)"
      "queue_open (e_serde (h_env host)) (main_cache_dir host cli) (h_open_error host) (cli_queue_capacity cli)
        (disks (main_cache_dir host cli)) = (Inl err, disk)"
    | (not_connected) err queue disk where "result = Inl (''connect to JetStream'', err)"
      "disks' = disks(main_cache_dir host cli := drop_lock disk)"
      "queue_open (e_serde (h_env host)) (main_cache_dir host cli) (h_open_error host) (cli_queue_capacity cli)
        (disks (main_cache_dir host cli)) = (Inr queue, disk)"
    | (mounted) watch queue disk fs where "result = Inr fs" "disks' = disks(main_cache_dir host cli := rt_disk fs)"
      "queue_open (e_serde (h_env host)) (main_cache_dir host cli) (h_open_error host) (cli_queue_capacity cli)
        (disks (main_cache_dir host cli)) = (Inr queue, disk)"
      "fs = JetStreamFuse_new (with_storage (h_env host) (main_storage host cli)) (h_write_watch host watch s) queue disk
        (cli_mount_name cli) (h_instance_seed host) (h_mounted_at host)"
  using assms
  by (auto simp: eventfs_main_def NatsStorage_connect_def main_storage_def map_ok_def Let_def split: prod.splits sum.splits)

lemma new_mount_held:
  assumes "queue_open serde dir open_error cap d = (Inr q, d')"
  shows "holds_queue (JetStreamFuse_new env b q d' name seed t)"
proof -
  have "holds_queue (MountRuntimeState_new b q d' name seed t)"
    using queue_open_held [OF assms] by (simp add: holds_queue_def MountRuntimeState_new_def)
  then show ?thesis unfolding JetStreamFuse_new_def by (rule held.replay_keeps_state)
qed

section \<open>The first replay\<close>

lemma gap_plan_keeps:
  "rt_backend (apply_invalidation_plan gap_plan st) = rt_backend st"
  "rt_replay (apply_invalidation_plan gap_plan st) = rt_replay st"
  by (simp_all add: apply_invalidation_plan_def apply_path_invalidation_plan_def gap_plan_def apply_path_action_def
    mark_paths_stale_def Let_def)

lemma new_mount_replays:
  assumes "replay_with_store (e_serde env) (ReplayStorage.truncate (e_store env)) q d s = (r, q', d', s')"
  shows "rt_backend (JetStreamFuse_new env s q d name seed t) = s'"
    and "wr_queue (rt_replay (JetStreamFuse_new env s q d name seed t)) = q'"
proof -
  obtain out wr where g: "sync_gate ((from_queue q)\<lparr>wr_queue := q'\<rparr>) = (out, wr)" by fastforce
  have wr: "wr_queue wr = q'" using sync_gate_result [OF g] by simp
  have replay: "writeback_replay (e_serde env) (ReplayStorage.truncate (e_store env)) (from_queue q) d s =
      (map_ok (\<lambda>_. out) r, wr, d', s')"
    using assms g by (simp add: writeback_replay_def from_queue_queue)
  show "rt_backend (JetStreamFuse_new env s q d name seed t) = s'"
    "wr_queue (rt_replay (JetStreamFuse_new env s q d name seed t)) = q'"
    using wr unfolding JetStreamFuse_new_def MountRuntimeState_new_def replay_queue_def
    by (simp_all add: replay Let_def gap_plan_keeps record_blocked_writeback_gate_def record_error_def split: sum.splits)
qed

lemma nats_truncate:
  "ReplayStorage.truncate (nats_mount_storage json display storage) = nats_replay_storage json display storage"
  by (simp add: nats_mount_storage_def nats_replay_storage_def ReplayStorage.defs Let_def)

text \<open>A start that succeeds: the queue it opened, and the replay of that queue.\<close>

lemma main_replays:
  assumes "eventfs_main host cli disks s = (Inr fs, disks')" "serde_roundtrip (e_serde (h_env host))"
    and "on_disk (e_serde (h_env host)) (disks (main_cache_dir host cli)) es"
  obtains watch q d r q' d' where "wq_entries q = filter (\<lambda>e. \<not> qe_done e) es"
    "d_faults (disks (main_cache_dir host cli)) = [] \<longrightarrow> d_faults d = []"
    "replay_with_store (e_serde (h_env host))
      (nats_replay_storage (e_json (h_env host)) (e_display (h_env host)) (main_storage host cli)) q d (h_write_watch host watch s)
        = (r, q', d', rt_backend fs)"
    "wr_queue (rt_replay fs) = q'" "holds_queue fs"
  using assms(1)
proof (cases rule: main_cases)
  case (mounted watch queue disk fs')
  let ?env = "with_storage (h_env host) (main_storage host cli)"
  obtain r q' d' s' where
    replay: "replay_with_store (e_serde ?env) (ReplayStorage.truncate (e_store ?env)) queue disk (h_write_watch host watch s) =
      (r, q', d', s')"
    by (metis prod_cases4)
  note new = new_mount_replays [OF replay, of "cli_mount_name cli" "h_instance_seed host" "h_mounted_at host"]
  show ?thesis
  proof (rule that)
    show "wq_entries queue = filter (\<lambda>e. \<not> qe_done e) es" using queue_open_keeps(3) [OF assms(2,3) mounted(3)] by simp
    show "d_faults (disks (main_cache_dir host cli)) = [] \<longrightarrow> d_faults disk = []" using queue_open_faults [OF mounted(3)] by blast
    show "replay_with_store (e_serde (h_env host))
        (nats_replay_storage (e_json (h_env host)) (e_display (h_env host)) (main_storage host cli)) queue disk
        (h_write_watch host watch s) = (r, q', d', rt_backend fs)"
      using replay new(1) mounted(1,4) by (simp add: with_storage_def nats_truncate)
    show "wr_queue (rt_replay fs) = q'" using new(2) mounted(1,4) by simp
    show "holds_queue fs" using new_mount_held [OF mounted(3)] mounted(1,4) by simp
  qed
qed simp_all

text \<open>A start with nothing in its way succeeds.\<close>

lemma main_starts:
  assumes "h_open_error host = None" "h_connection host = Inr ()" "\<And>subject. is_ok (h_subscribe host subject)"
    and "serde_roundtrip (e_serde (h_env host))" "on_disk (e_serde (h_env host)) (disks (main_cache_dir host cli)) es"
    and "\<not> d_locked (disks (main_cache_dir host cli))" "d_faults (disks (main_cache_dir host cli)) = []"
  shows "\<exists>fs disks'. eventfs_main host cli disks s = (Inr fs, disks')"
proof -
  obtain q d where opened: "queue_open (e_serde (h_env host)) (main_cache_dir host cli) None (cli_queue_capacity cli)
      (disks (main_cache_dir host cli)) = (Inr q, d)"
    using open_without_faults [OF assms(4-7)] by blast
  have "\<exists>subs. try_map (\<lambda>subject. map_err Io (h_subscribe host subject)) subjects = Inr subs" for subjects
  proof (induction subjects)
    case (Cons subject subjects)
    then show ?case using assms(3) [of subject] by (cases "h_subscribe host subject") (auto simp: is_ok_def)
  qed simp
  then obtain subs where "try_map (\<lambda>subject. map_err Io (h_subscribe host subject)) live_watch_subjects = Inr subs" by blast
  then obtain watch where "nats_watch_connect (Inr ()) (h_subscribe host) = Inr watch" by (simp add: nats_watch_connect_def)
  then show ?thesis using assms(1,2) opened by (simp add: eventfs_main_def NatsStorage_connect_def Let_def)
qed

text \<open>The examples start mounts over a simulated server, with a queue of one write.\<close>

definition sim_env :: "Sim Env" where
  "sim_env =
     \<lparr>e_store = nats_mount_storage sim_json (\<lambda>_. []) sim_storage, e_serde = sample_serde sim_entry_queued, e_json = sim_json,
      e_display = (\<lambda>_. []), e_transport_display = (\<lambda>_. []), e_debug = (\<lambda>_. []), e_json_text = (\<lambda>_. []),
      e_queue_value = (\<lambda>_. JBool True), e_message_bytes = (\<lambda>_. Inr []), e_idempotency_key = (\<lambda>_ _ seed. seed),
      e_now = (\<lambda>_. 0)\<rparr>"

definition sim_host :: "IoError + unit \<Rightarrow> Sim Host" where
  "sim_host connection =
     \<lparr>h_var = (\<lambda>_. None), h_current_dir = Inr ''/work'', h_open_error = None, h_connection = connection,
      h_subscribe = (\<lambda>_. Inr \<lparr>ws_dropped = Inr 0, ws_waiting = []\<rparr>), h_nats = sim_nats, h_marker_serde = sim_markers,
      h_object_serde = ns_object_serde sim_storage, h_read_watch = read_watch sim_storage, h_write_watch = (\<lambda>_ s. s),
      h_env = sim_env, h_instance_seed = 0, h_mounted_at = 0\<rparr>"

definition sim_disks :: "string \<Rightarrow> Disk" where
  "sim_disks = (\<lambda>_. \<lparr>d_file = Some (''{0}'' @ [newline]), d_locked = False, d_faults = []\<rparr>)"

lemma sim_queue_opens:
  "on_disk (sample_serde sim_entry_queued) (sim_disks dir) [sim_entry_queued]"
  "queue_open (sample_serde sim_entry_queued) dir None cap (sim_disks dir) =
    (Inr \<lparr>wq_capacity = cap, wq_entries = [sim_entry_queued]\<rparr>, (sim_disks dir)\<lparr>d_locked := True\<rparr>)"
proof -
  have e: "sim_entry_queued = Writeback_Durability.sample_entry"
    by (simp add: sim_entry_queued_def Writeback_Durability.sample_entry_def)
  have "read_entries (sample_serde sim_entry_queued) (''{0}'' @ [newline]) = Inr [sim_entry_queued]"
    using read_entries_serialized [OF sample_serde_roundtrip sample_serialized] by (simp add: e)
  then show "queue_open (sample_serde sim_entry_queued) dir None cap (sim_disks dir) =
      (Inr \<lparr>wq_capacity = cap, wq_entries = [sim_entry_queued]\<rparr>, (sim_disks dir)\<lparr>d_locked := True\<rparr>)"
    by (simp add: queue_open_def sim_disks_def compact_completed_entries_def Let_def sim_entry_queued_def)
  show "on_disk (sample_serde sim_entry_queued) (sim_disks dir) [sim_entry_queued]"
    using sample_serialized by (simp add: on_disk_def sim_disks_def e)
qed

lemma sim_main_queue: "nats_queue sim_server (main_storage (sim_host c) cli) {sim_write}"
  using sim_queue(1) by (simp add: nats_queue_def main_storage_def sim_storage_def sim_core_def sim_host_def)

lemma sim_connects: "is_ok (nats_watch_connect (Inr ()) (h_subscribe (sim_host c)))"
  by code_simp

lemma sim_mounts: "\<exists>fs disks. eventfs_main (sim_host (Inr ())) sample_cli sim_disks s = (Inr fs, disks)"
proof -
  obtain watch where "nats_watch_connect (Inr ()) (h_subscribe (sim_host (Inr ()))) = Inr watch"
    using sim_connects [of "Inr ()"] by (cases "nats_watch_connect (Inr ()) (h_subscribe (sim_host (Inr ())))") (auto simp: is_ok_def)
  then show ?thesis
    by (simp add: eventfs_main_def Let_def sim_host_def sim_env_def sim_queue_opens NatsStorage_connect_def)
qed

section \<open>Properties\<close>

text \<open>C13: A queue has one mount. From the start of a mount on, through every run of its callbacks, whatever the
  backend answers and whichever saves fail, it holds the lock of its queue and accepts writes
  exactly when the queue is empty; any other start whose queue is in the same directory fails with
  \<open>QueueLocked\<close> and changes nothing on disk.\<close>

theorem one_mount_per_queue:
  assumes "eventfs_main host cli disks s = (Inr fs, disks')" "(fuse_step env owner)\<^sup>*\<^sup>* fs st"
    and "main_cache_dir host2 cli2 = main_cache_dir host cli" "h_open_error host2 = None"
  shows "d_locked (rt_disk st) \<and> (writes_blocked st \<longleftrightarrow> wq_entries (wr_queue (rt_replay st)) \<noteq> [])
    \<and> eventfs_main host2 cli2 (disks'(main_cache_dir host cli := rt_disk st)) s2 =
      (Inl (''open queue'', QueueLocked (main_cache_dir host cli @ ''/writeback.lock'')),
       disks'(main_cache_dir host cli := rt_disk st))"
proof -
  from assms(1) have "holds_queue fs" by (cases rule: main_cases) (auto intro: new_mount_held)
  with assms(2) have "holds_queue st" by (induction rule: rtranclp_induct) (auto intro: fuse_step_held)
  then show ?thesis
    using assms(3,4)
    by (simp add: holds_queue_def eventfs_main_def queue_open_def Let_def wr_inv_def writes_blocked_def write_gate_def
      gate_state_def accepts_writes_def)
qed

theorem one_mount_per_queue_witness:
  "\<exists>fs disks. eventfs_main (sim_host (Inr ())) sample_cli sim_disks sim_start = (Inr fs, disks)
    \<and> fst (eventfs_main (sim_host (Inr ())) sample_cli disks sim_start) =
      Inl (''open queue'', QueueLocked (main_cache_dir (sim_host (Inr ())) sample_cli @ ''/writeback.lock''))"
proof -
  obtain fs disks where start: "eventfs_main (sim_host (Inr ())) sample_cli sim_disks sim_start = (Inr fs, disks)"
    using sim_mounts by blast
  then have same: "disks(main_cache_dir (sim_host (Inr ())) sample_cli := rt_disk fs) = disks"
    by (cases rule: main_cases) (simp_all add: fun_upd_idem)
  have "h_open_error (sim_host (Inr ())) = None" by (simp add: sim_host_def)
  note second = one_mount_per_queue [OF start rtranclp.rtrancl_refl refl this, of sim_start, unfolded same]
  show ?thesis using start second by auto
qed

text \<open>C14: A start that fails loses nothing. Whether the queue could not be opened or the server not reached,
  the file of the queue still holds the unfinished entries it held before, the lock is free again
  unless another mount holds it, and no other queue is touched.\<close>

theorem failed_start_keeps_the_queue:
  assumes "eventfs_main host cli disks s = (Inl err, disks')" "serde_roundtrip (e_serde (h_env host))"
    and "on_disk (e_serde (h_env host)) (disks (main_cache_dir host cli)) es"
  shows "(on_disk (e_serde (h_env host)) (disks' (main_cache_dir host cli)) es
      \<or> on_disk (e_serde (h_env host)) (disks' (main_cache_dir host cli)) (filter (\<lambda>e. \<not> qe_done e) es))
    \<and> d_locked (disks' (main_cache_dir host cli)) = d_locked (disks (main_cache_dir host cli))
    \<and> (dir \<noteq> main_cache_dir host cli \<longrightarrow> disks' dir = disks dir)"
proof -
  note keeps = queue_open_keeps [OF assms(2,3)]
  from assms(1) show ?thesis
  proof (cases rule: main_cases)
    case (locked_out err disk)
    then show ?thesis using keeps(1,2) [OF locked_out(3)] by simp
  next
    case (not_connected err queue disk)
    have "on_disk (e_serde (h_env host)) (drop_lock disk) xs = on_disk (e_serde (h_env host)) disk xs" for xs
      by (rule on_disk_cong) (simp add: drop_lock_def)
    then show ?thesis
      using keeps(1) [OF not_connected(3)] queue_open_held(4) [OF not_connected(3)] not_connected(2) by (simp add: drop_lock_def)
  qed simp
qed

theorem failed_start_keeps_the_queue_witness:
  "\<exists>err disks. eventfs_main (sim_host (Inl sim_error)) sample_cli sim_disks sim_start = (Inl err, disks)
    \<and> on_disk (sample_serde sim_entry_queued) (disks (main_cache_dir (sim_host (Inl sim_error)) sample_cli)) [sim_entry_queued]"
proof -
  have host: "e_serde (h_env (sim_host c)) = sample_serde sim_entry_queued" for c by (simp add: sim_host_def sim_env_def)
  have "is_err (fst (eventfs_main (sim_host (Inl sim_error)) sample_cli sim_disks sim_start))"
    by (simp add: eventfs_main_def Let_def sim_host_def sim_env_def sim_queue_opens NatsStorage_connect_def
      nats_watch_connect_def is_err_def)
  then obtain err disks where start: "eventfs_main (sim_host (Inl sim_error)) sample_cli sim_disks sim_start = (Inl err, disks)"
    by (cases "eventfs_main (sim_host (Inl sim_error)) sample_cli sim_disks sim_start"; cases "fst (eventfs_main (sim_host (Inl sim_error)) sample_cli sim_disks sim_start)")
      (auto simp: is_err_def is_ok_def)
  show ?thesis
    using start failed_start_keeps_the_queue [OF start, of "[sim_entry_queued]" undefined, unfolded host,
      OF sample_serde_roundtrip sim_queue_opens(1)]
    by (auto simp: sim_entry_queued_def)
qed

end
