(* ===== verification/Nats_Accepts.thy ===== *)
theory Nats_Accepts
  imports Nats_Idempotence
begin

text \<open>
  Which messages a JetStream server takes: those on a valid subject that the expected stream binds, with
  header values of one line, and not larger than the server's limit. The markers and the ledger
  record of a key write have such subjects whenever the key itself has.
\<close>

section \<open>Subjects\<close>

text \<open>A subject to publish on: tokens separated by dots, none of them empty, without blanks, control
  characters and wildcards.\<close>

definition subject_char :: "char \<Rightarrow> bool" where
  "subject_char c \<longleftrightarrow> (32 :: nat) < of_char c \<and> c \<noteq> CHR ''*'' \<and> c \<noteq> CHR ''>''"

definition valid_subject :: "string \<Rightarrow> bool" where
  "valid_subject subject \<longleftrightarrow>
     list_all subject_char subject \<and> [] \<notin> set (split_on (CHR ''.'') subject)"

text \<open>The subjects the streams are created with: \<open>$KV.<bucket>.>\<close> for the stream of a bucket and
  \<open>eventfs.writeback.>\<close> for the ledger.\<close>

definition stream_binds :: "string \<Rightarrow> string \<Rightarrow> bool" where
  "stream_binds stream subject \<longleftrightarrow>
     valid_subject subject
     \<and> (case bucket_name_from_stream stream of
          Some bucket \<Rightarrow> starts_with (''$KV.'' @ bucket @ ''.'') subject
        | None \<Rightarrow> stream = LEDGER_STREAM \<and> starts_with (LEDGER_SUBJECT_PREFIX @ ''.'') subject)"

lemma valid_subject_dot: "valid_subject (p @ CHR ''.'' # q) \<longleftrightarrow> valid_subject p \<and> valid_subject q"
  by (auto simp: valid_subject_def split_on_append subject_char_def)

lemma hex_digits: "set (nats_hex_encode bs) \<subseteq> set HEX"
proof (induction bs)
  case (Cons b bs)
  have "unat b < 256" using unsigned_less [of b] by simp
  then have "unat b div 16 < length HEX" "unat b mod 16 < length HEX" by (auto simp: HEX_def)
  then show ?case using Cons.IH nth_mem by auto
qed simp

lemma hex_subject_char: "c \<in> set (nats_hex_encode bs) \<Longrightarrow> subject_char c \<and> c \<noteq> CHR ''.''"
  using hex_digits [of bs] by (auto simp: HEX_def subject_char_def)

lemma valid_hex: "bs \<noteq> [] \<Longrightarrow> valid_subject (nats_hex_encode bs)"
proof -
  assume "bs \<noteq> []"
  then have "nats_hex_encode bs \<noteq> []" by (cases bs) simp_all
  moreover have "CHR ''.'' \<notin> set (nats_hex_encode bs)" using hex_subject_char by blast
  ultimately show ?thesis using hex_subject_char by (auto simp: valid_subject_def list_all_iff)
qed

lemma kv_subject_binds:
  "valid_subject (kv_subject bucket key) \<Longrightarrow> stream_binds (kv_stream_name bucket) (kv_subject bucket key)"
  by (simp add: stream_binds_def kv_subject_def kv_stream_name_def bucket_name_from_stream_def strip_prefix_def starts_with_def)

lemma kv_subject_valid: "valid_subject (kv_subject bucket key) \<longleftrightarrow> valid_subject bucket \<and> valid_subject key"
proof -
  have "valid_subject ''$KV''" by code_simp
  moreover have "kv_subject bucket key = ''$KV'' @ CHR ''.'' # bucket @ CHR ''.'' # key" by (simp add: kv_subject_def)
  ultimately show ?thesis by (simp only: valid_subject_dot) simp
qed

lemma marker_keys_valid:
  assumes "idempotency_key \<noteq> []"
  shows "valid_subject (writeback_marker_key idempotency_key)" "valid_subject (applied_marker_key idempotency_key)"
proof -
  have "valid_subject KV_WRITEBACK_MARKER_KEY_PREFIX" "valid_subject KV_APPLIED_MARKER_KEY_PREFIX" by code_simp+
  moreover have "valid_subject (nats_hex_encode (as_bytes idempotency_key))"
    using assms by (intro valid_hex) (simp add: as_bytes_def)
  ultimately show "valid_subject (writeback_marker_key idempotency_key)" "valid_subject (applied_marker_key idempotency_key)"
    using valid_subject_dot by (simp_all add: writeback_marker_key_def applied_marker_key_def)
qed

lemma marker_subjects_bind:
  assumes "valid_subject (kv_subject bucket key)" "idempotency_key \<noteq> []"
  shows "stream_binds (kv_stream_name bucket) (writeback_marker_subject bucket idempotency_key)"
    and "stream_binds (kv_stream_name bucket) (applied_marker_subject bucket idempotency_key)"
  using assms kv_subject_binds marker_keys_valid [OF assms(2)]
  by (simp_all add: kv_subject_valid writeback_marker_subject_def applied_marker_subject_def)

lemma ledger_subject_binds:
  assumes "ledger_key \<noteq> []"
  shows "stream_binds LEDGER_STREAM (ledger_subject ledger_key)"
proof -
  have "valid_subject LEDGER_SUBJECT_PREFIX" by code_simp
  moreover have "valid_subject (nats_hex_encode (as_bytes ledger_key))"
    using assms by (intro valid_hex) (simp add: as_bytes_def)
  ultimately have "valid_subject (ledger_subject ledger_key)" using valid_subject_dot by (simp add: ledger_subject_def)
  moreover have "bucket_name_from_stream LEDGER_STREAM = None" by code_simp
  ultimately show ?thesis by (simp add: stream_binds_def ledger_subject_def starts_with_def)
qed

lemma ledger_key_not_empty: "kv_writeback_ledger_key bucket key idempotency_key \<noteq> []"
  by (simp add: kv_writeback_ledger_key_def scoped_key_parts)

section \<open>Sizes\<close>

text \<open>What the client sends besides the payload: the line \<open>NATS/1.0\<close>, one line for each header, also for the message
  id and for the name of the expected stream, and an empty line.\<close>

definition sent_headers :: "HeaderMap option \<Rightarrow> string \<Rightarrow> string \<Rightarrow> HeaderMap" where
  "sent_headers headers msg_id stream =
     (case headers of Some hs \<Rightarrow> hs | None \<Rightarrow> []) @ [(NATS_MSG_ID, msg_id), (''Nats-Expected-Stream'', stream)]"

definition message_size :: "HeaderMap option \<Rightarrow> bytes \<Rightarrow> string \<Rightarrow> string \<Rightarrow> nat" where
  "message_size headers payload msg_id stream =
     length payload + 12 + sum_list (map (\<lambda>(name, v). length name + length v + 4) (sent_headers headers msg_id stream))"

definition one_line :: "string \<Rightarrow> bool" where
  "one_line v \<longleftrightarrow> CHR 0x0A \<notin> set v \<and> CHR 0x0D \<notin> set v"

definition accepted :: "nat \<Rightarrow> string \<Rightarrow> string \<Rightarrow> HeaderMap option \<Rightarrow> bytes \<Rightarrow> string \<Rightarrow> bool" where
  "accepted limit stream subject headers payload msg_id \<longleftrightarrow>
     stream_binds stream subject
     \<and> list_all (\<lambda>(_, v). one_line v) (sent_headers headers msg_id stream)
     \<and> message_size headers payload msg_id stream \<le> limit"

lemma one_line_Cons [simp]:
  "one_line []" "one_line (c # s) \<longleftrightarrow> c \<noteq> CHR 0x0A \<and> c \<noteq> CHR 0x0D \<and> one_line s"
  by (auto simp: one_line_def)

lemma one_line_append [simp]: "one_line (a @ b) \<longleftrightarrow> one_line a \<and> one_line b"
  by (auto simp: one_line_def)

lemma one_line_valid: "valid_subject s \<Longrightarrow> one_line s"
proof -
  have "\<not> subject_char (CHR 0x0A)" "\<not> subject_char (CHR 0x0D)" by (simp_all add: subject_char_def)
  then show "one_line s" if "valid_subject s"
    using that unfolding valid_subject_def one_line_def list_all_iff by blast
qed

lemma one_line_hex: "one_line (nats_hex_encode bs)"
  using hex_digits [of bs] by (auto simp: one_line_def HEX_def)

section \<open>The messages of a key write\<close>

text \<open>The record in the ledger and the names of a write: what probing for it needs.\<close>

definition ledger_fits :: "nat \<Rightarrow> KvWrite \<Rightarrow> bool" where
  "ledger_fits limit w \<longleftrightarrow>
     valid_subject (kv_subject (kw_bucket w) (kw_key w)) \<and> kw_id w \<noteq> [] \<and> one_line (kw_id w)
     \<and> (let key = kv_writeback_ledger_key (kw_bucket w) (kw_key w) (kw_id w) in
          message_size None (as_bytes key) (''writeback-applied:'' @ nats_hex_encode (as_bytes key)) LEDGER_STREAM \<le> limit)"

definition marker_fits :: "nat \<Rightarrow> MarkerSerde \<Rightarrow> KvWrite \<Rightarrow> string \<Rightarrow> string \<Rightarrow> bool" where
  "marker_fits limit serde w operation msg_id \<longleftrightarrow>
     (case marker_payload serde operation (kw_key w) (kw_id w) of
        Inl _ \<Rightarrow> False
      | Inr payload \<Rightarrow> message_size None payload msg_id (kw_stream w) \<le> limit)"

text \<open>All messages of a write with the bytes \<open>bs\<close>: the record, both markers and the write.\<close>

definition put_fits :: "nat \<Rightarrow> MarkerSerde \<Rightarrow> KvWrite \<Rightarrow> bytes \<Rightarrow> bool" where
  "put_fits limit serde w bs \<longleftrightarrow>
     ledger_fits limit w
     \<and> marker_fits limit serde w WRITEBACK_MARKER_OPERATION (''writeback-marker:'' @ kw_id w)
     \<and> marker_fits limit serde w APPLIED_MARKER_OPERATION (''writeback-applied-marker:'' @ kw_id w)
     \<and> message_size (Some [(WRITEBACK_IDEMPOTENCY_HEADER, kw_id w)]) bs (kw_id w) (kw_stream w) \<le> limit"

lemma ledger_accepted:
  assumes "ledger_fits limit w"
  defines "key \<equiv> kv_writeback_ledger_key (kw_bucket w) (kw_key w) (kw_id w)"
  shows "accepted limit LEDGER_STREAM (ledger_subject key) None (as_bytes key)
    (''writeback-applied:'' @ nats_hex_encode (as_bytes key))"
proof -
  have "one_line LEDGER_STREAM" by (simp add: LEDGER_STREAM_def)
  then show ?thesis
    using assms(1) ledger_subject_binds [OF ledger_key_not_empty] one_line_hex
    by (simp add: accepted_def sent_headers_def ledger_fits_def key_def Let_def)
qed

lemma stream_one_line: "ledger_fits limit w \<Longrightarrow> one_line (kw_stream w)"
proof -
  assume "ledger_fits limit w"
  then show ?thesis by (simp add: ledger_fits_def kv_subject_valid one_line_valid kv_stream_name_def)
qed

lemma put_accepted:
  assumes "put_fits limit serde w bs"
  shows "accepted limit (kw_stream w) (kv_subject (kw_bucket w) (kw_key w)) (Some [(WRITEBACK_IDEMPOTENCY_HEADER, kw_id w)]) bs (kw_id w)"
    and "\<exists>payload. marker_payload serde WRITEBACK_MARKER_OPERATION (kw_key w) (kw_id w) = Inr payload
      \<and> accepted limit (kw_stream w) (writeback_marker_subject (kw_bucket w) (kw_id w)) None payload (''writeback-marker:'' @ kw_id w)"
    and "\<exists>payload. marker_payload serde APPLIED_MARKER_OPERATION (kw_key w) (kw_id w) = Inr payload
      \<and> accepted limit (kw_stream w) (applied_marker_subject (kw_bucket w) (kw_id w)) None payload
          (''writeback-applied-marker:'' @ kw_id w)"
proof -
  have fits: "ledger_fits limit w" using assms by (simp add: put_fits_def)
  then have names: "valid_subject (kv_subject (kw_bucket w) (kw_key w))" "kw_id w \<noteq> []" "one_line (kw_id w)" "one_line (kw_stream w)"
    using stream_one_line by (simp_all add: ledger_fits_def)
  note binds = kv_subject_binds [OF names(1)] marker_subjects_bind [OF names(1,2)]
  show "accepted limit (kw_stream w) (kv_subject (kw_bucket w) (kw_key w)) (Some [(WRITEBACK_IDEMPOTENCY_HEADER, kw_id w)]) bs (kw_id w)"
    using assms names binds by (simp add: put_fits_def accepted_def sent_headers_def)
  show "\<exists>payload. marker_payload serde WRITEBACK_MARKER_OPERATION (kw_key w) (kw_id w) = Inr payload
      \<and> accepted limit (kw_stream w) (writeback_marker_subject (kw_bucket w) (kw_id w)) None payload (''writeback-marker:'' @ kw_id w)"
    using assms names binds by (auto simp: put_fits_def marker_fits_def accepted_def sent_headers_def split: sum.splits)
  show "\<exists>payload. marker_payload serde APPLIED_MARKER_OPERATION (kw_key w) (kw_id w) = Inr payload
      \<and> accepted limit (kw_stream w) (applied_marker_subject (kw_bucket w) (kw_id w)) None payload
          (''writeback-applied-marker:'' @ kw_id w)"
    using assms names binds by (auto simp: put_fits_def marker_fits_def accepted_def sent_headers_def split: sum.splits)
qed

end
