(* ===== verification/Nats_Progress.thy ===== *)
theory Nats_Progress
  imports Nats_Replay Nats_Accepts
begin

text \<open>
  Progress of a replay over NATS: on a server that answers, with the buckets and the ledger in place, and for writes whose
  messages it accepts, every call of an idempotent put succeeds, so a replay empties the queue.
\<close>

section \<open>Calls that succeed\<close>

text \<open>\<open>up n s\<close>: in \<open>s\<close> the server accepts at least \<open>n\<close> more publications. It cannot accept any number of
  them, since sequences have 64 bits. \<open>takes up k f\<close>: the call succeeds with at most \<open>k\<close> publications.\<close>

definition takes :: "(nat \<Rightarrow> 's \<Rightarrow> bool) \<Rightarrow> nat \<Rightarrow> ('s \<Rightarrow> ('s, 'a) outcome) \<Rightarrow> bool" where
  "takes up k f \<longleftrightarrow> (\<forall>n s. up (k + n) s \<longrightarrow> (\<exists>x s'. f s = (Inr x, s') \<and> up n s'))"

lemma takesI: "(\<And>n s. up (k + n) s \<Longrightarrow> \<exists>x s'. f s = (Inr x, s') \<and> up n s') \<Longrightarrow> takes up k f"
  by (simp add: takes_def)

lemma takesE:
  assumes "takes up k f" "up (k + n) s"
  obtains x s' where "f s = (Inr x, s')" "up n s'"
  using assms unfolding takes_def by blast

lemma takes_obind: "takes up k f \<Longrightarrow> (\<And>x. takes up j (g x)) \<Longrightarrow> takes up (k + j) (\<lambda>s. obind (f s) g)"
proof (rule takesI)
  fix n s assume f: "takes up k f" and g: "\<And>x. takes up j (g x)" and "up (k + j + n) s"
  then obtain x s' where "f s = (Inr x, s')" "up (j + n) s'" by (auto simp: add.assoc elim: takesE)
  moreover obtain y t where "g x s' = (Inr y, t)" "up n t" using g [of x] calculation(2) by (rule takesE)
  ultimately show "\<exists>y t. obind (f s) g = (Inr y, t) \<and> up n t" by simp
qed

lemma takes_then: "takes up 0 f \<Longrightarrow> (\<And>x. takes up j (g x)) \<Longrightarrow> takes up j (\<lambda>s. obind (f s) g)"
  using takes_obind [of up 0 f j g] by simp

lemma takes_Inr: "takes up 0 (\<lambda>s. (Inr x, s))"
  by (simp add: takes_def)

lemma takes_last: "takes up k f \<Longrightarrow> (\<And>x. takes up 0 (g x)) \<Longrightarrow> takes up k (\<lambda>s. obind (f s) g)"
  using takes_obind [of up k f 0 g] by simp

lemma takes_option:
  "(v = None \<Longrightarrow> takes up k f) \<Longrightarrow> (\<And>x. v = Some x \<Longrightarrow> takes up k (g x))
    \<Longrightarrow> takes up k (\<lambda>s. case v of None \<Rightarrow> f s | Some x \<Rightarrow> g x s)"
  by (cases v) simp_all

lemma takes_if: "takes up k f \<Longrightarrow> takes up k g \<Longrightarrow> takes up k (\<lambda>s. if b then f s else g s)"
  by (cases b) simp_all

lemma takes_retry_io: "takes up k (\<lambda>s. from_io (f s)) \<Longrightarrow> takes up k (retry_io core f)"
proof (rule takesI)
  fix n s assume "takes up k (\<lambda>s. from_io (f s))" "up (k + n) s"
  then obtain x s' where "from_io (f s) = (Inr x, s')" "up n s'" by (rule takesE)
  then show "\<exists>x s'. retry_io core f s = (Inr x, s') \<and> up n s'"
    by (cases "nc_retries (core_config core)") (simp_all add: retry_io_def)
qed

section \<open>A server that answers\<close>

definition provisioned :: "string set \<Rightarrow> string set" where
  "provisioned buckets = insert LEDGER_STREAM (kv_stream_name ` buckets)"

text \<open>Deliveries that reach a sequence, with their metadata.\<close>

definition delivered_up_to :: "u64 \<Rightarrow> Message list \<Rightarrow> bool" where
  "delivered_up_to last_sequence ms \<longleftrightarrow>
     (\<forall>m \<in> set ms. m_info m \<noteq> None)
     \<and> (\<exists>m \<in> set ms. \<exists>info. m_info m = Some info \<and> last_sequence \<le> ji_stream_seq info)"

text \<open>The buckets and the ledger exist and are described under their names; when their duplicate window is narrower than
  the configured one, the update that widens it, and changes nothing else, is answered. On subjects that a
  stream binds, a lookup is answered, possibly by no message, and a subscription right after one
  that found a message delivers the history up to it. A message the server accepts (\<open>accepted\<close>: its
  subject is bound by the expected stream and its size is within the limit) is published.\<close>

definition responsive :: "(nat \<Rightarrow> 's \<Rightarrow> bool) \<Rightarrow> nat \<Rightarrow> string set \<Rightarrow> 's NatsCore \<Rightarrow> bool" where
  "responsive up limit buckets core \<longleftrightarrow>
     (let nats = core_context core; window = duration_as_nanos (nc_stream_duplicate_window (core_config core)) in
     (\<forall>n s. up (Suc n) s \<longrightarrow> up n s)
     \<and> (\<forall>stream \<in> provisioned buckets. \<forall>n s. up n s \<longrightarrow>
          (\<exists>info s'. js_stream_info nats stream s = (Inr info, s') \<and> sc_name (si_config info) = stream \<and> up n s'
             \<and> (sc_duplicate_window (si_config info) < window \<longrightarrow>
                  (\<exists>info' t. js_update_stream nats ((si_config info)\<lparr>sc_duplicate_window := window\<rparr>) s' = (Inr info', t) \<and> up n t))))
     \<and> (\<forall>bucket \<in> buckets. \<forall>n s. up n s \<longrightarrow> (\<exists>s'. js_key_value nats bucket s = (Inr (), s') \<and> up n s'))
     \<and> (\<forall>stream \<in> provisioned buckets. \<forall>subject n s. stream_binds stream subject \<and> up n s \<longrightarrow>
          (\<exists>r s'. js_get_last_message nats stream subject s = (r, s') \<and> up n s'
             \<and> (case r of
                  Inl err \<Rightarrow> is_not_found err
                | Inr message \<Rightarrow>
                    \<exists>sub t. js_subscribe nats subject
                        \<lparr>so_bind_stream = Some stream, so_ordered = False, so_deliver = DeliverAll\<rparr> s' = (Inr sub, t)
                      \<and> up n t \<and> delivered_up_to (msg_sequence message) (sub_messages sub))))
     \<and> (\<forall>stream \<in> provisioned buckets. \<forall>subject headers payload msg_id options n s.
          po_id options = Some msg_id \<and> po_expected_stream options = Some stream \<and> po_expected_last_subject_sequence options = None
          \<and> accepted limit stream subject headers payload msg_id \<and> up (Suc n) s \<longrightarrow>
          (\<exists>seq s'. js_publish nats subject headers payload options s = (Inr seq, s') \<and> up n s')))"

lemma responsiveE:
  assumes "responsive up limit buckets core" "up n s"
  shows "stream \<in> provisioned buckets \<Longrightarrow>
      \<exists>info s'. js_stream_info (core_context core) stream s = (Inr info, s') \<and> sc_name (si_config info) = stream \<and> up n s'
        \<and> (sc_duplicate_window (si_config info) < duration_as_nanos (nc_stream_duplicate_window (core_config core)) \<longrightarrow>
            (\<exists>info' t. js_update_stream (core_context core) ((si_config info)\<lparr>sc_duplicate_window :=
                duration_as_nanos (nc_stream_duplicate_window (core_config core))\<rparr>) s' = (Inr info', t) \<and> up n t))"
    and "bucket \<in> buckets \<Longrightarrow> \<exists>s'. js_key_value (core_context core) bucket s = (Inr (), s') \<and> up n s'"
    and "stream \<in> provisioned buckets \<Longrightarrow> stream_binds stream subject \<Longrightarrow>
      \<exists>r s'. js_get_last_message (core_context core) stream subject s = (r, s') \<and> up n s'
      \<and> (case r of
           Inl err \<Rightarrow> is_not_found err
         | Inr message \<Rightarrow>
             \<exists>sub t. js_subscribe (core_context core) subject
                 \<lparr>so_bind_stream = Some stream, so_ordered = False, so_deliver = DeliverAll\<rparr> s' = (Inr sub, t)
               \<and> up n t \<and> delivered_up_to (msg_sequence message) (sub_messages sub))"
  using assms unfolding responsive_def Let_def by blast+

lemma takes_weaken: "responsive up limit buckets core \<Longrightarrow> takes up k f \<Longrightarrow> k \<le> j \<Longrightarrow> takes up j f"
proof (rule takesI)
  fix n s assume r: "responsive up limit buckets core" and f: "takes up k f" "k \<le> j" "up (j + n) s"
  then obtain m where j: "j = k + m" using le_Suc_ex by blast
  from f j obtain x s' where x: "f s = (Inr x, s')" "up (m + n) s'" by (auto simp: add.assoc elim: takesE)
  have "up n s'" using x(2) r by (induction m) (auto simp: responsive_def Let_def)
  then show "\<exists>x s'. f s = (Inr x, s') \<and> up n s'" using x(1) by blast
qed

section \<open>The calls of an idempotent put\<close>

lemma takes_read:
  assumes "responsive up limit buckets core" "stream \<in> provisioned buckets" "stream_binds stream subject"
  shows "takes up 0 (\<lambda>s. case js_get_last_message (core_context core) stream subject s of
      (Inr message, s) \<Rightarrow> (Inr (f message), s)
    | (Inl err, s) \<Rightarrow> (if is_not_found err then (Inr x, s) else (Inl (Io err), s)))"
proof (rule takesI)
  fix n s assume "up (0 + n) s"
  then obtain r s' where r: "js_get_last_message (core_context core) stream subject s = (r, s')" "up n s'"
    and found: "case r of Inl err \<Rightarrow> is_not_found err | Inr _ \<Rightarrow> True"
    using responsiveE(3) [OF assms(1) _ assms(2,3), of n s] by (fastforce split: sum.splits)
  then show "\<exists>y s'. (case js_get_last_message (core_context core) stream subject s of
      (Inr message, s) \<Rightarrow> (Inr (f message), s)
    | (Inl err, s) \<Rightarrow> (if is_not_found err then (Inr x, s) else (Inl (Io err), s))) = (Inr y, s') \<and> up n s'"
    by (cases r) simp_all
qed

lemma scan_loop_reaches:
  assumes "delivered_up_to last_sequence ms" "\<And>m. m_info m \<noteq> None \<Longrightarrow> is_ok (on_message m)"
  shows "is_ok (scan_loop final last_sequence on_message ms)"
  using assms(1)
proof (induction ms)
  case (Cons m ms)
  then obtain info where info: "m_info m = Some info" by (auto simp: delivered_up_to_def)
  then obtain r where r: "on_message m = Inr r" using assms(2) [of m] by (cases "on_message m") (auto simp: is_ok_def)
  have "delivered_up_to last_sequence ms" if "\<not> last_sequence \<le> ji_stream_seq info"
    using Cons.prems that info by (auto simp: delivered_up_to_def)
  then show ?case
    using Cons.IH info r by (auto simp: message_stream_sequence_def is_ok_def split: option.splits)
qed (simp add: delivered_up_to_def)

lemma idempotency_scan_ok: "m_info m \<noteq> None \<Longrightarrow> is_ok (idempotency_scan key m)"
  by (auto simp: idempotency_scan_def message_stream_sequence_def is_ok_def map_ok_def)

lemma takes_scan:
  assumes "responsive up limit buckets core" "stream \<in> provisioned buckets" "stream_binds stream subject"
  shows "takes up 0 (scan_subject_history_until core stream subject (idempotency_scan key))"
proof (rule takesI)
  fix n s assume "up (0 + n) s"
  then obtain r s' where last: "js_get_last_message (core_context core) stream subject s = (r, s')" "up n s'"
    and r: "case r of Inl err \<Rightarrow> is_not_found err
      | Inr message \<Rightarrow> \<exists>sub t. js_subscribe (core_context core) subject
          \<lparr>so_bind_stream = Some stream, so_ordered = False, so_deliver = DeliverAll\<rparr> s' = (Inr sub, t)
        \<and> up n t \<and> delivered_up_to (msg_sequence message) (sub_messages sub)"
    using responsiveE(3) [OF assms(1) _ assms(2,3), of n s] by auto
  show "\<exists>x s'. scan_subject_history_until core stream subject (idempotency_scan key) s = (Inr x, s') \<and> up n s'"
  proof (cases r)
    case (Inr message)
    then obtain sub t where sub: "js_subscribe (core_context core) subject
          \<lparr>so_bind_stream = Some stream, so_ordered = False, so_deliver = DeliverAll\<rparr> s' = (Inr sub, t)"
      "up n t" "delivered_up_to (msg_sequence message) (sub_messages sub)"
      using r by auto
    have "is_ok (scan_loop (scan_timeout stream subject (msg_sequence message) (sub_error sub)) (msg_sequence message)
        (idempotency_scan key) (sub_messages sub))"
      using sub(3) idempotency_scan_ok by (rule scan_loop_reaches)
    then obtain x where "scan_loop (scan_timeout stream subject (msg_sequence message) (sub_error sub)) (msg_sequence message)
        (idempotency_scan key) (sub_messages sub) = Inr x"
      by (auto simp: is_ok_def split: sum.splits)
    then show ?thesis
      using last sub(1,2) Inr by (simp add: scan_subject_history_until_def last_subject_sequence_def)
  qed (use last r in \<open>simp add: scan_subject_history_until_def last_subject_sequence_def\<close>)
qed

lemma takes_window:
  assumes "responsive up limit buckets core" "stream \<in> provisioned buckets"
  shows "takes up 0 (ensure_duplicate_window core stream)"
proof (rule takesI)
  fix n s assume "up (0 + n) s"
  then show "\<exists>x s'. ensure_duplicate_window core stream s = (Inr x, s') \<and> up n s'"
    using responsiveE(1) [OF assms(1) _ assms(2), of n s]
    by (auto simp: ensure_duplicate_window_def stream_info_def from_io_def map_err_def Let_def)
qed

lemma takes_bucket:
  assumes "responsive up limit buckets core" "bucket \<in> buckets"
  shows "takes up 0 (nkv_ensure_bucket core bucket)"
  using responsiveE(2) [OF assms(1) _ assms(2)]
  by (intro takesI) (fastforce simp: nkv_ensure_bucket_def nkv_store_def map_err_def)

lemma takes_publish:
  assumes "responsive up limit buckets core" "stream \<in> provisioned buckets" "accepted limit stream subject headers payload msg_id"
  shows "takes up 1 (retry_io core (js_publish (core_context core) subject headers payload
    (publish_options core (Some msg_id) stream None)))"
proof (rule takes_retry_io, rule takesI)
  fix n s assume "up (1 + n) s"
  then have "\<exists>seq s'. js_publish (core_context core) subject headers payload (publish_options core (Some msg_id) stream None) s =
      (Inr seq, s') \<and> up n s'"
    using assms unfolding responsive_def Let_def by (simp add: publish_options_def)
  then show "\<exists>x s'. from_io (js_publish (core_context core) subject headers payload
      (publish_options core (Some msg_id) stream None) s) = (Inr x, s') \<and> up n s'"
    by (auto simp: from_io_def map_err_def)
qed

lemma takes_record:
  assumes "responsive up limit buckets core" "ledger_fits limit w"
  shows "takes up 1 (record_applied core (kw_ledger w))"
proof -
  have ledger: "LEDGER_STREAM \<in> provisioned buckets" by (simp add: provisioned_def)
  have "takes up 0 (ledger_ensure_stream core)"
  proof (rule takesI)
    fix n s assume "up (0 + n) s"
    then obtain info s' where info: "js_stream_info (core_context core) LEDGER_STREAM s = (Inr info, s')"
        "sc_name (si_config info) = LEDGER_STREAM" "up n s'"
      using responsiveE(1) [OF assms(1) _ ledger, of n s] by auto
    then show "\<exists>x s'. ledger_ensure_stream core s = (Inr x, s') \<and> up n s'"
      using takesE [OF takes_window [OF assms(1) ledger], of n s'] by (auto simp: ledger_ensure_stream_def)
  qed
  then show ?thesis
    unfolding record_applied_def Let_def
    by (intro takes_then takes_last takes_publish [OF assms(1) ledger ledger_accepted [OF assms(2)]] takes_Inr)
qed

lemma takes_applied_or_else:
  assumes "responsive up limit buckets core" "ledger_fits limit w" "takes up 0 probe" "takes up 1 rest"
  shows "takes up 1 (\<lambda>s. applied_or_else core (kw_ledger w) (probe s) rest)"
  unfolding applied_or_else_def
  by (rule takes_then [OF assms(3)], rule takes_option) (intro assms(4) takes_last takes_record [OF assms(1,2)] takes_Inr)+

text \<open>Probing for a write.\<close>

lemma takes_probe:
  assumes up: "responsive up limit buckets core" and bucket: "kw_bucket w \<in> buckets" and fits: "ledger_fits limit w"
  shows "takes up 1 (any_applied_revision core serde (kw_bucket w) (kw_key w) (kw_id w))"
    and "takes up 0 (apply_marker_sequence core serde (kw_bucket w) (kw_key w) (kw_id w))"
    and "takes up 0 (applied_marker_sequence core serde (kw_bucket w) (kw_key w) (kw_id w))"
proof -
  have streams: "LEDGER_STREAM \<in> provisioned buckets" "kw_stream w \<in> provisioned buckets"
    using bucket by (simp_all add: provisioned_def)
  have names: "valid_subject (kv_subject (kw_bucket w) (kw_key w))" "kw_id w \<noteq> []" using fits by (simp_all add: ledger_fits_def)
  note binds = kv_subject_binds [OF names(1)] marker_subjects_bind [OF names] ledger_subject_binds [OF ledger_key_not_empty]
  show marker: "takes up 0 (apply_marker_sequence core serde (kw_bucket w) (kw_key w) (kw_id w))"
    and applied: "takes up 0 (applied_marker_sequence core serde (kw_bucket w) (kw_key w) (kw_id w))"
    unfolding apply_marker_sequence_def applied_marker_sequence_def marker_sequence_def
    by (intro takes_read [OF up streams(2)] binds)+
  have "takes up 0 (has_applied core (kw_ledger w))"
    unfolding has_applied_def by (intro takes_read [OF up streams(1)] binds)
  moreover have read: "takes up 0 (latest_applied_revision core (kw_bucket w) (kw_key w) (kw_id w))"
    unfolding latest_applied_revision_def by (intro takes_read [OF up streams(2)] binds)
  moreover have "takes up 0 (target_sequence_after_apply_marker core serde (kw_bucket w) (kw_key w) (kw_id w))"
    unfolding target_sequence_after_apply_marker_def
    by (intro takes_then marker takes_option takes_Inr takes_read [OF up streams(2)] binds)
  moreover have "takes up 1 (\<lambda>s. (Inr x, s))" for x :: "u64 option"
    by (rule takes_weaken [OF up takes_Inr]) simp
  ultimately show "takes up 1 (any_applied_revision core serde (kw_bucket w) (kw_key w) (kw_id w))"
    unfolding any_applied_revision_def Let_def
    by (intro takes_then takes_if takes_applied_or_else [OF up fits] takes_scan [OF up streams(2)] applied binds)
qed

lemma takes_put:
  assumes up: "responsive up limit buckets core" and bucket: "kw_bucket w \<in> buckets" and fits: "put_fits limit serde w bs"
  shows "takes up 5 (nkv_put_idempotent core serde (kw_bucket w) (kw_key w) bs (kw_id w))"
    and "takes up 1 (nkv_put_applied core serde (kw_bucket w) (kw_key w) (kw_id w))"
proof -
  have stream: "kw_stream w \<in> provisioned buckets" using bucket by (simp add: provisioned_def)
  have ledger: "ledger_fits limit w" using fits by (simp add: put_fits_def)
  note probe = takes_probe [OF up bucket ledger]
  have publish: "takes up 1 (publish_marker core serde (kw_bucket w) subject operation msg_id (kw_key w) (kw_id w))"
    if fitting: "\<exists>payload. marker_payload serde operation (kw_key w) (kw_id w) = Inr payload
      \<and> accepted limit (kw_stream w) subject None payload msg_id" for subject operation msg_id
  proof -
    obtain payload where payload: "marker_payload serde operation (kw_key w) (kw_id w) = Inr payload"
      "accepted limit (kw_stream w) subject None payload msg_id" using fitting by blast
    show ?thesis
      unfolding publish_marker_def payload(1) sum.case
      by (intro takes_then takes_bucket [OF up bucket] takes_window [OF up stream] takes_publish [OF up stream payload(2)])
  qed
  have one: "takes up 1 (\<lambda>s. (Inr x, s))" for x :: u64 by (rule takes_weaken [OF up takes_Inr]) simp
  have markers: "takes up 1 (ensure_apply_marker core serde (kw_bucket w) (kw_key w) (kw_id w))"
    "takes up 1 (record_applied_marker core serde (kw_bucket w) (kw_key w) (kw_id w))"
    unfolding ensure_apply_marker_def record_applied_marker_def
    by (intro takes_then probe(2,3) takes_option publish put_accepted(2,3) [OF fits] one)+
  have four: "takes up 4 (\<lambda>s. (Inr x, s))" for x :: u64 by (rule takes_weaken [OF up takes_Inr]) simp
  have sent: "takes up 4 (\<lambda>s.
      obind (ensure_apply_marker core serde (kw_bucket w) (kw_key w) (kw_id w) s) (\<lambda>_ s.
      obind (retry_io core (js_publish (core_context core) (kv_subject (kw_bucket w) (kw_key w))
               (Some [(WRITEBACK_IDEMPOTENCY_HEADER, kw_id w)]) bs
               (publish_options core (Some (kw_id w)) (kw_stream w) None)) s) (\<lambda>ack s.
      obind (record_applied_marker core serde (kw_bucket w) (kw_key w) (kw_id w) s) (\<lambda>_ s.
      obind (record_applied core (kw_ledger w) s) (\<lambda>_ s. (Inr ack, s))))))"
  proof -
    have "(4 :: nat) = 1 + (1 + (1 + 1))" by simp
    then show ?thesis
      by (elim ssubst) (intro takes_obind markers takes_publish [OF up stream put_accepted(1) [OF fits]] takes_last
        takes_record [OF up ledger] takes_Inr)
  qed
  have "takes up (1 + 4) (nkv_put_idempotent core serde (kw_bucket w) (kw_key w) bs (kw_id w))"
    unfolding nkv_put_idempotent_def Let_def
    by (rule takes_obind [OF probe(1)], rule takes_option, rule takes_then [OF takes_bucket [OF up bucket]],
      rule takes_then [OF takes_window [OF up stream]], rule sent, rule four)
  then show "takes up 5 (nkv_put_idempotent core serde (kw_bucket w) (kw_key w) bs (kw_id w))" by simp
  show "takes up 1 (nkv_put_applied core serde (kw_bucket w) (kw_key w) (kw_id w))"
    unfolding nkv_put_applied_def by (intro takes_last probe(1) takes_Inr)
qed

section \<open>A replay\<close>

text \<open>Six publications for each entry are enough: the probe may record what it finds in the ledger, the put
  probes again and publishes two markers, the write and the ledger entry.\<close>

definition replay_budget :: "QueueEntry list \<Rightarrow> nat" where
  "replay_budget es = 6 * length es"

text \<open>The messages of an entry of the queue file, a key write, are accepted.\<close>

definition entry_fits :: "nat \<Rightarrow> MarkerSerde \<Rightarrow> QueueEntry \<Rightarrow> bool" where
  "entry_fits limit serde e \<longleftrightarrow>
     (case (put_of e, qe_operation e) of
        (Some w, QueueOperation.KvPut _ _ bs) \<Rightarrow> put_fits limit serde w bs
      | (Some w, QueueOperation.MaterializedPut _ _ bs) \<Rightarrow> put_fits limit serde w bs
      | _ \<Rightarrow> False)"

lemma executor_put:
  assumes "put_of e = Some w" "entry_fits limit (ns_marker_serde storage) e"
    and "execute (nats_executor json display storage) (bump_attempts e) s = (r, s')"
  obtains bs r' where "nkv_put_idempotent (ns_core storage) (ns_marker_serde storage) (kw_bucket w) (kw_key w) bs (kw_id w) s =
      (r', s')" "is_ok r' \<longleftrightarrow> is_ok r" "put_fits limit (ns_marker_serde storage) w bs"
  using assms that
  by (auto simp: nats_executor_defs ignore_value_def obind_def Let_def is_ok_def entry_fits_def bump_attempts_def
    split: QueueOperation.splits prod.splits sum.splits)

lemma entry_put_fits: "entry_fits limit serde e \<Longrightarrow> put_of e = Some w \<Longrightarrow> \<exists>bs. put_fits limit serde w bs"
  by (auto simp: entry_fits_def split: QueueOperation.splits)

lemma run_entries_nats:
  assumes up: "responsive up limit (kw_bucket ` W) (ns_core storage)"
  shows "\<forall>e \<in> set es. \<not> qe_done e \<and> (\<exists>w \<in> W. put_of e = Some w) \<and> entry_fits limit (ns_marker_serde storage) e \<Longrightarrow>
    up (replay_budget es) s \<Longrightarrow> \<exists>t. run_entries (nats_executor json display storage) es s = Some t"
proof (induction es arbitrary: s)
  case (Cons e es)
  obtain w where w: "w \<in> W" "put_of e = Some w" and fits: "entry_fits limit (ns_marker_serde storage) e"
    using Cons.prems(1) by auto
  have bucket: "kw_bucket w \<in> kw_bucket ` W" using w(1) by simp
  obtain bs0 where "put_fits limit (ns_marker_serde storage) w bs0" using entry_put_fits [OF fits w(2)] by blast
  note probes = takes_put(2) [OF up bucket this]
  have "up (1 + (5 + replay_budget es)) s" using Cons.prems(2) by (simp add: replay_budget_def)
  then obtain b s1 where probe: "is_applied (nats_executor json display storage) e s = (Inr b, s1)" "up (5 + replay_budget es) s1"
    using takesE [OF probes] unfolding executor_probe [OF w(2)] by blast
  obtain r s2 where ex: "execute (nats_executor json display storage) (bump_attempts e) s1 = (r, s2)" by fastforce
  obtain bs r' where put: "nkv_put_idempotent (ns_core storage) (ns_marker_serde storage) (kw_bucket w) (kw_key w) bs
      (kw_id w) s1 = (r', s2)" "is_ok r' \<longleftrightarrow> is_ok r" "put_fits limit (ns_marker_serde storage) w bs"
    using w(2) fits ex by (rule executor_put)
  have "is_ok r \<and> up (replay_budget es) s2"
  proof (rule takesE [OF takes_put(1) [OF up bucket put(3)] probe(2)])
    fix x s' assume "nkv_put_idempotent (ns_core storage) (ns_marker_serde storage) (kw_bucket w) (kw_key w) bs (kw_id w) s1 = (Inr x, s')"
      "up (replay_budget es) s'"
    then show ?thesis using put by (auto simp: is_ok_def)
  qed
  then obtain u where r: "r = Inr u" "up (replay_budget es) s2" by (cases r) (auto simp: is_ok_def)
  have "up (replay_budget es) s1"
    by (rule takesE [OF takes_weaken [OF up takes_Inr, of 5 "()"] probe(2)]) simp_all
  then show ?case using Cons.IH Cons.prems(1) probe(1) ex r by (cases b) auto
qed simp

lemma nats_replay_finishes:
  assumes "responsive up limit (kw_bucket ` W) (ns_core storage)"
    and "queued_puts W (wq_entries q)" "\<forall>e \<in> set (wq_entries q). entry_fits limit (ns_marker_serde storage) e"
    and "up (replay_budget (wq_entries q)) s" "d_faults d = []"
    and "serde_roundtrip serde" "\<And>e. e \<in> set (wq_entries q) \<Longrightarrow> is_ok (to_string serde e)"
  shows "\<exists>d' s'. replay_with_store serde (nats_replay_storage json display storage) q d s =
    (Inr (), q\<lparr>wq_entries := []\<rparr>, d', s')"
proof -
  have "\<forall>e \<in> set (wq_entries q). \<not> qe_done e \<and> (\<exists>w \<in> W. put_of e = Some w) \<and> entry_fits limit (ns_marker_serde storage) e"
    using assms(2,3) by (auto simp: queued_puts_def)
  then obtain t where "run_entries (nats_executor json display storage) (wq_entries q) s = Some t"
    using run_entries_nats [OF assms(1)] assms(4) by blast
  then show ?thesis
    using replay_no_faults [OF assms(5) _ refl, of "nats_executor json display storage" q s t serde] assms(7)
      serde_roundtrip_bump [OF assms(6)]
    by (auto simp: replay_with_store_def replay_def)
qed

section \<open>The simulated server answers\<close>

text \<open>As long as it loses no acknowledgement and has sequences left.\<close>

definition sim_up :: "nat \<Rightarrow> Sim \<Rightarrow> bool" where
  "sim_up n s \<longleftrightarrow> sim_ok s \<and> sim_lost s = [] \<and> sim_forgotten s \<le> length (sim_entries s)
     \<and> (if sim_entries s = [] then 0 else unat (lg_seq (snd (last (sim_entries s))))) + n < 2 ^ 64"

lemma sim_up_append:
  assumes "sim_up (Suc n) s"
  shows "sim_up n (sim_append stream (sim_message subject headers payload msg_id s) s)"
proof -
  let ?m = "sim_message subject headers payload msg_id s"
  let ?last = "if sim_entries s = [] then 0 else lg_seq (snd (last (sim_entries s)))"
  have room: "unat ?last + Suc n < 2 ^ 64" using assms by (auto simp: sim_up_def split: if_splits)
  have seq: "unat (lg_seq ?m) = Suc (unat ?last)"
    using room by (auto simp: sim_message_def unat_word_ariths split: if_splits)
  have "lg_seq (snd x) < lg_seq ?m" if x: "x \<in> set (sim_entries s)" for x
  proof -
    have ne: "sim_entries s \<noteq> []" using x by auto
    have "sorted_wrt (\<lambda>x y. lg_seq (snd x) < lg_seq (snd y)) (butlast (sim_entries s) @ [last (sim_entries s)])"
      using assms ne by (simp add: sim_up_def sim_ok_def sorted_wrt_map case_prod_beta)
    moreover have "x \<in> set (butlast (sim_entries s)) \<or> x = last (sim_entries s)"
      using x append_butlast_last_id [OF ne] by (metis Un_iff empty_iff insert_iff list.set set_append)
    ultimately have "lg_seq (snd x) \<le> lg_seq (snd (last (sim_entries s)))" by (auto simp: sorted_wrt_append)
    then show ?thesis using seq ne by (simp add: word_le_nat_alt word_less_nat_alt)
  qed
  then have "sim_ok (sim_append stream ?m s)"
    using assms by (auto simp: sim_up_def sim_ok_def sim_append_def sorted_wrt_append case_prod_beta)
  then show ?thesis using assms room seq by (auto simp: sim_up_def sim_append_def)
qed

lemma sim_publish_up:
  assumes "sim_up (Suc n) s" "po_expected_stream options = Some stream" "po_id options = Some msg_id"
  shows "\<exists>seq s'. sim_publish subject headers payload options s = (Inr seq, s') \<and> sim_up n s'"
proof -
  let ?s = "sim_append stream (sim_message subject headers payload msg_id s) s"
  have up: "sim_up n ?s" "sim_up n s" using assms(1) sim_up_append by (auto simp: sim_up_def split: if_splits)
  have lost: "sim_up n (t\<lparr>sim_lost := tl (sim_lost t)\<rparr>)" if "sim_up n t" for t
    using that by (auto simp: sim_up_def sim_ok_def split: if_splits)
  have ok: "sim_ok ?s" "sim_lost s = []" "sim_forgotten s \<le> length (sim_entries s)"
    using up assms(1) by (simp_all add: sim_up_def)
  show ?thesis using ok assms(2,3) lost [OF up(1)] lost [OF up(2)] by (simp add: sim_publish_def Let_def)
qed

lemma sim_delivered:
  assumes "on_subject subject (sim_log s stream) \<noteq> []"
  shows "delivered_up_to (lg_seq (last (on_subject subject (sim_log s stream))))
    (map sim_delivery (on_subject subject (sim_log s stream)))"
  using last_in_set [OF assms] by (auto simp: delivered_up_to_def sim_delivery_def)

lemma sim_responsive:
  assumes "core_context core = sim_nats"
  shows "responsive sim_up limit buckets core"
proof -
  have "\<exists>r s'. sim_last stream subject s = (r, s') \<and> sim_up n s' \<and>
      (case r of Inl err \<Rightarrow> is_not_found err
       | Inr message \<Rightarrow> \<exists>sub t. sim_subscribe subject
             \<lparr>so_bind_stream = Some stream, so_ordered = False, so_deliver = DeliverAll\<rparr> s' = (Inr sub, t)
           \<and> sim_up n t \<and> delivered_up_to (msg_sequence message) (sub_messages sub))"
    if "sim_up n s" for stream subject n s
    using that sim_missing_not_found sim_delivered by (auto simp: sim_last_def sim_subscribe_def Let_def)
  moreover have "sim_up n s" if "sim_up (Suc n) s" for n s using that by (auto simp: sim_up_def split: if_splits)
  moreover have nats: "js_get_last_message sim_nats = sim_last" "js_subscribe sim_nats = sim_subscribe"
    "js_publish sim_nats = sim_publish" "js_stream_info sim_nats = sim_info" "js_key_value sim_nats = (\<lambda>_. sim_unit)"
    "js_update_stream sim_nats = (\<lambda>config. sim_info (sc_name config))"
    by (simp_all add: sim_nats_def)
  ultimately show ?thesis
    unfolding responsive_def assms nats Let_def using sim_publish_up by (auto simp: sim_info_def sim_unit_def sim_config_def)
qed

end
