(* ===== verification/Probe.thy ===== *)
theory Probe
  imports Runtime_State Nats_Storage Memory_Props
begin

text \<open>
  \<open>eventfs-transport/src/bin/eventfs-probe.rs\<close>: the command that checks the state of a broker through the storage
  trait. \<open>debug\<close> is the \<open>{:?}\<close> text of bytes read as UTF-8.
\<close>

definition expect_kv ::
  "(bytes \<Rightarrow> string) \<Rightarrow> 's MountStorage \<Rightarrow> string \<Rightarrow> string \<Rightarrow> bytes \<Rightarrow> 's \<Rightarrow> ('s, unit) outcome" where
  "expect_kv debug backend bucket key expected s =
     obind (ms_kv_get backend bucket key s) (\<lambda>entry s.
       case entry of
         None \<Rightarrow> (Inl NotFound, s)
       | Some entry \<Rightarrow>
           (if kr_bytes entry \<noteq> expected
            then (Inl (Invalid (''KV '' @ bucket @ ''/'' @ key @ '' contained '' @ debug (kr_bytes entry) @ '', expected ''
                    @ debug expected)), s)
            else (Inr (), s)))"

fun expect_stream_loop ::
  "'s MountStorage \<Rightarrow> string \<Rightarrow> string \<Rightarrow> bytes \<Rightarrow> DirectoryEntry list \<Rightarrow> 's \<Rightarrow> ('s, unit) outcome" where
  "expect_stream_loop backend stream subject expected [] s = (Inl NotFound, s)"
| "expect_stream_loop backend stream subject expected (entry # entries) s =
     (case strip_suffix ''.json'' (de_name entry) of
        None \<Rightarrow> expect_stream_loop backend stream subject expected entries s
      | Some sequence \<Rightarrow>
          (case parse_u64 sequence of
             None \<Rightarrow> expect_stream_loop backend stream subject expected entries s
           | Some sequence \<Rightarrow>
               obind (ms_stream_message backend stream sequence s) (\<lambda>message s.
                 if sm_subject message = subject \<and> sm_payload message = expected then (Inr (), s)
                 else expect_stream_loop backend stream subject expected entries s)))"

definition expect_stream :: "'s MountStorage \<Rightarrow> string \<Rightarrow> string \<Rightarrow> bytes \<Rightarrow> 's \<Rightarrow> ('s, unit) outcome" where
  "expect_stream backend stream subject expected s =
     obind (ms_list_stream_messages backend stream s) (expect_stream_loop backend stream subject expected)"

definition expect_object ::
  "(bytes \<Rightarrow> string) \<Rightarrow> 's MountStorage \<Rightarrow> string \<Rightarrow> string \<Rightarrow> bytes \<Rightarrow> 's \<Rightarrow> ('s, unit) outcome" where
  "expect_object debug backend bucket obj expected s =
     obind (ms_object_get backend bucket obj s) (\<lambda>entry s.
       case entry of
         None \<Rightarrow> (Inl NotFound, s)
       | Some entry \<Rightarrow>
           (if ov_bytes entry \<noteq> expected
            then (Inl (Invalid (''object '' @ bucket @ ''/'' @ obj @ '' contained '' @ debug (ov_bytes entry) @ '', expected ''
                    @ debug expected)), s)
            else (Inr (), s)))"

text \<open>\<open>var\<close> is the \<open>NATS_URL\<close> of the environment.\<close>

definition probe_url :: "string list \<Rightarrow> string option \<Rightarrow> string" where
  "probe_url args var =
     (case (case args of _ # url # _ \<Rightarrow> Some url | _ \<Rightarrow> var) of Some url \<Rightarrow> url | None \<Rightarrow> ''nats://127.0.0.1:4222'')"

definition probe_config :: NatsStorageConfig where
  "probe_config = NatsStorageConfig_default\<lparr>nc_timeout := 2 * 10 ^ 9, nc_retries := 1, nc_backoff := 10 * 10 ^ 6\<rparr>"

text \<open>A string in a JSON literal.\<close>

definition quoted :: "string \<Rightarrow> string" where
  "quoted s = CHR 0x22 # s @ [CHR 0x22]"

text \<open>The five checks of \<open>main\<close>, in order; the value is what is printed.\<close>

definition probe_checks :: "(bytes \<Rightarrow> string) \<Rightarrow> 's MountStorage \<Rightarrow> 's \<Rightarrow> ('s, string) outcome" where
  "probe_checks debug backend s =
     obind (expect_kv debug backend ''smoke'' ''greeting.json'' (as_bytes (''{'' @ quoted ''hello'' @ '':'' @ quoted ''kv'' @ ''}'')) s) (\<lambda>_ s.
     obind (expect_stream backend ''system'' ''events.system'' (as_bytes (''{'' @ quoted ''kind'' @ '':'' @ quoted ''event'' @ '','' @ quoted ''n'' @ '':1}'')) s) (\<lambda>_ s.
     obind (expect_stream backend ''system'' ''events.system'' (as_bytes (''{'' @ quoted ''kind'' @ '':'' @ quoted ''stream'' @ '','' @ quoted ''n'' @ '':1}'')) s) (\<lambda>_ s.
     obind (expect_object debug backend ''smoke'' ''payload.txt'' (as_bytes ''object payload'') s) (\<lambda>_ s.
     obind (expect_kv debug backend TASKS_BUCKET ''demo/render-001.json''
              (as_bytes (''{'' @ quoted ''task'' @ '':'' @ quoted ''render'' @ '','' @ quoted ''state'' @ '':'' @ quoted ''new'' @ ''}'')) s) (\<lambda>_ s.
       (Inr ''[probe] broker state verified'', s))))))"

definition probe_main ::
  "(bytes \<Rightarrow> string) \<Rightarrow> Json \<Rightarrow> (EventFsError \<Rightarrow> string) \<Rightarrow> 's Nats \<Rightarrow> MarkerSerde \<Rightarrow> ObjectSerde \<Rightarrow> ('s \<Rightarrow> NatsWatch)
    \<Rightarrow> (NatsWatch \<Rightarrow> 's \<Rightarrow> 's) \<Rightarrow> (string \<Rightarrow> IoError + unit) \<Rightarrow> (string \<Rightarrow> IoError + WatchSubscription)
    \<Rightarrow> string list \<Rightarrow> string option \<Rightarrow> 's \<Rightarrow> ('s, string) outcome" where
  "probe_main debug json display nats markers objs rd wr connection subscribe args var s =
     (case NatsStorage_connect nats markers objs rd wr (connection (probe_url args var)) subscribe probe_config of
        Inl err \<Rightarrow> (Inl err, s)
      | Inr (storage, watch) \<Rightarrow> probe_checks debug (nats_mount_storage json display storage) (wr watch s))"

section \<open>What the checks decide\<close>

lemma memory_methods:
  "ms_kv_get (memory_mount_storage json display now) = mem_kv_get"
  "ms_list_stream_messages (memory_mount_storage json display now) = mem_list_stream_messages"
  "ms_stream_message (memory_mount_storage json display now) = mem_stream_message"
  "ms_object_get (memory_mount_storage json display now) = mem_object_get"
  by (simp_all add: memory_mount_storage_def memory_storage_def ReplayStorage.defs MountStorage.defs)

lemma expect_stream_loop_memory:
  assumes "map_get (streams st) stream = Some ms" "numbered sm_sequence ms" "length ms < 2 ^ 64" "set todo \<subseteq> set ms"
  shows "expect_stream_loop (memory_mount_storage json display now) stream subject expected
      (map (\<lambda>m. \<lparr>de_name = show_u64 (sm_sequence m) @ ''.json'', de_kind = EntryKind.File\<rparr>) todo) st =
    (if \<exists>m \<in> set todo. sm_subject m = subject \<and> sm_payload m = expected then Inr () else Inl NotFound, st)"
  using assms(4)
proof (induction todo)
  case (Cons m todo)
  then obtain i where i: "i < length ms" "m = ms ! i" by (auto simp: in_set_conv_nth)
  then have "sm_sequence m = seq_no (Suc i)" using assms(2) by (simp add: numbered_def)
  then have "mem_stream_message stream (sm_sequence m) st = (Inr m, st)"
    using find_numbered [OF assms(2,3) i(1)] assms(1) i(2) by (simp add: mem_stream_message_def)
  then show ?case using Cons by (auto simp: memory_methods)
qed simp

text \<open>Over the in-memory backend the checks are exact: each succeeds precisely when what it expects is stored, and
  none changes anything.\<close>

lemma probe_checks_are_exact:
  assumes "mem_reachable st" "map_get (streams st) stream = Some ms" "length ms < 2 ^ 64"
  shows "is_ok (fst (expect_kv debug (memory_mount_storage json display now) bucket key expected st)) \<longleftrightarrow>
      map_option kr_bytes (map_get (kv st) (bucket, key)) = Some expected"
    and "is_ok (fst (expect_object debug (memory_mount_storage json display now) bucket key expected st)) \<longleftrightarrow>
      map_option ov_bytes (map_get (objects st) (bucket, key)) = Some expected"
    and "expect_stream (memory_mount_storage json display now) stream subject expected st =
      (if \<exists>m \<in> set ms. sm_subject m = subject \<and> sm_payload m = expected then Inr () else Inl NotFound, st)"
proof -
  have "numbered sm_sequence ms" using mem_reachable_inv [OF assms(1)] assms(2) by (rule mem_inv_stream)
  then show "expect_stream (memory_mount_storage json display now) stream subject expected st =
      (if \<exists>m \<in> set ms. sm_subject m = subject \<and> sm_payload m = expected then Inr () else Inl NotFound, st)"
    using expect_stream_loop_memory [OF assms(2) _ assms(3) order_refl] assms(2)
    by (simp add: expect_stream_def memory_methods mem_list_stream_messages_def)
qed (auto simp: expect_kv_def expect_object_def memory_methods mem_kv_get_def mem_object_get_def is_ok_def split: option.splits)

end
