(* ===== verification/Nuid.thy ===== *)
theory Nuid
  imports Rust_Hex
begin

unbundle bit_operations_syntax

text \<open>
  \<open>vendor/nuid/src/lib.rs\<close>, the local replacement of the generator of unique ids: a 64-bit counter
  that starts at the clock and is written with 22 hexadecimal digits.
\<close>

definition TOTAL_LEN :: nat where
  "TOTAL_LEN = 22"

record NUID =
  nuid_counter :: u64

text \<open>\<open>elapsed\<close> is the time since the epoch in nanoseconds, or none when the clock is before it; the
  cast keeps its low 64 bits. The second argument is \<open>GLOBAL_COUNTER\<close>, which \<open>fetch_add\<close> wraps.\<close>

definition NUID_default :: "nat option \<Rightarrow> u64 \<Rightarrow> NUID \<times> u64" where
  "NUID_default elapsed c =
     (let nanos = (case elapsed of Some d \<Rightarrow> word_of_nat d | None \<Rightarrow> 0) in (\<lparr>nuid_counter = nanos XOR c\<rparr>, c + 1))"

definition NUID_new :: "nat option \<Rightarrow> u64 \<Rightarrow> NUID \<times> u64" where
  "NUID_new = NUID_default"

definition NUID_next :: "NUID \<Rightarrow> string \<times> NUID" where
  "NUID_next nuid =
     (let nuid = nuid\<lparr>nuid_counter := nuid_counter nuid + 1\<rparr> in (hex_padded TOTAL_LEN (nuid_counter nuid), nuid))"

text \<open>The globals of the process; \<open>GLOBAL_NUID\<close> is made by the first call that locks it.\<close>

record NuidGlobals =
  global_counter :: u64
  global_nuid :: "NUID option"

definition nuid_next :: "nat option \<Rightarrow> NuidGlobals \<Rightarrow> string \<times> NuidGlobals" where
  "nuid_next elapsed g =
     (let (nuid, c) = (case global_nuid g of
                         Some nuid \<Rightarrow> (nuid, global_counter g)
                       | None \<Rightarrow> NUID_new elapsed (global_counter g));
          (ident, nuid) = NUID_next nuid in
        (ident, \<lparr>global_counter = c, global_nuid = Some nuid\<rparr>))"

text \<open>A sequence of calls, each with what the clock says.\<close>

fun next_ids :: "nat option list \<Rightarrow> NuidGlobals \<Rightarrow> string list" where
  "next_ids [] g = []"
| "next_ids (t # ts) g = (case nuid_next t g of (ident, g) \<Rightarrow> ident # next_ids ts g)"

lemma next_ids_counter:
  "global_nuid g = Some \<lparr>nuid_counter = n\<rparr> \<Longrightarrow>
    next_ids ts g = map (\<lambda>i. hex_padded TOTAL_LEN (n + word_of_nat (Suc i))) [0..<length ts]"
proof (induction ts arbitrary: g n)
  case (Cons t ts)
  let ?g = "\<lparr>global_counter = global_counter g, global_nuid = Some \<lparr>nuid_counter = n + 1\<rparr>\<rparr>"
  have "next_ids (t # ts) g = hex_padded TOTAL_LEN (n + 1) # next_ids ts ?g"
    using Cons.prems by (simp add: nuid_next_def NUID_next_def)
  also have "next_ids ts ?g = map (\<lambda>i. hex_padded TOTAL_LEN (n + 1 + word_of_nat (Suc i))) [0..<length ts]"
    by (rule Cons.IH) simp
  finally show ?case by (simp add: upt_conv_Cons map_Suc_upt [symmetric] comp_def add.assoc del: upt_Suc)
qed simp

lemma next_ids_start: "\<exists>n. next_ids ts g = map (\<lambda>i. hex_padded TOTAL_LEN (n + word_of_nat (Suc i))) [0..<length ts]"
proof (cases ts)
  case (Cons t rest)
  have "\<exists>g' n. global_nuid g' = Some \<lparr>nuid_counter = n\<rparr> \<and> next_ids ts g = next_ids ts g'"
  proof (cases "global_nuid g")
    case None
    obtain nuid c where new: "NUID_new t (global_counter g) = (nuid, c)" by fastforce
    then have "nuid_next t g = nuid_next t \<lparr>global_counter = c, global_nuid = Some nuid\<rparr>"
      using None by (simp add: nuid_next_def)
    then have "next_ids ts g = next_ids ts \<lparr>global_counter = c, global_nuid = Some nuid\<rparr>" by (simp add: Cons)
    then show ?thesis by (intro exI [of _ "\<lparr>global_counter = c, global_nuid = Some nuid\<rparr>"]) (cases nuid, auto)
  next
    case (Some nuid)
    then show ?thesis by (cases nuid) auto
  qed
  then show ?thesis using next_ids_counter by metis
qed simp

text \<open>Ids of one process do not repeat before the 64-bit counter has gone round, and all have 22
  hexadecimal digits.\<close>

lemma nuid_ids_distinct:
  assumes "length ts \<le> 2 ^ 64"
  shows "distinct (next_ids ts g) \<and> (\<forall>ident \<in> set (next_ids ts g). length ident = 22 \<and> set ident \<subseteq> set HEX)"
proof -
  obtain n where ids: "next_ids ts g = map (\<lambda>i. hex_padded TOTAL_LEN (n + word_of_nat (Suc i))) [0..<length ts]"
    using next_ids_start by metis
  have "inj_on (\<lambda>i. hex_padded TOTAL_LEN (n + word_of_nat (Suc i))) {0..<length ts}"
  proof (rule inj_onI)
    fix i j assume ij: "i \<in> {0..<length ts}" "j \<in> {0..<length ts}"
      and same: "hex_padded TOTAL_LEN (n + word_of_nat (Suc i)) = hex_padded TOTAL_LEN (n + word_of_nat (Suc j))"
    have "n + word_of_nat (Suc i) = n + word_of_nat (Suc j)" using same by (rule hex_padded_inj) (simp add: TOTAL_LEN_def)
    then have "(word_of_nat i :: u64) = word_of_nat j" by simp
    then have "i mod 2 ^ 64 = j mod 2 ^ 64" by (simp add: word_of_nat_eq_iff take_bit_eq_mod)
    then show "i = j" using ij assms by simp
  qed
  then show ?thesis using hex_padded_digits by (auto simp: ids distinct_map TOTAL_LEN_def)
qed

end
