(* ===== verification/Read_Only.thy ===== *)
theory Read_Only
  imports Fuse_Props
begin

unbundle bit_operations_syntax

text \<open>
  The read-only mount at the level of the callbacks: while writes are blocked, every callback that
  would change something answers an error and leaves the mount as it was.
\<close>

section \<open>Truncation\<close>

lemma blocked_durable: "durable_part st' = durable_part st \<Longrightarrow> writes_blocked st \<Longrightarrow> writes_blocked st'"
  by (simp add: durable_part_def writes_blocked_def write_gate_def)

lemma blocked_counter: "writes_blocked (st\<lparr>rt_next_commit_id := i\<rparr>) = writes_blocked st"
  by (simp add: writes_blocked_def write_gate_def)

lemma write_mode_frame: "write_mode_for_path env path st = (r, st1) \<Longrightarrow> durable_part st1 = durable_part st"
  by (rule reads_keep [where m = "write_mode_for_path env path"])
    (unfold write_mode_for_path_def, intro pres reads.projection)

lemma stat_frame: "mr_stat env path st = (r, st1) \<Longrightarrow> durable_part st1 = durable_part st"
  by (rule reads_keep [where m = "mr_stat env path"]) (unfold mr_stat_def, intro pres reads.projection)

lemma created_attr_frame: "created_handle_attr env fh path st = (r, st1) \<Longrightarrow> durable_part st1 = durable_part st"
  by (auto simp: created_handle_attr_def dest: stat_frame split: option.splits if_splits)

lemma blocked_truncate_path:
  assumes "writes_blocked st" "write_mode_for_path env path st = (r, st1)"
  shows "\<exists>i. mr_truncate_path env path st =
    (Inl (case r of Inl e \<Rightarrow> e | Inr _ \<Rightarrow> EROFS), st1\<lparr>rt_next_commit_id := i\<rparr>)"
proof (cases "\<exists>mode. r = Inr mode \<and> mode \<noteq> JsonLinesMode")
  case True
  let ?i = "saturating_add_one (rt_next_commit_id st1)"
  have "writes_blocked (st1\<lparr>rt_next_commit_id := ?i\<rparr>)"
    using blocked_durable [OF write_mode_frame [OF assms(2)] assms(1)] by (simp add: blocked_counter)
  then show ?thesis using True assms(2)
    by (intro exI [of _ ?i]) (auto simp: mr_truncate_path_def reject_append_only_truncate_def rt_bind_def rt_return_def
      rt_seed_def next_commit_seed_def blocked_operations(1))
next
  case False
  then show ?thesis using assms(2)
    by (intro exI [of _ "rt_next_commit_id st1"]) (cases r; auto simp: mr_truncate_path_def reject_append_only_truncate_def
      rt_bind_def rt_fail_def)
qed

lemma blocked_truncate_handle:
  assumes "writes_blocked st" "created_handle_attr env fh path st = (r, st1)"
  shows "\<exists>i. truncate_handle_reply_attr env owner path fh st =
    (Inl (case r of Inl e \<Rightarrow> e | Inr _ \<Rightarrow> EROFS), st1\<lparr>rt_next_commit_id := i\<rparr>)"
proof (cases r)
  case (Inl e)
  then show ?thesis using assms(2)
    by (intro exI [of _ "rt_next_commit_id st1"]) (simp add: truncate_handle_reply_attr_def rt_bind_def)
next
  case (Inr attr)
  have frame: "durable_part st1 = durable_part st" by (rule created_attr_frame [OF assms(2)])
  obtain h where "map_get (rt_handles st) fh = Some h"
    using assms(2) Inr by (cases "map_get (rt_handles st) fh") (simp_all add: created_handle_attr_def)
  then have h: "map_get (rt_handles st1) fh = Some h" using frame by (simp add: durable_part_def)
  obtain i where "stage_truncate fh st1 = (Inl EROFS, st1\<lparr>rt_next_commit_id := i\<rparr>)"
    using blocked_change [OF blocked_durable [OF frame assms(1)] h, of handle_truncate] h
    by (cases "h_mode h = JsonLinesMode") (auto simp: stage_truncate_def intro: that [of "rt_next_commit_id st1"])
  then show ?thesis using assms(2) Inr by (auto simp: truncate_handle_reply_attr_def rt_bind_def)
qed

section \<open>Handles\<close>

lemma blocked_write:
  assumes "writes_blocked st" "pc_path (rt_paths st) ino = Some path" "0 \<le> offset"
  shows "\<exists>i. fuse_write env ino fh offset data st = (ReplyError EROFS, st\<lparr>rt_next_commit_id := i\<rparr>)"
proof (cases "map_get (rt_handles st) fh")
  case None
  then show ?thesis using assms
    by (intro exI [of _ "rt_next_commit_id st"]) (simp add: fuse_write_def respond_def rt_bind_def path_for_ino_def
      writable_handle_def blocked_operations(6))
next
  case (Some h)
  obtain i where "with_fresh_seed fh (handle_write (nat offset) data) st = (Inl EROFS, st\<lparr>rt_next_commit_id := i\<rparr>)"
    using blocked_change [OF assms(1) Some] by blast
  then show ?thesis using assms Some
    by (auto simp: fuse_write_def respond_def rt_bind_def path_for_ino_def writable_handle_def write_to_handle_buffer_def)
qed

lemma blocked_commit_handle:
  assumes "writes_blocked st" "map_get (rt_handles st) fh = Some h" "h_writable h" "h_dirty h" "\<not> h_committed h"
  shows "commit_handle env fh st = (Inl EROFS, st)"
  using assms by (simp add: commit_handle_def rt_bind_def blocked_operations(1))

section \<open>Properties\<close>

text \<open>C9: A read-only mount refuses every change. While the gate blocks writes, whatever backend is
  behind the mount and for inodes and names the mount knows: \<open>unlink\<close>, \<open>mkdir\<close>, \<open>mknod\<close> and
  \<open>rename\<close> answer EROFS and the whole state stays as it was; \<open>create\<close> and \<open>open\<close> for writing
  answer EROFS and only the counter of handle numbers moves; \<open>write\<close> answers EROFS, whether or not
  the handle is known, and only the counter of commit seeds may move, so no buffer changes;
  \<open>fsync\<close> of a handle with unsaved bytes answers EROFS and changes nothing, and \<open>release\<close> of it
  answers EROFS and only forgets the handle. Truncating a file, by path or through a handle,
  first reads the mode or the attributes of the file; it answers the error of this reading or
  else EROFS, and the mount is then as the reading left it, apart from the counter of commit
  seeds. This reading leaves the queue, its gate and file, all handles and their buffers, and the
  inode table alone.\<close>

theorem read_only_mount_refuses_changes:
  assumes "writes_blocked st"
    and "pc_path (rt_paths st) ino = Some path"
    and "child_path (rt_paths st) parent name = Some child"
    and "child_path (rt_paths st) newparent newname = Some newchild"
  shows "fuse_unlink env parent name st = (ReplyError EROFS, st)
    \<and> fuse_mkdir env owner parent name mode st = (ReplyError EROFS, st)
    \<and> fuse_mknod env owner parent name mode st = (ReplyError EROFS, st)
    \<and> fuse_rename env parent name newparent newname rename_flags st = (ReplyError EROFS, st)
    \<and> fuse_create env owner parent name mode flags st = (ReplyError EROFS, st\<lparr>rt_next_fh := rt_next_fh st + 1\<rparr>)
    \<and> (flags AND O_ACCMODE \<noteq> O_RDONLY \<longrightarrow>
        fuse_open env ino flags st = (ReplyError EROFS, st\<lparr>rt_next_fh := rt_next_fh st + 1\<rparr>))
    \<and> (0 \<le> offset \<longrightarrow>
        (\<exists>i. fuse_write env ino fh offset data st = (ReplyError EROFS, st\<lparr>rt_next_commit_id := i\<rparr>)))
    \<and> (\<forall>h. map_get (rt_handles st) fh = Some h \<and> h_writable h \<and> h_dirty h \<and> \<not> h_committed h \<longrightarrow>
        fuse_fsync env fh st = (ReplyError EROFS, st)
        \<and> fuse_release env fh st = (ReplyError EROFS, st\<lparr>rt_handles := map_remove fh (rt_handles st)\<rparr>))
    \<and> (\<not> requested asked \<longrightarrow>
        (\<exists>r st1 i. write_mode_for_path env path st = (r, st1) \<and> durable_part st1 = durable_part st
          \<and> fuse_setattr env owner ino asked (Some 0) None st =
              (ReplyError (case r of Inl e \<Rightarrow> e | Inr _ \<Rightarrow> EROFS), st1\<lparr>rt_next_commit_id := i\<rparr>))
        \<and> (\<exists>r st1 i. created_handle_attr env fh path st = (r, st1) \<and> durable_part st1 = durable_part st
          \<and> fuse_setattr env owner ino asked (Some 0) (Some fh) st =
              (ReplyError (case r of Inl e \<Rightarrow> e | Inr _ \<Rightarrow> EROFS), st1\<lparr>rt_next_commit_id := i\<rparr>)))"
proof -
  obtain r st1 where m: "write_mode_for_path env path st = (r, st1)" by fastforce
  obtain r2 st2 where a: "created_handle_attr env fh path st = (r2, st2)" by fastforce
  note calls = respond_def rt_bind_def path_for_ino_def child_for_def rt_map_def assms(2-4) blocked_operations [OF assms(1)]
  have "fuse_fsync env fh st = (ReplyError EROFS, st)"
      "fuse_release env fh st = (ReplyError EROFS, st\<lparr>rt_handles := map_remove fh (rt_handles st)\<rparr>)"
    if "map_get (rt_handles st) fh = Some h \<and> h_writable h \<and> h_dirty h \<and> \<not> h_committed h" for h
    using blocked_commit_handle [OF assms(1)] that
    by (simp_all add: fuse_fsync_def fuse_release_def respond_def release_handle_def)
  moreover have "fuse_open env ino flags st = (ReplyError EROFS, st\<lparr>rt_next_fh := rt_next_fh st + 1\<rparr>)"
    if "flags AND O_ACCMODE \<noteq> O_RDONLY"
    using that by (simp add: fuse_open_def mr_open_def runtime_open_options_from_flags_def calls)
  moreover have "fuse_unlink env parent name st = (ReplyError EROFS, st)"
      "fuse_mkdir env owner parent name mode st = (ReplyError EROFS, st)"
      "fuse_mknod env owner parent name mode st = (ReplyError EROFS, st)"
      "fuse_rename env parent name newparent newname rename_flags st = (ReplyError EROFS, st)"
      "fuse_create env owner parent name mode flags st = (ReplyError EROFS, st\<lparr>rt_next_fh := rt_next_fh st + 1\<rparr>)"
    by (simp_all add: fuse_unlink_def mr_unlink_def fuse_mkdir_def mr_mkdir_def fuse_mknod_def mr_mknod_def
      fuse_rename_def mr_rename_def fuse_create_def mr_open_def runtime_open_options_from_flags_def calls)
  moreover have "\<exists>i. fuse_setattr env owner ino asked (Some 0) None st =
      (ReplyError (case r of Inl e \<Rightarrow> e | Inr _ \<Rightarrow> EROFS), st1\<lparr>rt_next_commit_id := i\<rparr>)" if "\<not> requested asked"
    using that blocked_truncate_path [OF assms(1) m] by (auto simp: fuse_setattr_def calls)
  moreover have "\<exists>i. fuse_setattr env owner ino asked (Some 0) (Some fh) st =
      (ReplyError (case r2 of Inl e \<Rightarrow> e | Inr _ \<Rightarrow> EROFS), st2\<lparr>rt_next_commit_id := i\<rparr>)" if "\<not> requested asked"
    using that blocked_truncate_handle [OF assms(1) a, of owner] by (auto simp: fuse_setattr_def calls)
  ultimately show ?thesis
    using blocked_write [OF assms(1,2), of offset env fh data] m write_mode_frame [OF m] a created_attr_frame [OF a]
    by blast
qed

section \<open>Examples\<close>

text \<open>A mount with one entry in its queue, one known file and one handle with unsaved bytes for it.\<close>

definition blocked_mount :: "MemoryStorageState Runtime" where
  "blocked_mount =
     set_handle 2 (sample_handle WholeValueMode 0)
       ((sample_runtime [sample_entry])\<lparr>rt_paths := snd (ensure ''/kv/b/k'' RegularFile (rt_paths (sample_runtime [])))\<rparr>)"

definition no_fields :: SetattrMetadataFields where
  "no_fields =
     \<lparr>sf_mode = False, sf_uid = False, sf_gid = False, sf_atime = False, sf_mtime = False, sf_ctime = False,
      sf_crtime = False, sf_chgtime = False, sf_bkuptime = False, sf_flags = False\<rparr>"

lemma blocked_mount_facts:
  "writes_blocked blocked_mount"
  "map_get (rt_handles blocked_mount) 2 = Some (sample_handle WholeValueMode 0)"
  "pc_path (rt_paths blocked_mount) 2 = Some ''/kv/b/k''"
  "child_path (rt_paths blocked_mount) 1 ''kv'' = Some ''/kv''"
proof -
  show "writes_blocked blocked_mount"
    using sample_gate(1) [of sample_entry] by (simp add: blocked_mount_def set_handle_def writes_blocked_def write_gate_def
      sample_entry_def)
  show "map_get (rt_handles blocked_mount) 2 = Some (sample_handle WholeValueMode 0)"
    by (simp add: blocked_mount_def)
  show "pc_path (rt_paths blocked_mount) 2 = Some ''/kv/b/k''" "child_path (rt_paths blocked_mount) 1 ''kv'' = Some ''/kv''"
    unfolding blocked_mount_def set_handle_def by code_simp+
qed

theorem read_only_mount_refuses_changes_witness:
  "fuse_unlink sample_env 1 ''kv'' blocked_mount = (ReplyError EROFS, blocked_mount)
    \<and> (\<exists>i. fuse_write sample_env 2 2 0 [9] blocked_mount = (ReplyError EROFS, blocked_mount\<lparr>rt_next_commit_id := i\<rparr>))
    \<and> fuse_open sample_env 2 1 blocked_mount = (ReplyError EROFS, blocked_mount\<lparr>rt_next_fh := rt_next_fh blocked_mount + 1\<rparr>)
    \<and> fuse_fsync sample_env 2 blocked_mount = (ReplyError EROFS, blocked_mount)
    \<and> (\<exists>e st1. fuse_setattr sample_env sample_owner 2 no_fields (Some 0) None blocked_mount = (ReplyError e, st1))"
proof -
  have f: "\<not> requested no_fields" "(1 :: 32 word) AND O_ACCMODE \<noteq> O_RDONLY"
    by (simp_all add: no_fields_def requested_def O_ACCMODE_def O_RDONLY_def)
  have h: "h_writable (sample_handle WholeValueMode 0)" "h_dirty (sample_handle WholeValueMode 0)"
    "\<not> h_committed (sample_handle WholeValueMode 0)" by (simp_all add: sample_handle_def)
  show ?thesis
    using read_only_mount_refuses_changes [OF blocked_mount_facts(1,3,4,4), of sample_env sample_owner 0 0 1 0 2 "[9]" no_fields]
      f h blocked_mount_facts(2) by fastforce
qed

end
