(* ===== verification/Spec2Isabelle.thy ===== *)
theory Spec2Isabelle
  imports Plan_Props Cache_Props Fuse_Replies Nats_Line_Props Nats_Watch_Props Nats_Delete_Props Nats_List_Props
    Mount_Start Nats_Progress Probe Nuid Read_Only
begin

text \<open>
  Verification of eventfs, a FUSE file system over NATS JetStream.

  \<^bold>\<open>The program.\<close> \<open>eventfs-protocol\<close> is pure: it parses a mount path such as \<open>/kv/bucket/key\<close> or
  \<open>/agents/a/inbox\<close> into a typed path (\<open>path.rs\<close>), plans what a file operation on it does to
  JetStream (\<open>plan.rs\<close>, \<open>subjects.rs\<close>) and computes under which mount paths one stored value is
  visible (\<open>mount_paths.rs\<close>). \<open>eventfs-transport\<close> keeps the state behind the mount: the storage traits
  with an in-memory and a NATS backend (\<open>storage/\<close>), the content cache and its invalidation
  (\<open>cache.rs\<close>, \<open>invalidation.rs\<close>) and the durable queue of writes the backend refused
  (\<open>writeback.rs\<close>). \<open>eventfs-fuse\<close> shows both to the kernel: the inode table (\<open>path_cache.rs\<close>), the view of
  queued writes (\<open>fs/queued_overlay.rs\<close>), what a path shows (\<open>fs/mount_projection.rs\<close>), the operations of a
  mount (\<open>fs/runtime.rs\<close>) and the fuser callbacks (\<open>fs.rs\<close>). Its \<open>main.rs\<close> opens the queue of the mount,
  connects, replays the queue and serves the callbacks; \<open>eventfs-probe\<close> checks what a broker holds.

  A write goes: handle buffer, commit, plan, backend; when the backend fails it is queued on disk, the
  gate closes and the mount is read-only until a replay at the next mount has emptied the queue. A
  read asks, in this order, the queue's overlay, the cache and the backend.

  \<^bold>\<open>Theories and sources.\<close> Names follow the source; a prefix resolves a clash (\<open>mem_kv_get\<close>,
  \<open>proj_attr\<close>).

  \<^item> \<open>Prelude\<close>, \<open>Rust_Std\<close>, \<open>Rust_Text\<close>, \<open>Rust_Map\<close>: results as sums with \<open>rbind\<close> for \<open>?\<close>, strings, UTF-8,
    decimal and hexadecimal text, ordered maps behind the contract \<open>keyed_map\<close>.
  \<^item> \<open>Errors\<close>, \<open>File_Names\<close>, \<open>Paths\<close>, \<open>Subjects\<close>, \<open>Plan\<close>, \<open>Mount_Paths\<close>, \<open>Json_Lines\<close>: \<open>eventfs-protocol/src\<close>,
    file by file. \<open>Path_Wf\<close>, \<open>Mount_Props\<close>, \<open>Visible_Props\<close>, \<open>Invalidation_Props\<close>, \<open>Plan_Props\<close>: the range of
    the parser, parse/print, injective file names, the visible paths as exactly the aliases of a
    value, the invalidation list as aliases and ancestors, and what plans may touch.
  \<^item> \<open>Invalidation\<close>, \<open>Cache\<close>, \<open>Cache_Props\<close>: \<open>invalidation.rs\<close> and \<open>cache.rs\<close>; a mutation leaves no stale
    alias, and what each watch event removes.
  \<^item> \<open>Storage\<close>, \<open>Memory_Storage\<close>, \<open>Memory_Props\<close>: the value types and the replay trait of
    \<open>storage/mod.rs\<close> as a record of methods, and the backend of \<open>storage/memory.rs\<close>; put and get,
    complete histories, exact listings, ordered idempotent publishing.
  \<^item> \<open>Writeback\<close>, \<open>Writeback_Replay\<close>: \<open>writeback.rs\<close>, with the queue file and its failing saves (\<open>Disk\<close>).
    \<open>Writeback_Props\<close>, \<open>Writeback_Durability\<close>, \<open>Writeback_Steps\<close>, \<open>Replay_Memory\<close>: the queue and gate
    invariant along every run, all branches of enqueueing, reopening, torn records, and that
    interrupted replays together act once. \<open>replay_executor\<close> is the contract replay needs of a backend;
    the in-memory backend satisfies it. \<open>replay_simulation\<close> relates replays over two backends;
    \<open>Memory_Time\<close> uses it for clocks: every call of \<open>timed_storage\<close> reads the clock anew, and replays under
    different clocks agree up to the time stamps.
  \<^item> \<open>Path_Cache\<close>: \<open>path_cache.rs\<close>; inode and path maps are inverse, inodes are never reused.
  \<^item> \<open>Fs_Helpers\<close>, \<open>Queued_Overlay\<close>: the helpers of \<open>fs.rs\<close> and \<open>fs/queued_overlay.rs\<close>; the newest-first
    scan refines applying the queued writes in order, a queued write is read back, directory
    entries are exact.
  \<^item> \<open>Runtime_State\<close>, \<open>Runtime_Ops\<close>: \<open>fs/runtime.rs\<close>. \<open>Projection\<close>: \<open>fs/mount_projection.rs\<close>. A method is a
    function on the record \<open>Runtime\<close>, which also holds the path cache, the disk and a clock count.
  \<^item> \<open>Runtime_Frames\<close>: the contracts \<open>read_frame\<close>, \<open>open_frame\<close> and \<open>write_frame\<close>, with the proof that every operation
    keeps what they keep; interpreted for the runtime invariant, for the durable part of the state,
    for the queue and for the handles. \<open>Runtime_Props\<close>, \<open>Commit_Props\<close>, \<open>Overlay_Fuel\<close>, \<open>Handle_Props\<close>:
    the gate in front of the operations, acknowledged writes are stored or queued, a closed file is
    stored and read back, \<open>pwrite\<close>, append-only files, and termination of the overlay.
  \<^item> \<open>Fuse_Fs\<close>: \<open>attr.rs\<close>, the facade \<open>MountRuntime\<close> of \<open>fs/runtime.rs\<close> and the fuser callbacks of \<open>fs.rs\<close>,
    each answering a \<open>Reply\<close>. \<open>Fuse_Props\<close>, \<open>Fuse_Replies\<close>: the invariant of a mount along every run of
    callbacks (contract \<open>fuse_frame\<close>), inodes that resolve, exact reads, directory pages without
    loss, handles of created files, and \<open>stat\<close> agreeing with \<open>read\<close>. \<open>Read_Only\<close>: what each changing callback
    answers while writes are blocked, truncation included, and what it leaves unchanged.

  \<^item> \<open>Nats_Client\<close>: the client of the \<open>nats\<close> crate as the sources use it, a record \<open>Nats\<close> of calls on a state of
    the world; each call answers a value or an io error and may change the world in either case.
    \<open>Nats_Core\<close>: \<open>storage/nats/core.rs\<close> and \<open>ledger.rs\<close>. \<open>Nats_Helpers\<close>, \<open>Nats_Storage\<close>: \<open>mod.rs\<close>. \<open>Nats_Kv\<close>,
    \<open>Nats_Kv_Write\<close>: \<open>kv.rs\<close>. \<open>Nats_Streams\<close>: \<open>streams.rs\<close>. \<open>Nats_Objects\<close>, \<open>Nats_Objects_Write\<close>: \<open>objects.rs\<close>.
    \<open>Nats_Watch\<close>: \<open>watch.rs\<close>.
  \<^item> \<open>Nats_Names\<close>: ledger subjects identify the write. \<open>Nats_Server\<close>: the contract \<open>jetstream\<close>, what the
    documentation of JetStream promises of a stream's log (a publish appends or answers a duplicate,
    also when its answer is lost; reads answer from the log; others only append), and \<open>call_relation\<close>,
    relations between states that every sequence of calls keeps. \<open>Nats_Idempotence\<close>,
    \<open>Nats_Idempotence_Calls\<close>, \<open>Nats_Kv_Once\<close>, \<open>Nats_Kv_Runs\<close>, \<open>Nats_Kv_Props\<close>: the markers of an idempotent put along
    every run of attempts; applied at most once, and \<open>Ok\<close> means it took effect. \<open>Nats_Lines\<close>,
    \<open>Nats_Line_Calls\<close>, \<open>Nats_Line_Props\<close>: JSON lines exactly once. \<open>Nats_Watch_Props\<close>: a poll leaves no stale cache
    entry. \<open>Nats_Delete_Props\<close>: conditional deletes append only deletions of the version they name, and an answer without
    error means that this version is gone. \<open>Nats_List_Props\<close>: listings by
    batches are exact. \<open>Nats_Sim\<close>: a server as a list of messages per stream, with failing calls, on which
    the contracts hold; only the examples use it.
  \<^item> \<open>Nats_Replay\<close>: the replay of a whole queue of key writes over NATS; the writes do not disturb each other, and
    after any run of interrupted replays each is applied at most once and applied or still queued.
    \<open>Nats_Accepts\<close>: the messages a server takes, by subject and size. \<open>Nats_Progress\<close>: \<open>responsive\<close>, a server that
    answers and publishes the messages it accepts, and that a replay of key writes whose messages
    fit empties the queue.
  \<^item> \<open>Rust_Hex\<close>: fixed-width hexadecimal text. \<open>Mount_Main\<close>: \<open>main.rs\<close>, \<open>cli.rs\<close>; the queue directory of a mount and the start of the
    program as the function \<open>eventfs_main\<close> of the machine it starts on (\<open>Host\<close>). \<open>Mount_Main_Props\<close>: what the directory
    identifies. \<open>Mount_Start\<close>: one mount per queue, failed starts, and the replay a start makes; its
    \<open>holds_queue\<close> interprets \<open>fuse_frame\<close>. The theorems at the end of this theory compose them: from the
    queue file of an earlier mount to the log of the server.
  \<^item> \<open>Probe\<close>: \<open>bin/eventfs-probe.rs\<close>; its checks are exact on the in-memory backend. \<open>Nuid\<close>: \<open>vendor/nuid\<close>, the
    repository's replacement of the id generator; ids do not repeat within a process.

  \<^bold>\<open>Bounds and fuel.\<close> Inodes, handles, revisions and sequences are 64-bit words; sizes are \<open>nat\<close> with
  the bound written out where the source checks or saturates. The only fuel is in
  \<open>apply_queued_overlay_to_directory\<close>, whose recursion descends towards a queued delete:
  \<open>overlay_fuel\<close>, one more than the depth of the deepest deleted path, is enough
  (\<open>Overlay_Fuel\<close>). All other loops are structural recursion or folds, or end by a measure
  (\<open>drain_stream_headers\<close>). A replay needs at most six publications per entry (\<open>replay_budget\<close>).

  \<^bold>\<open>Parameters.\<close> The codec of a queue entry and the JSON parser (serde_json), the texts of \<open>Display\<close> and
  \<open>Debug\<close>, the hasher behind an idempotency key, the clock, which steps of saving the queue file fail,
  the ids of the process, and when the kernel's directory buffer is full. What a theorem needs of
  them is a hypothesis of it, such as \<open>serde_roundtrip\<close>, and its example discharges it on a concrete
  instance. So are the contracts of the NATS server, \<open>jetstream\<close>, \<open>retains\<close>, \<open>conditional\<close>, \<open>consumer_queue\<close> and
  \<open>responsive\<close>, and the codecs of markers and object records. The backend of a mount is the record \<open>MountStorage\<close>; the runtime's general theorems hold
  for every backend.

  \<^bold>\<open>Not modelled.\<close> The \<open>nats\<close> crate and the server, which are the parameter \<open>Nats\<close>; the pause between two
  attempts of a retry; the parser of the command line (clap), the options passed to \<open>fuser::mount2\<close> and its loop,
  and logging. Paths of the command line are UTF-8. The test modules, and the accessors compiled only for
  them, which are more than half of the lines, are not part of the program.
\<close>

section \<open>From the queue on disk to the server\<close>

text \<open>C2: Mounting delivers what is queued, exactly once. Take a queue file of key writes that were never sent before
  the first mount, any number of interrupted replays of it since then, and a start of the program on
  that file against an unreliable server shared with other clients. When the start succeeds, every
  write of the file is in its stream at most once, and it took effect unless the mount is
  read-only and still holds the write.\<close>

theorem mounting_delivers_queued_writes:
  assumes "eventfs_main host cli disks s1 = (Inr fs, disks')" "serde_roundtrip (e_serde (h_env host))"
    and "on_disk (e_serde (h_env host)) (disks (main_cache_dir host cli)) es" "queued_puts W es"
    and "nats_queue sv (main_storage host cli) W" "\<forall>w \<in> W. new_write sv w s"
    and "replay_run (e_json (h_env host)) (e_display (h_env host)) (e_serde (h_env host)) (main_storage host cli) sv W s s1"
    and "\<And>watch t. grows sv (others_of W) t (h_write_watch host watch t)" "e \<in> set es" "put_of e = Some w"
  shows "length (filter (target w) (sv_log sv (rt_backend fs) (kw_stream w))) \<le> 1
    \<and> (took_effect w (sv_log sv (rt_backend fs) (kw_stream w))
       \<or> writes_blocked fs \<and> qe_idempotency_key e \<in> set (keys (wq_entries (wr_queue (rt_replay fs)))))"
proof -
  obtain watch q d r q' d' where opened: "wq_entries q = filter (\<lambda>e. \<not> qe_done e) es"
    and "d_faults (disks (main_cache_dir host cli)) = [] \<longrightarrow> d_faults d = []"
    and replay: "replay_with_store (e_serde (h_env host))
      (nats_replay_storage (e_json (h_env host)) (e_display (h_env host)) (main_storage host cli)) q d (h_write_watch host watch s1)
        = (r, q', d', rt_backend fs)"
    and fs: "wr_queue (rt_replay fs) = q'" "holds_queue fs"
    using assms(1-3) by (rule main_replays)
  have q: "wq_entries q = es" using opened assms(4) by (auto simp: queued_puts_def intro!: filter_True)
  note run = replay_run.elsewhere [OF assms(7) assms(8) [of s1 watch]]
  have puts: "queued_puts W (wq_entries q)" "e \<in> set (wq_entries q)" using assms(4,9) q by simp_all
  note after = replay_outcome [OF assms(5,6) run puts assms(10) replay]
  have "writes_blocked fs" if "qe_idempotency_key e \<in> set (keys (wq_entries q'))"
    using that fs by (auto simp: holds_queue_def wr_inv_def writes_blocked_def write_gate_def gate_state_def accepts_writes_def)
  then show ?thesis using after fs(1) by auto
qed

theorem mounting_delivers_queued_writes_witness:
  "\<exists>fs disks. eventfs_main (sim_host (Inr ())) sample_cli sim_disks sim_start = (Inr fs, disks)
    \<and> length (filter (target sim_write) (sim_log (rt_backend fs) ''KV_b'')) \<le> 1
    \<and> (took_effect sim_write (sim_log (rt_backend fs) ''KV_b'') \<or> writes_blocked fs)"
proof -
  obtain fs disks where start: "eventfs_main (sim_host (Inr ())) sample_cli sim_disks sim_start = (Inr fs, disks)"
    using sim_mounts by blast
  have host: "h_env (sim_host (Inr ())) = sim_env" "e_serde sim_env = sample_serde sim_entry_queued"
    "grows sim_server (others_of {sim_write}) t (h_write_watch (sim_host (Inr ())) watch t)" for watch t
    by (simp_all add: sim_host_def sim_env_def grows_def)
  have stream: "kw_stream sim_write = ''KV_b''" by code_simp
  have log: "sv_log sim_server = sim_log" by (simp add: sim_server_def)
  note delivered = mounting_delivers_queued_writes [OF start, unfolded host, OF sample_serde_roundtrip sim_queue_opens(1)
    sim_queue(3) sim_main_queue sim_queue(2) replay_run.start host(3) _ sim_queue(4)]
  show ?thesis using start delivered by (auto simp: stream log)
qed

text \<open>C1: A mount over a queue of key writes comes up writable on a server that answers. Let the queue file
  hold key writes only (queued line publications, objects and renames are not covered). With the lock
  free, no failing save and the client connected; on a server on which the buckets of the writes and
  the ledger exist, that answers, takes messages up to a size limit on the subjects its streams
  bind, and has room for six publications per entry; and when the messages of every entry fit
  (\<open>entry_fits\<close>: the key is a valid subject, the id is one non-empty line, and the write, its markers and its ledger
  record are within the limit): the program starts, its queue is empty, it accepts writes, and every
  write of the queue file, whatever replays were interrupted before, took effect and is in its
  stream at most once.\<close>

theorem healthy_mount_comes_up_writable:
  assumes "h_open_error host = None" "h_connection host = Inr ()" "\<And>subject. is_ok (h_subscribe host subject)"
    and "serde_roundtrip (e_serde (h_env host))" "on_disk (e_serde (h_env host)) (disks (main_cache_dir host cli)) es"
    and "\<not> d_locked (disks (main_cache_dir host cli))" "d_faults (disks (main_cache_dir host cli)) = []"
    and "queued_puts W es" "nats_queue sv (main_storage host cli) W" "\<forall>w \<in> W. new_write sv w s"
    and "replay_run (e_json (h_env host)) (e_display (h_env host)) (e_serde (h_env host)) (main_storage host cli) sv W s s1"
    and "\<And>watch t. grows sv (others_of W) t (h_write_watch host watch t)"
    and "responsive up limit (kw_bucket ` W) (ns_core (main_storage host cli))"
    and "\<forall>e \<in> set es. entry_fits limit (h_marker_serde host) e"
    and "\<And>watch. up (replay_budget es) (h_write_watch host watch s1)"
  shows "\<exists>fs disks'. eventfs_main host cli disks s1 = (Inr fs, disks')
    \<and> \<not> writes_blocked fs \<and> wq_entries (wr_queue (rt_replay fs)) = []
    \<and> (\<forall>e \<in> set es. \<forall>w. put_of e = Some w \<longrightarrow>
         took_effect w (sv_log sv (rt_backend fs) (kw_stream w))
         \<and> length (filter (target w) (sv_log sv (rt_backend fs) (kw_stream w))) \<le> 1)"
proof -
  obtain fs disks' where start: "eventfs_main host cli disks s1 = (Inr fs, disks')"
    using main_starts [where host = host and cli = cli and disks = disks, OF assms(1-7)] by blast
  obtain watch q d r q' d' where opened: "wq_entries q = filter (\<lambda>e. \<not> qe_done e) es" and faults: "d_faults (disks (main_cache_dir host cli)) = [] \<longrightarrow> d_faults d = []"
    and replay: "replay_with_store (e_serde (h_env host))
      (nats_replay_storage (e_json (h_env host)) (e_display (h_env host)) (main_storage host cli)) q d (h_write_watch host watch s1)
        = (r, q', d', rt_backend fs)"
    and fs: "wr_queue (rt_replay fs) = q'" "holds_queue fs"
    using start assms(4,5) by (rule main_replays)
  have d: "d_faults d = []" using faults assms(7) by simp
  have q: "wq_entries q = es" using opened assms(8) by (auto simp: queued_puts_def intro!: filter_True)
  note run = replay_run.elsewhere [OF assms(11) assms(12) [of s1 watch]]
  have fits: "\<forall>e \<in> set es. entry_fits limit (ns_marker_serde (main_storage host cli)) e"
    using assms(14) by (simp add: main_storage_def)
  note finishes = nats_replay_finishes [OF assms(13), where q = q and s = "h_write_watch host watch s1" and d = d, unfolded q,
    OF assms(8) fits assms(15) d assms(4) on_disk_printable [OF assms(5)]]
  have done_now: "r = Inr ()" "q' = q\<lparr>wq_entries := []\<rparr>"
    using replay finishes [of "e_json (h_env host)" "e_display (h_env host)"] by auto
  then have empty: "wq_entries (wr_queue (rt_replay fs)) = []" using fs(1) by simp
  moreover have "\<not> writes_blocked fs"
    using empty fs(2) by (simp add: holds_queue_def wr_inv_def writes_blocked_def write_gate_def gate_state_def accepts_writes_def)
  moreover have "took_effect w (sv_log sv (rt_backend fs) (kw_stream w))
      \<and> length (filter (target w) (sv_log sv (rt_backend fs) (kw_stream w))) \<le> 1" if "e \<in> set es" "put_of e = Some w" for e w
    using replay_outcome [OF assms(9,10) run, unfolded q, OF _ _ that(2) replay] assms(8) that(1) q done_now
    by (auto simp: is_err_def is_ok_def)
  ultimately show ?thesis using start by blast
qed

theorem healthy_mount_comes_up_writable_witness:
  "\<exists>fs disks. eventfs_main (sim_host (Inr ())) sample_cli sim_disks (sim_start\<lparr>sim_lost := []\<rparr>) = (Inr fs, disks)
    \<and> \<not> writes_blocked fs \<and> took_effect sim_write (sim_log (rt_backend fs) ''KV_b'')"
proof -
  let ?host = "sim_host (Inr ())" and ?s = "sim_start\<lparr>sim_lost := []\<rparr>"
  have host: "h_open_error ?host = None" "h_connection ?host = Inr ()" "is_ok (h_subscribe ?host subject)"
    "e_serde (h_env ?host) = sample_serde sim_entry_queued" "h_nats ?host = sim_nats" "h_marker_serde ?host = sim_markers"
    "h_write_watch ?host watch t = t" for subject watch t
    by (simp_all add: sim_host_def sim_env_def is_ok_def)
  have disk: "\<not> d_locked (sim_disks dir)" "d_faults (sim_disks dir) = []" for dir by (simp_all add: sim_disks_def)
  have "new_write sim_server sim_write ?s" using sim_queue(2) by (simp add: new_write_def)
  then have fresh: "\<forall>w \<in> {sim_write}. new_write sim_server w ?s" by simp
  have server: "responsive sim_up 1000 (kw_bucket ` {sim_write}) (ns_core (main_storage ?host sample_cli))"
    by (rule sim_responsive) (simp add: main_storage_def host)
  have fits: "\<forall>e \<in> set [sim_entry_queued]. entry_fits 1000 sim_markers e" by code_simp
  have up: "sim_up (replay_budget [sim_entry_queued]) ?s"
    by (simp add: sim_up_def replay_budget_def sim_start_def sim_ok_def)
  have watch: "grows sim_server (others_of {sim_write}) t (h_write_watch ?host watch t)" for watch t
    by (simp add: host grows_def)
  have stream: "kw_stream sim_write = ''KV_b''" by code_simp
  note comes_up = healthy_mount_comes_up_writable [where host = ?host and cli = sample_cli and disks = sim_disks and ?s1.0 = ?s
      and W = "{sim_write}" and sv = sim_server and s = ?s and up = sim_up and limit = 1000 and es = "[sim_entry_queued]", unfolded host,
      OF refl refl _ sample_serde_roundtrip sim_queue_opens(1) disk sim_queue(3) sim_main_queue fresh replay_run.start _
        server fits up]
  show ?thesis using comes_up sim_queue(4) host(3) watch by (auto simp: stream host grows_def)
qed

end
